(* ===== verification/Prelude.thy ===== *)
theory Prelude
  imports Main "HOL-Library.Word"
begin

text \<open>
  What every component of the development shares: the names of the machine types, the integer
  operations of Rust's standard library the engine calls (saturating arithmetic on \<open>i64\<close> and
  unsigned words), big-endian byte encodings, and the contract of an unambiguous encoder (locale
  \<open>prefix_code\<close>, with the fixed-width encoders as locale \<open>fixed_code\<close>).
\<close>

section \<open>Collections of rules\<close>

named_theorems codec "unambiguity of the canonical encoders"
named_theorems keeps_rules "preservation of an invariant by an action"
named_theorems frame_rules "relating the states before and after an action"

section \<open>Machine types\<close>

type_synonym byte = "8 word"
type_synonym bytes = "byte list"
type_synonym u32 = "32 word"
type_synonym u64 = "64 word"

text \<open>An \<open>i64\<close> is a 64-bit word read by \<open>sint\<close>; so every value of the type is in range.\<close>

type_synonym i64 = "64 word"

abbreviation i64_min :: int where "i64_min \<equiv> - 9223372036854775808"
abbreviation i64_max :: int where "i64_max \<equiv> 9223372036854775807"

definition i64_clamp :: "int \<Rightarrow> i64" where
  "i64_clamp x = word_of_int (max i64_min (min i64_max x))"

definition sat_add :: "i64 \<Rightarrow> i64 \<Rightarrow> i64" where
  "sat_add a b = i64_clamp (sint a + sint b)"

definition sat_sub :: "i64 \<Rightarrow> i64 \<Rightarrow> i64" where
  "sat_sub a b = i64_clamp (sint a - sint b)"

definition sat_mul :: "i64 \<Rightarrow> i64 \<Rightarrow> i64" where
  "sat_mul a b = i64_clamp (sint a * sint b)"

definition i64_lt :: "i64 \<Rightarrow> i64 \<Rightarrow> bool" where
  "i64_lt a b \<longleftrightarrow> sint a < sint b"

definition i64_le :: "i64 \<Rightarrow> i64 \<Rightarrow> bool" where
  "i64_le a b \<longleftrightarrow> sint a \<le> sint b"

definition i64_min_of :: "i64 \<Rightarrow> i64 \<Rightarrow> i64" where
  "i64_min_of a b = (if sint a \<le> sint b then a else b)"

definition i64_max_of :: "i64 \<Rightarrow> i64 \<Rightarrow> i64" where
  "i64_max_of a b = (if sint a \<le> sint b then b else a)"

text \<open>\<open>saturating_add\<close> of an unsigned type.\<close>

definition usat_add :: "'a::len word \<Rightarrow> 'a word \<Rightarrow> 'a word" where
  "usat_add a b = (if unat a + unat b < 2 ^ LENGTH('a) then a + b else - 1)"

lemma sint_i64_clamp [simp]: "sint (i64_clamp x) = max i64_min (min i64_max x)"
proof -
  have "signed_take_bit 63 (max i64_min (min i64_max x)) = max i64_min (min i64_max x)"
    by (rule signed_take_bit_int_eq_self) auto
  then show ?thesis by (simp add: i64_clamp_def sint_sbintrunc')
qed

lemma sint_i64_lower: "i64_min \<le> sint (a :: i64)"
  using sint_ge [of a] by simp

lemma sint_i64_upper: "sint (a :: i64) \<le> i64_max"
  using sint_lt [of a] by simp

lemma sint_sub_in_range:
  fixes a b :: i64
  assumes "i64_min \<le> sint a - sint b" "sint a - sint b \<le> i64_max"
  shows "sint (a - b) = sint a - sint b"
  using assms by (simp add: sint_word_diff signed_take_bit_int_eq_self)

lemma sint_add_in_range:
  fixes a b :: i64
  assumes "i64_min \<le> sint a + sint b" "sint a + sint b \<le> i64_max"
  shows "sint (a + b) = sint a + sint b"
  using assms by (simp add: sint_word_add signed_take_bit_int_eq_self)

lemma sint_sat_add: "sint (sat_add a b) = max i64_min (min i64_max (sint a + sint b))"
  by (simp add: sat_add_def)

lemma sint_sat_sub: "sint (sat_sub a b) = max i64_min (min i64_max (sint a - sint b))"
  by (simp add: sat_sub_def)

lemma sint_sat_mul: "sint (sat_mul a b) = max i64_min (min i64_max (sint a * sint b))"
  by (simp add: sat_mul_def)

lemma sint_i64_min_of: "sint (i64_min_of a b) = min (sint a) (sint b)"
  by (simp add: i64_min_of_def min_def)

lemma sint_i64_max_of: "sint (i64_max_of a b) = max (sint a) (sint b)"
  by (simp add: i64_max_of_def max_def)

lemmas i64_arith = sint_sat_add sint_sat_sub sint_sat_mul sint_i64_min_of sint_i64_max_of
  i64_lt_def i64_le_def

lemma unat_usat_add:
  "unat (usat_add a b) = min (unat a + unat b) (2 ^ LENGTH('a) - 1)" for a b :: "'a::len word"
proof (cases "unat a + unat b < 2 ^ LENGTH('a)")
  case True
  then have "unat (a + b) = unat a + unat b"
    by (simp add: unat_word_ariths)
  with True show ?thesis by (simp add: usat_add_def)
next
  case False
  then show ?thesis by (simp add: usat_add_def unsigned_minus_1_eq_mask mask_eq_exp_minus_1)
qed

section \<open>Bytes of strings and big-endian integers\<close>

text \<open>A Rust \<open>str\<close> is its UTF-8 bytes: a \<open>char\<close> of the model is one byte of it.\<close>

definition byte_of_char :: "char \<Rightarrow> byte" where
  "byte_of_char c = word_of_nat (of_char c)"

definition str_bytes :: "string \<Rightarrow> bytes" where
  "str_bytes s = map byte_of_char s"

lemma unat_byte_of_char: "unat (byte_of_char c) = of_char c"
proof -
  have "(of_char c :: nat) < 256"
    using of_char_mod_256 [of c, where 'a = nat] by (metis mod_less_divisor zero_less_numeral)
  then show ?thesis by (simp add: byte_of_char_def unat_of_nat)
qed

lemma byte_of_char_eq_iff [simp]: "byte_of_char c = byte_of_char d \<longleftrightarrow> c = d"
  by (metis unat_byte_of_char of_char_eq_iff)

lemma str_bytes_eq_iff [simp]: "str_bytes s = str_bytes t \<longleftrightarrow> s = t"
  by (auto simp: str_bytes_def list.inj_map_strong elim: list.inj_map_strong [rotated])

lemma length_str_bytes [simp]: "length (str_bytes s) = length s"
  by (simp add: str_bytes_def)

primrec be_bytes :: "nat \<Rightarrow> 'a::len word \<Rightarrow> bytes" where
  "be_bytes 0 w = []"
| "be_bytes (Suc n) w = be_bytes n (drop_bit 8 w) @ [ucast w]"

definition be_value :: "bytes \<Rightarrow> int" where
  "be_value bs = foldl (\<lambda>a b. 256 * a + uint b) 0 bs"

lemma length_be_bytes [simp]: "length (be_bytes n w) = n"
  by (induction n arbitrary: w) auto

lemma be_value_be_bytes: "be_value (be_bytes n w) = uint w mod 256 ^ n"
proof (induction n arbitrary: w)
  case 0
  then show ?case by (simp add: be_value_def)
next
  case (Suc n)
  have byte: "uint (ucast w :: byte) = uint w mod 256"
    by (simp add: unsigned_ucast_eq take_bit_eq_mod)
  have high: "uint (drop_bit 8 w) = uint w div 256"
  proof -
    have "uint (drop_bit 8 w) = drop_bit 8 (uint w)"
      by (simp add: unsigned_drop_bit_eq bintr_uint)
    then show ?thesis by (simp only: drop_bit_eq_div) simp
  qed
  have "be_value (be_bytes (Suc n) w) = 256 * be_value (be_bytes n (drop_bit 8 w)) + uint (ucast w :: byte)"
    by (simp add: be_value_def)
  also have "\<dots> = 256 * (uint w div 256 mod 256 ^ n) + uint w mod 256"
    by (simp add: Suc.IH byte high)
  also have "\<dots> = uint w mod 256 ^ Suc n"
    by (simp add: zmod_zmult2_eq)
  finally show ?case .
qed

lemma be_bytes_inj:
  fixes v w :: "'a::len word"
  assumes "be_bytes n v = be_bytes n w" and "LENGTH('a) \<le> 8 * n"
  shows "v = w"
proof -
  have "(2::int) ^ LENGTH('a) \<le> 2 ^ (8 * n)"
    using assms(2) by (rule power_increasing) simp
  also have "(2::int) ^ (8 * n) = 256 ^ n"
    by (simp add: power_mult)
  finally have small: "uint u < 256 ^ n" for u :: "'a word"
    using uint_lt2p [of u] by linarith
  have "uint v = be_value (be_bytes n v)" and "uint w = be_value (be_bytes n w)"
    by (simp_all add: be_value_be_bytes small)
  with assms(1) have "uint v = uint w" by simp
  then show ?thesis by (rule word_uint_eqI)
qed

lemma word_of_nat_eq_iff_small:
  assumes "m < 2 ^ LENGTH('a)" "n < 2 ^ LENGTH('a)"
  shows "(word_of_nat m = (word_of_nat n :: 'a::len word)) \<longleftrightarrow> m = n"
proof
  assume "word_of_nat m = (word_of_nat n :: 'a word)"
  then have "unat (word_of_nat m :: 'a word) = unat (word_of_nat n :: 'a word)" by (rule arg_cong)
  then show "m = n"
    using assms by (simp only: unsigned_of_nat take_bit_nat_eq_self of_nat_id)
qed simp

lemma word_of_nat_of_unat: "word_of_nat (unat w) = (w :: 'a::len word)"
  by simp

text \<open>\<open>to_be_bytes\<close> of a 64-bit and of a 32-bit integer.\<close>

definition be64 :: "64 word \<Rightarrow> bytes" where
  "be64 w = be_bytes 8 w"

definition be32 :: "32 word \<Rightarrow> bytes" where
  "be32 w = be_bytes 4 w"

lemma length_be64 [simp]: "length (be64 w) = 8"
  by (simp add: be64_def)

lemma length_be32 [simp]: "length (be32 w) = 4"
  by (simp add: be32_def)

section \<open>Unambiguous encoders\<close>

text \<open>
  A canonical encoder is unambiguous on the values \<open>ok\<close> when an encoding followed by any bytes
  can be read in one way only. Fields encoded so can be concatenated without losing information,
  which is what makes a MAC or a hash over the concatenation bind every field.
\<close>

locale prefix_code =
  fixes ok :: "'a \<Rightarrow> bool"
    and enc :: "'a \<Rightarrow> bytes"
  assumes unique_split:
    "ok x \<Longrightarrow> ok y \<Longrightarrow> enc x @ r = enc y @ s \<Longrightarrow> x = y \<and> r = s"
begin

lemma append_eq_iff: "ok x \<Longrightarrow> ok y \<Longrightarrow> enc x @ r = enc y @ s \<longleftrightarrow> x = y \<and> r = s"
  using unique_split by blast

lemma eq_iff: "ok x \<Longrightarrow> ok y \<Longrightarrow> enc x = enc y \<longleftrightarrow> x = y"
  using unique_split [of x y "[]" "[]"] by auto

lemma inj_on_ok: "inj_on enc {x. ok x}"
  by (rule inj_onI) (simp add: eq_iff)

text \<open>A counted sequence of unambiguous encodings is unambiguous.\<close>

lemma concat_eq_iff:
  assumes "length xs = length ys" "\<forall>x\<in>set xs. ok x" "\<forall>y\<in>set ys. ok y"
  shows "concat (map enc xs) @ r = concat (map enc ys) @ s \<longleftrightarrow> xs = ys \<and> r = s"
  using assms by (induction xs ys rule: list_induct2) (auto simp: append_eq_iff)

end

locale fixed_code =
  fixes width :: nat
    and enc :: "'a \<Rightarrow> bytes"
  assumes length_enc: "length (enc x) = width"
    and enc_inj: "enc x = enc y \<Longrightarrow> x = y"

sublocale fixed_code \<subseteq> prefix_code "\<lambda>_. True" enc
  by unfold_locales (metis append_eq_append_conv length_enc enc_inj)

interpretation be64_code: fixed_code 8 be64
  by unfold_locales (auto simp: be64_def intro: be_bytes_inj)

interpretation be32_code: fixed_code 4 be32
  by unfold_locales (auto simp: be32_def intro: be_bytes_inj)

lemmas [codec] = be64_code.append_eq_iff [OF TrueI TrueI] be64_code.eq_iff [OF TrueI TrueI]
  be32_code.append_eq_iff [OF TrueI TrueI] be32_code.eq_iff [OF TrueI TrueI]

section \<open>Length-prefixed fields\<close>

text \<open>\<open>push_len_prefixed\<close> of \<open>keyslot.rs\<close> and of \<open>vault/audit.rs\<close>, which are the same: the length is cast to 32 bits.\<close>

definition len_prefixed :: "bytes \<Rightarrow> bytes" where
  "len_prefixed bs = be32 (word_of_nat (length bs)) @ bs"

interpretation len_code: prefix_code "\<lambda>bs. length bs < 4294967296" len_prefixed
proof unfold_locales
  fix x y r s :: bytes
  assume small: "length x < 4294967296" "length y < 4294967296"
    and eq: "len_prefixed x @ r = len_prefixed y @ s"
  then have "word_of_nat (length x) = (word_of_nat (length y) :: u32)" and tl: "x @ r = y @ s"
    by (simp_all add: len_prefixed_def codec)
  then have "length x = length y"
    using small by (simp add: word_of_nat_eq_iff_small)
  with tl show "x = y \<and> r = s" by simp
qed

section \<open>Results\<close>

text \<open>The \<open>?\<close> operator on a \<open>Result\<close>.\<close>

definition and_ok :: "'e + 'a \<Rightarrow> ('a \<Rightarrow> 'e + 'b) \<Rightarrow> 'e + 'b" where
  "and_ok r f = (case r of Inl e \<Rightarrow> Inl e | Inr x \<Rightarrow> f x)"

lemma and_ok_simps [simp]: "and_ok (Inr x) f = f x" "and_ok (Inl e) f = Inl e"
  by (simp_all add: and_ok_def)

end
