(* ===== verification/Guard.thy ===== *)
theory Guard
  imports Prelude
begin

text \<open>
  The fail-closed safety guards (\<open>crates/secrets-engine/src/guard.rs\<close>): \<open>check_sec_guards\<close> returns
  the reason of the first guard that refuses, and \<open>None\<close> only when every guard passes.
\<close>

datatype destructiveness = Additive | Destructive | RootOfTrust

datatype sec_guard =
    UsbPresent string
  | RelayValid string
  | LeafBackedByRelay string
  | PeerIsOwner
  | VaultEncryptedAtRest
  | DryRunUnlessApply (apply_flag: bool) (confirm_flag: bool) (destructive: destructiveness)

text \<open>The two \<open>SystemTime\<close> fields, which no guard reads, are integers.\<close>

record unlock_context =
  uc_usb_keyfile_possessed :: bool
  uc_usb_partition_uuid :: "string option"
  uc_usb_absent_since :: "int option"
  uc_peer_uid :: "u32 option"
  uc_owner_uid :: u32
  uc_now :: int

definition uncertain :: "u32 \<Rightarrow> int \<Rightarrow> unlock_context" where
  "uncertain owner_uid now =
     \<lparr>uc_usb_keyfile_possessed = False, uc_usb_partition_uuid = None, uc_usb_absent_since = None,
      uc_peer_uid = None, uc_owner_uid = owner_uid, uc_now = now\<rparr>"

fun refusal :: "unlock_context \<Rightarrow> sec_guard \<Rightarrow> string option" where
  "refusal ctx (UsbPresent uuid) =
     (if uc_usb_keyfile_possessed ctx then None else Some ''USB keyfile possession not proven'')"
| "refusal ctx (RelayValid relay_id) = Some (''relay '' @ [CHR 0x27] @ relay_id @ [CHR 0x27] @ '' validity not proven'')"
| "refusal ctx (LeafBackedByRelay host) =
     Some (''no active USB-gated relay covers host '' @ [CHR 0x27] @ host @ [CHR 0x27])"
| "refusal ctx PeerIsOwner =
     (case uc_peer_uid ctx of
        Some uid \<Rightarrow> if uid = uc_owner_uid ctx then None else Some ''peer is not the owner uid''
      | None \<Rightarrow> Some ''peer is not the owner uid'')"
| "refusal ctx VaultEncryptedAtRest = Some ''vault encryption-at-rest not verified''"
| "refusal ctx (DryRunUnlessApply appl confirm destr) =
     (if \<not> appl then Some ''dry-run: --apply required to mutate''
      else if destr = RootOfTrust \<and> \<not> confirm then Some ''root-of-trust op: --confirm required''
      else None)"

fun check_sec_guards :: "sec_guard list \<Rightarrow> unlock_context \<Rightarrow> string option" where
  "check_sec_guards [] ctx = None"
| "check_sec_guards (g # guards) ctx =
     (case refusal ctx g of Some reason \<Rightarrow> Some reason | None \<Rightarrow> check_sec_guards guards ctx)"

text \<open>What it takes for a guard to hold, as the module's comments state it.\<close>

fun proven :: "unlock_context \<Rightarrow> sec_guard \<Rightarrow> bool" where
  "proven ctx (UsbPresent uuid) \<longleftrightarrow> uc_usb_keyfile_possessed ctx"
| "proven ctx PeerIsOwner \<longleftrightarrow> uc_peer_uid ctx = Some (uc_owner_uid ctx)"
| "proven ctx (DryRunUnlessApply appl confirm destr) \<longleftrightarrow> appl \<and> (destr = RootOfTrust \<longrightarrow> confirm)"
| "proven ctx (RelayValid relay_id) \<longleftrightarrow> False"
| "proven ctx (LeafBackedByRelay host) \<longleftrightarrow> False"
| "proven ctx VaultEncryptedAtRest \<longleftrightarrow> False"

lemma refusal_None_iff: "refusal ctx g = None \<longleftrightarrow> proven ctx g"
  by (cases g) (auto split: option.splits if_splits)

lemma check_sec_guards_append:
  "check_sec_guards (gs @ hs) ctx =
     (case check_sec_guards gs ctx of Some reason \<Rightarrow> Some reason | None \<Rightarrow> check_sec_guards hs ctx)"
  by (induction gs) (auto split: option.split)

lemma check_sec_guards_None_iff: "check_sec_guards gs ctx = None \<longleftrightarrow> (\<forall>g\<in>set gs. proven ctx g)"
  by (induction gs) (auto simp: refusal_None_iff [symmetric] split: option.split)

text \<open>
  The check refuses with the reason of the first guard that is not proven, and passes only when
  each guard of the list is proven by the context.
\<close>

theorem check_sec_guards_fail_closed:
  "check_sec_guards gs ctx =
     (case find (\<lambda>g. \<not> proven ctx g) gs of Some g \<Rightarrow> refusal ctx g | None \<Rightarrow> None)"
proof (induction gs)
  case Nil
  then show ?case by simp
next
  case (Cons g gs)
  then show ?case
    using refusal_None_iff [of ctx g] by (auto split: option.split)
qed

text \<open>
  When nothing is proven, every guard that asks for evidence refuses, whatever its position in the
  list; only the dry-run flags, which the caller sets and the context does not prove, can pass.
\<close>

theorem uncertain_context_refuses:
  assumes "g \<in> set gs" "\<forall>a c d. g \<noteq> DryRunUnlessApply a c d"
  shows "check_sec_guards gs (uncertain owner now) \<noteq> None"
proof -
  have "\<not> proven (uncertain owner now) g"
    using assms(2) by (cases g) (auto simp: uncertain_def)
  with assms(1) show ?thesis by (auto simp: check_sec_guards_None_iff)
qed

theorem uncertain_context_refuses_witness:
  "check_sec_guards [DryRunUnlessApply True True RootOfTrust, PeerIsOwner] (uncertain 1000 5) \<noteq> None"
  by (rule uncertain_context_refuses [of PeerIsOwner]) simp_all

end
