(* ===== verification/Actions.thy ===== *)
theory Actions
  imports Prelude
begin

text \<open>
  Rust methods that may fail and that change shared state, as functions from the state to a result
  and a new state. An \<open>Err\<close> keeps the state reached so far: what was written before the failure
  stays written, as it does in the code. \<open>and_then\<close> is the \<open>?\<close> operator: an error returns early.
\<close>

type_synonym ('s, 'e, 'a) act = "'s \<Rightarrow> ('e + 'a) \<times> 's"

definition ok_act :: "'a \<Rightarrow> ('s, 'e, 'a) act" where
  "ok_act x = (\<lambda>s. (Inr x, s))"

definition fail_act :: "'e \<Rightarrow> ('s, 'e, 'a) act" where
  "fail_act e = (\<lambda>s. (Inl e, s))"

definition and_then :: "('s, 'e, 'a) act \<Rightarrow> ('a \<Rightarrow> ('s, 'e, 'b) act) \<Rightarrow> ('s, 'e, 'b) act" where
  "and_then m k = (\<lambda>s. case m s of (Inl e, t) \<Rightarrow> (Inl e, t) | (Inr x, t) \<Rightarrow> k x t)"

definition gets_act :: "('s \<Rightarrow> 'a) \<Rightarrow> ('s, 'e, 'a) act" where
  "gets_act f = (\<lambda>s. (Inr (f s), s))"

definition modify_act :: "('s \<Rightarrow> 's) \<Rightarrow> ('s, 'e, unit) act" where
  "modify_act f = (\<lambda>s. (Inr (), f s))"

text \<open>\<open>let _ = m;\<close>: the effect is kept and the result is dropped.\<close>

definition ignore_result :: "('s, 'e, 'a) act \<Rightarrow> ('s, 'e, unit) act" where
  "ignore_result m = (\<lambda>s. (Inr (), snd (m s)))"

text \<open>\<open>match m { Err(e) => f e, Ok(x) => g x }\<close>.\<close>

definition match_result ::
  "('s, 'e, 'a) act \<Rightarrow> ('e \<Rightarrow> ('s, 'e, 'b) act) \<Rightarrow> ('a \<Rightarrow> ('s, 'e, 'b) act) \<Rightarrow> ('s, 'e, 'b) act" where
  "match_result m f g = (\<lambda>s. case m s of (Inl e, t) \<Rightarrow> f e t | (Inr x, t) \<Rightarrow> g x t)"

text \<open>A loop \<open>for x in xs { m x? }\<close>.\<close>

primrec for_act :: "'x list \<Rightarrow> ('x \<Rightarrow> ('s, 'e, unit) act) \<Rightarrow> ('s, 'e, unit) act" where
  "for_act [] m = ok_act ()"
| "for_act (x # xs) m = and_then (m x) (\<lambda>_. for_act xs m)"

section \<open>Running actions\<close>

named_theorems run_simps "executing an action from a given state"

lemma run_ok [run_simps]: "ok_act x s = (Inr x, s)"
  by (simp add: ok_act_def)

lemma run_fail [run_simps]: "fail_act e s = (Inl e, s)"
  by (simp add: fail_act_def)

lemma run_gets [run_simps]: "gets_act f s = (Inr (f s), s)"
  by (simp add: gets_act_def)

lemma run_modify [run_simps]: "modify_act f s = (Inr (), f s)"
  by (simp add: modify_act_def)

lemma run_ignore [run_simps]: "ignore_result m s = (Inr (), snd (m s))"
  by (simp add: ignore_result_def)

lemma run_and_then: "and_then m k s = (case fst (m s) of Inl e \<Rightarrow> (Inl e, snd (m s)) | Inr x \<Rightarrow> k x (snd (m s)))"
  by (simp add: and_then_def split: prod.split sum.split)

lemma run_and_then_ok [run_simps]: "m s = (Inr x, t) \<Longrightarrow> and_then m k s = k x t"
  by (simp add: and_then_def)

lemma run_and_then_err [run_simps]: "m s = (Inl e, t) \<Longrightarrow> and_then m k s = (Inl e, t)"
  by (simp add: and_then_def)

lemma run_match_ok [run_simps]: "m s = (Inr x, t) \<Longrightarrow> match_result m f g s = g x t"
  by (simp add: match_result_def)

lemma run_match_err [run_simps]: "m s = (Inl e, t) \<Longrightarrow> match_result m f g s = f e t"
  by (simp add: match_result_def)

lemma and_then_Inr_iff:
  "and_then m k s = (Inr y, u) \<longleftrightarrow> (\<exists>x t. m s = (Inr x, t) \<and> k x t = (Inr y, u))"
  by (auto simp: and_then_def split: prod.splits sum.splits)

lemma and_then_InrE:
  assumes "and_then m k s = (Inr y, u)"
  obtains x t where "m s = (Inr x, t)" "k x t = (Inr y, u)"
  using assms by (auto simp: and_then_Inr_iff)

section \<open>Invariants\<close>

text \<open>\<open>m\<close> preserves \<open>P\<close>, on success and on failure.\<close>

definition keeps :: "('s \<Rightarrow> bool) \<Rightarrow> ('s, 'e, 'a) act \<Rightarrow> bool" where
  "keeps P m \<longleftrightarrow> (\<forall>s. P s \<longrightarrow> P (snd (m s)))"

lemma keepsD: "keeps P m \<Longrightarrow> P s \<Longrightarrow> P (snd (m s))"
  by (simp add: keeps_def)

lemma keepsI: "(\<And>s. P s \<Longrightarrow> P (snd (m s))) \<Longrightarrow> keeps P m"
  by (simp add: keeps_def)

section \<open>Frames\<close>

text \<open>Every run of \<open>m\<close> relates the state before to the state after by \<open>R\<close>.\<close>

definition frames :: "('s \<Rightarrow> 's \<Rightarrow> bool) \<Rightarrow> ('s, 'e, 'a) act \<Rightarrow> bool" where
  "frames R m \<longleftrightarrow> (\<forall>s. R s (snd (m s)))"

lemma framesD: "frames R m \<Longrightarrow> R s (snd (m s))"
  by (simp add: frames_def)

lemma framesD_run: "frames R m \<Longrightarrow> m s = (r, t) \<Longrightarrow> R s t"
  by (metis frames_def snd_conv)

lemma framesI: "(\<And>s. R s (snd (m s))) \<Longrightarrow> frames R m"
  by (simp add: frames_def)

text \<open>
  The contract of a relation that can be read off an action piece by piece: it is reflexive and
  transitive. Every composition of related actions is then related.
\<close>

locale frame_relation =
  fixes R :: "'s \<Rightarrow> 's \<Rightarrow> bool"
  assumes refl_R: "R s s"
    and trans_R: "R s t \<Longrightarrow> R t u \<Longrightarrow> R s u"
begin

lemma ok_act [frame_rules]: "frames R (ok_act x)"
  by (rule framesI) (simp add: run_simps refl_R)

lemma fail_act [frame_rules]: "frames R (fail_act e)"
  by (rule framesI) (simp add: run_simps refl_R)

lemma gets_act [frame_rules]: "frames R (gets_act f)"
  by (rule framesI) (simp add: run_simps refl_R)

lemma modify_act: "(\<And>s. R s (f s)) \<Longrightarrow> frames R (modify_act f)"
  by (rule framesI) (simp add: run_simps)

lemma and_then [frame_rules]:
  assumes "frames R m" and "\<And>x. frames R (k x)"
  shows "frames R (and_then m k)"
proof (rule framesI)
  fix s
  have "R s (snd (m s))" using assms(1) by (rule framesD)
  moreover have "R (snd (m s)) (snd (k x (snd (m s))))" for x
    using assms(2) by (rule framesD)
  ultimately show "R s (snd (and_then m k s))"
    by (auto simp: run_and_then split: sum.split intro: trans_R)
qed

lemma match_result [frame_rules]:
  assumes "frames R m" and "\<And>e. frames R (f e)" and "\<And>x. frames R (g x)"
  shows "frames R (match_result m f g)"
proof (rule framesI)
  fix s
  obtain r t where run: "m s = (r, t)" by (cases "m s") auto
  have "R s t" using assms(1) run by (rule framesD_run)
  moreover have "R t (snd (f e t))" and "R t (snd (g x t))" for e x
    using assms(2,3) by (auto intro: framesD)
  ultimately show "R s (snd (match_result m f g s))"
    by (cases r) (auto simp: match_result_def run intro: trans_R)
qed

lemma ignore_result [frame_rules]: "frames R m \<Longrightarrow> frames R (ignore_result m)"
  by (rule framesI) (simp add: run_simps framesD)

lemma for_act [frame_rules]: "(\<And>x. frames R (m x)) \<Longrightarrow> frames R (for_act xs m)"
  by (induction xs) (auto intro: ok_act and_then)

end

text \<open>Preserving an invariant is such a relation; so invariants compose by the same rules.\<close>

lemma keeps_frames: "keeps P m \<longleftrightarrow> frames (\<lambda>s t. P s \<longrightarrow> P t) m"
  by (simp add: keeps_def frames_def)

interpretation invariant_frame: frame_relation "\<lambda>s t. P s \<longrightarrow> P t" for P
  by unfold_locales auto

lemma keeps_ok [keeps_rules]: "keeps P (ok_act x)"
  unfolding keeps_frames by (rule invariant_frame.ok_act)

lemma keeps_fail [keeps_rules]: "keeps P (fail_act e)"
  unfolding keeps_frames by (rule invariant_frame.fail_act)

lemma keeps_gets [keeps_rules]: "keeps P (gets_act f)"
  unfolding keeps_frames by (rule invariant_frame.gets_act)

lemma keeps_modify: "(\<And>s. P s \<Longrightarrow> P (f s)) \<Longrightarrow> keeps P (modify_act f)"
  unfolding keeps_frames by (rule invariant_frame.modify_act) simp

lemma keeps_and_then [keeps_rules]:
  "keeps P m \<Longrightarrow> (\<And>x. keeps P (k x)) \<Longrightarrow> keeps P (and_then m k)"
  unfolding keeps_frames by (rule invariant_frame.and_then)

lemma keeps_match [keeps_rules]:
  "keeps P m \<Longrightarrow> (\<And>e. keeps P (f e)) \<Longrightarrow> (\<And>x. keeps P (g x)) \<Longrightarrow> keeps P (match_result m f g)"
  unfolding keeps_frames by (rule invariant_frame.match_result)

lemma keeps_ignore [keeps_rules]: "keeps P m \<Longrightarrow> keeps P (ignore_result m)"
  unfolding keeps_frames by (rule invariant_frame.ignore_result)

lemma keeps_for [keeps_rules]: "(\<And>x. keeps P (m x)) \<Longrightarrow> keeps P (for_act xs m)"
  unfolding keeps_frames by (rule invariant_frame.for_act)

lemma keeps_if [keeps_rules]: "(b \<Longrightarrow> keeps P m) \<Longrightarrow> (\<not> b \<Longrightarrow> keeps P n) \<Longrightarrow> keeps P (if b then m else n)"
  by simp

lemma keeps_option [keeps_rules]:
  "(x = None \<Longrightarrow> keeps P m) \<Longrightarrow> (\<And>y. x = Some y \<Longrightarrow> keeps P (n y)) \<Longrightarrow>
   keeps P (case x of None \<Rightarrow> m | Some y \<Rightarrow> n y)"
  by (cases x) auto

lemma frames_if [frame_rules]: "(b \<Longrightarrow> frames R m) \<Longrightarrow> (\<not> b \<Longrightarrow> frames R n) \<Longrightarrow> frames R (if b then m else n)"
  by simp

lemma frames_option [frame_rules]:
  "(x = None \<Longrightarrow> frames R m) \<Longrightarrow> (\<And>y. x = Some y \<Longrightarrow> frames R (n y)) \<Longrightarrow>
   frames R (case x of None \<Rightarrow> m | Some y \<Rightarrow> n y)"
  by (cases x) auto

section \<open>Outcomes of actions\<close>

text \<open>
  An action started in a state of \<open>P\<close> ends in \<open>Q\<close> with its value, or in \<open>E\<close> with an error.
\<close>

definition triple :: "('s \<Rightarrow> bool) \<Rightarrow> ('s, 'e, 'a) act \<Rightarrow> ('a \<Rightarrow> 's \<Rightarrow> bool) \<Rightarrow> ('s \<Rightarrow> bool) \<Rightarrow> bool" where
  "triple P m Q E \<longleftrightarrow>
     (\<forall>s. P s \<longrightarrow> (case fst (m s) of Inl e \<Rightarrow> E (snd (m s)) | Inr x \<Rightarrow> Q x (snd (m s))))"

lemma tripleD: "triple P m Q E \<Longrightarrow> P s \<Longrightarrow> case fst (m s) of Inl e \<Rightarrow> E (snd (m s)) | Inr x \<Rightarrow> Q x (snd (m s))"
  by (simp add: triple_def)

lemma triple_and_then:
  assumes "triple P m Q E" "\<And>x. triple (Q x) (k x) R E"
  shows "triple P (and_then m k) R E"
  using assms unfolding triple_def by (fastforce simp: run_and_then split: sum.splits)

lemma triple_weaken:
  assumes "triple P m Q E" "\<And>s. P' s \<Longrightarrow> P s" "\<And>x s. Q x s \<Longrightarrow> Q' x s" "\<And>s. E s \<Longrightarrow> E' s"
  shows "triple P' m Q' E'"
  using assms unfolding triple_def by (fastforce split: sum.splits)

lemma triple_keeps: "keeps P m \<Longrightarrow> triple P m (\<lambda>_. P) P"
  by (simp add: triple_def keeps_def split: sum.split)

lemma triple_ok: "triple P (ok_act x) (\<lambda>y s. y = x \<and> P s) E"
  by (simp add: triple_def run_simps)

lemma triple_fail: "triple P (fail_act e) Q P"
  by (simp add: triple_def run_simps)

lemma triple_both:
  "triple P m Q E \<Longrightarrow> triple P' m Q' E' \<Longrightarrow> triple (\<lambda>s. P s \<and> P' s) m (\<lambda>x s. Q x s \<and> Q' x s) (\<lambda>s. E s \<and> E' s)"
  unfolding triple_def by (fastforce split: sum.splits)

lemma triple_if: "(b \<Longrightarrow> triple P m Q E) \<Longrightarrow> (\<not> b \<Longrightarrow> triple P n Q E) \<Longrightarrow> triple P (if b then m else n) Q E"
  by simp

end
