(* ===== verification/Threads.thy ===== *)
theory Threads
  imports Actions
begin

text \<open>
  Operations that run at the same time. An action of \<open>Actions\<close> runs to its end at once; a thread is the
  same program cut into the steps that are atomic in the code (a store call under the store's mutex, a
  read of the clock, a send on the event channel). Threads are interleaved by a step relation; run
  alone, a thread is an action again. What the steps of every thread respect, every interleaving
  respects, by a rely-guarantee rule: a thread may rest on what the steps of the others leave alone.
\<close>

section \<open>Threads\<close>

datatype ('s, 'e, 'a) thread = Finished "'e + 'a" | Atomic "'s \<Rightarrow> ('s, 'e, 'a) thread \<times> 's"

definition step_of :: "('s, 'e, 'a) act \<Rightarrow> ('s, 'e, 'a) thread" where
  "step_of m = Atomic (\<lambda>s. (Finished (fst (m s)), snd (m s)))"

text \<open>The \<open>?\<close> operator between two pieces of a thread.\<close>

primrec seq :: "('s, 'e, 'a) thread \<Rightarrow> ('a \<Rightarrow> ('s, 'e, 'b) thread) \<Rightarrow> ('s, 'e, 'b) thread" where
  "seq (Finished r) k = (case r of Inl e \<Rightarrow> Finished (Inl e) | Inr x \<Rightarrow> k x)"
| "seq (Atomic f) k = Atomic (\<lambda>s. map_prod (\<lambda>t. seq t k) (\<lambda>u. u) (f s))"

text \<open>\<open>match t { Err(e) => f e, Ok(x) => g x }\<close>, and \<open>let _ = t;\<close>.\<close>

primrec catch :: "('s, 'e, 'a) thread \<Rightarrow> ('e \<Rightarrow> ('s, 'e, 'b) thread) \<Rightarrow> ('a \<Rightarrow> ('s, 'e, 'b) thread) \<Rightarrow>
    ('s, 'e, 'b) thread" where
  "catch (Finished r) f g = (case r of Inl e \<Rightarrow> f e | Inr x \<Rightarrow> g x)"
| "catch (Atomic m) f g = Atomic (\<lambda>s. map_prod (\<lambda>t. catch t f g) (\<lambda>u. u) (m s))"

definition ignored :: "('s, 'e, 'a) thread \<Rightarrow> ('s, 'e, unit) thread" where
  "ignored t = catch t (\<lambda>_. Finished (Inr ())) (\<lambda>_. Finished (Inr ()))"

text \<open>A loop \<open>for x in xs { m x? }\<close>.\<close>

primrec for_each :: "'x list \<Rightarrow> ('x \<Rightarrow> ('s, 'e, unit) thread) \<Rightarrow> ('s, 'e, unit) thread" where
  "for_each [] m = Finished (Inr ())"
| "for_each (x # xs) m = seq (m x) (\<lambda>_. for_each xs m)"

text \<open>A thread that nothing interrupts.\<close>

primrec run :: "('s, 'e, 'a) thread \<Rightarrow> ('s, 'e, 'a) act" where
  "run (Finished r) = (\<lambda>s. (r, s))"
| "run (Atomic f) = (\<lambda>s. case map_prod run (\<lambda>u. u) (f s) of (m, t) \<Rightarrow> m t)"

lemma run_step_of [simp]: "run (step_of m) = m"
  by (simp add: step_of_def)

lemma run_seq [simp]: "run (seq t k) = and_then (run t) (\<lambda>x. run (k x))"
proof (induction t)
  case (Finished r)
  then show ?case by (cases r) (simp_all add: and_then_def)
next
  case (Atomic f)
  show ?case
  proof
    fix s
    obtain t u where f: "f s = (t, u)" by force
    then have "run (seq t k) u = and_then (run t) (\<lambda>x. run (k x)) u"
      using Atomic.IH [of "f s" t] rangeI [of f s] by simp
    then show "run (seq (Atomic f) k) s = and_then (run (Atomic f)) (\<lambda>x. run (k x)) s"
      by (simp add: f and_then_def)
  qed
qed

lemma run_catch [simp]: "run (catch t f g) = match_result (run t) (\<lambda>e. run (f e)) (\<lambda>x. run (g x))"
proof (induction t)
  case (Finished r)
  then show ?case by (cases r) (simp_all add: match_result_def)
next
  case (Atomic m)
  show ?case
  proof
    fix s
    obtain t u where m: "m s = (t, u)" by force
    then have "run (catch t f g) u = match_result (run t) (\<lambda>e. run (f e)) (\<lambda>x. run (g x)) u"
      using Atomic.IH [of "m s" t] rangeI [of m s] by simp
    then show "run (catch (Atomic m) f g) s = match_result (run (Atomic m)) (\<lambda>e. run (f e)) (\<lambda>x. run (g x)) s"
      by (simp add: m match_result_def)
  qed
qed

lemma run_ignored [simp]: "run (ignored t) = ignore_result (run t)"
  by (simp add: ignored_def match_result_def ignore_result_def fun_eq_iff split: prod.split sum.split)

lemma run_for_each [simp]: "run (for_each xs m) = for_act xs (\<lambda>x. run (m x))"
  by (induction xs) (simp_all add: ok_act_def)

lemma seq_assoc: "seq (seq t k) l = seq t (\<lambda>x. seq (k x) l)"
proof (induction t)
  case (Finished r)
  then show ?case by (cases r) simp_all
next
  case (Atomic f)
  have "seq (seq (fst (f s)) k) l = seq (fst (f s)) (\<lambda>x. seq (k x) l)" for s
    using Atomic.IH [of "f s" "fst (f s)"] rangeI [of f s] by (cases "f s") simp
  then show ?case by (simp add: map_prod_def split_beta)
qed

section \<open>Interleavings\<close>

type_synonym ('s, 'e, 'a) threads = "'s \<times> ('s, 'e, 'a) thread list"

inductive thread_step :: "('s, 'e, 'a) threads \<Rightarrow> ('s, 'e, 'a) threads \<Rightarrow> bool" where
  move: "i < length ts \<Longrightarrow> ts ! i = Atomic f \<Longrightarrow> f s = (t, s') \<Longrightarrow> thread_step (s, ts) (s', ts[i := t])"

inductive_cases thread_stepE: "thread_step x y"

abbreviation interleave :: "('s, 'e, 'a) threads \<Rightarrow> ('s, 'e, 'a) threads \<Rightarrow> bool" where
  "interleave \<equiv> thread_step\<^sup>*\<^sup>*"

text \<open>The steps of one thread, with no other thread between them.\<close>

inductive alone :: "('s, 'e, 'a) thread \<Rightarrow> 's \<Rightarrow> ('s, 'e, 'a) thread \<Rightarrow> 's \<Rightarrow> bool" where
  stop: "alone t s t s"
| go: "f s = (t, s') \<Longrightarrow> alone t s' u s'' \<Longrightarrow> alone (Atomic f) s u s''"

lemma alone_trans: "alone t s u s' \<Longrightarrow> alone u s' v s'' \<Longrightarrow> alone t s v s''"
  by (induction rule: alone.induct) (auto intro: alone.go)

lemma alone_run: "alone t s (Finished (fst (run t s))) (snd (run t s))"
proof (induction t arbitrary: s)
  case (Finished r)
  then show ?case by (simp add: alone.stop)
next
  case (Atomic f)
  obtain t u where f: "f s = (t, u)" by force
  then have "alone t u (Finished (fst (run t u))) (snd (run t u))"
    using Atomic.IH [of "f s" t] rangeI [of f s] by simp
  then show ?case using f by (auto intro: alone.go)
qed

lemma alone_then_run: "alone t s u s' \<Longrightarrow> run t s = run u s'"
  by (induction rule: alone.induct) (simp_all add: map_prod_def)

lemma alone_seq: "alone t s u s' \<Longrightarrow> alone (seq t k) s (seq u k) s'"
  by (induction rule: alone.induct) (auto intro: alone.intros)

text \<open>A thread reaches its second part when its first part has run.\<close>

lemma alone_first:
  assumes "run t s = (Inr x, s')" shows "alone (seq t k) s (k x) s'"
  using alone_seq [OF alone_run [of t s], of k] assms by simp

lemma alone_interleave:
  "alone t s u s' \<Longrightarrow> i < length ts \<Longrightarrow> ts ! i = t \<Longrightarrow> interleave (s, ts) (s', ts[i := u])"
proof (induction arbitrary: ts rule: alone.induct)
  case (stop t s)
  then show ?case by (auto simp: list_update_same_conv)
next
  case (go f s t s' u s'')
  then have "thread_step (s, ts) (s', ts[i := t])" by (auto intro: move)
  moreover have "interleave (s', ts[i := t]) (s'', (ts[i := t])[i := u])"
    using go.prems by (intro go.IH) simp_all
  ultimately show ?case by (simp add: converse_rtranclp_into_rtranclp)
qed

lemma run_interleaves:
  assumes "run t s = (r, s')" shows "interleave (s, [t]) (s', [Finished r])"
  using alone_interleave [OF alone_run [of t s], of 0 "[t]"] assms by simp

text \<open>A thread that is interrupted once, by another that runs to its end.\<close>

lemma until_interrupted:
  assumes "alone a s a' s1" "run b s1 = (q, s2)"
  shows "interleave (s, [a, b]) (s2, [a', Finished q])"
proof -
  have "interleave (s, [a, b]) (s1, [a', b])"
    using alone_interleave [OF assms(1), of 0 "[a, b]"] by simp
  also have "interleave (s1, [a', b]) (s2, [a', Finished q])"
    using alone_interleave [OF alone_run [of b s1], of 1 "[a', b]"] assms(2) by simp
  finally show ?thesis .
qed

lemma after_interruption:
  assumes "run a s = (r, s')" shows "interleave (s, [a, Finished q]) (s', [Finished r, Finished q])"
  using alone_interleave [OF alone_run [of a s], of 0 "[a, Finished q]"] assms by simp

lemma interrupted:
  assumes "alone a s a' s1" "run b s1 = (q, s2)" "run a' s2 = (r, s3)"
  shows "interleave (s, [a, b]) (s3, [Finished r, Finished q])"
  using until_interrupted [OF assms(1,2)] after_interruption [OF assms(3)] by (rule rtranclp_trans)

section \<open>Assertions of one thread under the steps of the others\<close>

definition stable :: "('s \<Rightarrow> 's \<Rightarrow> bool) \<Rightarrow> ('s \<Rightarrow> bool) \<Rightarrow> bool" where
  "stable E P \<longleftrightarrow> (\<forall>s t. P s \<longrightarrow> E s t \<longrightarrow> P t)"

text \<open>
  From a state of \<open>P\<close>, every step of the thread is in \<open>R\<close> and reaches an assertion that the steps \<open>E\<close> of
  the others keep; a value \<open>x\<close> is returned in a state of \<open>Q x\<close>.
\<close>

inductive upholds :: "('s \<Rightarrow> 's \<Rightarrow> bool) \<Rightarrow> ('s \<Rightarrow> 's \<Rightarrow> bool) \<Rightarrow> ('a \<Rightarrow> 's \<Rightarrow> bool) \<Rightarrow> ('s \<Rightarrow> bool) \<Rightarrow>
    ('s, 'e, 'a) thread \<Rightarrow> bool"
  for E R Q where
  finished: "(\<And>x s. r = Inr x \<Longrightarrow> P s \<Longrightarrow> Q x s) \<Longrightarrow> upholds E R Q P (Finished r)"
| atomic: "(\<And>s. P s \<Longrightarrow> R s (snd (f s))) \<Longrightarrow> (\<And>s. P s \<Longrightarrow> stable E (N s) \<and> N s (snd (f s)))
    \<Longrightarrow> (\<And>s. P s \<Longrightarrow> upholds E R Q (N s) (fst (f s))) \<Longrightarrow> upholds E R Q P (Atomic f)"

inductive_cases upholds_FinishedE: "upholds E R Q P (Finished r)"
inductive_cases upholds_AtomicE: "upholds E R Q P (Atomic f)"

lemma upholds_weaken:
  assumes "upholds E R Q P t" "\<And>s. P' s \<Longrightarrow> P s" shows "upholds E R Q P' t"
  using assms(1)
proof cases
  case (finished r)
  then show ?thesis using assms(2) by (auto intro: upholds.finished)
next
  case (atomic f N)
  then show ?thesis using assms(2) by (auto intro: upholds.atomic [where N = N])
qed

lemma upholds_weaken_post:
  assumes "upholds E R Q P t" "\<And>x s. Q x s \<Longrightarrow> Q' x s" shows "upholds E R Q' P t"
  using assms(1)
proof (induction rule: upholds.induct)
  case (atomic P f N)
  then show ?case by (auto intro!: upholds.atomic [where N = N])
qed (auto intro: upholds.finished assms(2))

lemma upholds_never: "upholds E R Q (\<lambda>_. False) t"
  by (cases t) (auto intro: upholds.intros)

lemma upholds_post: "upholds E R Q P t \<Longrightarrow> upholds E R (\<lambda>_ _. True) P t"
  by (erule upholds_weaken_post) (rule TrueI)

lemma upholds_seq:
  assumes "upholds E R Q P t" "\<And>x. upholds E R Q' (Q x) (k x)"
  shows "upholds E R Q' P (seq t k)"
  using assms(1)
proof (induction rule: upholds.induct)
  case (finished r P)
  then show ?case
    by (cases r) (auto intro!: upholds.finished intro: upholds_weaken [OF assms(2)])
next
  case (atomic P f N)
  then show ?case by (auto intro!: upholds.atomic [where N = N])
qed

text \<open>The handler of an error may rest on an invariant.\<close>

lemma upholds_catch:
  assumes "upholds E R Q P t" "stable E I" "stable R I"
    and "\<And>e. upholds E R Q' I (f e)" "\<And>x. upholds E R Q' (Q x) (g x)"
  shows "upholds E R Q' (\<lambda>s. P s \<and> I s) (catch t f g)"
  using assms(1)
proof (induction rule: upholds.induct)
  case (finished r P)
  then show ?case
    by (cases r) (auto intro!: upholds.finished intro: upholds_weaken [OF assms(4)] upholds_weaken [OF assms(5)])
next
  case (atomic P m N)
  have "stable E (\<lambda>u. N s u \<and> I u) \<and> N s (snd (m s)) \<and> I (snd (m s))" if "P s" "I s" for s
    using atomic.hyps(1,2) [OF that(1)] assms(2,3) that(2) unfolding stable_def by blast
  with atomic show ?case by (auto intro!: upholds.atomic [where N = "\<lambda>s u. N s u \<and> I u"])
qed

lemma upholds_step:
  assumes "\<And>s. P s \<Longrightarrow> R s (snd (m s))" "\<And>s x t. P s \<Longrightarrow> m s = (Inr x, t) \<Longrightarrow> Q x t" "\<And>x. stable E (Q x)"
  shows "upholds E R Q P (step_of m)"
  unfolding step_of_def
proof (rule upholds.atomic [where N = "\<lambda>s u. \<forall>x. fst (m s) = Inr x \<longrightarrow> Q x u"])
  fix s assume s: "P s"
  show "R s (snd (Finished (fst (m s)), snd (m s)))" using assms(1) [OF s] by simp
  have "Q x (snd (m s))" if "fst (m s) = Inr x" for x
    using assms(2) [OF s] that by (metis prod.collapse)
  moreover have "stable E (\<lambda>u. \<forall>x. fst (m s) = Inr x \<longrightarrow> Q x u)"
    using assms(3) by (auto simp: stable_def)
  ultimately show "stable E (\<lambda>u. \<forall>x. fst (m s) = Inr x \<longrightarrow> Q x u)
      \<and> (\<forall>x. fst (m s) = Inr x \<longrightarrow> Q x (snd (Finished (fst (m s)), snd (m s))))" by simp
qed (auto intro: upholds.finished)

text \<open>When the others' steps are what the threads uphold themselves, they can run side by side.\<close>

lemma upholds_move:
  assumes "thread_step (s, ts) (s', ts')" "\<forall>t\<in>set ts. \<exists>P. stable R P \<and> P s \<and> upholds R R (\<lambda>_ _. True) P t"
  shows "R s s' \<and> (\<forall>t\<in>set ts'. \<exists>P. stable R P \<and> P s' \<and> upholds R R (\<lambda>_ _. True) P t)"
  using assms(1)
proof cases
  case (move i f t)
  then obtain P where P: "stable R P" "P s" "upholds R R (\<lambda>_ _. True) P (Atomic f)"
    using assms(2) nth_mem by metis
  from P(3) obtain N where "R s (snd (f s))" "stable R (N s) \<and> N s (snd (f s))"
      "upholds R R (\<lambda>_ _. True) (N s) (fst (f s))"
    by (rule upholds_AtomicE) (use P(2) in blast)
  then have s': "R s s'" and t: "stable R (N s) \<and> N s s' \<and> upholds R R (\<lambda>_ _. True) (N s) t"
    using move(4) by simp_all
  have "\<exists>P. stable R P \<and> P s' \<and> upholds R R (\<lambda>_ _. True) P u" if "u \<in> set ts" for u
    using assms(2) that s' unfolding stable_def by blast
  with s' t show ?thesis using set_update_subset_insert [of ts i t] by (fastforce simp: move(1))
qed

context frame_relation
begin

lemma interleaved:
  assumes "interleave (s, ts) (s', ts')" "\<forall>t\<in>set ts. upholds R R (\<lambda>_ _. True) P t" "stable R P" "P s"
  shows "R s s'"
proof -
  have "R s s' \<and> (\<forall>t\<in>set ts'. \<exists>P. stable R P \<and> P s' \<and> upholds R R (\<lambda>_ _. True) P t)"
    using assms(1)
  proof (induction s' ts' rule: rtranclp_induct2)
    case refl
    then show ?case using assms(2-4) refl_R by blast
  next
    case (step s1 ts1 s2 ts2)
    then show ?case using upholds_move [of s1 ts1 s2 ts2 R] trans_R by blast
  qed
  then show ?thesis ..
qed

end

section \<open>Threads that rest on one invariant\<close>

text \<open>From a state of \<open>I\<close>, which \<open>E\<close> and \<open>R\<close> keep, every step of the thread is in \<open>R\<close>.\<close>

definition obeys :: "('s \<Rightarrow> 's \<Rightarrow> bool) \<Rightarrow> ('s \<Rightarrow> 's \<Rightarrow> bool) \<Rightarrow> ('s \<Rightarrow> bool) \<Rightarrow> ('s, 'e, 'a) thread \<Rightarrow> bool" where
  "obeys E R I t \<longleftrightarrow> stable E I \<and> stable R I \<and> upholds E R (\<lambda>_. I) I t"

named_theorems thread_rules "what the steps of a thread respect, piece by piece"

lemma obeys_Finished [thread_rules]: "stable E I \<Longrightarrow> stable R I \<Longrightarrow> obeys E R I (Finished r)"
  by (auto simp: obeys_def intro: upholds.finished)

lemma obeys_step [thread_rules]:
  assumes "stable E I" "stable R I" "frames R m" shows "obeys E R I (step_of m)"
  unfolding obeys_def
proof (intro conjI upholds_step)
  show "R s (snd (m s))" for s using assms(3) by (simp add: frames_def)
  then show "I t" if "I s" "m s = (Inr x, t)" for s x t
    using assms(2) that unfolding stable_def by (metis snd_conv)
qed (rule assms)+

lemma obeys_seq [thread_rules]:
  "obeys E R I t \<Longrightarrow> (\<And>x. obeys E R I (k x)) \<Longrightarrow> obeys E R I (seq t k)"
  unfolding obeys_def by (auto intro: upholds_seq)

text \<open>What is known of the result of the first piece may be used in the second.\<close>

lemma obeys_seq_known:
  assumes "stable E I" "stable R I" "frames R m" "\<And>s x t. I s \<Longrightarrow> m s = (Inr x, t) \<Longrightarrow> P x"
    and "\<And>x. P x \<Longrightarrow> obeys E R I (k x)"
  shows "obeys E R I (seq (step_of m) k)"
  unfolding obeys_def
proof (intro conjI upholds_seq)
  show "upholds E R (\<lambda>x s. I s \<and> P x) I (step_of m)"
  proof (rule upholds_step)
    show R: "R s (snd (m s))" for s using assms(3) by (simp add: frames_def)
    show "I t \<and> P x" if "I s" "m s = (Inr x, t)" for s x t
      using assms(2,4) R [of s] that unfolding stable_def by (metis snd_conv)
    show "stable E (\<lambda>s. I s \<and> P x)" for x using assms(1) unfolding stable_def by blast
  qed
  show "upholds E R (\<lambda>_. I) (\<lambda>s. I s \<and> P x) (k x)" for x
  proof (cases "P x")
    case True
    then show ?thesis using assms(5) by (auto simp: obeys_def)
  qed (simp add: upholds_never)
qed (rule assms)+

lemma obeys_catch [thread_rules]:
  assumes "obeys E R I t" "\<And>e. obeys E R I (f e)" "\<And>x. obeys E R I (g x)"
  shows "obeys E R I (catch t f g)"
  using upholds_catch [of E R "\<lambda>_. I" I t I "\<lambda>_. I" f g] assms by (simp add: obeys_def)

lemma obeys_ignored [thread_rules]: "obeys E R I t \<Longrightarrow> obeys E R I (ignored t)"
  unfolding ignored_def by (rule obeys_catch) (auto simp: obeys_def intro: upholds.finished)

lemma obeys_for [thread_rules]: "stable E I \<Longrightarrow> stable R I \<Longrightarrow> (\<And>x. obeys E R I (m x)) \<Longrightarrow> obeys E R I (for_each xs m)"
  by (induction xs) (auto intro: obeys_Finished obeys_seq)

lemma obeys_if [thread_rules]: "obeys E R I t \<Longrightarrow> obeys E R I u \<Longrightarrow> obeys E R I (if b then t else u)"
  by simp

lemma obeys_option [thread_rules]:
  "obeys E R I t \<Longrightarrow> (\<And>y. obeys E R I (u y)) \<Longrightarrow> obeys E R I (case x of None \<Rightarrow> t | Some y \<Rightarrow> u y)"
  by (cases x) auto

lemma obeys_sum [thread_rules]:
  "(\<And>e. obeys E R I (t e)) \<Longrightarrow> (\<And>x. obeys E R I (u x)) \<Longrightarrow> obeys E R I (case r of Inl e \<Rightarrow> t e | Inr x \<Rightarrow> u x)"
  by (cases r) auto

context frame_relation
begin

lemma interleaved_obeys:
  assumes "interleave (s, ts) (s', ts')" "\<forall>t\<in>set ts. obeys R R I t" "stable R I" "I s"
  shows "R s s'"
proof (rule interleaved [OF assms(1) _ assms(3,4)])
  have "upholds R R (\<lambda>_ _. True) I t" if "obeys R R I t" for t
    using that unfolding obeys_def by (blast intro: upholds_post)
  then show "\<forall>t\<in>set ts. upholds R R (\<lambda>_ _. True) I t" using assms(2) by blast
qed

end

end
