(* ===== verification/Errors.thy ===== *)
theory Errors
  imports Prelude
begin

text \<open>
  The errors of the engine (\<open>crates/secrets-engine/src/error.rs\<close>) and of the code around it. The
  code's error type is \<open>anyhow::Error\<close>: either one of the engine's typed errors, or a message of
  \<open>bail!\<close>. A formatted message is the constructor that names it with its arguments. \<open>Panicked\<close> is a
  panic; \<open>StoreFault\<close> is an error of the medium under the store, with its text.
\<close>

datatype engine_error =
    Db string string
  | Locked_err
  | UnlockFailed
  | UsbAbsent
  | UnknownRelay string
  | RuntimeDir string
  | MlockFailed
  | HeaderMacMismatch
  | NoCa
  | AuditChainBroken i64

datatype vault_state = Uninitialized | Locked_state | LockedNeedPassphrase | Unlocked_state | Error_state

datatype any_error =
    Engine engine_error
  | Bail string
  | SecretRowIdNotReserved i64 i64
  | SecretRowIdCollides i64
  | SecretVersionNotNext u32 string u32
  | StoreFault string
  | Panicked string

end
