(* ===== verification/Tables.thy ===== *)
theory Tables
  imports Prelude
begin

text \<open>
  The upsert tables of the store. A table keeps at most one current row per key: saving a row makes
  it the one found under its key and leaves every other key alone. The contract is the locale
  \<open>keyed_table\<close>; two representations the store uses are a vector searched from the front
  (\<open>upsert\<close>) and a sequence ordered by an integer key (\<open>insert_by\<close>, a B-tree map).
\<close>

locale keyed_table =
  fixes key :: "'v \<Rightarrow> 'k"
    and save :: "'v \<Rightarrow> 't \<Rightarrow> 't"
    and load :: "'k \<Rightarrow> 't \<Rightarrow> 'v option"
  assumes load_save_same: "load (key v) (save v t) = Some v"
    and load_save_other: "k \<noteq> key v \<Longrightarrow> load k (save v t) = load k t"
begin

lemma load_save: "load k (save v t) = (if k = key v then Some v else load k t)"
  using load_save_same load_save_other by simp

lemma last_save_wins: "key v = key w \<Longrightarrow> load k (save w (save v t)) = load k (save w t)"
  by (simp add: load_save)

lemma saves_commute: "key v \<noteq> key w \<Longrightarrow> load k (save w (save v t)) = load k (save v (save w t))"
  by (simp add: load_save)

text \<open>After any sequence of saves, a lookup finds the last row saved under its key.\<close>

lemma load_fold:
  "load k (fold save vs t) = (case find (\<lambda>v. key v = k) (rev vs) of Some v \<Rightarrow> Some v | None \<Rightarrow> load k t)"
proof (induction vs rule: rev_induct)
  case Nil
  then show ?case by simp
next
  case (snoc v vs)
  then show ?case by (auto simp: load_save)
qed

end

section \<open>A vector searched from the front\<close>

fun upsert :: "('v \<Rightarrow> 'k) \<Rightarrow> 'v \<Rightarrow> 'v list \<Rightarrow> 'v list" where
  "upsert key v [] = [v]"
| "upsert key v (w # ws) = (if key w = key v then v # ws else w # upsert key v ws)"

definition find_by :: "('v \<Rightarrow> 'k) \<Rightarrow> 'k \<Rightarrow> 'v list \<Rightarrow> 'v option" where
  "find_by key k vs = find (\<lambda>v. key v = k) vs"

lemma find_by_simps [simp]:
  "find_by key k [] = None"
  "find_by key k (v # vs) = (if key v = k then Some v else find_by key k vs)"
  by (simp_all add: find_by_def)

lemma find_by_SomeD: "find_by key k vs = Some v \<Longrightarrow> key v = k \<and> v \<in> set vs"
  by (induction vs) (auto split: if_splits)

lemma find_by_None_iff: "find_by key k vs = None \<longleftrightarrow> k \<notin> key ` set vs"
  by (induction vs) auto

lemma find_by_distinct: "distinct (map key vs) \<Longrightarrow> v \<in> set vs \<Longrightarrow> find_by key (key v) vs = Some v"
  by (induction vs) (auto simp: rev_image_eqI)

lemma find_by_upsert_same: "find_by key (key v) (upsert key v vs) = Some v"
  by (induction vs) auto

lemma find_by_upsert_other: "k \<noteq> key v \<Longrightarrow> find_by key k (upsert key v vs) = find_by key k vs"
  by (induction vs) auto

lemma keys_upsert: "key ` set (upsert key v vs) = insert (key v) (key ` set vs)"
  by (induction vs) auto

lemma distinct_upsert: "distinct (map key vs) \<Longrightarrow> distinct (map key (upsert key v vs))"
  by (induction vs) (auto simp: keys_upsert)

lemma set_upsert_subset: "set (upsert key v vs) \<subseteq> insert v (set vs)"
  by (induction vs) auto

lemma in_set_upsert: "v \<in> set (upsert key v vs)"
  by (induction vs) auto

interpretation vec_table: keyed_table key "upsert key" "find_by key" for key
  by unfold_locales (simp_all add: find_by_upsert_same find_by_upsert_other)

section \<open>A sequence in ascending key order\<close>

fun insert_by :: "('v \<Rightarrow> int) \<Rightarrow> 'v \<Rightarrow> 'v list \<Rightarrow> 'v list" where
  "insert_by key v [] = [v]"
| "insert_by key v (w # ws) =
     (if key v = key w then v # ws
      else if key v < key w then v # w # ws
      else w # insert_by key v ws)"

lemma set_insert_by_subset: "set (insert_by key v vs) \<subseteq> insert v (set vs)"
  by (induction vs) auto

lemma sorted_insert_by:
  "sorted_wrt (\<lambda>a b. key a < key b) vs \<Longrightarrow> sorted_wrt (\<lambda>a b. key a < key b) (insert_by key v vs)"
proof (induction vs)
  case Nil
  then show ?case by simp
next
  case (Cons w ws)
  then show ?case
    using set_insert_by_subset [of key v ws] by (auto dest: less_trans)
qed

lemma find_by_insert_by_same: "find_by key (key v) (insert_by key v vs) = Some v"
  by (induction vs) auto

lemma find_by_insert_by_other: "k \<noteq> key v \<Longrightarrow> find_by key k (insert_by key v vs) = find_by key k vs"
  by (induction vs) auto

interpretation sorted_table: keyed_table key "insert_by key" "find_by key" for key
  by unfold_locales (simp_all add: find_by_insert_by_same find_by_insert_by_other)

end
