(* ===== verification/Policy.thy ===== *)
theory Policy
  imports Prelude
begin

text \<open>
  Relay policies and the single choke point for bearer lifetimes
  (\<open>crates/secrets-engine/src/broker/policy.rs\<close>): the providers with their frozen upstream hosts,
  the methods, kinds and swap modes, the policy record, and \<open>clamp_ttl\<close>.
\<close>

section \<open>Data\<close>

datatype provider = Anthropic | Openai | Github | Generic

datatype http_method = Get | Head | Post | Put | Patch | Delete | Connect | Options

datatype relay_kind = Named | Ephemeral

datatype swap_mode =
    BaseUrlRepoint (upstream_base: string)
  | ProxyMitm
  | NativeSubToken (native_ttl_secs: i64)

record relay_policy =
  rp_relay_id :: string
  rp_kind :: relay_kind
  rp_provider :: provider
  rp_secret_name :: string
  rp_swap :: swap_mode
  rp_host_allow :: "string list"
  rp_path_allow :: "string list"
  rp_method_allow :: "http_method list"
  rp_policy_ttl_secs :: i64
  rp_rate_per_min :: "u32 option"
  rp_quota_total_requests :: "u64 option"
  rp_quota_total_bytes :: "u64 option"
  rp_enabled :: bool
  rp_revoked :: bool

text \<open>The frozen upstream hosts of each provider; \<open>Generic\<close> has none.\<close>

fun canonical_upstreams :: "provider \<Rightarrow> string list" where
  "canonical_upstreams Anthropic = [''api.anthropic.com'']"
| "canonical_upstreams Openai = [''api.openai.com'']"
| "canonical_upstreams Github = [''api.github.com'', ''uploads.github.com'']"
| "canonical_upstreams Generic = []"

text \<open>The minted wire bearer handed to the client; only its MAC is stored.\<close>

record bearer =
  b_relay_id :: string
  b_token_id :: string
  b_raw :: string
  b_expires_at :: string

section \<open>The TTL choke point\<close>

definition MAX_BEARER_TTL_SECS :: i64 where
  "MAX_BEARER_TTL_SECS = 24 * 60 * 60"

definition clamp_ttl :: "i64 \<Rightarrow> i64 \<Rightarrow> i64 \<Rightarrow> i64 option" where
  "clamp_ttl now policy_ttl_secs requested_ttl_secs =
     (let ttl = i64_min_of (i64_min_of requested_ttl_secs policy_ttl_secs) MAX_BEARER_TTL_SECS in
      if i64_le ttl 0 then None
      else Some (sat_add now ttl))"

lemma sint_MAX_BEARER_TTL_SECS [simp]: "sint MAX_BEARER_TTL_SECS = 86400"
  by (simp add: MAX_BEARER_TTL_SECS_def)

lemma sint_ttl:
  "sint (i64_min_of (i64_min_of requested policy_ttl) MAX_BEARER_TTL_SECS) =
   min (min (sint requested) (sint policy_ttl)) 86400"
  by (simp add: i64_arith)

lemma clamp_ttl_exact:
  "clamp_ttl now policy_ttl requested =
     (if sint requested \<le> 0 \<or> sint policy_ttl \<le> 0 then None
      else Some (i64_clamp (sint now + min (min (sint requested) (sint policy_ttl)) 86400)))"
  by (auto simp: clamp_ttl_def Let_def i64_le_def sat_add_def sint_ttl min_def)

lemma clamp_ttl_SomeD:
  assumes "clamp_ttl now policy_ttl requested = Some e"
  shows "sint e \<le> sint now + 86400"
    and "sint now < i64_max \<Longrightarrow> sint now < sint e"
    and "sint e \<le> sint now + sint requested"
    and "sint e \<le> sint now + sint policy_ttl"
  using assms sint_i64_lower [of now] sint_i64_upper [of now]
  by (auto simp: clamp_ttl_exact split: if_splits)

end
