(* ===== verification/External.thy ===== *)
theory External
  imports Prelude
begin

text \<open>
  The code the engine calls that is not part of the repository, as one record of functions the
  definitions take as an argument: the AEAD of the \<open>chacha20poly1305\<close> crate, the BLAKE3 modes,
  HKDF-SHA256 and Argon2id, JSON serialisation of \<open>serde_json\<close>, and the RFC 3339 rendering of
  \<open>chrono\<close>. What a lemma relies on is a named hypothesis over this record.
\<close>

text \<open>The JSON values the programs build: the engine for the detail of an audit row, the client to print.\<close>

datatype json =
    JNull
  | JBool bool
  | JInt int
  | JStr string
  | JObj "(string \<times> json) list"
  | JArr "json list"

record crypto =
  aead_encrypt :: "bytes \<Rightarrow> bytes \<Rightarrow> bytes \<Rightarrow> bytes \<Rightarrow> bytes"
  aead_decrypt :: "bytes \<Rightarrow> bytes \<Rightarrow> bytes \<Rightarrow> bytes \<Rightarrow> bytes option"
  blake3_hash :: "bytes \<Rightarrow> bytes"
  blake3_derive_key :: "bytes \<Rightarrow> bytes \<Rightarrow> bytes"
  blake3_keyed_hash :: "bytes \<Rightarrow> bytes \<Rightarrow> bytes"
  hkdf_sha256 :: "bytes \<Rightarrow> bytes \<Rightarrow> bytes \<Rightarrow> bytes"
  argon2id :: "bytes \<Rightarrow> bytes \<Rightarrow> u32 \<Rightarrow> u32 \<Rightarrow> u32 \<Rightarrow> bytes option"
  json_to_vec :: "json \<Rightarrow> bytes"
  rfc3339_of_millis :: "i64 \<Rightarrow> string option"

text \<open>
  Documented behaviour. The AEAD inverts its own encryptions and refuses an encryption presented
  under other associated data; the BLAKE3 modes and HKDF return 32 bytes; Argon2id returns 32 bytes
  for every salt of at least 8 bytes and cost parameters its \<open>Params::new\<close> accepts.
\<close>

definition aead_inverts :: "crypto \<Rightarrow> bool" where
  "aead_inverts cr \<longleftrightarrow>
     (\<forall>k n a m. length k = 32 \<longrightarrow> length n = 24 \<longrightarrow>
        aead_decrypt cr k n a (aead_encrypt cr k n a m) = Some m)"

definition aead_binds_aad :: "crypto \<Rightarrow> bool" where
  "aead_binds_aad cr \<longleftrightarrow>
     (\<forall>k n a a' m. a \<noteq> a' \<longrightarrow> aead_decrypt cr k n a' (aead_encrypt cr k n a m) = None)"

definition aead_binds_key :: "crypto \<Rightarrow> bool" where
  "aead_binds_key cr \<longleftrightarrow>
     (\<forall>k k' n a a' m. k \<noteq> k' \<longrightarrow> aead_decrypt cr k' n a' (aead_encrypt cr k n a m) = None)"

definition digests_32 :: "crypto \<Rightarrow> bool" where
  "digests_32 cr \<longleftrightarrow>
     (\<forall>m. length (blake3_hash cr m) = 32) \<and> (\<forall>c k. length (blake3_derive_key cr c k) = 32)
     \<and> (\<forall>k m. length (blake3_keyed_hash cr k m) = 32)
     \<and> (\<forall>s k i. length (hkdf_sha256 cr s k i) = 32)"

definition argon2_accepts :: "u32 \<Rightarrow> u32 \<Rightarrow> u32 \<Rightarrow> bool" where
  "argon2_accepts m t p \<longleftrightarrow> 1 \<le> t \<and> 1 \<le> p \<and> p \<le> 16777215 \<and> 8 * unat p \<le> unat m"

definition argon2_total :: "crypto \<Rightarrow> bool" where
  "argon2_total cr \<longleftrightarrow>
     (\<forall>pw salt m t p. 8 \<le> length salt \<longrightarrow> argon2_accepts m t p \<longrightarrow>
        (\<exists>k. argon2id cr pw salt m t p = Some k \<and> length k = 32))"

lemma aead_invertsD:
  "aead_inverts cr \<Longrightarrow> length k = 32 \<Longrightarrow> length n = 24 \<Longrightarrow>
   aead_decrypt cr k n a (aead_encrypt cr k n a m) = Some m"
  by (simp add: aead_inverts_def)

lemma digests_32D:
  assumes "digests_32 cr"
  shows "length (blake3_hash cr m) = 32" "length (blake3_derive_key cr c k) = 32"
    "length (blake3_keyed_hash cr k m) = 32" "length (hkdf_sha256 cr s k i) = 32"
  using assms by (simp_all add: digests_32_def)

section \<open>A concrete instance\<close>

text \<open>
  A small instance of the parameters, for concrete runs of the engine: an AEAD whose ciphertext
  carries the key, nonce and associated data it was made under, and a 64-bit multiplicative hash
  padded to 32 bytes. It satisfies the documented behaviour above; it is not secure, and no theorem
  of the development depends on it but the concrete ones.
\<close>

definition toy_mix :: "u64 \<Rightarrow> byte \<Rightarrow> u64" where
  "toy_mix h b = (h + ucast b + 1) * 1099511628211"

lemma toy_mix_eq_iff: "toy_mix h b = toy_mix h' b' \<longleftrightarrow> h + ucast b = h' + ucast b'"
proof -
  have "(1099511628211 :: u64) * 14886173955864302971 = 1"
    by code_simp
  then have "(x * 1099511628211) * 14886173955864302971 = x" for x :: u64
    by (simp only: mult.assoc mult_1_right)
  then show ?thesis
    unfolding toy_mix_def by (metis add_right_cancel)
qed

definition toy_digest :: "u64 \<Rightarrow> bytes \<Rightarrow> bytes" where
  "toy_digest seed m = be64 (foldl toy_mix seed m) @ replicate 24 0"

fun escape :: "bytes \<Rightarrow> bytes" where
  "escape [] = [0]"
| "escape (b # bs) = 1 # b # escape bs"

definition toy_header :: "bytes \<Rightarrow> bytes \<Rightarrow> bytes \<Rightarrow> bytes" where
  "toy_header k n a = escape k @ escape n @ escape a"

interpretation escape_code: prefix_code "\<lambda>_. True" escape
proof unfold_locales
  show "x = y \<and> r = s" if "escape x @ r = escape y @ s" for x y r s
    using that
  proof (induction x arbitrary: y)
    case Nil
    then show ?case by (cases y) auto
  next
    case (Cons b x)
    then show ?case by (cases y) auto
  qed
qed

definition toy_open :: "bytes \<Rightarrow> bytes \<Rightarrow> bytes option" where
  "toy_open h c = (if take (length h) c = h then Some (drop (length h) c) else None)"

lemma toy_open_same: "toy_open h (h @ m) = Some m"
  by (simp add: toy_open_def)

lemma toy_open_other:
  assumes "toy_open (toy_header k n a) (toy_header k' n' a' @ m) \<noteq> None"
  shows "k = k' \<and> n = n' \<and> a = a'"
proof -
  define c where "c = toy_header k' n' a' @ m"
  have "take (length (toy_header k n a)) c = toy_header k n a"
    using assms by (auto simp: toy_open_def c_def split: if_splits)
  then have "toy_header k n a @ drop (length (toy_header k n a)) c = toy_header k' n' a' @ m"
    by (metis append_take_drop_id c_def)
  then show ?thesis
    by (simp add: toy_header_def escape_code.append_eq_iff)
qed

definition toy_seed :: "bytes \<Rightarrow> u64" where
  "toy_seed k = foldl toy_mix 17 k"

fun json_text :: "json \<Rightarrow> string" where
  "json_text JNull = ''null''"
| "json_text (JBool b) = (if b then ''true'' else ''false'')"
| "json_text (JInt i) = (if i < 0 then ''-'' else ''+'') @ replicate (nat \<bar>i\<bar> mod 1000) CHR ''1''"
| "json_text (JStr s) = [CHR 0x22] @ s @ [CHR 0x22]"
| "json_text (JObj kvs) = ''{'' @ concat (map (\<lambda>(k, v). k @ '':'' @ json_text v @ '','') kvs) @ ''}''"
| "json_text (JArr vs) = ''['' @ concat (map (\<lambda>v. json_text v @ '','') vs) @ '']''"

definition toy_crypto :: crypto where
  "toy_crypto = \<lparr>
     aead_encrypt = (\<lambda>k n a m. toy_header k n a @ m),
     aead_decrypt = (\<lambda>k n a c. toy_open (toy_header k n a) c),
     blake3_hash = toy_digest 3,
     blake3_derive_key = (\<lambda>c k. toy_digest (toy_seed c) k),
     blake3_keyed_hash = (\<lambda>k m. toy_digest (toy_seed k) m),
     hkdf_sha256 = (\<lambda>s k i. toy_digest (toy_seed (s @ i)) k),
     argon2id = (\<lambda>pw s m t p.
        if length s < 8 \<or> \<not> argon2_accepts m t p then None
        else Some (toy_digest (toy_seed s) pw)),
     json_to_vec = (\<lambda>j. str_bytes (json_text j)),
     rfc3339_of_millis = (\<lambda>ms. Some ''2026-06-02T00:00:00Z'')\<rparr>"

lemma length_toy_digest [simp]: "length (toy_digest s m) = 32"
  by (simp add: toy_digest_def)

lemma toy_aead_inverts: "aead_inverts toy_crypto"
  by (simp add: aead_inverts_def toy_crypto_def toy_open_same)

lemma toy_aead_binds_aad: "aead_binds_aad toy_crypto"
  unfolding aead_binds_aad_def toy_crypto_def crypto.simps
  by (metis toy_open_other option.exhaust)

lemma toy_aead_binds_key: "aead_binds_key toy_crypto"
  unfolding aead_binds_key_def toy_crypto_def crypto.simps
  by (metis toy_open_other option.exhaust)

lemma toy_digests_32: "digests_32 toy_crypto"
  by (simp add: digests_32_def toy_crypto_def)

lemma toy_argon2_total: "argon2_total toy_crypto"
  by (simp add: argon2_total_def toy_crypto_def)

end
