(* ===== verification/Keyslot.thy ===== *)
theory Keyslot
  imports External
begin

text \<open>
  LUKS-style keyslots (\<open>crates/secrets-engine/src/keyslot.rs\<close>): the DEK is wrapped under one KEK per
  unlock factor, the associated data of a wrap binds the slot's identity and KDF, and a DEK-keyed
  MAC over the whole slot set and the issuance floor detects tampering of the header.
\<close>

section \<open>Data\<close>

datatype factor = Usb | Passphrase

record argon2_params =
  ap_m_kib :: u32
  ap_t_cost :: u32
  ap_p_lanes :: u32

datatype kdf = Argon2id argon2_params | HkdfSha256

record keyslot =
  ks_id :: i64
  ks_factor :: factor
  ks_label :: string
  ks_kdf :: kdf
  ks_salt :: bytes
  ks_usb_partition_uuid :: "string option"
  ks_wrap_nonce :: bytes
  ks_wrapped_dek :: bytes
  ks_dek_generation :: i64
  ks_enabled :: bool

type_synonym dek = bytes
type_synonym kek = bytes

definition ARGON2_M_KIB_FLOOR :: u32 where "ARGON2_M_KIB_FLOOR = 262144"
definition ARGON2_T_COST_FLOOR :: u32 where "ARGON2_T_COST_FLOOR = 3"

definition default_argon2_params :: argon2_params where
  "default_argon2_params = \<lparr>ap_m_kib = 1048576, ap_t_cost = 4, ap_p_lanes = 4\<rparr>"

section \<open>Canonical encodings\<close>

definition KEYSLOT_AAD_DOMAIN :: bytes where
  "KEYSLOT_AAD_DOMAIN = str_bytes ''env-ctl/v1/keyslot-aad''"

definition HEADER_MAC_DOMAIN :: bytes where
  "HEADER_MAC_DOMAIN = str_bytes ''env-ctl/v1/header-mac''"

definition USB_KEK_INFO :: bytes where
  "USB_KEK_INFO = str_bytes ''env-ctl/v1/kek/usb''"

definition HEADER_MAC_KEY_INFO :: bytes where
  "HEADER_MAC_KEY_INFO = str_bytes ''env-ctl/v1/header-mac/key''"

fun factor_byte :: "factor \<Rightarrow> byte" where
  "factor_byte Usb = 0x01"
| "factor_byte Passphrase = 0x02"

fun push_kdf :: "kdf \<Rightarrow> bytes" where
  "push_kdf (Argon2id p) = 0x01 # be32 (ap_m_kib p) @ be32 (ap_t_cost p) @ be32 (ap_p_lanes p)"
| "push_kdf HkdfSha256 = 0x02 # be32 0 @ be32 0 @ be32 0"

fun push_opt_str :: "string option \<Rightarrow> bytes" where
  "push_opt_str (Some s) = 0x01 # len_prefixed (str_bytes s)"
| "push_opt_str None = [0x00]"

definition keyslot_aad :: "keyslot \<Rightarrow> bytes" where
  "keyslot_aad slot =
     KEYSLOT_AAD_DOMAIN @ [factor_byte (ks_factor slot)] @ push_kdf (ks_kdf slot)
     @ len_prefixed (ks_salt slot) @ push_opt_str (ks_usb_partition_uuid slot)
     @ be64 (ks_dek_generation slot) @ be64 (ks_id slot)"

section \<open>Wrapping and key derivation\<close>

text \<open>\<open>wrap_dek\<close> draws its nonce from the OS generator: the nonce is an argument here.\<close>

definition wrap_dek :: "crypto \<Rightarrow> bytes \<Rightarrow> kek \<Rightarrow> dek \<Rightarrow> bytes \<Rightarrow> bytes \<times> bytes" where
  "wrap_dek cr nonce kek dek aad = (nonce, aead_encrypt cr kek nonce aad dek)"

definition unwrap_dek :: "crypto \<Rightarrow> kek \<Rightarrow> bytes \<Rightarrow> bytes \<Rightarrow> bytes \<Rightarrow> dek option" where
  "unwrap_dek cr kek nonce wrapped aad =
     (if length nonce \<noteq> 24 then None
      else case aead_decrypt cr kek nonce aad wrapped of
        None \<Rightarrow> None
      | Some pt \<Rightarrow> if length pt \<noteq> 32 then None else Some pt)"

definition kek_from_usb :: "crypto \<Rightarrow> bytes \<Rightarrow> bytes \<Rightarrow> kek" where
  "kek_from_usb cr keyfile salt = hkdf_sha256 cr salt keyfile USB_KEK_INFO"

text \<open>\<open>None\<close> is a panic: an assertion on the cost floors, or an \<open>expect\<close> on what Argon2 rejects.\<close>

definition kek_from_passphrase :: "crypto \<Rightarrow> bytes \<Rightarrow> bytes \<Rightarrow> argon2_params \<Rightarrow> kek option" where
  "kek_from_passphrase cr pp salt p =
     (if ap_m_kib p < ARGON2_M_KIB_FLOOR then None
      else if ap_t_cost p < ARGON2_T_COST_FLOOR then None
      else argon2id cr pp salt (ap_m_kib p) (ap_t_cost p) (ap_p_lanes p))"

section \<open>The header MAC\<close>

definition bool_byte :: "bool \<Rightarrow> byte" where
  "bool_byte b = (if b then 1 else 0)"

definition header_slot :: "keyslot \<Rightarrow> bytes" where
  "header_slot slot =
     len_prefixed (keyslot_aad slot) @ len_prefixed (str_bytes (ks_label slot))
     @ [bool_byte (ks_enabled slot)] @ len_prefixed (ks_wrap_nonce slot)
     @ len_prefixed (ks_wrapped_dek slot)"

definition header_mac_message :: "keyslot list \<Rightarrow> i64 \<Rightarrow> bytes" where
  "header_mac_message slots issuance_floor_ms =
     HEADER_MAC_DOMAIN @ be64 (word_of_nat (length slots)) @ concat (map header_slot slots)
     @ be64 issuance_floor_ms"

definition header_mac :: "crypto \<Rightarrow> dek \<Rightarrow> keyslot list \<Rightarrow> i64 \<Rightarrow> bytes" where
  "header_mac cr dek slots issuance_floor_ms =
     blake3_keyed_hash cr (blake3_derive_key cr HEADER_MAC_KEY_INFO dek)
       (header_mac_message slots issuance_floor_ms)"

text \<open>The comparison is in constant time in the code; its value is equality with a length check.\<close>

definition verify_header_mac :: "crypto \<Rightarrow> dek \<Rightarrow> keyslot list \<Rightarrow> i64 \<Rightarrow> bytes \<Rightarrow> bool" where
  "verify_header_mac cr dek slots issuance_floor_ms stored_mac =
     (let computed = header_mac cr dek slots issuance_floor_ms in
      length stored_mac = length computed \<and> computed = stored_mac)"

section \<open>The encodings are unambiguous\<close>

lemma factor_byte_eq_iff [simp]: "factor_byte a = factor_byte b \<longleftrightarrow> a = b"
  by (cases a; cases b) auto

lemma bool_byte_eq_iff [simp]: "bool_byte a = bool_byte b \<longleftrightarrow> a = b"
  by (simp add: bool_byte_def)

interpretation kdf_code: fixed_code 13 push_kdf
proof unfold_locales
  show "length (push_kdf k) = 13" for k by (cases k) simp_all
  show "push_kdf x = push_kdf y \<Longrightarrow> x = y" for x y
    by (cases x; cases y) (auto simp: codec)
qed

interpretation opt_str_code: prefix_code "\<lambda>x. \<forall>s\<in>set_option x. length s < 4294967296" push_opt_str
proof unfold_locales
  fix x y :: "string option" and r s
  assume "\<forall>s\<in>set_option x. length s < 4294967296" "\<forall>s\<in>set_option y. length s < 4294967296"
    and "push_opt_str x @ r = push_opt_str y @ s"
  then show "x = y \<and> r = s"
    by (cases x; cases y) (auto simp: len_code.append_eq_iff)
qed

text \<open>Fields short enough for their 32-bit length prefixes.\<close>

definition slot_bounded :: "keyslot \<Rightarrow> bool" where
  "slot_bounded s \<longleftrightarrow>
     length (ks_salt s) < 4294967296 \<and> (\<forall>u\<in>set_option (ks_usb_partition_uuid s). length u < 4294967296)
     \<and> length (keyslot_aad s) < 4294967296 \<and> length (ks_label s) < 4294967296
     \<and> length (ks_wrap_nonce s) < 4294967296 \<and> length (ks_wrapped_dek s) < 4294967296"

lemma keyslot_aad_eq:
  assumes "slot_bounded s" "slot_bounded t" "keyslot_aad s = keyslot_aad t"
  shows "ks_factor s = ks_factor t" "ks_kdf s = ks_kdf t" "ks_salt s = ks_salt t"
    "ks_usb_partition_uuid s = ks_usb_partition_uuid t"
    "ks_dek_generation s = ks_dek_generation t" "ks_id s = ks_id t"
  using assms
  by (auto simp: keyslot_aad_def slot_bounded_def codec kdf_code.append_eq_iff
      len_code.append_eq_iff opt_str_code.append_eq_iff opt_str_code.eq_iff)

interpretation header_slot_code: prefix_code slot_bounded header_slot
proof unfold_locales
  fix x y :: keyslot and r s
  assume b: "slot_bounded x" "slot_bounded y" and eq: "header_slot x @ r = header_slot y @ s"
  then have aad: "keyslot_aad x = keyslot_aad y"
    and rest: "ks_label x = ks_label y" "ks_enabled x = ks_enabled y"
      "ks_wrap_nonce x = ks_wrap_nonce y" "ks_wrapped_dek x = ks_wrapped_dek y" "r = s"
    by (auto simp: header_slot_def slot_bounded_def len_code.append_eq_iff)
  with keyslot_aad_eq [OF b aad] show "x = y \<and> r = s"
    by (auto intro: keyslot.equality)
qed

lemma header_mac_message_inj:
  assumes "\<forall>s\<in>set slots. slot_bounded s" "\<forall>s\<in>set slots'. slot_bounded s"
    and "length slots < 2 ^ 64" "length slots' < 2 ^ 64"
    and "header_mac_message slots floor = header_mac_message slots' floor'"
  shows "slots = slots' \<and> floor = floor'"
proof -
  have "word_of_nat (length slots) = (word_of_nat (length slots') :: u64)"
    and body: "concat (map header_slot slots) @ be64 floor = concat (map header_slot slots') @ be64 floor'"
    using assms(5) by (simp_all add: header_mac_message_def codec)
  then have "length slots = length slots'"
    using assms(3,4) by (simp add: word_of_nat_eq_iff_small)
  then show ?thesis
    using header_slot_code.concat_eq_iff [OF _ assms(1,2)] body by (simp add: codec)
qed

section \<open>Properties\<close>

text \<open>
  The associated data of a wrap determines the slot's factor, KDF with its parameters, salt,
  partition, generation and id, so a wrapped DEK authenticates all of them.
\<close>

theorem keyslot_aad_binds_slot:
  assumes "slot_bounded s" "slot_bounded t" "keyslot_aad s = keyslot_aad t"
  shows "ks_factor s = ks_factor t \<and> ks_kdf s = ks_kdf t \<and> ks_salt s = ks_salt t
    \<and> ks_usb_partition_uuid s = ks_usb_partition_uuid t
    \<and> ks_dek_generation s = ks_dek_generation t \<and> ks_id s = ks_id t"
  using keyslot_aad_eq [OF assms] by simp

definition sample_slot :: keyslot where
  "sample_slot = \<lparr>ks_id = 8, ks_factor = Usb, ks_label = ''usb'', ks_kdf = HkdfSha256,
     ks_salt = replicate 32 0x22, ks_usb_partition_uuid = Some ''1234-ABCD'',
     ks_wrap_nonce = replicate 24 7, ks_wrapped_dek = replicate 48 9, ks_dek_generation = 1,
     ks_enabled = True\<rparr>"

lemma sample_slot_bounded: "slot_bounded sample_slot"
  by (simp add: slot_bounded_def sample_slot_def keyslot_aad_def len_prefixed_def KEYSLOT_AAD_DOMAIN_def)

theorem keyslot_aad_binds_slot_witness:
  "ks_id (sample_slot\<lparr>ks_label := ''other'', ks_enabled := False\<rparr>) = ks_id sample_slot"
proof -
  let ?t = "sample_slot\<lparr>ks_label := ''other'', ks_enabled := False\<rparr>"
  have aad: "keyslot_aad ?t = keyslot_aad sample_slot" by (simp add: keyslot_aad_def)
  then have "slot_bounded ?t"
    using sample_slot_bounded by (simp add: slot_bounded_def)
  from keyslot_aad_binds_slot [OF this sample_slot_bounded aad] show ?thesis by blast
qed

text \<open>
  C37: a header MAC that verifies for another slot set or issuance floor would be a collision of the
  keyed hash: without one on the two messages, adding, removing, reordering or changing a slot, or
  moving the floor, is refused.
\<close>

theorem header_mac_detects_tampering:
  assumes "\<forall>s\<in>set slots. slot_bounded s" "\<forall>s\<in>set slots'. slot_bounded s"
    and "length slots < 2 ^ 64" "length slots' < 2 ^ 64"
    and no_collision: "inj_on (blake3_keyed_hash cr (blake3_derive_key cr HEADER_MAC_KEY_INFO dek))
      {header_mac_message slots floor, header_mac_message slots' floor'}"
    and "verify_header_mac cr dek slots' floor' (header_mac cr dek slots floor)"
  shows "slots' = slots \<and> floor' = floor"
proof -
  have "blake3_keyed_hash cr (blake3_derive_key cr HEADER_MAC_KEY_INFO dek) (header_mac_message slots floor)
      = blake3_keyed_hash cr (blake3_derive_key cr HEADER_MAC_KEY_INFO dek) (header_mac_message slots' floor')"
    using assms(6) by (simp add: verify_header_mac_def header_mac_def Let_def)
  then have "header_mac_message slots floor = header_mac_message slots' floor'"
    using inj_onD [OF no_collision] by blast
  then show ?thesis
    using header_mac_message_inj [OF assms(1-4)] by blast
qed

theorem header_mac_detects_tampering_witness:
  "\<not> verify_header_mac (toy_crypto\<lparr>blake3_keyed_hash := (\<lambda>k m. k @ m)\<rparr>) [] [] 5
      (header_mac (toy_crypto\<lparr>blake3_keyed_hash := (\<lambda>k m. k @ m)\<rparr>) [] [sample_slot] 5)"
    (is "\<not> verify_header_mac ?cr [] [] 5 _")
proof
  assume verified: "verify_header_mac ?cr [] [] 5 (header_mac ?cr [] [sample_slot] 5)"
  have bounded: "\<forall>s\<in>set [sample_slot]. slot_bounded s" "\<forall>s\<in>set []. slot_bounded s"
    by (simp_all add: sample_slot_bounded)
  have "inj_on (blake3_keyed_hash ?cr (blake3_derive_key ?cr HEADER_MAC_KEY_INFO []))
      {header_mac_message [sample_slot] 5, header_mac_message [] 5}"
    by (simp add: inj_on_def)
  from header_mac_detects_tampering [OF bounded _ _ this verified] show False by simp
qed

text \<open>Unwrapping a wrapped DEK under the same KEK and slot data recovers it.\<close>

theorem unwrap_wrap_dek:
  assumes "aead_inverts cr" "length kek = 32" "length nonce = 24" "length dek = 32"
    and "wrap_dek cr nonce kek dek aad = (n, wrapped)"
  shows "unwrap_dek cr kek n wrapped aad = Some dek"
  using assms by (auto simp: wrap_dek_def unwrap_dek_def aead_invertsD)

theorem unwrap_wrap_dek_witness:
  "unwrap_dek toy_crypto (replicate 32 1) (replicate 24 2)
     (snd (wrap_dek toy_crypto (replicate 24 2) (replicate 32 1) (replicate 32 3) [4])) [4]
   = Some (replicate 32 3)"
  by (rule unwrap_wrap_dek [OF toy_aead_inverts]) (simp_all add: wrap_dek_def)

lemma unwrap_dek_wrong_aad:
  assumes "aead_binds_aad cr" "aad' \<noteq> aad"
  shows "unwrap_dek cr kek nonce (snd (wrap_dek cr nonce kek dek aad)) aad' = None"
  using assms by (simp add: wrap_dek_def unwrap_dek_def aead_binds_aad_def)

lemma unwrap_dek_SomeD: "unwrap_dek cr kek n w aad = Some d \<Longrightarrow> length d = 32 \<and> length n = 24"
  by (auto simp: unwrap_dek_def split: option.splits if_splits)

end
