(* ===== verification/AuditLog.thy ===== *)
theory AuditLog
  imports External
begin

text \<open>
  The hash-chained audit log (\<open>crates/secrets-engine/src/event.rs\<close> for the record,
  \<open>vault/audit.rs\<close> for the chain): the canonical bytes of a row, the row hash, linking a new row to
  the tail, and the verification walk. The hash is the parameter \<open>blake3_hash\<close>.
\<close>

datatype audit_outcome = Ok | Refused | Failed

record audit_record =
  ar_seq :: i64
  ar_ts :: string
  ar_actor_uid :: "u32 option"
  ar_event_type :: string
  ar_subject :: "string option"
  ar_detail :: json
  ar_outcome :: audit_outcome
  ar_prev_hash :: bytes
  ar_row_hash :: bytes

definition AUDIT_ROW_DOMAIN :: bytes where
  "AUDIT_ROW_DOMAIN = str_bytes ''env-ctl/v1/audit-row''"

definition genesis_hash :: "crypto \<Rightarrow> bytes" where
  "genesis_hash cr = blake3_hash cr (str_bytes ''env-ctl/v1/audit-genesis'')"

fun outcome_byte :: "audit_outcome \<Rightarrow> byte" where
  "outcome_byte Ok = 0x01"
| "outcome_byte Refused = 0x02"
| "outcome_byte Failed = 0x03"

fun actor_field :: "u32 option \<Rightarrow> bytes" where
  "actor_field (Some uid) = 0x01 # be32 uid"
| "actor_field None = 0x00 # be32 0"

fun subject_field :: "string option \<Rightarrow> bytes" where
  "subject_field (Some s) = 0x01 # len_prefixed (str_bytes s)"
| "subject_field None = [0x00]"

definition canonical_row :: "crypto \<Rightarrow> audit_record \<Rightarrow> bytes" where
  "canonical_row cr rec =
     AUDIT_ROW_DOMAIN @ be64 (ar_seq rec) @ len_prefixed (str_bytes (ar_ts rec))
     @ actor_field (ar_actor_uid rec) @ len_prefixed (str_bytes (ar_event_type rec))
     @ subject_field (ar_subject rec) @ len_prefixed (json_to_vec cr (ar_detail rec))
     @ [outcome_byte (ar_outcome rec)]"

definition row_hash :: "crypto \<Rightarrow> bytes \<Rightarrow> audit_record \<Rightarrow> bytes" where
  "row_hash cr prev_hash rec = blake3_hash cr (prev_hash @ canonical_row cr rec)"

definition new_row ::
  "string \<Rightarrow> u32 option \<Rightarrow> string \<Rightarrow> string option \<Rightarrow> json \<Rightarrow> audit_outcome \<Rightarrow> audit_record" where
  "new_row ts actor_uid event_type subject detail outcome =
     \<lparr>ar_seq = 0, ar_ts = ts, ar_actor_uid = actor_uid, ar_event_type = event_type,
      ar_subject = subject, ar_detail = detail, ar_outcome = outcome,
      ar_prev_hash = [], ar_row_hash = []\<rparr>"

definition link_row :: "crypto \<Rightarrow> audit_record option \<Rightarrow> audit_record \<Rightarrow> audit_record" where
  "link_row cr prev rec =
     (let rec = rec\<lparr>ar_seq := (case prev of Some r \<Rightarrow> ar_seq r | None \<Rightarrow> 0) + 1\<rparr>;
          rec = rec\<lparr>ar_prev_hash := (case prev of Some p \<Rightarrow> ar_row_hash p | None \<Rightarrow> genesis_hash cr)\<rparr>
      in rec\<lparr>ar_row_hash := row_hash cr (ar_prev_hash rec) rec\<rparr>)"

text \<open>The walk: the position, the hash expected of the previous row, and the rows still to check.\<close>

fun verify_rows :: "crypto \<Rightarrow> nat \<Rightarrow> bytes \<Rightarrow> audit_record list \<Rightarrow> i64 + unit" where
  "verify_rows cr i prev_hash [] = Inr ()"
| "verify_rows cr i prev_hash (row # rows) =
     (let expected_seq = word_of_nat i + 1 in
      if ar_seq row \<noteq> expected_seq then Inl (ar_seq row)
      else if ar_prev_hash row \<noteq> prev_hash then Inl (ar_seq row)
      else if ar_row_hash row \<noteq> row_hash cr (ar_prev_hash row) row then Inl (ar_seq row)
      else verify_rows cr (Suc i) (ar_row_hash row) rows)"

definition verify_chain :: "crypto \<Rightarrow> audit_record list \<Rightarrow> i64 + unit" where
  "verify_chain cr rows = verify_rows cr 0 (genesis_hash cr) rows"

text \<open>The tail of a log, as \<open>last()\<close> of a vector.\<close>

definition last_row :: "audit_record list \<Rightarrow> audit_record option" where
  "last_row rows = (if rows = [] then None else Some (last rows))"

text \<open>A row as \<open>append_audit\<close> stores it, and a log grown only by appending.\<close>

definition append_row :: "crypto \<Rightarrow> audit_record list \<Rightarrow> audit_record \<Rightarrow> audit_record list" where
  "append_row cr rows rec = rows @ [link_row cr (last_row rows) rec]"

definition build_chain :: "crypto \<Rightarrow> audit_record list \<Rightarrow> audit_record list" where
  "build_chain cr recs = foldl (append_row cr) [] recs"

section \<open>Canonical rows are unambiguous\<close>

text \<open>Fields short enough for their 32-bit length prefixes.\<close>

definition row_bounded :: "crypto \<Rightarrow> audit_record \<Rightarrow> bool" where
  "row_bounded cr r \<longleftrightarrow>
     length (ar_ts r) < 4294967296 \<and> length (ar_event_type r) < 4294967296
     \<and> (\<forall>s\<in>set_option (ar_subject r). length s < 4294967296)
     \<and> length (json_to_vec cr (ar_detail r)) < 4294967296"

text \<open>What a row says: everything but the hashes, the detail as the JSON that is hashed and stored.\<close>

definition row_content ::
  "crypto \<Rightarrow> audit_record \<Rightarrow> i64 \<times> string \<times> u32 option \<times> string \<times> string option \<times> bytes \<times> audit_outcome" where
  "row_content cr r = (ar_seq r, ar_ts r, ar_actor_uid r, ar_event_type r, ar_subject r,
     json_to_vec cr (ar_detail r), ar_outcome r)"

lemma outcome_byte_eq_iff [simp]: "outcome_byte a = outcome_byte b \<longleftrightarrow> a = b"
  by (cases a; cases b) auto

interpretation actor_code: fixed_code 5 actor_field
proof unfold_locales
  show "length (actor_field x) = 5" for x by (cases x) simp_all
  show "actor_field x = actor_field y \<Longrightarrow> x = y" for x y
    by (cases x; cases y) (auto simp: codec)
qed

interpretation subject_code: prefix_code "\<lambda>x. \<forall>s\<in>set_option x. length s < 4294967296" subject_field
proof unfold_locales
  fix x y :: "string option" and r s
  assume "\<forall>s\<in>set_option x. length s < 4294967296" "\<forall>s\<in>set_option y. length s < 4294967296"
    and "subject_field x @ r = subject_field y @ s"
  then show "x = y \<and> r = s"
    by (cases x; cases y) (auto simp: len_code.append_eq_iff)
qed

lemma canonical_row_eq_iff:
  assumes "row_bounded cr r" "row_bounded cr s"
  shows "canonical_row cr r = canonical_row cr s \<longleftrightarrow> row_content cr r = row_content cr s"
  using assms
  by (simp add: canonical_row_def row_content_def row_bounded_def codec actor_code.append_eq_iff
      subject_code.append_eq_iff len_code.append_eq_iff len_code.eq_iff)

section \<open>Linking and verifying agree\<close>

lemma last_row_snoc [simp]: "last_row (rows @ [r]) = Some r"
  by (simp add: last_row_def)

lemma last_row_Nil [simp]: "last_row [] = None"
  by (simp add: last_row_def)

lemma last_row_None_iff [simp]: "last_row rows = None \<longleftrightarrow> rows = []"
  by (simp add: last_row_def)

lemma append_row_not_Nil [simp]: "append_row cr rows r \<noteq> []"
  by (simp add: append_row_def)

lemma last_row_append_row [simp]: "last_row (append_row cr rows r) = Some (link_row cr (last_row rows) r)"
  by (simp add: append_row_def)

definition tail_hash :: "crypto \<Rightarrow> audit_record list \<Rightarrow> bytes" where
  "tail_hash cr rows = (case last_row rows of Some p \<Rightarrow> ar_row_hash p | None \<Rightarrow> genesis_hash cr)"

lemma tail_hash_simps [simp]:
  "tail_hash cr [] = genesis_hash cr"
  "tail_hash cr (rows @ [r]) = ar_row_hash r"
  by (simp_all add: tail_hash_def)

lemma verify_rows_append:
  "verify_rows cr i h (xs @ ys) =
     (case verify_rows cr i h xs of
        Inl e \<Rightarrow> Inl e
      | Inr _ \<Rightarrow> verify_rows cr (i + length xs) (if xs = [] then h else ar_row_hash (last xs)) ys)"
  by (induction xs arbitrary: i h) (auto simp: Let_def split: sum.split)

lemma verify_chain_Nil [simp]: "verify_chain cr [] = Inr ()"
  by (simp add: verify_chain_def)

lemma verify_chain_append:
  "verify_chain cr (xs @ ys) =
     (case verify_chain cr xs of
        Inl e \<Rightarrow> Inl e
      | Inr _ \<Rightarrow> verify_rows cr (length xs) (tail_hash cr xs) ys)"
  by (auto simp: verify_chain_def verify_rows_append tail_hash_def last_row_def split: sum.splits)

lemma verify_chain_snoc:
  "verify_chain cr (rows @ [r]) = Inr () \<longleftrightarrow>
     verify_chain cr rows = Inr () \<and> ar_seq r = word_of_nat (length rows) + 1
     \<and> ar_prev_hash r = tail_hash cr rows \<and> ar_row_hash r = row_hash cr (ar_prev_hash r) r"
  by (auto simp: verify_chain_append Let_def split: sum.splits)

lemma verified_seq:
  "verify_chain cr rows = Inr () \<Longrightarrow> (case last_row rows of Some r \<Rightarrow> ar_seq r | None \<Rightarrow> 0) = word_of_nat (length rows)"
  by (cases rows rule: rev_cases) (auto simp: verify_chain_snoc)

lemma verified_prefix: "verify_chain cr (xs @ ys) = Inr () \<Longrightarrow> verify_chain cr xs = Inr ()"
  by (simp add: verify_chain_append split: sum.splits)

lemma canonical_row_hashes [simp]:
  "canonical_row cr (r\<lparr>ar_prev_hash := p\<rparr>) = canonical_row cr r"
  "canonical_row cr (r\<lparr>ar_row_hash := h\<rparr>) = canonical_row cr r"
  by (simp_all add: canonical_row_def)

lemma link_row_fields:
  "ar_seq (link_row cr prev r) = (case prev of Some p \<Rightarrow> ar_seq p | None \<Rightarrow> 0) + 1"
  "ar_prev_hash (link_row cr prev r) = (case prev of Some p \<Rightarrow> ar_row_hash p | None \<Rightarrow> genesis_hash cr)"
  "ar_row_hash (link_row cr prev r) = row_hash cr (ar_prev_hash (link_row cr prev r)) (link_row cr prev r)"
  "ar_ts (link_row cr prev r) = ar_ts r"
  "ar_actor_uid (link_row cr prev r) = ar_actor_uid r"
  "ar_event_type (link_row cr prev r) = ar_event_type r"
  "ar_subject (link_row cr prev r) = ar_subject r"
  "ar_detail (link_row cr prev r) = ar_detail r"
  "ar_outcome (link_row cr prev r) = ar_outcome r"
  by (simp_all add: link_row_def row_hash_def Let_def split: option.split)

lemma verify_append_row: "verify_chain cr rows = Inr () \<Longrightarrow> verify_chain cr (append_row cr rows r) = Inr ()"
  using verified_seq [of cr rows]
  by (simp add: append_row_def verify_chain_snoc link_row_fields tail_hash_def)

lemma length_append_row [simp]: "length (append_row cr rows r) = Suc (length rows)"
  by (simp add: append_row_def)

lemma relink_verified_row:
  assumes "verify_chain cr (rows @ [r]) = Inr ()"
  shows "link_row cr (last_row rows) r = r"
proof -
  have v: "verify_chain cr rows = Inr ()" "ar_seq r = word_of_nat (length rows) + 1"
    "ar_prev_hash r = tail_hash cr rows" "ar_row_hash r = row_hash cr (ar_prev_hash r) r"
    using assms by (simp_all add: verify_chain_snoc)
  have "ar_seq r = (case last_row rows of Some p \<Rightarrow> ar_seq p | None \<Rightarrow> 0) + 1"
    using verified_seq [OF v(1)] v(2) by simp
  moreover have "ar_prev_hash r = (case last_row rows of Some p \<Rightarrow> ar_row_hash p | None \<Rightarrow> genesis_hash cr)"
    using v(3) by (simp add: tail_hash_def)
  ultimately show ?thesis
    using v(4) by (intro audit_record.equality) (simp_all add: link_row_fields row_hash_def canonical_row_def)
qed

lemma build_chain_snoc: "build_chain cr (rows @ [r]) = append_row cr (build_chain cr rows) r"
  by (simp add: build_chain_def)

text \<open>
  C25: a log verifies exactly when it is the log that appending its own rows, one after the other,
  would have produced: linking and verification are two sides of one chain.
\<close>

theorem verify_chain_iff_built: "verify_chain cr rows = Inr () \<longleftrightarrow> build_chain cr rows = rows"
proof (induction rows rule: rev_induct)
  case Nil
  then show ?case by (simp add: build_chain_def)
next
  case (snoc r rows)
  show ?case
  proof
    assume v: "verify_chain cr (rows @ [r]) = Inr ()"
    then have "build_chain cr rows = rows" using snoc.IH verified_prefix by blast
    with relink_verified_row [OF v] show "build_chain cr (rows @ [r]) = rows @ [r]"
      by (simp add: build_chain_snoc append_row_def)
  next
    assume b: "build_chain cr (rows @ [r]) = rows @ [r]"
    then have "build_chain cr rows = rows"
      by (simp add: build_chain_snoc append_row_def)
    with snoc.IH have "verify_chain cr rows = Inr ()" by simp
    then have "verify_chain cr (append_row cr rows r) = Inr ()" by (rule verify_append_row)
    with b \<open>build_chain cr rows = rows\<close> show "verify_chain cr (rows @ [r]) = Inr ()"
      by (simp add: build_chain_snoc)
  qed
qed

lemma build_chain_verifies: "verify_chain cr (build_chain cr recs) = Inr ()"
  by (induction recs rule: rev_induct) (simp_all add: build_chain_def verify_append_row)

lemma tail_hash_32:
  assumes "verify_chain cr rows = Inr ()" "\<forall>m. length (blake3_hash cr m) = 32"
  shows "length (tail_hash cr rows) = 32"
  using assms
  by (cases rows rule: rev_cases) (simp_all add: verify_chain_snoc genesis_hash_def row_hash_def)

text \<open>Induction over two lists of the same length from the back.\<close>

lemma rev_induct2 [consumes 1, case_names Nil snoc]:
  assumes "length xs = length ys" and "P [] []"
    and "\<And>x xs y ys. length xs = length ys \<Longrightarrow> P xs ys \<Longrightarrow> P (xs @ [x]) (ys @ [y])"
  shows "P xs ys"
  using assms(1)
proof (induction xs arbitrary: ys rule: rev_induct)
  case Nil
  then show ?case using assms(2) by simp
next
  case (snoc x xs)
  then show ?case using assms(3) by (cases ys rule: rev_cases) auto
qed

section \<open>What the chain detects\<close>

definition hash_input :: "crypto \<Rightarrow> audit_record \<Rightarrow> bytes" where
  "hash_input cr r = ar_prev_hash r @ canonical_row cr r"

text \<open>
  An edit of one row of a verified log that leaves its stored hash is detected at that row: the
  walk returns the sequence number of the edited row, unless the two row contents collide.
\<close>

theorem edited_row_detected:
  assumes "verify_chain cr (xs @ r # ys) = Inr ()"
    and "row_bounded cr r" "row_bounded cr r'"
    and "row_content cr r' \<noteq> row_content cr r" "ar_row_hash r' = ar_row_hash r"
    and no_collision: "inj_on (blake3_hash cr) {hash_input cr r, hash_input cr r'}"
  shows "verify_chain cr (xs @ r' # ys) = Inl (ar_seq r')"
proof -
  have xs: "verify_chain cr xs = Inr ()" and r: "ar_prev_hash r = tail_hash cr xs"
    "ar_row_hash r = row_hash cr (ar_prev_hash r) r"
    using assms(1) by (simp_all add: verify_chain_append Let_def split: sum.splits if_splits)
  have "ar_row_hash r' \<noteq> row_hash cr (ar_prev_hash r') r'" if "ar_prev_hash r' = tail_hash cr xs"
  proof
    assume "ar_row_hash r' = row_hash cr (ar_prev_hash r') r'"
    with r assms(5) have "blake3_hash cr (hash_input cr r) = blake3_hash cr (hash_input cr r')"
      by (simp add: row_hash_def hash_input_def)
    then have "hash_input cr r = hash_input cr r'"
      by (rule inj_onD [OF no_collision]) simp_all
    with r that have "canonical_row cr r = canonical_row cr r'"
      by (simp add: hash_input_def)
    with assms(2-4) show False by (simp add: canonical_row_eq_iff)
  qed
  with xs show ?thesis by (simp add: verify_chain_append)
qed

definition sample_row :: audit_record where
  "sample_row = new_row ''2026-06-02T00:00:00Z'' (Some 1000) ''vault_unlocked'' (Some ''claude'') JNull Ok"

lemma sample_row_simps [simp]:
  "ar_ts sample_row = ''2026-06-02T00:00:00Z''" "ar_event_type sample_row = ''vault_unlocked''"
  "ar_subject sample_row = Some ''claude''" "ar_detail sample_row = JNull" "ar_outcome sample_row = Ok"
  "ar_actor_uid sample_row = Some 1000"
  by (simp_all add: sample_row_def new_row_def)

theorem edited_row_detected_witness:
  "verify_chain (toy_crypto\<lparr>blake3_hash := (\<lambda>m. m), json_to_vec := (\<lambda>_. [])\<rparr>)
     [(link_row (toy_crypto\<lparr>blake3_hash := (\<lambda>m. m), json_to_vec := (\<lambda>_. [])\<rparr>) None sample_row)
        \<lparr>ar_subject := Some ''mallory''\<rparr>] = Inl 1"
    (is "verify_chain ?cr [?r\<lparr>ar_subject := _\<rparr>] = _")
proof -
  have v: "verify_chain ?cr ([] @ ?r # []) = Inr ()"
    using verify_append_row [of ?cr "[]" sample_row] by (simp add: append_row_def)
  have "verify_chain ?cr ([] @ (?r\<lparr>ar_subject := Some ''mallory''\<rparr>) # [])
      = Inl (ar_seq (?r\<lparr>ar_subject := Some ''mallory''\<rparr>))"
    by (rule edited_row_detected [OF v])
      (simp_all add: row_bounded_def row_content_def link_row_fields inj_on_def)
  then show ?thesis by (simp add: link_row_fields)
qed

text \<open>
  C26: the hash of the last row commits to the whole log. Two verified logs of the same length with
  the same tail hash have the same rows, unless two hashed rows collide.
\<close>

theorem tail_hash_commits_to_log:
  assumes "verify_chain cr rows = Inr ()" "verify_chain cr rows' = Inr ()"
    and "length rows = length rows'" "tail_hash cr rows = tail_hash cr rows'"
    and "\<forall>r\<in>set rows \<union> set rows'. row_bounded cr r"
    and hash32: "\<forall>m. length (blake3_hash cr m) = 32"
    and no_collision: "inj_on (blake3_hash cr) (hash_input cr ` (set rows \<union> set rows'))"
  shows "map (row_content cr) rows = map (row_content cr) rows' \<and> map ar_row_hash rows = map ar_row_hash rows'"
  using assms(3,1,2,4,5) no_collision
proof (induction rows rows' rule: rev_induct2)
  case Nil
  then show ?case by simp
next
  case (snoc r rows r' rows')
  have v: "verify_chain cr rows = Inr ()" "ar_prev_hash r = tail_hash cr rows" "ar_row_hash r = row_hash cr (ar_prev_hash r) r"
    "verify_chain cr rows' = Inr ()" "ar_prev_hash r' = tail_hash cr rows'" "ar_row_hash r' = row_hash cr (ar_prev_hash r') r'"
    using snoc.prems(1,2) by (simp_all add: verify_chain_snoc)
  have len: "length (tail_hash cr rows) = 32" "length (tail_hash cr rows') = 32"
    using v hash32 by (simp_all add: tail_hash_32)
  have "blake3_hash cr (hash_input cr r) = blake3_hash cr (hash_input cr r')"
    using v snoc.prems(3) by (simp add: row_hash_def hash_input_def)
  then have "hash_input cr r = hash_input cr r'"
    by (rule inj_onD [OF snoc.prems(5)]) simp_all
  then have split: "tail_hash cr rows = tail_hash cr rows'" "canonical_row cr r = canonical_row cr r'"
    using len v by (simp_all add: hash_input_def)
  have "map (row_content cr) rows = map (row_content cr) rows' \<and> map ar_row_hash rows = map ar_row_hash rows'"
    using snoc.IH [OF v(1) v(4) split(1)] snoc.prems(4,5) by (auto simp: inj_on_def)
  moreover have "row_content cr r = row_content cr r'"
    using split(2) snoc.prems(4) by (simp add: canonical_row_eq_iff)
  ultimately show ?case using snoc.prems(3) by simp
qed

theorem tail_hash_commits_to_log_witness:
  "tail_hash (toy_crypto\<lparr>blake3_hash := (\<lambda>m. replicate 31 0 @ [word_of_nat (length m)]), json_to_vec := (\<lambda>_. [])\<rparr>)
     (build_chain (toy_crypto\<lparr>blake3_hash := (\<lambda>m. replicate 31 0 @ [word_of_nat (length m)]), json_to_vec := (\<lambda>_. [])\<rparr>)
       [sample_row])
   \<noteq> tail_hash (toy_crypto\<lparr>blake3_hash := (\<lambda>m. replicate 31 0 @ [word_of_nat (length m)]), json_to_vec := (\<lambda>_. [])\<rparr>)
     (build_chain (toy_crypto\<lparr>blake3_hash := (\<lambda>m. replicate 31 0 @ [word_of_nat (length m)]), json_to_vec := (\<lambda>_. [])\<rparr>)
       [sample_row\<lparr>ar_subject := None\<rparr>])"
    (is "tail_hash ?cr ?rows \<noteq> tail_hash ?cr ?rows'")
proof
  assume eq: "tail_hash ?cr ?rows = tail_hash ?cr ?rows'"
  let ?r = "link_row ?cr None sample_row" and ?r' = "link_row ?cr None (sample_row\<lparr>ar_subject := None\<rparr>)"
  have rows: "?rows = [?r]" "?rows' = [?r']"
    by (simp_all add: build_chain_def append_row_def)
  have bounded: "\<forall>r\<in>set ?rows \<union> set ?rows'. row_bounded ?cr r"
    by (simp add: rows row_bounded_def link_row_fields)
  have len: "length (hash_input ?cr ?r) = 123" "length (hash_input ?cr ?r') = 113"
    by (simp_all add: hash_input_def canonical_row_def link_row_fields genesis_hash_def
        AUDIT_ROW_DOMAIN_def len_prefixed_def)
  have "inj_on (blake3_hash ?cr) (hash_input ?cr ` (set ?rows \<union> set ?rows'))"
    unfolding rows by (simp add: inj_on_def len)
  from tail_hash_commits_to_log [OF build_chain_verifies build_chain_verifies _ eq bounded _ this]
  show False by (simp add: rows row_content_def link_row_fields)
qed

end
