(* ===== verification/Store.thy ===== *)
theory Store
  imports Errors Actions Tables Policy Keyslot AuditLog "HOL-Library.List_Lexorder" "HOL-Library.Char_ord"
begin

text \<open>
  The vault's persistence surface and its in-memory implementation
  (\<open>crates/secrets-engine/src/vault/store.rs\<close>). The mutex is not modelled: each method is one
  critical section, and no code panics inside one, so it is never poisoned. Each method is an action
  on the guarded data. Vectors searched from the front use \<open>upsert\<close> and \<open>find_by\<close>, the B-tree of
  keyslots uses \<open>insert_by\<close>, so the laws of the locale \<open>keyed_table\<close> apply to them.
\<close>

section \<open>Rows\<close>

record secret_row =
  sr_row_id :: i64
  sr_name :: string
  sr_version :: u32
  sr_provider :: provider
  sr_note :: string
  sr_broker_only :: bool
  sr_dek_generation :: i64
  sr_nonce :: bytes
  sr_ct_tag :: bytes
  sr_created_ts :: string

record relay_policy_row =
  rr_id :: i64
  rr_policy :: relay_policy

record bearer_row =
  br_token_id :: string
  br_policy_id :: i64
  br_mac :: bytes
  br_expires_at_ms :: i64
  br_issued_at_ms :: i64
  br_issued_boottime_ms :: i64
  br_client_uid :: "u32 option"
  br_client_pid :: "u32 option"
  br_client_id :: "string option"
  br_dpop_jkt :: "bytes option"
  br_revoked :: bool
  br_row_mac :: bytes

record cert_row =
  cw_serial :: string
  cw_cn :: string
  cw_not_after :: string
  cw_der :: bytes

record remote_client =
  rc_client_id :: string
  rc_dpop_jkt :: bytes
  rc_enabled :: bool
  rc_hardware_bound :: bool
  rc_created_at_ms :: i64
  rc_revoked_at_ms :: "i64 option"

section \<open>The guarded data\<close>

record in_mem_data =
  sd_meta :: "string \<rightharpoonup> string"
  sd_secrets :: "secret_row list"
  sd_keyslots :: "keyslot list"
  sd_audit :: "audit_record list"
  sd_next_secret_row_id :: i64
  sd_relays :: "relay_policy_row list"
  sd_bearers :: "bearer_row list"
  sd_remote_clients :: "remote_client list"
  sd_certs :: "cert_row list"

definition empty_store :: in_mem_data where
  "empty_store =
     \<lparr>sd_meta = Map.empty, sd_secrets = [], sd_keyslots = [], sd_audit = [], sd_next_secret_row_id = 0,
      sd_relays = [], sd_bearers = [], sd_remote_clients = [], sd_certs = []\<rparr>"

type_synonym 'a store_op = "(in_mem_data, any_error, 'a) act"

section \<open>Meta values\<close>

definition get_meta :: "string \<Rightarrow> string option store_op" where
  "get_meta k = gets_act (\<lambda>g. sd_meta g k)"

definition put_meta :: "string \<Rightarrow> string \<Rightarrow> unit store_op" where
  "put_meta k v = modify_act (\<lambda>g. g\<lparr>sd_meta := (sd_meta g)(k \<mapsto> v)\<rparr>)"

section \<open>Secrets\<close>

definition reserve_secret_row_id :: "i64 store_op" where
  "reserve_secret_row_id =
     (\<lambda>g. let g = g\<lparr>sd_next_secret_row_id := sd_next_secret_row_id g + 1\<rparr> in (Inr (sd_next_secret_row_id g), g))"

text \<open>The versions stored under a name, their maximum, and the version a new row must carry.\<close>

definition versions_of :: "string \<Rightarrow> in_mem_data \<Rightarrow> u32 list" where
  "versions_of name g = map sr_version (filter (\<lambda>r. sr_name r = name) (sd_secrets g))"

fun max_version :: "u32 list \<Rightarrow> u32 option" where
  "max_version [] = None"
| "max_version (v # vs) = (case max_version vs of None \<Rightarrow> Some v | Some m \<Rightarrow> Some (max v m))"

definition expected_version :: "string \<Rightarrow> in_mem_data \<Rightarrow> u32" where
  "expected_version name g = (case max_version (versions_of name g) of None \<Rightarrow> 1 | Some m \<Rightarrow> m + 1)"

definition put_secret :: "secret_row \<Rightarrow> i64 store_op" where
  "put_secret row =
     (\<lambda>g. if i64_le (sr_row_id row) 0 \<or> i64_lt (sd_next_secret_row_id g) (sr_row_id row) then
            (Inl (SecretRowIdNotReserved (sr_row_id row) (sd_next_secret_row_id g)), g)
          else if \<exists>r\<in>set (sd_secrets g). sr_row_id r = sr_row_id row then
            (Inl (SecretRowIdCollides (sr_row_id row)), g)
          else if sr_version row \<noteq> expected_version (sr_name row) g then
            (Inl (SecretVersionNotNext (sr_version row) (sr_name row) (expected_version (sr_name row) g)), g)
          else (Inr (sr_row_id row), g\<lparr>sd_secrets := sd_secrets g @ [row]\<rparr>))"

text \<open>\<open>max_by_key\<close>: the last row with the greatest version.\<close>

fun last_max :: "secret_row list \<Rightarrow> secret_row option" where
  "last_max [] = None"
| "last_max (r # rs) =
     (case last_max rs of
        None \<Rightarrow> Some r
      | Some m \<Rightarrow> if sr_version r \<le> sr_version m then Some m else Some r)"

definition get_secret_latest :: "string \<Rightarrow> secret_row option store_op" where
  "get_secret_latest name = gets_act (\<lambda>g. last_max (filter (\<lambda>r. sr_name r = name) (sd_secrets g)))"

definition get_secret_version :: "string \<Rightarrow> u32 \<Rightarrow> secret_row option store_op" where
  "get_secret_version name version =
     gets_act (\<lambda>g. find (\<lambda>r. sr_name r = name \<and> sr_version r = version) (sd_secrets g))"

definition max_secret_version :: "string \<Rightarrow> u32 store_op" where
  "max_secret_version name =
     gets_act (\<lambda>g. case max_version (versions_of name g) of None \<Rightarrow> 0 | Some m \<Rightarrow> m)"

definition list_secret_names :: "string list store_op" where
  "list_secret_names = gets_act (\<lambda>g. remdups_adj (sort (map sr_name (sd_secrets g))))"

definition list_secret_versions :: "string \<Rightarrow> u32 list store_op" where
  "list_secret_versions name = gets_act (\<lambda>g. sort (versions_of name g))"

section \<open>Keyslots\<close>

definition keyslot_key :: "keyslot \<Rightarrow> int" where
  "keyslot_key slot = sint (ks_id slot)"

definition save_keyslot :: "keyslot \<Rightarrow> unit store_op" where
  "save_keyslot slot = modify_act (\<lambda>g. g\<lparr>sd_keyslots := insert_by keyslot_key slot (sd_keyslots g)\<rparr>)"

definition load_keyslots :: "keyslot list store_op" where
  "load_keyslots = gets_act sd_keyslots"

definition load_keyslot :: "i64 \<Rightarrow> keyslot option store_op" where
  "load_keyslot slot_id = gets_act (\<lambda>g. find_by keyslot_key (sint slot_id) (sd_keyslots g))"

section \<open>Audit\<close>

definition append_audit :: "crypto \<Rightarrow> audit_record \<Rightarrow> i64 store_op" where
  "append_audit cr rec =
     (\<lambda>g. let sealed = link_row cr (last_row (sd_audit g)) rec in
          (Inr (ar_seq sealed), g\<lparr>sd_audit := sd_audit g @ [sealed]\<rparr>))"

definition verify_audit_chain :: "crypto \<Rightarrow> unit store_op" where
  "verify_audit_chain cr =
     (\<lambda>g. case verify_chain cr (sd_audit g) of
            Inl seq \<Rightarrow> (Inl (Engine (AuditChainBroken seq)), g)
          | Inr _ \<Rightarrow> (Inr (), g))"

definition last_audit :: "audit_record option store_op" where
  "last_audit = gets_act (\<lambda>g. last_row (sd_audit g))"

definition query_audit :: "i64 \<Rightarrow> nat \<Rightarrow> audit_record list store_op" where
  "query_audit since_seq limit =
     gets_act (\<lambda>g. take limit (filter (\<lambda>r. i64_lt since_seq (ar_seq r)) (sd_audit g)))"

section \<open>Relay policies and bearers\<close>

definition relay_key :: "relay_policy_row \<Rightarrow> string" where
  "relay_key r = rp_relay_id (rr_policy r)"

fun max_i64 :: "i64 list \<Rightarrow> i64 option" where
  "max_i64 [] = None"
| "max_i64 (v # vs) = (case max_i64 vs of None \<Rightarrow> Some v | Some m \<Rightarrow> Some (i64_max_of v m))"

definition assigned_relay_id :: "relay_policy_row \<Rightarrow> relay_policy_row list \<Rightarrow> i64" where
  "assigned_relay_id row relays =
     (if rr_id row \<noteq> 0 then rr_id row
      else case find_by relay_key (relay_key row) relays of
        Some existing \<Rightarrow> rr_id existing
      | None \<Rightarrow> (case max_i64 (map rr_id relays) of None \<Rightarrow> 0 | Some m \<Rightarrow> m) + 1)"

definition save_relay_policy :: "relay_policy_row \<Rightarrow> i64 store_op" where
  "save_relay_policy row =
     (\<lambda>g. let new_id = assigned_relay_id row (sd_relays g) in
          (Inr new_id, g\<lparr>sd_relays := upsert relay_key (row\<lparr>rr_id := new_id\<rparr>) (sd_relays g)\<rparr>))"

definition load_relay_policy :: "string \<Rightarrow> relay_policy_row option store_op" where
  "load_relay_policy relay_id = gets_act (\<lambda>g. find_by relay_key relay_id (sd_relays g))"

definition list_relay_policies :: "relay_policy_row list store_op" where
  "list_relay_policies = gets_act sd_relays"

definition save_bearer :: "bearer_row \<Rightarrow> unit store_op" where
  "save_bearer row = modify_act (\<lambda>g. g\<lparr>sd_bearers := upsert br_token_id row (sd_bearers g)\<rparr>)"

definition load_bearer :: "string \<Rightarrow> bearer_row option store_op" where
  "load_bearer token_id = gets_act (\<lambda>g. find_by br_token_id token_id (sd_bearers g))"

definition list_bearers_for_relay :: "string \<Rightarrow> bearer_row list store_op" where
  "list_bearers_for_relay relay_id =
     gets_act (\<lambda>g. case find_by relay_key relay_id (sd_relays g) of
        None \<Rightarrow> []
      | Some r \<Rightarrow> filter (\<lambda>b. br_policy_id b = rr_id r) (sd_bearers g))"

definition revoke_bearers_for_relay :: "string \<Rightarrow> u32 store_op" where
  "revoke_bearers_for_relay relay_id =
     (\<lambda>g. case find_by relay_key relay_id (sd_relays g) of
            None \<Rightarrow> (Inr 0, g)
          | Some r \<Rightarrow>
              (let live = (\<lambda>b. br_policy_id b = rr_id r \<and> \<not> br_revoked b) in
               (Inr (word_of_nat (length (filter live (sd_bearers g)))),
                g\<lparr>sd_bearers := map (\<lambda>b. if live b then b\<lparr>br_revoked := True\<rparr> else b) (sd_bearers g)\<rparr>)))"

section \<open>Remote clients and certificates\<close>

definition save_remote_client :: "remote_client \<Rightarrow> unit store_op" where
  "save_remote_client row =
     modify_act (\<lambda>g. g\<lparr>sd_remote_clients := upsert rc_client_id row (sd_remote_clients g)\<rparr>)"

definition load_remote_client :: "string \<Rightarrow> remote_client option store_op" where
  "load_remote_client client_id = gets_act (\<lambda>g. find_by rc_client_id client_id (sd_remote_clients g))"

definition list_remote_clients :: "remote_client list store_op" where
  "list_remote_clients = gets_act sd_remote_clients"

text \<open>\<open>iter_mut().find(..)\<close> with an edit: the first row under the key is changed in place.\<close>

fun edit_first :: "('v \<Rightarrow> bool) \<Rightarrow> ('v \<Rightarrow> 'v) \<Rightarrow> 'v list \<Rightarrow> 'v list" where
  "edit_first p f [] = []"
| "edit_first p f (v # vs) = (if p v then f v # vs else v # edit_first p f vs)"

definition revoke_remote_client :: "string \<Rightarrow> i64 \<Rightarrow> bool store_op" where
  "revoke_remote_client client_id now_ms =
     (\<lambda>g. case find_by rc_client_id client_id (sd_remote_clients g) of
            None \<Rightarrow> (Inr False, g)
          | Some _ \<Rightarrow>
              (Inr True, g\<lparr>sd_remote_clients := edit_first (\<lambda>c. rc_client_id c = client_id)
                 (\<lambda>c. c\<lparr>rc_enabled := False, rc_revoked_at_ms := Some now_ms\<rparr>) (sd_remote_clients g)\<rparr>))"

definition save_cert :: "cert_row \<Rightarrow> unit store_op" where
  "save_cert row = modify_act (\<lambda>g. g\<lparr>sd_certs := upsert cw_serial row (sd_certs g)\<rparr>)"

definition load_cert :: "string \<Rightarrow> cert_row option store_op" where
  "load_cert serial = gets_act (\<lambda>g. find_by cw_serial serial (sd_certs g))"

definition list_certs :: "cert_row list store_op" where
  "list_certs = gets_act sd_certs"

section \<open>Tampering with the store\<close>

text \<open>The helpers of the code that model a store-level attacker.\<close>

definition tamper_audit_subject :: "i64 \<Rightarrow> in_mem_data \<Rightarrow> in_mem_data" where
  "tamper_audit_subject seq g =
     g\<lparr>sd_audit := edit_first (\<lambda>r. ar_seq r = seq)
        (\<lambda>r. r\<lparr>ar_subject := Some (case ar_subject r of Some s \<Rightarrow> s @ ''!tampered'' | None \<Rightarrow> ''tampered'')\<rparr>)
        (sd_audit g)\<rparr>"

definition audit_rows :: "in_mem_data \<Rightarrow> audit_record list" where
  "audit_rows g = sd_audit g"

definition truncate_audit_tail :: "nat \<Rightarrow> in_mem_data \<Rightarrow> in_mem_data" where
  "truncate_audit_tail n g = g\<lparr>sd_audit := take (length (sd_audit g) - n) (sd_audit g)\<rparr>"

definition tamper_meta :: "string \<Rightarrow> string \<Rightarrow> in_mem_data \<Rightarrow> in_mem_data" where
  "tamper_meta k v g = g\<lparr>sd_meta := (sd_meta g)(k \<mapsto> v)\<rparr>"

definition tamper_bearer :: "string \<Rightarrow> (bearer_row \<Rightarrow> bearer_row) \<Rightarrow> in_mem_data \<Rightarrow> in_mem_data" where
  "tamper_bearer token_id edit g =
     g\<lparr>sd_bearers := edit_first (\<lambda>b. br_token_id b = token_id) edit (sd_bearers g)\<rparr>"

section \<open>The upsert contract\<close>

text \<open>What a lookup returns; the lookups of this store never fail.\<close>

definition found :: "'a option store_op \<Rightarrow> in_mem_data \<Rightarrow> 'a option" where
  "found m g = (case fst (m g) of Inr x \<Rightarrow> x | Inl _ \<Rightarrow> None)"

lemma found_gets [simp]: "found (gets_act f) g = f g"
  by (simp add: found_def run_simps)

named_theorems store_ops "the store operations as actions"

lemmas [store_ops] = get_meta_def put_meta_def get_secret_latest_def get_secret_version_def
  max_secret_version_def list_secret_names_def list_secret_versions_def save_keyslot_def
  load_keyslots_def load_keyslot_def last_audit_def query_audit_def load_relay_policy_def
  list_relay_policies_def save_bearer_def load_bearer_def list_bearers_for_relay_def
  save_remote_client_def load_remote_client_def list_remote_clients_def save_cert_def load_cert_def
  list_certs_def run_simps

interpretation bearer_table:
  keyed_table br_token_id "\<lambda>row g. snd (save_bearer row g)" "\<lambda>k. found (load_bearer k)"
  by unfold_locales (simp_all add: store_ops vec_table.load_save)

interpretation client_table:
  keyed_table rc_client_id "\<lambda>row g. snd (save_remote_client row g)" "\<lambda>k. found (load_remote_client k)"
  by unfold_locales (simp_all add: store_ops vec_table.load_save)

interpretation cert_table:
  keyed_table cw_serial "\<lambda>row g. snd (save_cert row g)" "\<lambda>k. found (load_cert k)"
  by unfold_locales (simp_all add: store_ops vec_table.load_save)

interpretation keyslot_table:
  keyed_table ks_id "\<lambda>slot g. snd (save_keyslot slot g)" "\<lambda>k. found (load_keyslot k)"
proof unfold_locales
  fix k v g
  show "found (load_keyslot (ks_id v)) (snd (save_keyslot v g)) = Some v"
    using sorted_table.load_save [of keyslot_key "keyslot_key v" v] by (simp add: store_ops keyslot_key_def)
  assume "k \<noteq> ks_id v"
  then show "found (load_keyslot k) (snd (save_keyslot v g)) = found (load_keyslot k) g"
    using sorted_table.load_save_other [of "sint k" keyslot_key v] signed_word_eqI [of k "ks_id v"]
    by (auto simp: store_ops keyslot_key_def)
qed

section \<open>Version histories\<close>

text \<open>
  The abstract secret table: a history of rows per name, version \<open>n\<close> at position \<open>n - 1\<close>. The
  concrete vector represents it when the versions of every name count from 1 and the row ids are
  distinct and reserved.
\<close>

definition history :: "string \<Rightarrow> in_mem_data \<Rightarrow> secret_row list" where
  "history name g = filter (\<lambda>r. sr_name r = name) (sd_secrets g)"

definition counted :: "secret_row list \<Rightarrow> bool" where
  "counted h \<longleftrightarrow> map (\<lambda>r. unat (sr_version r)) h = [1..<Suc (length h)]"

definition secrets_ok :: "in_mem_data \<Rightarrow> bool" where
  "secrets_ok g \<longleftrightarrow>
     list_all (\<lambda>r. counted (history (sr_name r) g)) (sd_secrets g)
     \<and> distinct (map sr_row_id (sd_secrets g))
     \<and> list_all (\<lambda>r. 0 < sint (sr_row_id r) \<and> sint (sr_row_id r) \<le> sint (sd_next_secret_row_id g)) (sd_secrets g)
     \<and> 0 \<le> sint (sd_next_secret_row_id g)"

lemma versions_of_history: "versions_of name g = map sr_version (history name g)"
  by (simp add: versions_of_def history_def)

lemma secrets_ok_counted: "secrets_ok g \<Longrightarrow> counted (history name g)"
proof (cases "history name g = []")
  case False
  assume ok: "secrets_ok g"
  from False obtain r where "r \<in> set (sd_secrets g)" "sr_name r = name"
    by (auto simp: history_def filter_empty_conv)
  with ok show ?thesis by (auto simp: secrets_ok_def list_all_iff)
qed (simp add: counted_def)

lemma counted_snoc: "counted (h @ [r]) \<longleftrightarrow> counted h \<and> unat (sr_version r) = Suc (length h)"
  by (auto simp: counted_def)

lemma counted_nth: "counted h \<Longrightarrow> i < length h \<Longrightarrow> unat (sr_version (h ! i)) = Suc i"
proof -
  assume "counted h" "i < length h"
  then have "map (\<lambda>r. unat (sr_version r)) h ! i = [1..<Suc (length h)] ! i"
    by (simp only: counted_def)
  with \<open>i < length h\<close> show ?thesis by (simp del: upt_Suc)
qed

lemma counted_last: "counted h \<Longrightarrow> h \<noteq> [] \<Longrightarrow> unat (sr_version (last h)) = length h"
  using counted_nth [of h "length h - 1"] by (simp add: last_conv_nth)

lemma counted_length: "counted h \<Longrightarrow> length h < 4294967296"
  using counted_last [of h] unsigned_less [of "sr_version (last h)", where 'a = nat]
  by (cases "h = []") simp_all

lemma max_version_snoc:
  "max_version (vs @ [v]) = (case max_version vs of None \<Rightarrow> Some v | Some m \<Rightarrow> Some (max m v))"
  by (induction vs) (auto split: option.split simp: max.assoc)

lemma max_version_counted:
  "counted h \<Longrightarrow> max_version (map sr_version h) = (if h = [] then None else Some (sr_version (last h)))"
proof (induction h rule: rev_induct)
  case Nil
  then show ?case by simp
next
  case (snoc r h)
  then have h: "counted h" "unat (sr_version r) = Suc (length h)" by (simp_all add: counted_snoc)
  show ?case
  proof (cases "h = []")
    case False
    have "sr_version (last h) \<le> sr_version r"
      using counted_last [OF h(1) False] h(2) by (simp add: word_le_nat_alt)
    with snoc.IH [OF h(1)] False show ?thesis by (simp add: max_version_snoc max_def)
  qed simp
qed

lemma last_max_snoc:
  "last_max (rs @ [r]) =
     (case last_max rs of None \<Rightarrow> Some r | Some m \<Rightarrow> if sr_version m \<le> sr_version r then Some r else Some m)"
  by (induction rs) (auto split: option.splits if_splits)

lemma last_max_counted: "counted h \<Longrightarrow> last_max h = (if h = [] then None else Some (last h))"
proof (induction h rule: rev_induct)
  case Nil
  then show ?case by simp
next
  case (snoc r h)
  then have h: "counted h" "unat (sr_version r) = Suc (length h)" by (simp_all add: counted_snoc)
  then have "h \<noteq> [] \<Longrightarrow> sr_version (last h) \<le> sr_version r"
    using counted_last [OF h(1)] by (simp add: word_le_nat_alt)
  with snoc.IH [OF h(1)] show ?case by (simp add: last_max_snoc)
qed

lemma word_of_length_history:
  "counted h \<Longrightarrow> (if h = [] then 0 else sr_version (last h)) = word_of_nat (length h)"
  using counted_last [of h] word_of_nat_of_unat [of "sr_version (last h)"] by (cases "h = []") auto

lemma expected_version_counted:
  "counted (history name g) \<Longrightarrow> expected_version name g = word_of_nat (length (history name g)) + 1"
  using word_of_length_history [of "history name g"]
  by (simp add: expected_version_def versions_of_history max_version_counted split: if_splits)

lemma history_put: "history name (g\<lparr>sd_secrets := sd_secrets g @ [row]\<rparr>) =
    history name g @ (if sr_name row = name then [row] else [])"
  by (simp add: history_def)

lemma history_cong [simp]:
  "history name (g\<lparr>sd_next_secret_row_id := i\<rparr>) = history name g"
  by (simp add: history_def)

lemma secrets_ok_put:
  assumes ok: "secrets_ok g" and put: "put_secret row g = (Inr i, g')"
    and room: "length (history (sr_name row) g) < 4294967295"
  shows "secrets_ok g'"
proof -
  have row: "0 < sint (sr_row_id row)" "sint (sr_row_id row) \<le> sint (sd_next_secret_row_id g)"
    "\<forall>r\<in>set (sd_secrets g). sr_row_id r \<noteq> sr_row_id row"
    "sr_version row = expected_version (sr_name row) g"
    and g': "g' = g\<lparr>sd_secrets := sd_secrets g @ [row]\<rparr>"
    using put by (auto simp: put_secret_def i64_arith split: if_splits)
  have "unat (sr_version row) = Suc (length (history (sr_name row) g))"
    using room by (simp add: row(4) expected_version_counted [OF secrets_ok_counted [OF ok]]
        unat_word_ariths unat_of_nat take_bit_nat_eq_self)
  then have "counted (history name g')" for name
    using secrets_ok_counted [OF ok, of name] by (simp add: g' history_put counted_snoc)
  with ok row show ?thesis
    by (auto simp: secrets_ok_def list_all_iff g')
qed

lemma secrets_ok_reserve:
  assumes "secrets_ok g" "sint (sd_next_secret_row_id g) < i64_max"
    and "reserve_secret_row_id g = (r, g')"
  shows "secrets_ok g' \<and> r = Inr (sd_next_secret_row_id g') \<and> sd_secrets g' = sd_secrets g
    \<and> sint (sd_next_secret_row_id g') = sint (sd_next_secret_row_id g) + 1"
proof -
  have g': "g' = g\<lparr>sd_next_secret_row_id := sd_next_secret_row_id g + 1\<rparr>" "r = Inr (sd_next_secret_row_id g + 1)"
    using assms(3) by (auto simp: reserve_secret_row_id_def Let_def)
  have "sint (sd_next_secret_row_id g + 1) = sint (sd_next_secret_row_id g) + 1"
    using sint_add_in_range [of "sd_next_secret_row_id g" 1] assms(2) sint_i64_lower [of "sd_next_secret_row_id g"]
    by simp
  with assms(1) g' show ?thesis by (auto simp: secrets_ok_def list_all_iff)
qed

lemma put_secret_accepts:
  assumes "secrets_ok g"
  shows "fst (put_secret row g) = Inr i \<longleftrightarrow>
     i = sr_row_id row \<and> 0 < sint i \<and> sint i \<le> sint (sd_next_secret_row_id g)
     \<and> i \<notin> sr_row_id ` set (sd_secrets g)
     \<and> sr_version row = word_of_nat (length (history (sr_name row) g)) + 1"
proof -
  have "(\<exists>r\<in>set (sd_secrets g). sr_row_id r = sr_row_id row) \<longleftrightarrow> sr_row_id row \<in> sr_row_id ` set (sd_secrets g)"
    unfolding image_iff by (rule bex_cong [OF refl]) (rule eq_commute)
  then show ?thesis
    by (auto simp: put_secret_def i64_arith expected_version_counted [OF secrets_ok_counted [OF assms]])
qed

text \<open>
  On a well-formed store, \<open>put_secret\<close> accepts exactly the rows whose id was reserved and is
  unused and whose version is the next one of the history; so no stored version is ever replaced.
\<close>

theorem put_secret_accepts_iff:
  assumes "secrets_ok g"
  shows "fst (put_secret row g) = Inr i \<longleftrightarrow>
     i = sr_row_id row \<and> 0 < sint i \<and> sint i \<le> sint (sd_next_secret_row_id g)
     \<and> i \<notin> sr_row_id ` set (sd_secrets g)
     \<and> sr_version row = word_of_nat (length (history (sr_name row) g)) + 1"
  using assms by (rule put_secret_accepts)

lemma reserve_then_put:
  assumes ok: "secrets_ok g" and ids: "sint (sd_next_secret_row_id g) < i64_max"
    and room: "length (history (sr_name row) g) < 4294967295"
    and res: "reserve_secret_row_id g = (Inr rid, g1)"
    and row: "sr_row_id row = rid" "sr_version row = word_of_nat (length (history (sr_name row) g)) + 1"
    and put: "put_secret row g1 = (r, g2)"
  shows "r = Inr rid \<and> secrets_ok g2
    \<and> (\<forall>name. history name g2 = history name g @ (if sr_name row = name then [row] else []))
    \<and> found (get_secret_latest (sr_name row)) g2 = Some row"
proof -
  from secrets_ok_reserve [OF ok ids res]
  have g1: "secrets_ok g1" "rid = sd_next_secret_row_id g1" "sd_secrets g1 = sd_secrets g"
    "sint rid = sint (sd_next_secret_row_id g) + 1" by auto
  have hist: "history name g1 = history name g" for name by (simp add: history_def g1(3))
  have fresh: "rid \<notin> sr_row_id ` set (sd_secrets g1)"
    using ok g1(3,4) by (auto simp: secrets_ok_def list_all_iff)
  have pos: "0 < sint rid" using ok g1(4) by (simp add: secrets_ok_def)
  have acc: "fst (put_secret row g1) = Inr rid"
    using row fresh pos g1(2) by (simp add: put_secret_accepts [OF g1(1)] hist)
  then have r: "r = Inr rid" and g2: "g2 = g1\<lparr>sd_secrets := sd_secrets g1 @ [row]\<rparr>"
    using put by (auto simp: put_secret_def split: if_splits)
  have ok2: "secrets_ok g2"
    using secrets_ok_put [OF g1(1)] put room hist r by simp
  have h2: "history name g2 = history name g @ (if sr_name row = name then [row] else [])" for name
    by (simp add: g2 history_put hist)
  have "found (get_secret_latest (sr_name row)) g2 = Some row"
    using last_max_counted [OF secrets_ok_counted [OF ok2], of "sr_name row"] h2 [of "sr_name row"]
    by (simp add: store_ops history_def)
  with r ok2 h2 show ?thesis by blast
qed

text \<open>
  Reserving an id and putting a row with it and the next version succeeds; the row becomes the
  latest of its name, every older version stays, other names keep their
  histories, and the store stays well formed.
\<close>

theorem reserve_and_put_secret:
  assumes ok: "secrets_ok g" and ids: "sint (sd_next_secret_row_id g) < i64_max"
    and room: "length (history (sr_name row) g) < 4294967295"
    and res: "reserve_secret_row_id g = (Inr rid, g1)"
    and row: "sr_row_id row = rid" "sr_version row = word_of_nat (length (history (sr_name row) g)) + 1"
    and put: "put_secret row g1 = (r, g2)"
  shows "r = Inr rid \<and> secrets_ok g2
    \<and> (\<forall>name. history name g2 = history name g @ (if sr_name row = name then [row] else []))
    \<and> found (get_secret_latest (sr_name row)) g2 = Some row"
  using assms by (rule reserve_then_put)

definition sample_secret :: "i64 \<Rightarrow> u32 \<Rightarrow> secret_row" where
  "sample_secret rid version =
     \<lparr>sr_row_id = rid, sr_name = ''openai'', sr_version = version, sr_provider = Openai, sr_note = [],
      sr_broker_only = False, sr_dek_generation = 1, sr_nonce = [], sr_ct_tag = [], sr_created_ts = []\<rparr>"

definition sample_store :: in_mem_data where
  "sample_store = empty_store\<lparr>sd_secrets := [sample_secret 1 1], sd_next_secret_row_id := 1\<rparr>"

lemma sample_store_ok: "secrets_ok sample_store"
  by (simp add: secrets_ok_def sample_store_def sample_secret_def empty_store_def counted_def history_def)

lemma sample_history: "history ''openai'' sample_store = [sample_secret 1 1]"
  by (simp add: history_def sample_store_def sample_secret_def empty_store_def)

theorem put_secret_accepts_iff_witness:
  "fst (put_secret (sample_secret 1 2) sample_store) \<noteq> Inr 1"
  unfolding put_secret_accepts_iff [OF sample_store_ok]
  by (simp add: sample_store_def sample_secret_def empty_store_def)

lemma sample_secret_fields [simp]:
  "sr_row_id (sample_secret i v) = i" "sr_name (sample_secret i v) = ''openai''"
  "sr_version (sample_secret i v) = v"
  by (simp_all add: sample_secret_def)

theorem reserve_and_put_secret_witness:
  "found (get_secret_latest ''openai'')
     (snd (put_secret (sample_secret 2 2) (snd (reserve_secret_row_id sample_store)))) = Some (sample_secret 2 2)"
proof -
  have res: "reserve_secret_row_id sample_store = (Inr 2, snd (reserve_secret_row_id sample_store))"
    by (simp add: reserve_secret_row_id_def sample_store_def empty_store_def)
  have "sint (sd_next_secret_row_id sample_store) < i64_max"
    and "length (history (sr_name (sample_secret 2 2)) sample_store) < 4294967295"
    and "sr_version (sample_secret 2 2) = word_of_nat (length (history (sr_name (sample_secret 2 2)) sample_store)) + 1"
    by (simp_all add: sample_history) (simp add: sample_store_def empty_store_def)
  from reserve_and_put_secret [OF sample_store_ok this(1,2) res _ this(3) surjective_pairing] show ?thesis
    by simp
qed

section \<open>Relay policies\<close>

definition relays_ok :: "in_mem_data \<Rightarrow> bool" where
  "relays_ok g \<longleftrightarrow>
     distinct (map relay_key (sd_relays g)) \<and> distinct (map rr_id (sd_relays g))
     \<and> list_all (\<lambda>r. 0 < sint (rr_id r)) (sd_relays g)"

lemma max_i64_upper: "v \<in> set vs \<Longrightarrow> \<exists>m. max_i64 vs = Some m \<and> sint v \<le> sint m"
proof (induction vs)
  case Nil
  then show ?case by simp
next
  case (Cons w ws)
  then show ?case by (cases "max_i64 ws") (auto simp: i64_arith max_def)
qed

lemma max_i64_mem: "max_i64 vs = Some m \<Longrightarrow> m \<in> set vs"
  by (induction vs arbitrary: m) (auto simp: i64_max_of_def split: option.splits if_splits)

text \<open>Replacing the first row under a key by one that agrees on \<open>f\<close> leaves the image under \<open>f\<close>.\<close>

lemma map_upsert_same:
  "find_by key (key v) vs = Some w \<Longrightarrow> f w = f v \<Longrightarrow> map f (upsert key v vs) = map f vs"
  by (induction vs) (auto split: if_splits)

lemma upsert_new: "find_by key (key v) vs = None \<Longrightarrow> upsert key v vs = vs @ [v]"
  by (induction vs) (auto split: if_splits)

lemma fresh_relay_id:
  assumes "list_all (\<lambda>r. 0 < sint (rr_id r)) relays" "\<forall>r\<in>set relays. sint (rr_id r) < i64_max"
  defines "i \<equiv> (case max_i64 (map rr_id relays) of None \<Rightarrow> 0 | Some m \<Rightarrow> m) + (1 :: i64)"
  shows "0 < sint i \<and> i \<notin> rr_id ` set relays"
proof (cases "max_i64 (map rr_id relays)")
  case None
  then have "relays = []" using max_i64_upper [of "rr_id (hd relays)" "map rr_id relays"] by (cases relays) auto
  then show ?thesis by (simp add: i_def)
next
  case (Some m)
  from max_i64_mem [OF Some] obtain r where "r \<in> set relays" "m = rr_id r" by auto
  then have m: "0 < sint m" "sint m < i64_max" using assms(1,2) by (auto simp: list_all_iff)
  then have i: "sint i = sint m + 1" using sint_add_in_range [of m 1] by (simp add: i_def Some)
  have "i \<noteq> rr_id r'" if "r' \<in> set relays" for r'
    using max_i64_upper [of "rr_id r'" "map rr_id relays"] that i Some by auto
  with i m show ?thesis by auto
qed

text \<open>
  Saving a policy without an id keeps the row id of a relay that is already there, so its live
  bearers stay linked to it, and gives a new relay an id no other row has; the policy is the one
  loaded under its relay id afterwards and no other relay changes.
\<close>

theorem save_relay_policy_keeps_linkage:
  assumes ok: "relays_ok g" and room: "\<forall>r\<in>set (sd_relays g). sint (rr_id r) < i64_max"
    and row: "rr_id row = 0" and run: "save_relay_policy row g = (Inr i, g')"
  shows "relays_ok g' \<and> found (load_relay_policy (relay_key row)) g' = Some (row\<lparr>rr_id := i\<rparr>)
    \<and> (\<forall>k. k \<noteq> relay_key row \<longrightarrow> found (load_relay_policy k) g' = found (load_relay_policy k) g)
    \<and> (case found (load_relay_policy (relay_key row)) g of
         Some old \<Rightarrow> i = rr_id old
       | None \<Rightarrow> i \<notin> rr_id ` set (sd_relays g))"
proof -
  define new where "new = row\<lparr>rr_id := i\<rparr>"
  have key: "relay_key new = relay_key row" and newid: "rr_id new = i"
    by (simp_all add: relay_key_def new_def)
  have i: "i = assigned_relay_id row (sd_relays g)" and g': "sd_relays g' = upsert relay_key new (sd_relays g)"
    using run by (auto simp: save_relay_policy_def Let_def new_def)
  have ids: "case find_by relay_key (relay_key row) (sd_relays g) of
         Some old \<Rightarrow> i = rr_id old | None \<Rightarrow> i \<notin> rr_id ` set (sd_relays g) \<and> 0 < sint i"
    using fresh_relay_id [OF _ room] ok
    by (auto simp: i assigned_relay_id_def row relays_ok_def split: option.split)
  have "relays_ok g'"
  proof (cases "find_by relay_key (relay_key row) (sd_relays g)")
    case None
    then have "sd_relays g' = sd_relays g @ [new]" by (simp add: g' upsert_new key)
    moreover have "i \<notin> rr_id ` set (sd_relays g) \<and> 0 < sint i" using ids None by simp
    moreover have "relay_key row \<notin> relay_key ` set (sd_relays g)" using None by (simp add: find_by_None_iff)
    ultimately show ?thesis
      using ok key newid by (simp add: relays_ok_def list_all_iff)
  next
    case (Some old)
    then have f: "find_by relay_key (relay_key new) (sd_relays g) = Some old" by (simp add: key)
    have same: "rr_id old = rr_id new" "relay_key old = relay_key new"
      using ids Some find_by_SomeD [OF Some] key newid by auto
    have "map rr_id (sd_relays g') = map rr_id (sd_relays g)"
      "map relay_key (sd_relays g') = map relay_key (sd_relays g)"
      unfolding g' using map_upsert_same [OF f] same by blast+
    moreover from this(1) have "rr_id ` set (sd_relays g') = rr_id ` set (sd_relays g)"
      by (metis set_map)
    ultimately show ?thesis
      using ok by (auto simp: relays_ok_def list_all_iff) (metis image_iff)
  qed
  moreover have "found (load_relay_policy k) g' = (if k = relay_key row then Some new else found (load_relay_policy k) g)" for k
    using vec_table.load_save [of relay_key k new] by (simp add: store_ops g' key)
  ultimately show ?thesis
    using ids by (auto simp: new_def store_ops split: option.splits)
qed

definition sample_relay :: relay_policy_row where
  "sample_relay = \<lparr>rr_id = 3, rr_policy =
     \<lparr>rp_relay_id = ''claude-main'', rp_kind = Named, rp_provider = Anthropic, rp_secret_name = ''anthropic'',
      rp_swap = ProxyMitm, rp_host_allow = [], rp_path_allow = [], rp_method_allow = [],
      rp_policy_ttl_secs = 3600, rp_rate_per_min = None, rp_quota_total_requests = None,
      rp_quota_total_bytes = None, rp_enabled = True, rp_revoked = False\<rparr>\<rparr>"

theorem save_relay_policy_keeps_linkage_witness:
  "fst (save_relay_policy (sample_relay\<lparr>rr_id := 0\<rparr>) (empty_store\<lparr>sd_relays := [sample_relay]\<rparr>)) = Inr 3"
proof -
  let ?g = "empty_store\<lparr>sd_relays := [sample_relay]\<rparr>" and ?row = "sample_relay\<lparr>rr_id := 0\<rparr>"
  obtain i g' where run: "save_relay_policy ?row ?g = (Inr i, g')"
    by (simp add: save_relay_policy_def Let_def)
  have ok: "relays_ok ?g" by (simp add: relays_ok_def sample_relay_def)
  have "\<forall>r\<in>set (sd_relays ?g). sint (rr_id r) < i64_max" by (simp add: sample_relay_def)
  from save_relay_policy_keeps_linkage [OF ok this _ run]
  have "i = rr_id sample_relay" by (simp add: store_ops relay_key_def)
  with run show ?thesis by (simp add: sample_relay_def)
qed

section \<open>Revoking every bearer of a relay\<close>

text \<open>
  After \<open>revoke_bearers_for_relay\<close> every bearer of the relay is revoked and every other bearer is
  as it was; the count is the number of bearers that were live, and a second revoke finds none.
\<close>

theorem revoke_bearers_for_relay_spec:
  "let r = revoke_bearers_for_relay relay_id g; g' = snd r in
     list_all br_revoked (projr (fst (list_bearers_for_relay relay_id g')))
     \<and> sd_relays g' = sd_relays g
     \<and> filter (\<lambda>b. b \<notin> set (projr (fst (list_bearers_for_relay relay_id g')))) (sd_bearers g')
       = filter (\<lambda>b. b \<notin> set (projr (fst (list_bearers_for_relay relay_id g)))) (sd_bearers g)
     \<and> fst r = Inr (word_of_nat (length (filter (\<lambda>b. \<not> br_revoked b) (projr (fst (list_bearers_for_relay relay_id g))))))
     \<and> revoke_bearers_for_relay relay_id g' = (Inr 0, g')"
proof (cases "find_by relay_key relay_id (sd_relays g)")
  case None
  then show ?thesis by (simp add: revoke_bearers_for_relay_def store_ops)
next
  case (Some r)
  define f :: "bearer_row \<Rightarrow> bearer_row" where "f = (\<lambda>b. if br_policy_id b = rr_id r \<and> \<not> br_revoked b then b\<lparr>br_revoked := True\<rparr> else b)"
  have f: "br_policy_id (f b) = br_policy_id b" "br_policy_id b = rr_id r \<Longrightarrow> br_revoked (f b)"
    "br_policy_id b \<noteq> rr_id r \<Longrightarrow> f b = b" "f (f b) = f b" for b
    by (simp_all add: f_def)
  have g': "snd (revoke_bearers_for_relay relay_id g) = g\<lparr>sd_bearers := map f (sd_bearers g)\<rparr>"
    by (simp add: revoke_bearers_for_relay_def Some Let_def f_def)
  have no_live: "filter (\<lambda>b. br_policy_id b = rr_id r \<and> \<not> br_revoked b) (map f (sd_bearers g)) = []"
    by (auto simp: filter_empty_conv f)
  have others: "filter (\<lambda>b. br_policy_id b \<noteq> rr_id r) (map f bs) = filter (\<lambda>b. br_policy_id b \<noteq> rr_id r) bs" for bs
    by (induction bs) (simp_all add: f)
  have same: "filter (\<lambda>b. b \<notin> set (filter (\<lambda>b. br_policy_id b = rr_id r) bs)) bs
      = filter (\<lambda>b. br_policy_id b \<noteq> rr_id r) bs" for bs
    by (rule filter_cong) auto
  have again: "revoke_bearers_for_relay relay_id (g\<lparr>sd_bearers := map f (sd_bearers g)\<rparr>)
      = (Inr 0, g\<lparr>sd_bearers := map f (sd_bearers g)\<rparr>)"
  proof -
    have "map f (map f (sd_bearers g)) = map f (sd_bearers g)" by (simp add: f)
    with no_live show ?thesis
      by (simp add: revoke_bearers_for_relay_def Some Let_def f_def)
  qed
  let ?of_relay = "filter (\<lambda>b. br_policy_id b = rr_id r)"
  have listed: "projr (fst (list_bearers_for_relay relay_id g)) = ?of_relay (sd_bearers g)"
    "projr (fst (list_bearers_for_relay relay_id (g\<lparr>sd_bearers := map f (sd_bearers g)\<rparr>))) = ?of_relay (map f (sd_bearers g))"
    by (simp_all add: store_ops Some)
  have revoked: "list_all br_revoked (?of_relay (map f (sd_bearers g)))"
    by (auto simp: list_all_iff f)
  have count: "fst (revoke_bearers_for_relay relay_id g) = Inr (word_of_nat (length (filter (\<lambda>b. \<not> br_revoked b) (?of_relay (sd_bearers g)))))"
    by (simp add: revoke_bearers_for_relay_def Some Let_def conj_commute)
  have rest: "filter (\<lambda>b. b \<notin> set (?of_relay (map f (sd_bearers g)))) (map f (sd_bearers g))
      = filter (\<lambda>b. b \<notin> set (?of_relay (sd_bearers g))) (sd_bearers g)"
    unfolding same by (rule others)
  show ?thesis
    unfolding Let_def g' again listed count using revoked rest by simp
qed

end
