(* ===== verification/Decide.thy ===== *)
theory Decide
  imports Policy
begin

text \<open>
  The pure, default-deny relay decision (\<open>crates/secrets-engine/src/broker/decide.rs\<close>): the request
  and bearer records, the ordered checks of \<open>decide\<close>, and what an \<open>Allow\<close> means.
\<close>

section \<open>Data\<close>

datatype deny_reason =
    UnknownBearer | Disabled | Revoked | BearerRevoked | BearerExpired | PolicyExpired
  | HostNotAllowed | PathNotAllowed | MethodNotAllowed | UpstreamNotAllowed | PeerMismatch
  | SniHostMismatch | BudgetRequests | BudgetBytes | RateLimited | GateAbsent | ClockRollback
  | CrossKindPresentation | RemoteNoDPoP | RemoteBindingMismatch | RemoteClientUnknown
  | RemoteClientRevoked

datatype relay_decision = Allow | Deny (reason: deny_reason)

record remote_peer =
  pe_client_id :: string
  pe_dpop_jkt :: bytes
  pe_dpop_verified :: bool

record verified_bearer =
  vb_policy_id :: i64
  vb_token_id :: string
  vb_expires_at_ms :: i64
  vb_issued_at_ms :: i64
  vb_issued_boottime_ms :: i64
  vb_client_uid :: "u32 option"
  vb_client_pid :: "u32 option"
  vb_client_id :: "string option"
  vb_dpop_jkt :: "bytes option"
  vb_revoked :: bool

record canon_request =
  cr_method :: http_method
  cr_host :: string
  cr_sni :: "string option"
  cr_path :: string
  cr_bytes_out :: u64
  cr_peer_uid :: "u32 option"
  cr_peer_pid :: "u32 option"
  cr_usage_requests :: u64
  cr_usage_bytes :: u64
  cr_rate_in_window :: u32
  cr_remote :: "remote_peer option"

section \<open>String matching\<close>

definition ascii_lower :: "char \<Rightarrow> char" where
  "ascii_lower c =
     (let n = of_char c :: nat in if 65 \<le> n \<and> n \<le> 90 then char_of (n + 32) else c)"

definition eq_ignore_ascii_case :: "string \<Rightarrow> string \<Rightarrow> bool" where
  "eq_ignore_ascii_case a b \<longleftrightarrow> map ascii_lower a = map ascii_lower b"

fun starts_with :: "string \<Rightarrow> string \<Rightarrow> bool" where
  "starts_with s [] = True"
| "starts_with [] (p # ps) = False"
| "starts_with (c # cs) (p # ps) = (c = p \<and> starts_with cs ps)"

definition strip_suffix_star :: "string \<Rightarrow> string option" where
  "strip_suffix_star pat =
     (if pat \<noteq> [] \<and> last pat = CHR ''*'' then Some (butlast pat) else None)"

definition host_in :: "string \<Rightarrow> string list \<Rightarrow> bool" where
  "host_in host allow = list_ex (\<lambda>h. eq_ignore_ascii_case h host) allow"

definition path_allowed :: "string \<Rightarrow> string list \<Rightarrow> bool" where
  "path_allowed path allow =
     list_ex (\<lambda>pat. case strip_suffix_star pat of
                       Some prefix \<Rightarrow> starts_with path prefix
                     | None \<Rightarrow> starts_with path pat) allow"

section \<open>The decision\<close>

definition CLOCK_SKEW_MS :: int where
  "CLOCK_SKEW_MS = 60000"

text \<open>Clause 11a: the plane a bearer is bound to must be the plane it is presented on.\<close>

fun plane_check :: "remote_peer option \<Rightarrow> string option \<Rightarrow> bytes option \<Rightarrow> deny_reason option" where
  "plane_check (Some rp) (Some cid) jkt =
     (if \<not> pe_dpop_verified rp then Some RemoteNoDPoP
      else if cid \<noteq> pe_client_id rp then Some RemoteBindingMismatch
      else if jkt \<noteq> Some (pe_dpop_jkt rp) then Some RemoteBindingMismatch
      else None)"
| "plane_check (Some rp) None jkt = Some CrossKindPresentation"
| "plane_check None (Some cid) jkt = Some CrossKindPresentation"
| "plane_check None None jkt = None"

text \<open>Clauses 16 and 17: the possession gate and the two clocks.\<close>

definition clock_check ::
  "verified_bearer \<Rightarrow> i64 \<Rightarrow> i64 \<Rightarrow> i64 \<Rightarrow> relay_decision" where
  "clock_check b now_ms boottime_now_ms issuance_floor_ms =
     (if i64_lt now_ms issuance_floor_ms \<or> i64_lt now_ms (vb_issued_at_ms b) then Deny ClockRollback
      else
       let mono_elapsed = sat_sub boottime_now_ms (vb_issued_boottime_ms b) in
       if i64_lt mono_elapsed 0 then Deny ClockRollback
       else
        let bearer_ttl_ms = sat_sub (vb_expires_at_ms b) (vb_issued_at_ms b) in
        if i64_le bearer_ttl_ms mono_elapsed then Deny BearerExpired
        else
         let wall_elapsed = sat_sub now_ms (vb_issued_at_ms b) in
         if CLOCK_SKEW_MS < \<bar>sint (wall_elapsed - mono_elapsed)\<bar> then Deny ClockRollback
         else Allow)"

definition decide ::
  "relay_policy \<Rightarrow> verified_bearer \<Rightarrow> canon_request \<Rightarrow> i64 \<Rightarrow> i64 \<Rightarrow> i64 option \<Rightarrow> i64
   \<Rightarrow> relay_decision" where
  "decide p b req now_ms boottime_now_ms usb_absent_since_ms issuance_floor_ms =
    (if \<not> rp_enabled p then Deny Disabled
     else if rp_revoked p then Deny Revoked
     else if vb_revoked b then Deny BearerRevoked
     else if i64_le (vb_expires_at_ms b) now_ms then Deny BearerExpired
     else if i64_le (sat_add (vb_issued_at_ms b) (sat_mul (rp_policy_ttl_secs p) 1000)) now_ms
       then Deny PolicyExpired
     else if \<not> host_in (cr_host req) (rp_host_allow p) then Deny HostNotAllowed
     else if \<not> path_allowed (cr_path req) (rp_path_allow p) then Deny PathNotAllowed
     else if cr_method req \<notin> set (rp_method_allow p) then Deny MethodNotAllowed
     else if \<not> host_in (cr_host req) (canonical_upstreams (rp_provider p))
       then Deny UpstreamNotAllowed
     else case plane_check (cr_remote req) (vb_client_id b) (vb_dpop_jkt b) of
       Some r \<Rightarrow> Deny r
     | None \<Rightarrow>
       if (case vb_client_uid b of Some u \<Rightarrow> cr_peer_uid req \<noteq> Some u | None \<Rightarrow> False)
         then Deny PeerMismatch
       else if (case vb_client_pid b of Some u \<Rightarrow> cr_peer_pid req \<noteq> Some u | None \<Rightarrow> False)
         then Deny PeerMismatch
       else if (case cr_sni req of Some sni \<Rightarrow> \<not> eq_ignore_ascii_case sni (cr_host req) | None \<Rightarrow> False)
         then Deny SniHostMismatch
       else if (case rp_quota_total_requests p of Some q \<Rightarrow> q < cr_usage_requests req | None \<Rightarrow> False)
         then Deny BudgetRequests
       else if (case rp_quota_total_bytes p of Some q \<Rightarrow> q < cr_usage_bytes req | None \<Rightarrow> False)
         then Deny BudgetBytes
       else if (case rp_rate_per_min p of Some r \<Rightarrow> r \<le> cr_rate_in_window req | None \<Rightarrow> False)
         then Deny RateLimited
       else if usb_absent_since_ms \<noteq> None then Deny GateAbsent
       else clock_check b now_ms boottime_now_ms issuance_floor_ms)"

section \<open>Matching\<close>

lemma starts_with_iff: "starts_with s p \<longleftrightarrow> (\<exists>rest. s = p @ rest)"
  by (induction s p rule: starts_with.induct) auto

lemma strip_suffix_star_SomeD: "strip_suffix_star pat = Some prefix \<Longrightarrow> pat = prefix @ ''*''"
  by (auto simp: strip_suffix_star_def split: if_splits) (metis append_butlast_last_id)

lemma eq_ignore_ascii_case_refl [simp]: "eq_ignore_ascii_case s s"
  by (simp add: eq_ignore_ascii_case_def)

lemma eq_ignore_ascii_case_sym: "eq_ignore_ascii_case s t \<longleftrightarrow> eq_ignore_ascii_case t s"
  by (auto simp: eq_ignore_ascii_case_def)

lemma eq_ignore_ascii_case_length: "eq_ignore_ascii_case s t \<Longrightarrow> length s = length t"
  by (metis eq_ignore_ascii_case_def length_map)

lemma host_in_iff: "host_in host allow \<longleftrightarrow> (\<exists>h\<in>set allow. eq_ignore_ascii_case h host)"
  by (simp add: host_in_def list_ex_iff)

text \<open>The prefix an entry of the path allowlist stands for.\<close>

definition pattern_prefix :: "string \<Rightarrow> string" where
  "pattern_prefix pat = (case strip_suffix_star pat of Some prefix \<Rightarrow> prefix | None \<Rightarrow> pat)"

lemma path_allowed_iff:
  "path_allowed path allow \<longleftrightarrow> (\<exists>pat\<in>set allow. \<exists>rest. path = pattern_prefix pat @ rest)"
proof -
  have "(case strip_suffix_star pat of Some prefix \<Rightarrow> starts_with path prefix
         | None \<Rightarrow> starts_with path pat) \<longleftrightarrow> (\<exists>rest. path = pattern_prefix pat @ rest)" for pat
    by (simp add: pattern_prefix_def starts_with_iff split: option.split)
  then show ?thesis by (simp add: path_allowed_def list_ex_iff)
qed

section \<open>What an allowed request satisfies\<close>

text \<open>The abstract specification: what must hold, in exact integers, for a swap to be permitted.\<close>

definition presenter_bound :: "verified_bearer \<Rightarrow> canon_request \<Rightarrow> bool" where
  "presenter_bound b req \<longleftrightarrow>
     (case cr_remote req of
        None \<Rightarrow> vb_client_id b = None
      | Some rp \<Rightarrow> pe_dpop_verified rp \<and> vb_client_id b = Some (pe_client_id rp)
                   \<and> vb_dpop_jkt b = Some (pe_dpop_jkt rp))
     \<and> (\<forall>u. vb_client_uid b = Some u \<longrightarrow> cr_peer_uid req = Some u)
     \<and> (\<forall>q. vb_client_pid b = Some q \<longrightarrow> cr_peer_pid req = Some q)"

definition within_scope :: "relay_policy \<Rightarrow> canon_request \<Rightarrow> bool" where
  "within_scope p req \<longleftrightarrow>
     host_in (cr_host req) (rp_host_allow p)
     \<and> path_allowed (cr_path req) (rp_path_allow p)
     \<and> cr_method req \<in> set (rp_method_allow p)
     \<and> host_in (cr_host req) (canonical_upstreams (rp_provider p))
     \<and> (\<forall>sni. cr_sni req = Some sni \<longrightarrow> eq_ignore_ascii_case sni (cr_host req))"

definition within_budget :: "relay_policy \<Rightarrow> canon_request \<Rightarrow> bool" where
  "within_budget p req \<longleftrightarrow>
     (\<forall>q. rp_quota_total_requests p = Some q \<longrightarrow> cr_usage_requests req \<le> q)
     \<and> (\<forall>q. rp_quota_total_bytes p = Some q \<longrightarrow> cr_usage_bytes req \<le> q)
     \<and> (\<forall>r. rp_rate_per_min p = Some r \<longrightarrow> cr_rate_in_window req < r)"

definition live_on_both_clocks :: "relay_policy \<Rightarrow> verified_bearer \<Rightarrow> i64 \<Rightarrow> i64 \<Rightarrow> i64 \<Rightarrow> bool" where
  "live_on_both_clocks p b now boot floor \<longleftrightarrow>
     (let wall = sint now - sint (vb_issued_at_ms b);
          mono = sint boot - sint (vb_issued_boottime_ms b);
          ttl = sint (vb_expires_at_ms b) - sint (vb_issued_at_ms b) in
      sint floor \<le> sint now \<and> 0 \<le> wall \<and> wall < ttl
      \<and> wall < 1000 * sint (rp_policy_ttl_secs p)
      \<and> 0 \<le> mono \<and> mono < ttl \<and> \<bar>wall - mono\<bar> \<le> CLOCK_SKEW_MS)"

definition swap_permitted ::
  "relay_policy \<Rightarrow> verified_bearer \<Rightarrow> canon_request \<Rightarrow> i64 \<Rightarrow> i64 \<Rightarrow> i64 option \<Rightarrow> i64 \<Rightarrow> bool" where
  "swap_permitted p b req now boot usb_absent floor \<longleftrightarrow>
     rp_enabled p \<and> \<not> rp_revoked p \<and> \<not> vb_revoked b
     \<and> within_scope p req \<and> presenter_bound b req \<and> within_budget p req
     \<and> usb_absent = None \<and> live_on_both_clocks p b now boot floor"

lemma plane_check_None_iff:
  "plane_check rem cid jkt = None \<longleftrightarrow>
     (case rem of None \<Rightarrow> cid = None
      | Some rp \<Rightarrow> pe_dpop_verified rp \<and> cid = Some (pe_client_id rp) \<and> jkt = Some (pe_dpop_jkt rp))"
  by (cases "(rem, cid, jkt)" rule: plane_check.cases) auto

lemma clock_check_Allow_iff:
  assumes "0 \<le> sint (vb_issued_at_ms b)" "0 \<le> sint (vb_issued_boottime_ms b)"
  shows "clock_check b now boot floor = Allow \<longleftrightarrow>
     sint floor \<le> sint now \<and> sint (vb_issued_at_ms b) \<le> sint now
     \<and> sint (vb_issued_boottime_ms b) \<le> sint boot
     \<and> sint boot - sint (vb_issued_boottime_ms b) < sint (vb_expires_at_ms b) - sint (vb_issued_at_ms b)
     \<and> \<bar>(sint now - sint (vb_issued_at_ms b)) - (sint boot - sint (vb_issued_boottime_ms b))\<bar> \<le> CLOCK_SKEW_MS"
proof -
  define mono where "mono = sat_sub boot (vb_issued_boottime_ms b)"
  define wall where "wall = sat_sub now (vb_issued_at_ms b)"
  define ttl where "ttl = sat_sub (vb_expires_at_ms b) (vb_issued_at_ms b)"
  note up = sint_i64_upper [of now] sint_i64_upper [of boot] sint_i64_upper [of "vb_expires_at_ms b"]
  have mono: "sint mono = max i64_min (sint boot - sint (vb_issued_boottime_ms b))"
    using assms up by (simp add: mono_def i64_arith)
  have ttl: "sint ttl = max i64_min (sint (vb_expires_at_ms b) - sint (vb_issued_at_ms b))"
    using assms up by (simp add: ttl_def i64_arith)
  have wall: "sint wall = max i64_min (sint now - sint (vb_issued_at_ms b))"
    using assms up by (simp add: wall_def i64_arith)
  have diff: "sint (wall - mono) = sint wall - sint mono" if "0 \<le> sint wall" "0 \<le> sint mono"
    using that sint_i64_upper [of wall] sint_i64_upper [of mono]
    by (intro sint_sub_in_range) linarith+
  have "clock_check b now boot floor = Allow \<longleftrightarrow>
     sint floor \<le> sint now \<and> sint (vb_issued_at_ms b) \<le> sint now \<and> 0 \<le> sint mono
     \<and> sint mono < sint ttl \<and> \<bar>sint (wall - mono)\<bar> \<le> CLOCK_SKEW_MS"
    by (auto simp: clock_check_def Let_def i64_lt_def i64_le_def mono_def wall_def ttl_def)
  also have "\<dots> \<longleftrightarrow> sint floor \<le> sint now \<and> sint (vb_issued_at_ms b) \<le> sint now
     \<and> 0 \<le> sint mono \<and> sint mono < sint ttl \<and> \<bar>sint wall - sint mono\<bar> \<le> CLOCK_SKEW_MS"
    using diff wall by auto
  also have "\<dots> \<longleftrightarrow> sint floor \<le> sint now \<and> sint (vb_issued_at_ms b) \<le> sint now
     \<and> sint (vb_issued_boottime_ms b) \<le> sint boot
     \<and> sint boot - sint (vb_issued_boottime_ms b) < sint (vb_expires_at_ms b) - sint (vb_issued_at_ms b)
     \<and> \<bar>(sint now - sint (vb_issued_at_ms b)) - (sint boot - sint (vb_issued_boottime_ms b))\<bar> \<le> CLOCK_SKEW_MS"
    unfolding mono ttl wall by auto
  finally show ?thesis .
qed

lemma policy_deadline:
  assumes "0 \<le> sint issued" "sint issued \<le> sint now" "sint now < i64_max"
  shows "\<not> i64_le (sat_add issued (sat_mul ttl 1000)) now \<longleftrightarrow> sint now - sint issued < 1000 * sint ttl"
  using assms by (auto simp: i64_arith)

lemma decide_Allow_raw:
  "decide p b req now boot usb floor = Allow \<longleftrightarrow>
     rp_enabled p \<and> \<not> rp_revoked p \<and> \<not> vb_revoked b
     \<and> \<not> i64_le (vb_expires_at_ms b) now
     \<and> \<not> i64_le (sat_add (vb_issued_at_ms b) (sat_mul (rp_policy_ttl_secs p) 1000)) now
     \<and> within_scope p req \<and> presenter_bound b req \<and> within_budget p req \<and> usb = None
     \<and> clock_check b now boot floor = Allow"
proof -
  have bound: "presenter_bound b req \<longleftrightarrow>
     plane_check (cr_remote req) (vb_client_id b) (vb_dpop_jkt b) = None
     \<and> \<not> (case vb_client_uid b of Some u \<Rightarrow> cr_peer_uid req \<noteq> Some u | None \<Rightarrow> False)
     \<and> \<not> (case vb_client_pid b of Some u \<Rightarrow> cr_peer_pid req \<noteq> Some u | None \<Rightarrow> False)"
    unfolding presenter_bound_def plane_check_None_iff by (simp split: option.split)
  have budget: "within_budget p req \<longleftrightarrow>
     \<not> (case rp_quota_total_requests p of Some q \<Rightarrow> q < cr_usage_requests req | None \<Rightarrow> False)
     \<and> \<not> (case rp_quota_total_bytes p of Some q \<Rightarrow> q < cr_usage_bytes req | None \<Rightarrow> False)
     \<and> \<not> (case rp_rate_per_min p of Some r \<Rightarrow> r \<le> cr_rate_in_window req | None \<Rightarrow> False)"
    unfolding within_budget_def by (auto simp: not_less not_le split: option.split)
  have scope: "within_scope p req \<longleftrightarrow>
     host_in (cr_host req) (rp_host_allow p) \<and> path_allowed (cr_path req) (rp_path_allow p)
     \<and> cr_method req \<in> set (rp_method_allow p)
     \<and> host_in (cr_host req) (canonical_upstreams (rp_provider p))
     \<and> \<not> (case cr_sni req of Some sni \<Rightarrow> \<not> eq_ignore_ascii_case sni (cr_host req) | None \<Rightarrow> False)"
    unfolding within_scope_def by (simp split: option.split)
  show ?thesis
    unfolding decide_def bound budget scope
    by (simp split: option.split del: not_None_eq)
qed

lemma decide_Allow_exact:
  assumes "0 \<le> sint (vb_issued_at_ms b)" "0 \<le> sint (vb_issued_boottime_ms b)"
  shows "decide p b req now boot usb floor = Allow \<longleftrightarrow> swap_permitted p b req now boot usb floor"
proof -
  have "(\<not> i64_le (vb_expires_at_ms b) now
     \<and> \<not> i64_le (sat_add (vb_issued_at_ms b) (sat_mul (rp_policy_ttl_secs p) 1000)) now
     \<and> clock_check b now boot floor = Allow) \<longleftrightarrow> live_on_both_clocks p b now boot floor"
  proof (cases "sint (vb_issued_at_ms b) \<le> sint now \<and> sint now < sint (vb_expires_at_ms b)")
    case True
    then have "sint now < i64_max" using sint_i64_upper [of "vb_expires_at_ms b"] by linarith
    with True show ?thesis
      unfolding live_on_both_clocks_def Let_def clock_check_Allow_iff [OF assms]
      by (simp add: policy_deadline [OF assms(1)] i64_le_def [of "vb_expires_at_ms b"]) auto
  next
    case False
    then show ?thesis
      unfolding live_on_both_clocks_def Let_def clock_check_Allow_iff [OF assms]
      by (auto simp: i64_le_def)
  qed
  then show ?thesis
    unfolding decide_Allow_raw swap_permitted_def by blast
qed

text \<open>
  C3: \<open>decide\<close> answers \<open>Allow\<close> exactly when the request is in scope, presented by the principal the
  bearer is bound to, within budget, with the possession gate proven, and live in exact integer
  time on the wall clock and on the monotonic clock; none of the saturating operations changes the
  answer for non-negative issue times.
\<close>

theorem decide_Allow_iff:
  assumes "0 \<le> sint (vb_issued_at_ms b)" "0 \<le> sint (vb_issued_boottime_ms b)"
  shows "decide p b req now boot usb floor = Allow \<longleftrightarrow> swap_permitted p b req now boot usb floor"
  using assms by (rule decide_Allow_exact)

text \<open>The baseline of the source's own tests: a live local bearer on a permitted request.\<close>

definition base_policy :: relay_policy where
  "base_policy = \<lparr>rp_relay_id = ''claude-main'', rp_kind = Named, rp_provider = Anthropic,
     rp_secret_name = ''anthropic_key'', rp_swap = BaseUrlRepoint ''https://api.anthropic.com'',
     rp_host_allow = [''api.anthropic.com''], rp_path_allow = [''/v1/''], rp_method_allow = [Post],
     rp_policy_ttl_secs = 31536000, rp_rate_per_min = Some 60,
     rp_quota_total_requests = Some 1000000, rp_quota_total_bytes = Some 10000000,
     rp_enabled = True, rp_revoked = False\<rparr>"

definition base_bearer :: verified_bearer where
  "base_bearer = \<lparr>vb_policy_id = 1, vb_token_id = ''deadbeef'', vb_expires_at_ms = 1700003600000,
     vb_issued_at_ms = 1699999000000, vb_issued_boottime_ms = 4000000,
     vb_client_uid = Some 1000, vb_client_pid = None, vb_client_id = None, vb_dpop_jkt = None,
     vb_revoked = False\<rparr>"

definition base_request :: canon_request where
  "base_request = \<lparr>cr_method = Post, cr_host = ''api.anthropic.com'',
     cr_sni = Some ''api.anthropic.com'', cr_path = ''/v1/messages'', cr_bytes_out = 128,
     cr_peer_uid = Some 1000, cr_peer_pid = None, cr_usage_requests = 1, cr_usage_bytes = 128,
     cr_rate_in_window = 1, cr_remote = None\<rparr>"

lemmas base_defs = base_policy_def base_bearer_def base_request_def

lemma base_permitted:
  "swap_permitted base_policy base_bearer base_request 1700000000000 5000000 None 1699000000000"
  by (simp add: swap_permitted_def within_scope_def presenter_bound_def within_budget_def
      live_on_both_clocks_def base_defs host_in_iff path_allowed_iff pattern_prefix_def
      strip_suffix_star_def CLOCK_SKEW_MS_def)

theorem decide_Allow_iff_witness:
  "decide base_policy base_bearer base_request 1700000000000 5000000 None 1699000000000 = Allow"
proof -
  have "0 \<le> sint (vb_issued_at_ms base_bearer)" "0 \<le> sint (vb_issued_boottime_ms base_bearer)"
    by (simp_all add: base_defs)
  then show ?thesis
    using decide_Allow_iff base_permitted by blast
qed

section \<open>The order of the checks\<close>

text \<open>
  The truth table of the module comment: each clause with the reason it denies for, in order.
\<close>

definition clauses ::
  "relay_policy \<Rightarrow> verified_bearer \<Rightarrow> canon_request \<Rightarrow> i64 \<Rightarrow> i64 \<Rightarrow> i64 option \<Rightarrow> i64
   \<Rightarrow> (bool \<times> deny_reason) list" where
  "clauses p b req now boot usb floor =
     (let remote = cr_remote req; cid = vb_client_id b;
          mono = sat_sub boot (vb_issued_boottime_ms b) in
      [(\<not> rp_enabled p, Disabled),
       (rp_revoked p, Revoked),
       (vb_revoked b, BearerRevoked),
       (sint (vb_expires_at_ms b) \<le> sint now, BearerExpired),
       (i64_le (sat_add (vb_issued_at_ms b) (sat_mul (rp_policy_ttl_secs p) 1000)) now, PolicyExpired),
       (\<not> host_in (cr_host req) (rp_host_allow p), HostNotAllowed),
       (\<not> path_allowed (cr_path req) (rp_path_allow p), PathNotAllowed),
       (cr_method req \<notin> set (rp_method_allow p), MethodNotAllowed),
       (\<not> host_in (cr_host req) (canonical_upstreams (rp_provider p)), UpstreamNotAllowed),
       ((remote = None) \<noteq> (cid = None), CrossKindPresentation),
       (\<exists>rp\<in>set_option remote. \<not> pe_dpop_verified rp, RemoteNoDPoP),
       (\<exists>rp\<in>set_option remote. cid \<noteq> Some (pe_client_id rp), RemoteBindingMismatch),
       (\<exists>rp\<in>set_option remote. vb_dpop_jkt b \<noteq> Some (pe_dpop_jkt rp), RemoteBindingMismatch),
       (\<exists>u\<in>set_option (vb_client_uid b). cr_peer_uid req \<noteq> Some u, PeerMismatch),
       (\<exists>q\<in>set_option (vb_client_pid b). cr_peer_pid req \<noteq> Some q, PeerMismatch),
       (\<exists>sni\<in>set_option (cr_sni req). \<not> eq_ignore_ascii_case sni (cr_host req), SniHostMismatch),
       (\<exists>q\<in>set_option (rp_quota_total_requests p). q < cr_usage_requests req, BudgetRequests),
       (\<exists>q\<in>set_option (rp_quota_total_bytes p). q < cr_usage_bytes req, BudgetBytes),
       (\<exists>r\<in>set_option (rp_rate_per_min p). r \<le> cr_rate_in_window req, RateLimited),
       (usb \<noteq> None, GateAbsent),
       (sint now < sint floor \<or> sint now < sint (vb_issued_at_ms b), ClockRollback),
       (sint mono < 0, ClockRollback),
       (i64_le (sat_sub (vb_expires_at_ms b) (vb_issued_at_ms b)) mono, BearerExpired),
       (CLOCK_SKEW_MS < \<bar>sint (sat_sub now (vb_issued_at_ms b) - mono)\<bar>, ClockRollback)])"

fun first_violation :: "(bool \<times> deny_reason) list \<Rightarrow> relay_decision" where
  "first_violation [] = Allow"
| "first_violation ((violated, r) # cs) = (if violated then Deny r else first_violation cs)"

lemma case_Some_bex: "(case x of Some u \<Rightarrow> P u | None \<Rightarrow> False) \<longleftrightarrow> (\<exists>u\<in>set_option x. P u)"
  by (cases x) auto

lemma plane_clauses:
  "(case plane_check remote cid jkt of Some r \<Rightarrow> Deny r | None \<Rightarrow> rest) =
     (if (remote = None) \<noteq> (cid = None) then Deny CrossKindPresentation
      else if \<exists>rp\<in>set_option remote. \<not> pe_dpop_verified rp then Deny RemoteNoDPoP
      else if \<exists>rp\<in>set_option remote. cid \<noteq> Some (pe_client_id rp) then Deny RemoteBindingMismatch
      else if \<exists>rp\<in>set_option remote. jkt \<noteq> Some (pe_dpop_jkt rp) then Deny RemoteBindingMismatch
      else rest)"
  by (cases "(remote, cid, jkt)" rule: plane_check.cases) auto

text \<open>
  The decision is the reason of the first violated clause of the truth table, and \<open>Allow\<close> only
  when no clause is violated.
\<close>

theorem decide_first_violation:
  "decide p b req now boot usb floor = first_violation (clauses p b req now boot usb floor)"
  unfolding decide_def clauses_def clock_check_def Let_def first_violation.simps i64_lt_def
    i64_le_def [of "vb_expires_at_ms b"] sint_0 plane_clauses case_Some_bex
  by (rule refl)

section \<open>Safety consequences\<close>

text \<open>
  Once the bearer's lifetime has elapsed on the monotonic clock, no wall-clock reading, policy,
  request or gate makes it acceptable again.
\<close>

theorem expired_by_monotonic_clock_never_allowed:
  assumes "0 \<le> sint (vb_issued_at_ms b)" "0 \<le> sint (vb_issued_boottime_ms b)"
    and "sint (vb_expires_at_ms b) - sint (vb_issued_at_ms b)
         \<le> sint boot - sint (vb_issued_boottime_ms b)"
  shows "decide p b req now boot usb floor \<noteq> Allow"
  using assms(3) unfolding decide_Allow_exact [OF assms(1,2)] swap_permitted_def live_on_both_clocks_def Let_def
  by linarith

theorem expired_by_monotonic_clock_never_allowed_witness:
  "decide base_policy base_bearer base_request 1700000000000 9000000 None 1699000000000 \<noteq> Allow"
proof -
  have "sint (vb_expires_at_ms base_bearer) - sint (vb_issued_at_ms base_bearer)
        \<le> sint (9000000 :: i64) - sint (vb_issued_boottime_ms base_bearer)"
    by (simp add: base_defs)
  then show ?thesis
    by (intro expired_by_monotonic_clock_never_allowed) (simp_all add: base_defs)
qed

text \<open>
  Local and remote never cross: an allowed request either is local with a local bearer, or
  carries a verified proof for exactly the client and key the bearer is bound to.
\<close>

theorem planes_never_cross:
  assumes "decide p b req now boot usb floor = Allow"
  shows "(cr_remote req = None \<and> vb_client_id b = None)
         \<or> (\<exists>rp. cr_remote req = Some rp \<and> pe_dpop_verified rp
               \<and> vb_client_id b = Some (pe_client_id rp) \<and> vb_dpop_jkt b = Some (pe_dpop_jkt rp))"
  using assms by (auto simp: decide_Allow_raw presenter_bound_def split: option.splits)

definition remote_bearer :: verified_bearer where
  "remote_bearer = base_bearer\<lparr>vb_client_uid := None, vb_client_id := Some ''phone'',
     vb_dpop_jkt := Some (replicate 32 170)\<rparr>"

definition remote_request :: canon_request where
  "remote_request = base_request\<lparr>cr_peer_uid := None,
     cr_remote := Some \<lparr>pe_client_id = ''phone'', pe_dpop_jkt = replicate 32 170, pe_dpop_verified = True\<rparr>\<rparr>"

theorem planes_never_cross_witness:
  "\<exists>rp. cr_remote remote_request = Some rp \<and> vb_client_id remote_bearer = Some (pe_client_id rp)"
proof -
  have "swap_permitted base_policy remote_bearer remote_request 1700000000000 5000000 None 1699000000000"
    using base_permitted
    by (simp add: swap_permitted_def within_scope_def presenter_bound_def within_budget_def
        live_on_both_clocks_def remote_bearer_def remote_request_def)
  then have "decide base_policy remote_bearer remote_request 1700000000000 5000000 None 1699000000000 = Allow"
    by (subst decide_Allow_exact) (simp_all add: remote_bearer_def base_defs)
  from planes_never_cross [OF this] show ?thesis
    by (auto simp: remote_request_def)
qed

text \<open>
  The frozen upstream fence: whatever a policy lists, an allowed request goes to a canonical host
  of the policy's provider, so a policy of the generic provider never allows anything.
\<close>

theorem allowed_host_is_canonical:
  assumes "decide p b req now boot usb floor = Allow"
  shows "rp_provider p \<noteq> Generic
         \<and> (\<exists>h\<in>set (canonical_upstreams (rp_provider p)). eq_ignore_ascii_case h (cr_host req))"
proof -
  have host: "\<exists>h\<in>set (canonical_upstreams (rp_provider p)). eq_ignore_ascii_case h (cr_host req)"
    using assms by (simp add: decide_Allow_raw within_scope_def host_in_iff)
  then show ?thesis by (cases "rp_provider p") auto
qed

theorem allowed_host_is_canonical_witness:
  "\<exists>h\<in>set (canonical_upstreams Anthropic). eq_ignore_ascii_case h (cr_host base_request)"
proof -
  have "decide base_policy base_bearer base_request 1700000000000 5000000 None 1699000000000 = Allow"
    by (subst decide_Allow_exact) (simp_all add: base_permitted, simp_all add: base_defs)
  from allowed_host_is_canonical [OF this] show ?thesis by (simp add: base_policy_def)
qed

end
