(* ===== verification/Broker.thy ===== *)
theory Broker
  imports Store Decide
begin

text \<open>
  The broker's in-memory state (\<open>crates/secrets-engine/src/broker/mod.rs\<close>): a policy cache, and per
  token the counters behind the total budgets and the rate limit. \<open>bump\<close> counts one swap and
  returns the tallies \<open>decide\<close> compares with the policy.
\<close>

record bearer_counters =
  bc_window_start_ms :: i64
  bc_in_window :: u32
  bc_total_requests :: u64
  bc_total_bytes :: u64

record broker =
  bk_policies :: "string \<rightharpoonup> relay_policy_row"
  bk_counters :: "string \<rightharpoonup> bearer_counters"

definition default_counters :: bearer_counters where
  "default_counters =
     \<lparr>bc_window_start_ms = 0, bc_in_window = 0, bc_total_requests = 0, bc_total_bytes = 0\<rparr>"

definition default_broker :: broker where
  "default_broker = \<lparr>bk_policies = Map.empty, bk_counters = Map.empty\<rparr>"

definition counters_of :: "broker \<Rightarrow> string \<Rightarrow> bearer_counters" where
  "counters_of br token_id = (case bk_counters br token_id of None \<Rightarrow> default_counters | Some c \<Rightarrow> c)"

definition bump :: "string \<Rightarrow> i64 \<Rightarrow> u64 \<Rightarrow> broker \<Rightarrow> (u64 \<times> u64 \<times> u32) \<times> broker" where
  "bump token_id now_ms nbytes br =
     (let c = counters_of br token_id;
          c = (if bc_window_start_ms c = 0 \<or> i64_le 60000 (sat_sub now_ms (bc_window_start_ms c))
               then c\<lparr>bc_window_start_ms := now_ms, bc_in_window := 0\<rparr> else c);
          c = c\<lparr>bc_in_window := usat_add (bc_in_window c) 1\<rparr>;
          c = c\<lparr>bc_total_requests := usat_add (bc_total_requests c) 1\<rparr>;
          c = c\<lparr>bc_total_bytes := usat_add (bc_total_bytes c) nbytes\<rparr>
      in ((bc_total_requests c, bc_total_bytes c, bc_in_window c),
          br\<lparr>bk_counters := (bk_counters br)(token_id \<mapsto> c)\<rparr>))"

section \<open>The totals\<close>

text \<open>A sequence of swaps: token, time and bytes of each.\<close>

type_synonym swap_event = "string \<times> i64 \<times> u64"

fun run_bumps :: "swap_event list \<Rightarrow> broker \<Rightarrow> broker" where
  "run_bumps [] br = br"
| "run_bumps ((t, now, n) # es) br = run_bumps es (snd (bump t now n br))"

definition requests_on :: "string \<Rightarrow> swap_event list \<Rightarrow> nat" where
  "requests_on t es = length (filter (\<lambda>e. fst e = t) es)"

definition bytes_on :: "string \<Rightarrow> swap_event list \<Rightarrow> nat" where
  "bytes_on t es = sum_list (map (\<lambda>e. unat (snd (snd e))) (filter (\<lambda>e. fst e = t) es))"

lemma counters_of_bump_other: "t' \<noteq> t \<Longrightarrow> counters_of (snd (bump t now n br)) t' = counters_of br t'"
  by (simp add: bump_def counters_of_def Let_def)

lemma totals_bump:
  "unat (bc_total_requests (counters_of (snd (bump t now n br)) t)) =
     min (unat (bc_total_requests (counters_of br t)) + 1) 18446744073709551615"
  "unat (bc_total_bytes (counters_of (snd (bump t now n br)) t)) =
     min (unat (bc_total_bytes (counters_of br t)) + unat n) 18446744073709551615"
  by (simp_all add: bump_def counters_of_def Let_def unat_usat_add)

lemma run_bumps_snoc: "run_bumps (es @ [(t, now, n)]) br = snd (bump t now n (run_bumps es br))"
  by (induction es br rule: run_bumps.induct) simp_all

lemma cap_add: "min (min a m + b) m = min (a + b) m" for a b m :: nat
  by (simp add: min_def)

lemma on_snoc:
  "requests_on t (es @ [(t, now, n)]) = requests_on t es + 1"
  "bytes_on t (es @ [(t, now, n)]) = bytes_on t es + unat n"
  "t' \<noteq> t \<Longrightarrow> requests_on t (es @ [(t', now, n)]) = requests_on t es"
  "t' \<noteq> t \<Longrightarrow> bytes_on t (es @ [(t', now, n)]) = bytes_on t es"
  by (simp_all add: requests_on_def bytes_on_def)

lemma totals_run_bumps:
  assumes "counters_of br t = default_counters"
  shows "unat (bc_total_requests (counters_of (run_bumps es br) t)) = min (requests_on t es) 18446744073709551615
   \<and> unat (bc_total_bytes (counters_of (run_bumps es br) t)) = min (bytes_on t es) 18446744073709551615"
proof (induction es rule: rev_induct)
  case Nil
  then show ?case by (simp add: assms default_counters_def requests_on_def bytes_on_def)
next
  case (snoc e es)
  obtain t' now n where e: "e = (t', now, n)" by (cases e) auto
  show ?case
  proof (cases "t' = t")
    case True
    then show ?thesis
      by (simp only: e run_bumps_snoc totals_bump on_snoc snoc cap_add simp_thms)
  next
    case False
    then show ?thesis
      by (simp only: e run_bumps_snoc counters_of_bump_other on_snoc snoc simp_thms)
  qed
qed

lemma bump_tallies:
  "fst (bump t now n br) =
     (bc_total_requests (counters_of (snd (bump t now n br)) t),
      bc_total_bytes (counters_of (snd (bump t now n br)) t),
      bc_in_window (counters_of (snd (bump t now n br)) t))"
  by (simp add: bump_def counters_of_def Let_def)

text \<open>
  After any interleaving of swaps of any tokens on a fresh broker, the tallies of the next swap of
  a token are the number of its own swaps and the sum of its own bytes, capped at the end of the
  64-bit range instead of wrapping; other tokens never count.
\<close>

theorem bump_counts_own_swaps:
  "case fst (bump t now n (run_bumps es default_broker)) of (requests, nbytes_total, in_window) \<Rightarrow>
     unat requests = min (requests_on t es + 1) 18446744073709551615
     \<and> unat nbytes_total = min (bytes_on t es + unat n) 18446744073709551615"
proof -
  have "counters_of default_broker t = default_counters"
    by (simp add: counters_of_def default_broker_def)
  then show ?thesis
    using totals_run_bumps [of default_broker t "es @ [(t, now, n)]"]
    by (simp add: bump_tallies run_bumps_snoc on_snoc)
qed

section \<open>The rate window\<close>

lemma in_window_bump:
  "unat (bc_in_window (counters_of (snd (bump t now n br)) t)) =
     (let c = counters_of br t in
      if bc_window_start_ms c = 0 \<or> 60000 \<le> sint (sat_sub now (bc_window_start_ms c)) then 1
      else min (unat (bc_in_window c) + 1) 4294967295)"
  by (simp add: bump_def counters_of_def Let_def unat_usat_add i64_le_def)

lemma window_start_bump:
  "bc_window_start_ms (counters_of (snd (bump t now n br)) t) =
     (let c = counters_of br t in
      if bc_window_start_ms c = 0 \<or> 60000 \<le> sint (sat_sub now (bc_window_start_ms c)) then now
      else bc_window_start_ms c)"
  by (simp add: bump_def counters_of_def Let_def i64_le_def)

lemma in_window_positive: "0 < snd (snd (fst (bump t now n br)))"
proof -
  have "0 < unat (bc_in_window (counters_of (snd (bump t now n br)) t))"
    unfolding in_window_bump by (simp add: Let_def)
  then show ?thesis by (simp add: bump_tallies word_less_nat_alt)
qed

text \<open>
  C40: the request being decided is counted before the limit is compared, and the comparison refuses
  on equality; so a policy of one request per minute refuses every request, whatever the clocks, the
  bearer and the history of the token.
\<close>

theorem rate_of_one_refuses_all:
  assumes "rp_rate_per_min p = Some 1"
    and "fst (bump t now_ms nbytes br) = (requests, nbytes_total, in_window)"
    and "cr_rate_in_window req = in_window"
  shows "decide p b req now boot usb floor \<noteq> Allow"
proof -
  have "\<not> cr_rate_in_window req < 1"
    using in_window_positive [of t now_ms nbytes br] assms(2,3) by (simp add: word_less_nat_alt)
  then show ?thesis
    using assms(1) by (auto simp: decide_Allow_raw within_budget_def)
qed

theorem rate_of_one_refuses_all_witness:
  "decide (base_policy\<lparr>rp_rate_per_min := Some 1\<rparr>) base_bearer base_request
     1700000000000 5000000 None 1699000000000 \<noteq> Allow"
  by (rule rate_of_one_refuses_all [of _ "''deadbeef''" 1700000000000 128 default_broker 1 128 1])
    (simp_all add: bump_def counters_of_def default_broker_def default_counters_def Let_def usat_add_def
      base_defs)

text \<open>The requests of one window: they come less than a minute after its first one.\<close>

definition one_window :: "i64 list \<Rightarrow> bool" where
  "one_window nows \<longleftrightarrow> nows \<noteq> [] \<and> hd nows \<noteq> 0 \<and> list_all (\<lambda>now. sint (sat_sub now (hd nows)) < 60000) nows"

lemma counters_after_window:
  assumes "bc_window_start_ms (counters_of br t) = 0" "one_window nows"
  shows "bc_window_start_ms (counters_of (run_bumps (map (\<lambda>now. (t, now, n)) nows) br) t) = hd nows
    \<and> unat (bc_in_window (counters_of (run_bumps (map (\<lambda>now. (t, now, n)) nows) br) t)) = min (length nows) 4294967295"
  using assms(2)
proof (induction nows rule: rev_induct)
  case Nil
  then show ?case by (simp add: one_window_def)
next
  case (snoc now nows)
  show ?case
  proof (cases "nows = []")
    case True
    then show ?thesis
      using assms(1) by (simp add: bump_def counters_of_def Let_def unat_usat_add)
  next
    case False
    with snoc.prems have w: "one_window nows" "hd nows \<noteq> 0" "sint (sat_sub now (hd nows)) < 60000"
      by (auto simp: one_window_def)
    let ?br = "run_bumps (map (\<lambda>now. (t, now, n)) nows) br"
    have c: "bc_window_start_ms (counters_of ?br t) = hd nows"
      "unat (bc_in_window (counters_of ?br t)) = min (length nows) 4294967295"
      using snoc.IH [OF w(1)] by auto
    have "bc_window_start_ms (counters_of (snd (bump t now n ?br)) t) = hd nows"
      using w(2,3) c(1) by (simp add: bump_def counters_of_def Let_def i64_le_def)
    moreover have "unat (bc_in_window (counters_of (snd (bump t now n ?br)) t)) = min (Suc (length nows)) 4294967295"
      using w(2,3) c by (simp add: in_window_bump Let_def)
    ultimately show ?thesis
      using False by (simp add: run_bumps_snoc)
  qed
qed

text \<open>
  The k-th request of a window carries the tally k, so under a limit of r it is refused from
  \<open>k = r\<close> on: of the requests of one window at most \<open>r - 1\<close> are let through.
\<close>

theorem window_limit:
  assumes "bc_window_start_ms (counters_of br t) = 0" "one_window (nows @ [now])"
    and "length nows < 4294967295"
    and "fst (bump t now n (run_bumps (map (\<lambda>now. (t, now, n)) nows) br)) = (requests, nbytes_total, in_window)"
    and "cr_rate_in_window req = in_window" "rp_rate_per_min p = Some r"
  shows "unat in_window = Suc (length nows)
    \<and> (unat r \<le> Suc (length nows) \<longrightarrow> decide p b req wall boot usb floor \<noteq> Allow)"
proof -
  have "unat in_window = Suc (length nows)"
    using counters_after_window [OF assms(1,2), of n] assms(3,4)
    by (simp add: bump_tallies run_bumps_snoc)
  moreover from this have "unat r \<le> Suc (length nows) \<Longrightarrow> \<not> within_budget p req"
    using assms(5,6) by (auto simp: within_budget_def word_less_nat_alt)
  ultimately show ?thesis by (auto simp: decide_Allow_raw)
qed

theorem window_limit_witness:
  "decide (base_policy\<lparr>rp_rate_per_min := Some 2\<rparr>) base_bearer (base_request\<lparr>cr_rate_in_window := 2\<rparr>)
     1700000000000 5000000 None 1699000000000 \<noteq> Allow"
proof -
  have w: "one_window ([1000] @ [1500])"
    by (simp add: one_window_def i64_arith)
  have "fst (bump ''ab'' 1500 0 (run_bumps (map (\<lambda>now. (''ab'', now, 0)) [1000]) default_broker)) = (2, 0, 2)"
    by (simp add: bump_def counters_of_def default_broker_def default_counters_def Let_def usat_add_def i64_arith)
  from window_limit [OF _ w _ this, of "base_request\<lparr>cr_rate_in_window := 2\<rparr>" "base_policy\<lparr>rp_rate_per_min := Some 2\<rparr>" 2]
  show ?thesis
    by (simp add: counters_of_def default_broker_def default_counters_def)
qed

text \<open>
  The window restarts at its first request after a minute; it does not slide. Under a limit of 3
  per minute a window admits 2 requests, yet here three requests in 3 ms all carry a tally below
  the limit.
\<close>

theorem rate_window_restarts:
  "let b1 = snd (bump ''ab'' 1 0 default_broker); b2 = snd (bump ''ab'' 60000 0 b1);
       b3 = snd (bump ''ab'' 60001 0 b2) in
     unat (snd (snd (fst (bump ''ab'' 60000 0 b1)))) = 2
     \<and> unat (snd (snd (fst (bump ''ab'' 60001 0 b2)))) = 1
     \<and> unat (snd (snd (fst (bump ''ab'' 60002 0 b3)))) = 2"
proof -
  define b1 where "b1 = snd (bump ''ab'' 1 0 default_broker)"
  define b2 where "b2 = snd (bump ''ab'' 60000 0 b1)"
  define b3 where "b3 = snd (bump ''ab'' 60001 0 b2)"
  have 0: "bc_window_start_ms (counters_of default_broker ''ab'') = 0"
    by (simp add: counters_of_def default_broker_def default_counters_def)
  have 1: "bc_window_start_ms (counters_of b1 ''ab'') = 1" "unat (bc_in_window (counters_of b1 ''ab'')) = 1"
    unfolding b1_def by (simp_all add: in_window_bump window_start_bump 0)
  have 2: "bc_window_start_ms (counters_of b2 ''ab'') = 1" "unat (bc_in_window (counters_of b2 ''ab'')) = 2"
    unfolding b2_def by (simp_all add: in_window_bump window_start_bump 1 Let_def sint_sat_sub)
  have 3: "bc_window_start_ms (counters_of b3 ''ab'') = 60001" "unat (bc_in_window (counters_of b3 ''ab'')) = 1"
    unfolding b3_def by (simp_all add: in_window_bump window_start_bump 2 Let_def sint_sat_sub)
  have 4: "unat (bc_in_window (counters_of (snd (bump ''ab'' 60002 0 b3)) ''ab'')) = 2"
    by (simp add: in_window_bump 3 Let_def sint_sat_sub)
  show ?thesis
    unfolding Let_def b1_def [symmetric] b2_def [symmetric] b3_def [symmetric]
    using 2(2) 3(2) 4 by (simp add: bump_tallies b2_def [symmetric] b3_def [symmetric])
qed

end
