(* ===== verification/Codec.thy ===== *)
theory Codec
  imports Prelude
begin

text \<open>
  The text encodings of the engine (\<open>crates/secrets-engine/src/lib.rs\<close>): lowercase hex for MACs in
  the header, unpadded base64url for the secret half of a bearer, and the decimal form of an \<open>i64\<close>
  that the metadata table stores (Rust's \<open>to_string\<close> and \<open>parse\<close>).
\<close>

section \<open>Hexadecimal\<close>

text \<open>\<open>char::from_digit(d, 16)\<close> for \<open>d < 16\<close>, and \<open>char::to_digit(16)\<close>.\<close>

definition from_digit16 :: "nat \<Rightarrow> char" where
  "from_digit16 d = (if d < 10 then char_of (48 + d) else char_of (87 + d))"

definition to_digit16 :: "char \<Rightarrow> nat option" where
  "to_digit16 c =
     (let n = of_char c :: nat in
      if 48 \<le> n \<and> n \<le> 57 then Some (n - 48)
      else if 97 \<le> n \<and> n \<le> 102 then Some (n - 87)
      else if 65 \<le> n \<and> n \<le> 70 then Some (n - 55)
      else None)"

fun hex_encode :: "bytes \<Rightarrow> string" where
  "hex_encode [] = []"
| "hex_encode (b # bs) =
     from_digit16 (unat (drop_bit 4 b)) # from_digit16 (unat (take_bit 4 b)) # hex_encode bs"

fun hex_pairs :: "string \<Rightarrow> bytes option" where
  "hex_pairs [] = Some []"
| "hex_pairs [c] = None"
| "hex_pairs (c # d # cs) =
     (case to_digit16 c of None \<Rightarrow> None
      | Some hi \<Rightarrow>
        (case to_digit16 d of None \<Rightarrow> None
         | Some lo \<Rightarrow>
           (case hex_pairs cs of None \<Rightarrow> None
            | Some out \<Rightarrow> Some (word_of_nat (16 * hi + lo) # out))))"

definition hex_decode :: "string \<Rightarrow> bytes option" where
  "hex_decode s = (if length s mod 2 \<noteq> 0 then None else hex_pairs s)"

lemma to_digit16_from_digit16: "d < 16 \<Longrightarrow> to_digit16 (from_digit16 d) = Some d"
  by (auto simp: to_digit16_def from_digit16_def Let_def)

lemma length_hex_encode [simp]: "length (hex_encode bs) = 2 * length bs"
  by (induction bs) auto

lemma unat_nibbles:
  "unat (drop_bit 4 (b :: byte)) = unat b div 16" "unat (take_bit 4 (b :: byte)) = unat b mod 16"
proof -
  have "drop_bit 4 b = b div 16" and "take_bit 4 b = b mod 16"
    by (simp_all add: drop_bit_eq_div take_bit_eq_mod)
  then show "unat (drop_bit 4 b) = unat b div 16" "unat (take_bit 4 b) = unat b mod 16"
    by (simp_all add: unat_div unat_mod)
qed

lemma byte_lt: "unat (b :: byte) < 256"
  using unsigned_less [of b, where 'a = nat] by simp

lemma nibbles_lt: "unat (drop_bit 4 (b :: byte)) < 16" "unat (take_bit 4 (b :: byte)) < 16"
  using byte_lt [of b] by (simp_all add: unat_nibbles less_mult_imp_div_less)

lemma nibbles_join: "word_of_nat (16 * unat (drop_bit 4 b) + unat (take_bit 4 b)) = (b :: byte)"
proof -
  have "16 * unat (drop_bit 4 b) + unat (take_bit 4 b) = unat b"
    by (simp add: unat_nibbles)
  then show ?thesis by (simp only: of_nat_unat ucast_id)
qed

lemma hex_pairs_encode: "hex_pairs (hex_encode bs) = Some bs"
  by (induction bs)
    (simp_all add: to_digit16_from_digit16 nibbles_lt nibbles_join del: of_nat_add of_nat_mult)

text \<open>Decoding an encoded byte string gives it back.\<close>

theorem hex_decode_encode: "hex_decode (hex_encode bs) = Some bs"
  by (simp add: hex_decode_def hex_pairs_encode)

lemma hex_encode_eq_iff: "hex_encode a = hex_encode b \<longleftrightarrow> a = b"
  by (metis hex_pairs_encode option.inject)

definition hex_char :: "char \<Rightarrow> bool" where
  "hex_char c \<longleftrightarrow> c \<in> set ''0123456789abcdef''"

lemma hex_char_from_digit16: "d < 16 \<Longrightarrow> hex_char (from_digit16 d)"
proof -
  assume "d < 16"
  then have "d \<in> set [0..<16]" by simp
  moreover have "\<forall>d\<in>set [0..<16]. hex_char (from_digit16 d)"
    by code_simp
  ultimately show ?thesis by blast
qed

lemma hex_encode_chars: "c \<in> set (hex_encode bs) \<Longrightarrow> hex_char c"
  by (induction bs) (auto simp: hex_char_from_digit16 nibbles_lt)

section \<open>Unpadded base64url\<close>

definition b64_table :: string where
  "b64_table = ''ABCDEFGHIJKLMNOPQRSTUVWXYZabcdefghijklmnopqrstuvwxyz0123456789-_''"

definition b64_digit :: "nat \<Rightarrow> char" where
  "b64_digit n = b64_table ! (n mod 64)"

fun b64url_nopad :: "bytes \<Rightarrow> string" where
  "b64url_nopad [] = []"
| "b64url_nopad [b0] =
     (let n = unat b0 * 65536
      in [b64_digit (n div 262144), b64_digit (n div 4096)])"
| "b64url_nopad [b0, b1] =
     (let n = unat b0 * 65536 + unat b1 * 256
      in [b64_digit (n div 262144), b64_digit (n div 4096), b64_digit (n div 64)])"
| "b64url_nopad (b0 # b1 # b2 # bs) =
     (let n = unat b0 * 65536 + unat b1 * 256 + unat b2
      in [b64_digit (n div 262144), b64_digit (n div 4096), b64_digit (n div 64), b64_digit n]
         @ b64url_nopad bs)"

lemma length_b64_table [simp]: "length b64_table = 64"
  by (simp add: b64_table_def)

lemma distinct_b64_table: "distinct b64_table"
  by (simp add: b64_table_def)

lemma b64_digit_eq_iff: "b64_digit m = b64_digit n \<longleftrightarrow> m mod 64 = n mod 64"
  by (simp add: b64_digit_def nth_eq_iff_index_eq distinct_b64_table)

lemma b64_digit_in: "b64_digit n \<in> set b64_table"
  by (simp add: b64_digit_def)

lemma length_b64url_nopad: "length (b64url_nopad bs) = (4 * length bs + 2) div 3"
  by (induction bs rule: b64url_nopad.induct) (auto simp: Let_def)

lemma b64_group_value:
  "n < 16777216 \<Longrightarrow>
   n = 262144 * (n div 262144 mod 64) + 4096 * (n div 4096 mod 64) + 64 * (n div 64 mod 64) + n mod (64::nat)"
proof -
  assume n: "n < 16777216"
  have "n = 64 * (n div 64) + n mod 64" by simp
  moreover have "n div 64 = 64 * (n div 4096) + n div 64 mod 64"
    using mult_div_mod_eq [of 64 "n div 64"] by (simp flip: div_mult2_eq)
  moreover have "n div 4096 = 64 * (n div 262144) + n div 4096 mod 64"
    using mult_div_mod_eq [of 64 "n div 4096"] by (simp flip: div_mult2_eq)
  moreover have "n div 262144 mod 64 = n div 262144"
    using n by (simp add: less_mult_imp_div_less)
  ultimately show ?thesis by linarith
qed

lemma b64_group_inj:
  assumes "m < 16777216" "n < 16777216"
    and "m div 262144 mod 64 = n div 262144 mod 64" "m div 4096 mod 64 = n div 4096 mod 64"
    and "m div 64 mod 64 = n div 64 mod 64" "m mod 64 = n mod (64::nat)"
  shows "m = n"
  using b64_group_value [OF assms(1)] b64_group_value [OF assms(2)] assms(3-6) by linarith

lemma digit256:
  assumes "256 * x + c = 256 * y + d" "c < 256" "d < (256 :: nat)"
  shows "x = y \<and> c = d"
proof -
  have "c = (256 * x + c) mod 256" and "d = (256 * y + d) mod 256"
    using assms(2,3) by simp_all
  then have "c = d" using assms(1) by simp
  then show ?thesis using assms(1) by simp
qed

lemma regroup256: "a * 65536 + b * 256 + c = 256 * (256 * a + b) + (c :: nat)"
  by simp

lemma bytes_group_inj:
  fixes a b c a' b' c' :: byte
  assumes "unat a * 65536 + unat b * 256 + unat c = unat a' * 65536 + unat b' * 256 + unat c'"
  shows "a = a' \<and> b = b' \<and> c = c'"
proof -
  have "256 * (256 * unat a + unat b) + unat c = 256 * (256 * unat a' + unat b') + unat c'"
    using assms by (simp only: regroup256)
  then have ab: "256 * unat a + unat b = 256 * unat a' + unat b'" and c: "unat c = unat c'"
    using digit256 [OF _ byte_lt byte_lt] by blast+
  have "unat a = unat a'" "unat b = unat b'"
    using digit256 [OF ab byte_lt byte_lt] by blast+
  with c show ?thesis by (simp only: word_unat_eq_iff)
qed

lemma group_lt: "unat (a :: byte) * 65536 + unat (b :: byte) * 256 + unat (c :: byte) < 16777216"
  using byte_lt [of a] byte_lt [of b] byte_lt [of c] by linarith

lemma b64_full_group:
  fixes a b c a' b' c' :: byte
  assumes "m = unat a * 65536 + unat b * 256 + unat c" "n = unat a' * 65536 + unat b' * 256 + unat c'"
    and "m div 262144 mod 64 = n div 262144 mod 64" "m div 4096 mod 64 = n div 4096 mod 64"
    and "m div 64 mod 64 = n div 64 mod 64" "m mod 64 = n mod 64"
  shows "a = a' \<and> b = b' \<and> c = c'"
proof -
  have "m < 16777216" "n < 16777216"
    unfolding assms(1,2) by (rule group_lt)+
  then have "m = n" using assms(3-6) by (rule b64_group_inj)
  then show ?thesis unfolding assms(1,2) by (rule bytes_group_inj)
qed

text \<open>The last, partial group is padded with zero bytes, whose sextets are not written.\<close>

lemma zero_sextets: "64 dvd n \<Longrightarrow> n mod 64 = (0 :: nat)"
  by simp

lemma b64_three:
  fixes a b a' b' :: byte
  assumes "m = unat a * 65536 + unat b * 256" "n = unat a' * 65536 + unat b' * 256"
    and "m div 262144 mod 64 = n div 262144 mod 64" "m div 4096 mod 64 = n div 4096 mod 64"
    and "m div 64 mod 64 = n div 64 mod 64"
  shows "a = a' \<and> b = b'"
proof -
  have "64 dvd m" "64 dvd n"
    unfolding assms(1,2) by (intro dvd_add dvd_mult; simp)+
  then have "m mod 64 = n mod 64" by simp
  then show ?thesis
    using b64_full_group [of m a b 0 n a' b' 0] assms by simp
qed

lemma b64_two:
  fixes a a' :: byte
  assumes "m = unat a * 65536" "n = unat a' * 65536"
    and "m div 262144 mod 64 = n div 262144 mod 64" "m div 4096 mod 64 = n div 4096 mod 64"
  shows "a = a'"
proof -
  have "m div 64 = 64 * (unat a * 16)" "n div 64 = 64 * (unat a' * 16)"
    unfolding assms(1,2) by linarith+
  then have "m div 64 mod 64 = n div 64 mod 64" by simp
  then show ?thesis
    using b64_three [of m a 0 n a' 0] assms by simp
qed

lemma b64url_nopad_inj: "b64url_nopad xs = b64url_nopad ys \<Longrightarrow> xs = ys"
proof (induction xs arbitrary: ys rule: b64url_nopad.induct)
  case 1
  then show ?case by (cases ys rule: b64url_nopad.cases) (auto simp: Let_def)
next
  case (2 a)
  then show ?case
    by (cases ys rule: b64url_nopad.cases)
      (auto simp only: b64url_nopad.simps Let_def b64_digit_eq_iff list.inject list.distinct append.simps
        intro: b64_two [OF refl refl])
next
  case (3 a b)
  then show ?case
    by (cases ys rule: b64url_nopad.cases)
      (auto simp only: b64url_nopad.simps Let_def b64_digit_eq_iff list.inject list.distinct append.simps
        dest: b64_three [OF refl refl])
next
  case (4 a b c xs)
  then show ?case
    by (cases ys rule: b64url_nopad.cases)
      (auto simp only: b64url_nopad.simps Let_def b64_digit_eq_iff list.inject list.distinct append.simps
        dest: b64_full_group [OF refl refl])
qed

text \<open>The base64url text of the secret half of a bearer determines its bytes.\<close>

theorem b64url_nopad_injective: "inj b64url_nopad"
  by (rule injI) (rule b64url_nopad_inj)

lemma b64url_nopad_eq_Nil_iff [simp]: "b64url_nopad bs = [] \<longleftrightarrow> bs = []"
  by (cases bs rule: b64url_nopad.cases) (auto simp: Let_def)

section \<open>Decimal integers\<close>

text \<open>\<open>i64::to_string\<close> and \<open>str::parse::<i64>\<close> of the standard library.\<close>

fun dec_nat :: "nat \<Rightarrow> string" where
  "dec_nat n = (if n < 10 then [char_of (48 + n)] else dec_nat (n div 10) @ [char_of (48 + n mod 10)])"

declare dec_nat.simps [simp del]

definition i64_to_string :: "i64 \<Rightarrow> string" where
  "i64_to_string w =
     (if sint w < 0 then CHR ''-'' # dec_nat (nat (- sint w)) else dec_nat (nat (sint w)))"

fun dec_value :: "nat \<Rightarrow> string \<Rightarrow> nat option" where
  "dec_value acc [] = Some acc"
| "dec_value acc (c # cs) =
     (let n = of_char c :: nat in
      if 48 \<le> n \<and> n \<le> 57 then dec_value (10 * acc + (n - 48)) cs else None)"

definition signed_result :: "int \<Rightarrow> i64 option" where
  "signed_result v = (if i64_min \<le> v \<and> v \<le> i64_max then Some (word_of_int v) else None)"

fun parse_i64 :: "string \<Rightarrow> i64 option" where
  "parse_i64 [] = None"
| "parse_i64 (c # cs) =
     (if c = CHR ''-'' then
        (if cs = [] then None
         else case dec_value 0 cs of None \<Rightarrow> None | Some n \<Rightarrow> signed_result (- int n))
      else if c = CHR ''+'' then
        (if cs = [] then None
         else case dec_value 0 cs of None \<Rightarrow> None | Some n \<Rightarrow> signed_result (int n))
      else case dec_value 0 (c # cs) of None \<Rightarrow> None | Some n \<Rightarrow> signed_result (int n))"

lemma digit_code: "n < 10 \<Longrightarrow> (of_char (char_of (48 + n) :: char) :: nat) = 48 + n"
  by simp

lemma dec_value_append:
  "dec_value acc (xs @ ys) = (case dec_value acc xs of None \<Rightarrow> None | Some v \<Rightarrow> dec_value v ys)"
  by (induction xs arbitrary: acc) (auto simp: Let_def)

lemma dec_value_dec_nat: "dec_value 0 (dec_nat n) = Some n"
proof (induction n rule: dec_nat.induct)
  case (1 n)
  show ?case
  proof (cases "n < 10")
    case True
    then show ?thesis by (subst dec_nat.simps) (simp add: Let_def)
  next
    case False
    then show ?thesis using 1
      by (subst dec_nat.simps) (simp add: dec_value_append Let_def)
  qed
qed

lemma dec_nat_Cons: "\<exists>c cs. dec_nat n = c # cs \<and> 48 \<le> (of_char c :: nat) \<and> (of_char c :: nat) \<le> 57"
proof (induction n rule: dec_nat.induct)
  case (1 n)
  then show ?case by (cases "n < 10") (auto simp: dec_nat.simps [of n])
qed

lemma dec_nat_sign:
  assumes "dec_nat n = c # cs"
  shows "c \<noteq> CHR ''-''" "c \<noteq> CHR ''+''"
  using dec_nat_Cons [of n] assms by auto

lemma parse_dec_nat: "parse_i64 (dec_nat n) = signed_result (int n)"
proof -
  obtain c cs where dec: "dec_nat n = c # cs" using dec_nat_Cons by blast
  have "dec_value 0 (c # cs) = Some n"
    using dec_value_dec_nat [of n] by (simp only: dec)
  then show ?thesis
    unfolding dec parse_i64.simps using dec_nat_sign [OF dec] by (simp only: if_False option.case)
qed

lemma signed_result_sint: "signed_result (sint w) = Some w"
  using sint_i64_lower [of w] sint_i64_upper [of w] by (simp add: signed_result_def)

text \<open>Parsing the decimal text of an \<open>i64\<close> gives the integer back, over the whole range.\<close>

lemma parse_i64_to_string: "parse_i64 (i64_to_string w) = Some w"
proof (cases "sint w < 0")
  case True
  have "dec_nat (nat (- sint w)) \<noteq> []" by (metis dec_nat_Cons list.distinct(1))
  with True show ?thesis
    by (simp add: i64_to_string_def dec_value_dec_nat signed_result_sint)
next
  case False
  then show ?thesis
    by (simp add: i64_to_string_def parse_dec_nat signed_result_sint)
qed

section \<open>Debug text of a string\<close>

text \<open>
  Rust's \<open>{:?}\<close> of a \<open>str\<close>: quotes, with the escapes of \<open>char::escape_debug\<close>; bytes beyond ASCII are
  taken as parts of printable characters, which it leaves alone.
\<close>

fun hex_nat :: "nat \<Rightarrow> string" where
  "hex_nat n = (if n < 16 then [from_digit16 n] else hex_nat (n div 16) @ [from_digit16 (n mod 16)])"

declare hex_nat.simps [simp del]

definition debug_char :: "char \<Rightarrow> string" where
  "debug_char c =
     (let n = of_char c :: nat in
      if n = 0 then [CHR 0x5C, CHR 0x30]
      else if n = 9 then [CHR 0x5C, CHR 0x74]
      else if n = 10 then [CHR 0x5C, CHR 0x6E]
      else if n = 13 then [CHR 0x5C, CHR 0x72]
      else if n = 34 \<or> n = 92 then [CHR 0x5C, c]
      else if n < 32 \<or> n = 127 then [CHR 0x5C] @ ''u{'' @ hex_nat n @ ''}''
      else [c])"

definition debug_str :: "string \<Rightarrow> string" where
  "debug_str s = [CHR 0x22] @ concat (map debug_char s) @ [CHR 0x22]"

end
