(* ===== verification/Sealing.thy ===== *)
theory Sealing
  imports External
begin

text \<open>
  Records at rest (\<open>crates/secrets-engine/src/vault/aad.rs\<close> and \<open>vault/crypto.rs\<close>): the canonical
  associated data that names a record, recomputed at every open and never stored, and the
  sealing and opening of a record body under the DEK.
\<close>

section \<open>Canonical associated data\<close>

definition AAD_DOMAIN :: bytes where
  "AAD_DOMAIN = str_bytes ''env-ctl/v1/aad''"

definition AAD_LEN :: nat where
  "AAD_LEN = length AAD_DOMAIN + 1 + 8 + 8 + 8"

datatype table_tag = SecretVersion | CaKey | Cert | HmacKey

fun tag_byte :: "table_tag \<Rightarrow> byte" where
  "tag_byte SecretVersion = 1"
| "tag_byte CaKey = 2"
| "tag_byte Cert = 3"
| "tag_byte HmacKey = 4"

definition record_aad :: "table_tag \<Rightarrow> i64 \<Rightarrow> i64 \<Rightarrow> i64 \<Rightarrow> bytes" where
  "record_aad tag row_id version dek_generation =
     AAD_DOMAIN @ [tag_byte tag] @ be64 row_id @ be64 version @ be64 dek_generation"

lemma tag_byte_eq_iff [simp]: "tag_byte a = tag_byte b \<longleftrightarrow> a = b"
  by (cases a; cases b) auto

lemma record_aad_eq_iff:
  "record_aad t r v g = record_aad t' r' v' g' \<longleftrightarrow> t = t' \<and> r = r' \<and> v = v' \<and> g = g'"
  by (auto simp: record_aad_def codec)

text \<open>
  The associated data of a record is always 39 bytes, and two records share it only when table,
  row id, version and DEK generation all agree.
\<close>

theorem record_aad_canonical:
  "length (record_aad t r v g) = 39
   \<and> (record_aad t r v g = record_aad t' r' v' g' \<longleftrightarrow> t = t' \<and> r = r' \<and> v = v' \<and> g = g')"
  by (simp add: record_aad_eq_iff) (simp add: record_aad_def AAD_DOMAIN_def)

section \<open>Sealing and opening\<close>

definition NONCE_LEN :: nat where "NONCE_LEN = 24"

text \<open>The nonce of \<open>seal\<close> is drawn from the OS generator: it is an argument here.\<close>

definition seal :: "crypto \<Rightarrow> bytes \<Rightarrow> bytes \<Rightarrow> bytes \<Rightarrow> bytes \<Rightarrow> bytes \<times> bytes" where
  "seal cr nonce dek aad plaintext = (nonce, aead_encrypt cr dek nonce aad plaintext)"

definition open_sealed :: "crypto \<Rightarrow> bytes \<Rightarrow> bytes \<Rightarrow> bytes \<Rightarrow> bytes \<Rightarrow> bytes option" where
  "open_sealed cr dek aad nonce ct_tag =
     (if length nonce \<noteq> NONCE_LEN then None else aead_decrypt cr dek nonce aad ct_tag)"

lemma open_seal:
  "aead_inverts cr \<Longrightarrow> length dek = 32 \<Longrightarrow> length nonce = 24 \<Longrightarrow>
   open_sealed cr dek aad nonce (snd (seal cr nonce dek aad body)) = Some body"
  by (simp add: open_sealed_def seal_def NONCE_LEN_def aead_invertsD)

text \<open>
  A sealed record opens to its body under its own identity, and under the identity of any other
  row, version, generation or table it does not open at all.
\<close>

theorem sealed_record_not_relocatable:
  assumes "aead_inverts cr" "aead_binds_aad cr" "length dek = 32" "length nonce = 24"
    and "seal cr nonce dek (record_aad t r v g) body = (n, ct)"
  shows "open_sealed cr dek (record_aad t' r' v' g') n ct =
    (if t' = t \<and> r' = r \<and> v' = v \<and> g' = g then Some body else None)"
proof (cases "t' = t \<and> r' = r \<and> v' = v \<and> g' = g")
  case True
  then show ?thesis using assms open_seal [of cr dek nonce "record_aad t r v g" body]
    by (auto simp: seal_def)
next
  case False
  then have "record_aad t r v g \<noteq> record_aad t' r' v' g'" by (auto simp: record_aad_eq_iff)
  then show ?thesis using assms(2,5) False
    by (auto simp: seal_def open_sealed_def aead_binds_aad_def)
qed

theorem sealed_record_not_relocatable_witness:
  "open_sealed toy_crypto (replicate 32 1) (record_aad SecretVersion 2 1 1) (replicate 24 5)
     (snd (seal toy_crypto (replicate 24 5) (replicate 32 1) (record_aad SecretVersion 1 1 1) [7, 8])) = None"
proof -
  have "open_sealed toy_crypto (replicate 32 1) (record_aad SecretVersion 2 1 1) (replicate 24 5)
     (snd (seal toy_crypto (replicate 24 5) (replicate 32 1) (record_aad SecretVersion 1 1 1) [7, 8]))
     = (if SecretVersion = SecretVersion \<and> (2 :: i64) = 1 \<and> (1 :: i64) = 1 \<and> (1 :: i64) = 1
        then Some [7, 8] else None)"
    by (rule sealed_record_not_relocatable [OF toy_aead_inverts toy_aead_binds_aad])
      (simp_all add: seal_def)
  then show ?thesis by simp
qed

end
