(* ===== verification/Token.thy ===== *)
theory Token
  imports External Decide Codec
begin

text \<open>
  Bearer tokens and usage counters (\<open>crates/secrets-engine/src/broker/mod.rs\<close> and
  \<open>broker/token.rs\<close>): the wire format and its parser, the keyed MACs over the wire string and over
  the stored row, the canonical row message that separates the two planes, and the per-bearer
  counters behind the budgets and the rate limit.
\<close>

section \<open>Keys and constants\<close>

definition BEARER_HMAC_KEY_INFO :: bytes where
  "BEARER_HMAC_KEY_INFO = str_bytes ''env-ctl/v1/relay-bearer/key''"

definition BEARER_ROW_MAC_KEY_INFO :: bytes where
  "BEARER_ROW_MAC_KEY_INFO = str_bytes ''env-ctl/v1/relay-bearer/row-mac/key''"

definition BEARER_ROW_MAC_DOMAIN :: bytes where
  "BEARER_ROW_MAC_DOMAIN = str_bytes ''env-ctl/v1/relay-bearer/row''"

definition BEARER_PREFIX :: string where
  "BEARER_PREFIX = ''evrelay_''"

definition broker_hmac_key :: "crypto \<Rightarrow> bytes \<Rightarrow> bytes" where
  "broker_hmac_key cr dek = blake3_derive_key cr BEARER_HMAC_KEY_INFO dek"

definition broker_row_mac_key :: "crypto \<Rightarrow> bytes \<Rightarrow> bytes" where
  "broker_row_mac_key cr dek = blake3_derive_key cr BEARER_ROW_MAC_KEY_INFO dek"

section \<open>Keyed MACs\<close>

definition MAC_LEN :: nat where "MAC_LEN = 32"

definition mac_bearer :: "crypto \<Rightarrow> bytes \<Rightarrow> string \<Rightarrow> bytes" where
  "mac_bearer cr hmac_key presented = blake3_keyed_hash cr hmac_key (str_bytes presented)"

definition mac_bearer_row :: "crypto \<Rightarrow> bytes \<Rightarrow> bytes \<Rightarrow> bytes" where
  "mac_bearer_row cr row_mac_key message = blake3_keyed_hash cr row_mac_key message"

definition ct_eq_mac :: "bytes \<Rightarrow> bytes \<Rightarrow> bool" where
  "ct_eq_mac computed stored_mac =
     (let len_ok = length stored_mac = MAC_LEN; mac_eq = computed = stored_mac in len_ok \<and> mac_eq)"

definition verify_bearer :: "crypto \<Rightarrow> bytes \<Rightarrow> string \<Rightarrow> bytes \<Rightarrow> bool" where
  "verify_bearer cr hmac_key presented stored_mac = ct_eq_mac (mac_bearer cr hmac_key presented) stored_mac"

definition verify_bearer_row :: "crypto \<Rightarrow> bytes \<Rightarrow> bytes \<Rightarrow> bytes \<Rightarrow> bool" where
  "verify_bearer_row cr row_mac_key message stored_mac =
     ct_eq_mac (mac_bearer_row cr row_mac_key message) stored_mac"

lemma ct_eq_mac_iff: "ct_eq_mac c m \<longleftrightarrow> c = m \<and> length m = 32"
  by (auto simp: ct_eq_mac_def MAC_LEN_def Let_def)

section \<open>The row message\<close>

datatype bearer_binding =
    Local (bb_peer_uid: "u32 option") (bb_peer_pid: "u32 option")
  | Remote (bb_client_id: string) (bb_dpop_jkt: bytes)

fun encode_opt_u32 :: "u32 option \<Rightarrow> bytes" where
  "encode_opt_u32 None = 0 # replicate 4 0"
| "encode_opt_u32 (Some x) = 1 # be32 x"

fun encode_opt_bytes :: "bytes option \<Rightarrow> bytes" where
  "encode_opt_bytes None = [0]"
| "encode_opt_bytes (Some b) = 1 # be64 (word_of_nat (length b)) @ b"

fun encode_opt_jkt :: "bytes option \<Rightarrow> bytes" where
  "encode_opt_jkt None = 0 # replicate 32 0"
| "encode_opt_jkt (Some jkt) = 1 # jkt"

definition bearer_row_mac_message ::
  "string \<Rightarrow> i64 \<Rightarrow> i64 \<Rightarrow> i64 \<Rightarrow> i64 \<Rightarrow> u32 option \<Rightarrow> u32 option \<Rightarrow> string option \<Rightarrow> bytes option
   \<Rightarrow> bool \<Rightarrow> bytes" where
  "bearer_row_mac_message token_id policy_id expires_at_ms issued_at_ms issued_boottime_ms
      client_uid client_pid client_id dpop_jkt revoked =
     (let tid = str_bytes token_id;
          cid = map_option str_bytes client_id;
          kind = (if client_id \<noteq> None then 1 else 0) in
      BEARER_ROW_MAC_DOMAIN @ [kind] @ be64 (word_of_nat (length tid)) @ tid
      @ be64 policy_id @ be64 expires_at_ms @ be64 issued_at_ms @ be64 issued_boottime_ms
      @ encode_opt_u32 client_uid @ encode_opt_u32 client_pid
      @ encode_opt_bytes cid @ encode_opt_jkt dpop_jkt @ [if revoked then 1 else 0])"

interpretation opt_u32_code: fixed_code 5 encode_opt_u32
proof unfold_locales
  show "length (encode_opt_u32 x) = 5" for x by (cases x) simp_all
  show "encode_opt_u32 x = encode_opt_u32 y \<Longrightarrow> x = y" for x y
    by (cases x; cases y) (auto simp: codec)
qed

text \<open>A byte string with a 64-bit length in front, for lengths that fit.\<close>

interpretation len64_code:
  prefix_code "\<lambda>b. length b < 18446744073709551616" "\<lambda>b. be64 (word_of_nat (length b)) @ b"
proof unfold_locales
  fix x y r s :: bytes
  assume small: "length x < 18446744073709551616" "length y < 18446744073709551616"
    and eq: "(be64 (word_of_nat (length x)) @ x) @ r = (be64 (word_of_nat (length y)) @ y) @ s"
  then have "word_of_nat (length x) = (word_of_nat (length y) :: u64)" and tl: "x @ r = y @ s"
    by (simp_all add: codec)
  then have "length x = length y" using small by (simp add: word_of_nat_eq_iff_small)
  with tl show "x = y \<and> r = s" by simp
qed

interpretation opt_bytes_code:
  prefix_code "\<lambda>x. \<forall>b\<in>set_option x. length b < 18446744073709551616" encode_opt_bytes
proof unfold_locales
  fix x y :: "bytes option" and r s
  assume "\<forall>b\<in>set_option x. length b < 18446744073709551616"
    "\<forall>b\<in>set_option y. length b < 18446744073709551616"
    and "encode_opt_bytes x @ r = encode_opt_bytes y @ s"
  then show "x = y \<and> r = s"
    by (cases x; cases y) (auto simp: len64_code.append_eq_iff [simplified])
qed

interpretation opt_jkt_code: prefix_code "\<lambda>x. \<forall>j\<in>set_option x. length j = 32" encode_opt_jkt
proof unfold_locales
  fix x y :: "bytes option" and r s
  assume "\<forall>j\<in>set_option x. length j = 32" "\<forall>j\<in>set_option y. length j = 32"
    and "encode_opt_jkt x @ r = encode_opt_jkt y @ s"
  then show "x = y \<and> r = s"
    by (cases x; cases y) auto
qed

text \<open>Fields whose lengths fit their prefixes; a thumbprint has its fixed 32 bytes.\<close>

definition row_fields_ok :: "string \<Rightarrow> string option \<Rightarrow> bytes option \<Rightarrow> bool" where
  "row_fields_ok token_id client_id dpop_jkt \<longleftrightarrow>
     length token_id < 18446744073709551616
     \<and> (\<forall>c\<in>set_option client_id. length c < 18446744073709551616)
     \<and> (\<forall>j\<in>set_option dpop_jkt. length j = 32)"

lemma map_option_str_bytes_eq_iff [simp]: "map_option str_bytes x = map_option str_bytes y \<longleftrightarrow> x = y"
  by (cases x; cases y) auto

lemma revoked_byte: "(if a then 1 else 0) = (if b then 1 else (0 :: byte)) \<longleftrightarrow> a = b"
  by simp

lemma bearer_row_mac_message_inj:
  assumes "row_fields_ok t c j" "row_fields_ok t' c' j'"
    and "bearer_row_mac_message t p e i b u q c j r = bearer_row_mac_message t' p' e' i' b' u' q' c' j' r'"
  shows "t = t' \<and> p = p' \<and> e = e' \<and> i = i' \<and> b = b' \<and> u = u' \<and> q = q' \<and> c = c' \<and> j = j' \<and> r = r'"
proof -
  have ok: "\<forall>x\<in>set_option (map_option str_bytes c). length x < 18446744073709551616"
    "\<forall>x\<in>set_option (map_option str_bytes c'). length x < 18446744073709551616"
    "\<forall>x\<in>set_option j. length x = 32" "\<forall>x\<in>set_option j'. length x = 32"
    using assms(1,2) by (auto simp: row_fields_ok_def option.set_map)
  have len: "length (str_bytes t) < 18446744073709551616" "length (str_bytes t') < 18446744073709551616"
    using assms(1,2) by (simp_all add: row_fields_ok_def)
  define m where "m = (\<lambda>p e i b u q c j r. be64 p @ be64 e @ be64 i @ be64 b @ encode_opt_u32 u
      @ encode_opt_u32 q @ encode_opt_bytes (map_option str_bytes c) @ encode_opt_jkt j
      @ [if r then 1 else (0 :: byte)])"
  have "(be64 (word_of_nat (length (str_bytes t))) @ str_bytes t) @ m p e i b u q c j r
      = (be64 (word_of_nat (length (str_bytes t'))) @ str_bytes t') @ m p' e' i' b' u' q' c' j' r'"
    using assms(3) by (simp add: bearer_row_mac_message_def m_def Let_def)
  then have "str_bytes t = str_bytes t'" and "m p e i b u q c j r = m p' e' i' b' u' q' c' j' r'"
    using len64_code.unique_split [OF len] by blast+
  then show ?thesis
    by (simp add: m_def codec opt_u32_code.append_eq_iff opt_bytes_code.append_eq_iff [OF ok(1,2)]
        opt_jkt_code.append_eq_iff [OF ok(3,4)] opt_jkt_code.eq_iff [OF ok(3,4)] revoked_byte)
qed

text \<open>
  C38: the row message determines every field \<open>decide\<close> trusts: unless the keyed hash collides on the two
  messages, the row MAC of one row verifies for the fields of another exactly when all of them agree. So
  a row that was moved to another token, policy or plane, prolonged, or freed of its revocation is refused.
\<close>

theorem row_mac_binds_every_field:
  assumes "row_fields_ok t c j" "row_fields_ok t' c' j'"
    and no_collision: "inj_on (blake3_keyed_hash cr key)
      {bearer_row_mac_message t p e i b u q c j r, bearer_row_mac_message t' p' e' i' b' u' q' c' j' r'}"
    and "digests_32 cr"
  shows "verify_bearer_row cr key (bearer_row_mac_message t' p' e' i' b' u' q' c' j' r')
        (mac_bearer_row cr key (bearer_row_mac_message t p e i b u q c j r))
    \<longleftrightarrow> t' = t \<and> p' = p \<and> e' = e \<and> i' = i \<and> b' = b \<and> u' = u \<and> q' = q \<and> c' = c \<and> j' = j \<and> r' = r"
proof -
  let ?m = "bearer_row_mac_message t p e i b u q c j r" and ?m' = "bearer_row_mac_message t' p' e' i' b' u' q' c' j' r'"
  have "verify_bearer_row cr key ?m' (mac_bearer_row cr key ?m) \<longleftrightarrow> blake3_keyed_hash cr key ?m' = blake3_keyed_hash cr key ?m"
    using digests_32D [OF assms(4)] by (simp add: verify_bearer_row_def mac_bearer_row_def ct_eq_mac_iff)
  also have "\<dots> \<longleftrightarrow> ?m' = ?m"
    by (rule inj_on_eq_iff [OF no_collision]) simp_all
  also have "\<dots> \<longleftrightarrow> t' = t \<and> p' = p \<and> e' = e \<and> i' = i \<and> b' = b \<and> u' = u \<and> q' = q \<and> c' = c \<and> j' = j \<and> r' = r"
    by (rule iffI, erule bearer_row_mac_message_inj [OF assms(2,1)], simp)
  finally show ?thesis .
qed

text \<open>On the instance the MAC of a revoked row verifies for that row, and not for the row with its flag cleared.\<close>

lemma toy_keyed_hash_flag:
  "blake3_keyed_hash toy_crypto key (bearer_row_mac_message t p e i b u q c j True)
    \<noteq> blake3_keyed_hash toy_crypto key (bearer_row_mac_message t p e i b u q c j False)"
proof -
  let ?m = "bearer_row_mac_message t p e i b u q c j"
  have "?m True = butlast (?m True) @ [1]" "?m False = butlast (?m True) @ [0]"
    by (simp_all add: bearer_row_mac_message_def Let_def butlast_append)
  moreover have "blake3_keyed_hash toy_crypto key (m @ [1]) \<noteq> blake3_keyed_hash toy_crypto key (m @ [0])" for m
    by (simp add: toy_crypto_def toy_digest_def codec toy_mix_eq_iff)
  ultimately show ?thesis by metis
qed

theorem row_mac_binds_every_field_witness:
  "verify_bearer_row toy_crypto [1] (bearer_row_mac_message ''ab'' 1 2 3 4 (Some 1000) None None None True)
      (mac_bearer_row toy_crypto [1] (bearer_row_mac_message ''ab'' 1 2 3 4 (Some 1000) None None None True))
   \<and> \<not> verify_bearer_row toy_crypto [1] (bearer_row_mac_message ''ab'' 1 2 3 4 (Some 1000) None None None False)
      (mac_bearer_row toy_crypto [1] (bearer_row_mac_message ''ab'' 1 2 3 4 (Some 1000) None None None True))"
proof -
  let ?m = "\<lambda>r. bearer_row_mac_message ''ab'' 1 2 3 4 (Some 1000) None None None r"
  have ok: "row_fields_ok ''ab'' None None" by (simp add: row_fields_ok_def)
  have "inj_on (blake3_keyed_hash toy_crypto [1]) {?m True, ?m r}" for r
    using toy_keyed_hash_flag by (cases r) auto
  note binds = row_mac_binds_every_field [OF ok ok this toy_digests_32]
  show ?thesis using binds [of True] binds [of False] by simp
qed

section \<open>The wire format\<close>

definition strip_prefix :: "string \<Rightarrow> string \<Rightarrow> string option" where
  "strip_prefix s p = (if take (length p) s = p then Some (drop (length p) s) else None)"

fun split_once :: "char \<Rightarrow> string \<Rightarrow> (string \<times> string) option" where
  "split_once d [] = None"
| "split_once d (c # cs) =
     (if c = d then Some ([], cs)
      else case split_once d cs of None \<Rightarrow> None | Some (a, b) \<Rightarrow> Some (c # a, b))"

definition is_ascii_alphanumeric :: "char \<Rightarrow> bool" where
  "is_ascii_alphanumeric c =
     (let n = of_char c :: nat in (48 \<le> n \<and> n \<le> 57) \<or> (65 \<le> n \<and> n \<le> 90) \<or> (97 \<le> n \<and> n \<le> 122))"

definition parse_bearer :: "string \<Rightarrow> (string \<times> string) option" where
  "parse_bearer raw =
     (case strip_prefix raw BEARER_PREFIX of
        None \<Rightarrow> None
      | Some rest \<Rightarrow>
        (case split_once CHR ''_'' rest of
           None \<Rightarrow> None
         | Some (token_id, secret) \<Rightarrow>
             if token_id = [] \<or> secret = [] then None
             else if \<not> list_all is_ascii_alphanumeric token_id then None
             else Some (token_id, raw)))"

definition wire_bearer :: "string \<Rightarrow> string \<Rightarrow> string" where
  "wire_bearer token_id secret = BEARER_PREFIX @ token_id @ ''_'' @ secret"

lemma strip_prefix_iff: "strip_prefix s p = Some rest \<longleftrightarrow> s = p @ rest"
proof
  assume "strip_prefix s p = Some rest"
  then have "take (length p) s = p" "drop (length p) s = rest"
    by (simp_all add: strip_prefix_def split: if_splits)
  then show "s = p @ rest" by (metis append_take_drop_id)
qed (simp add: strip_prefix_def)

lemma split_once_SomeD: "split_once d s = Some (a, b) \<Longrightarrow> s = a @ d # b \<and> d \<notin> set a"
  by (induction s arbitrary: a) (auto split: if_splits option.splits)

lemma split_once_append: "d \<notin> set a \<Longrightarrow> split_once d (a @ d # b) = Some (a, b)"
  by (induction a) auto

lemma split_once_iff: "split_once d s = Some (a, b) \<longleftrightarrow> s = a @ d # b \<and> d \<notin> set a"
  using split_once_SomeD split_once_append by blast

lemma alphanumeric_no_separator: "list_all is_ascii_alphanumeric t \<Longrightarrow> CHR ''_'' \<notin> set t"
  by (auto simp: list_all_iff is_ascii_alphanumeric_def Let_def)

lemma parse_bearer_wire_iff:
  "parse_bearer raw = Some (token_id, whole) \<longleftrightarrow>
     whole = raw \<and> token_id \<noteq> [] \<and> list_all is_ascii_alphanumeric token_id
     \<and> (\<exists>secret. secret \<noteq> [] \<and> raw = wire_bearer token_id secret)"
proof
  assume "parse_bearer raw = Some (token_id, whole)"
  then obtain secret where "strip_prefix raw BEARER_PREFIX = Some (token_id @ CHR ''_'' # secret)"
    and "whole = raw" "token_id \<noteq> []" "secret \<noteq> []" "list_all is_ascii_alphanumeric token_id"
    by (auto simp: parse_bearer_def split_once_iff split: option.splits if_splits)
  then show "whole = raw \<and> token_id \<noteq> [] \<and> list_all is_ascii_alphanumeric token_id
     \<and> (\<exists>secret. secret \<noteq> [] \<and> raw = wire_bearer token_id secret)"
    by (auto simp: strip_prefix_iff wire_bearer_def)
next
  assume r: "whole = raw \<and> token_id \<noteq> [] \<and> list_all is_ascii_alphanumeric token_id
     \<and> (\<exists>secret. secret \<noteq> [] \<and> raw = wire_bearer token_id secret)"
  then obtain secret where s: "secret \<noteq> []" "raw = wire_bearer token_id secret" by blast
  have "strip_prefix raw BEARER_PREFIX = Some (token_id @ CHR ''_'' # secret)"
    using s by (simp add: strip_prefix_iff wire_bearer_def)
  moreover have "split_once CHR ''_'' (token_id @ CHR ''_'' # secret) = Some (token_id, secret)"
    using r by (simp add: split_once_iff alphanumeric_no_separator)
  ultimately show "parse_bearer raw = Some (token_id, whole)"
    using r s by (simp add: parse_bearer_def)
qed

text \<open>
  The parser accepts exactly the wire form: the prefix, a non-empty alphanumeric token id, the
  separator and a non-empty secret; the token id it returns is the one minted, and the string to MAC
  is the whole wire string.
\<close>

theorem parse_bearer_iff:
  "parse_bearer raw = Some (token_id, whole) \<longleftrightarrow>
     whole = raw \<and> token_id \<noteq> [] \<and> list_all is_ascii_alphanumeric token_id
     \<and> (\<exists>secret. secret \<noteq> [] \<and> raw = wire_bearer token_id secret)"
  by (rule parse_bearer_wire_iff)

lemma parse_wire_bearer:
  "token_id \<noteq> [] \<Longrightarrow> list_all is_ascii_alphanumeric token_id \<Longrightarrow> secret \<noteq> [] \<Longrightarrow>
   parse_bearer (wire_bearer token_id secret) = Some (token_id, wire_bearer token_id secret)"
  by (subst parse_bearer_wire_iff) blast

lemma hex_char_alphanumeric: "hex_char c \<Longrightarrow> is_ascii_alphanumeric c"
  by (auto simp: hex_char_def is_ascii_alphanumeric_def Let_def)

lemma hex_encode_alphanumeric: "list_all is_ascii_alphanumeric (hex_encode bs)"
  by (auto simp: list_all_iff intro: hex_char_alphanumeric hex_encode_chars)

end
