(* ===== verification/EngineCore.thy ===== *)
theory EngineCore
  imports Store Broker Codec Sealing Token
begin

text \<open>
  The engine's state, its seams, and the audit machinery every operation goes through
  (\<open>crates/secrets-engine/src/lib.rs\<close>, \<open>vault/mod.rs\<close>, \<open>seam.rs\<close>, \<open>event.rs\<close>). The seams and the
  operating system are one record \<open>world\<close>: what the \<open>n\<close>-th interaction with the outside returns. An
  operation is an action on the engine, here run as a whole; \<open>EngineThreads\<close> cuts the operations into
  the steps between which others may run.
\<close>

section \<open>Data\<close>

datatype vault = VLocked | VUnlocked dek

fun vault_dek :: "vault \<Rightarrow> dek option" where
  "vault_dek (VUnlocked dek) = Some dek"
| "vault_dek VLocked = None"

definition is_unlocked :: "vault \<Rightarrow> bool" where
  "is_unlocked v = (case v of VUnlocked _ \<Rightarrow> True | VLocked \<Rightarrow> False)"

datatype unlock = UnlockUsb | UnlockPassphrase string

record secret_meta =
  sm_name :: string
  sm_provider :: provider
  sm_note :: string
  sm_broker_only :: bool

record egress_req =
  eq_method :: http_method
  eq_host :: string
  eq_path :: string
  eq_headers :: "(string \<times> string) list"
  eq_bytes_out :: u64
  eq_peer_uid :: "u32 option"
  eq_peer_pid :: "u32 option"

record egress_resp =
  ep_status :: "16 word"
  ep_headers :: "(string \<times> string) list"
  ep_allowed :: bool

datatype upstream_error = UpstreamIo string | UpstreamHostNotAllowed string

datatype swap_outcome = Allowed egress_resp | Denied deny_reason | InternalRefused string

datatype stream = Stdout | Stderr

record run_summary =
  rs_failed :: "string list"
  rs_refused :: "string list"

definition run_ok :: "run_summary \<Rightarrow> bool" where
  "run_ok r \<longleftrightarrow> rs_failed r = [] \<and> rs_refused r = []"

datatype secret_event =
    EvVaultUnlocked factor
  | EvVaultLocked
  | EvAudit audit_record
  | EvSecretWritten string u32
  | EvSecretRead string u32
  | EvRelayMinted string relay_kind string
  | EvRelayRotated string string
  | EvRelayRevoked string string
  | EvRelaySwapped (ev_relay: string) (ev_host: string) (ev_method: string) (ev_allowed: bool)
      (ev_token_id: string) (ev_client_uid: u32) (ev_client_label: string)
  | EvGuardRefused string string
  | EvCaIssued string string string
  | EvLeafMinted string string string
  | EvLog string stream string
  | EvChildExited "32 word"
  | EvRunFinished run_summary

text \<open>
  The outside: wall clock (milliseconds and its RFC 3339 text), boot clock, USB probe, the OS
  generator, the upstream, the medium under the store, and the cryptographic functions. A store
  fault is an error of the store's medium; the flag tells whether the write had taken effect.
\<close>

record world =
  w_crypto :: crypto
  w_now_ms :: "nat \<Rightarrow> i64"
  w_now_rfc3339 :: "nat \<Rightarrow> string"
  w_boottime_ms :: "nat \<Rightarrow> i64"
  w_keyfile_for :: "nat \<Rightarrow> string \<Rightarrow> bytes option"
  w_random :: "nat \<Rightarrow> nat \<Rightarrow> bytes"
  w_upstream :: "nat \<Rightarrow> egress_req \<Rightarrow> bytes \<Rightarrow> upstream_error + egress_resp"
  w_store_fault :: "nat \<Rightarrow> (bool \<times> string) option"

text \<open>
  The engine. \<open>en_events\<close> is what was sent to the event channel, \<open>en_sent\<close> what was handed to the
  upstream: request and real key. \<open>en_tick\<close> numbers the interactions with the outside.
\<close>

record engine =
  en_vault :: vault
  en_broker :: broker
  en_ca :: "unit option"
  en_store :: in_mem_data
  en_owner_uid :: u32
  en_events :: "secret_event list"
  en_sent :: "(egress_req \<times> bytes) list"
  en_tick :: nat

definition with_seams :: "u32 \<Rightarrow> in_mem_data \<Rightarrow> engine" where
  "with_seams current_uid store =
     \<lparr>en_vault = VLocked, en_broker = default_broker, en_ca = None, en_store = store,
      en_owner_uid = current_uid, en_events = [], en_sent = [], en_tick = 0\<rparr>"

type_synonym 'a op = "(engine, any_error, 'a) act"

section \<open>Interactions\<close>

definition outside :: "(nat \<Rightarrow> 'a) \<Rightarrow> 'a op" where
  "outside f = (\<lambda>s. (Inr (f (en_tick s)), s\<lparr>en_tick := Suc (en_tick s)\<rparr>))"

definition store_call :: "world \<Rightarrow> 'a store_op \<Rightarrow> 'a op" where
  "store_call w m =
     (\<lambda>s. let s1 = s\<lparr>en_tick := Suc (en_tick s)\<rparr>; g = snd (m (en_store s)) in
          case w_store_fault w (en_tick s) of
            None \<Rightarrow> (fst (m (en_store s)), s1\<lparr>en_store := g\<rparr>)
          | Some (took_effect, msg) \<Rightarrow>
              (Inl (StoreFault msg), if took_effect then s1\<lparr>en_store := g\<rparr> else s1))"

definition emit :: "secret_event \<Rightarrow> unit op" where
  "emit ev = modify_act (\<lambda>s. s\<lparr>en_events := en_events s @ [ev]\<rparr>)"

definition now_ms :: "world \<Rightarrow> i64 op" where "now_ms w = outside (w_now_ms w)"
definition now_rfc3339 :: "world \<Rightarrow> string op" where "now_rfc3339 w = outside (w_now_rfc3339 w)"
definition boottime_ms :: "world \<Rightarrow> i64 op" where "boottime_ms w = outside (w_boottime_ms w)"
definition random_bytes :: "world \<Rightarrow> nat \<Rightarrow> bytes op" where
  "random_bytes w n = outside (\<lambda>k. w_random w k n)"
definition mint_dek :: "world \<Rightarrow> dek op" where "mint_dek w = random_bytes w 32"
definition keyfile_for :: "world \<Rightarrow> string \<Rightarrow> bytes option op" where
  "keyfile_for w uuid = outside (\<lambda>k. w_keyfile_for w k uuid)"

text \<open>\<open>Upstream::send\<close>: the call is recorded, whatever the upstream answers.\<close>

definition upstream_send :: "world \<Rightarrow> egress_req \<Rightarrow> bytes \<Rightarrow> (upstream_error + egress_resp) op" where
  "upstream_send w req real_key =
     (\<lambda>s. (Inr (w_upstream w (en_tick s) req real_key),
           s\<lparr>en_tick := Suc (en_tick s), en_sent := en_sent s @ [(req, real_key)]\<rparr>))"

text \<open>Borrow the live DEK; \<open>Locked\<close> otherwise.\<close>

definition require_dek :: "dek op" where
  "require_dek =
     (\<lambda>s. case vault_dek (en_vault s) of Some dek \<Rightarrow> (Inr dek, s) | None \<Rightarrow> (Inl (Engine Locked_err), s))"

section \<open>Constants\<close>

definition META_HEADER_MAC :: string where "META_HEADER_MAC = ''vault.header_mac''"
definition META_ISSUANCE_FLOOR_MS :: string where "META_ISSUANCE_FLOOR_MS = ''vault.issuance_floor_ms''"
definition META_DEK_GENERATION :: string where "META_DEK_GENERATION = ''vault.dek_generation''"
definition META_AUDIT_HEAD :: string where "META_AUDIT_HEAD = ''vault.audit_head''"
definition META_AUDIT_HIGH_WATER :: string where "META_AUDIT_HIGH_WATER = ''vault.audit_high_water''"
definition AUDIT_HEAD_KEY_INFO :: bytes where "AUDIT_HEAD_KEY_INFO = str_bytes ''env-ctl/v1/audit-head/key''"
definition AUDIT_HEAD_DOMAIN :: bytes where "AUDIT_HEAD_DOMAIN = str_bytes ''env-ctl/v1/audit-head''"

lemma meta_keys_distinct [simp]:
  "META_AUDIT_HEAD \<noteq> META_AUDIT_HIGH_WATER" "META_AUDIT_HIGH_WATER \<noteq> META_AUDIT_HEAD"
  "META_HEADER_MAC \<noteq> META_ISSUANCE_FLOOR_MS" "META_ISSUANCE_FLOOR_MS \<noteq> META_HEADER_MAC"
  "META_HEADER_MAC \<noteq> META_DEK_GENERATION" "META_DEK_GENERATION \<noteq> META_HEADER_MAC"
  "META_ISSUANCE_FLOOR_MS \<noteq> META_DEK_GENERATION" "META_DEK_GENERATION \<noteq> META_ISSUANCE_FLOOR_MS"
  "META_HEADER_MAC \<noteq> META_AUDIT_HEAD" "META_HEADER_MAC \<noteq> META_AUDIT_HIGH_WATER"
  "META_ISSUANCE_FLOOR_MS \<noteq> META_AUDIT_HEAD" "META_ISSUANCE_FLOOR_MS \<noteq> META_AUDIT_HIGH_WATER"
  "META_DEK_GENERATION \<noteq> META_AUDIT_HEAD" "META_DEK_GENERATION \<noteq> META_AUDIT_HIGH_WATER"
  by (simp_all add: META_HEADER_MAC_def META_ISSUANCE_FLOOR_MS_def META_DEK_GENERATION_def
      META_AUDIT_HEAD_def META_AUDIT_HIGH_WATER_def)

section \<open>The audit anchor\<close>

definition audit_head_mac :: "crypto \<Rightarrow> dek \<Rightarrow> i64 \<Rightarrow> i64 \<Rightarrow> bytes \<Rightarrow> bytes" where
  "audit_head_mac cr dek high_water seq tail_row_hash =
     blake3_keyed_hash cr (blake3_derive_key cr AUDIT_HEAD_KEY_INFO dek)
       (AUDIT_HEAD_DOMAIN @ be64 high_water @ be64 seq @ tail_row_hash)"

text \<open>The release build: the debug assertion \<open>high_water == new_seq\<close> is not compiled.\<close>

definition write_audit_anchor :: "world \<Rightarrow> dek \<Rightarrow> i64 \<Rightarrow> bytes \<Rightarrow> unit op" where
  "write_audit_anchor w dek new_seq row_tail =
     and_then (store_call w (get_meta META_AUDIT_HIGH_WATER)) (\<lambda>stored.
       let prev_hw = (case stored of None \<Rightarrow> 0 | Some t \<Rightarrow> (case parse_i64 t of None \<Rightarrow> 0 | Some v \<Rightarrow> v));
           high_water = i64_max_of prev_hw new_seq in
       and_then (store_call w (put_meta META_AUDIT_HIGH_WATER (i64_to_string high_water))) (\<lambda>_.
         store_call w (put_meta META_AUDIT_HEAD
           (hex_encode (audit_head_mac (w_crypto w) dek high_water high_water row_tail)))))"

text \<open>Sequence number and hash of the last row; zero and the empty slice for an empty log.\<close>

fun tail_of :: "audit_record option \<Rightarrow> i64 \<times> bytes" where
  "tail_of (Some r) = (ar_seq r, ar_row_hash r)"
| "tail_of None = (0, [])"

definition advance_audit_anchor_if_unlocked :: "world \<Rightarrow> unit op" where
  "advance_audit_anchor_if_unlocked w =
     and_then (gets_act (\<lambda>s. vault_dek (en_vault s))) (\<lambda>d.
       case d of
         None \<Rightarrow> ok_act ()
       | Some dek \<Rightarrow>
           and_then (store_call w last_audit) (\<lambda>r.
             write_audit_anchor w dek (fst (tail_of r)) (snd (tail_of r))))"

section \<open>Audit rows and refusals\<close>

definition audit ::
  "world \<Rightarrow> string \<Rightarrow> string option \<Rightarrow> json \<Rightarrow> audit_outcome \<Rightarrow> unit op" where
  "audit w event_type subject detail outcome =
     and_then (now_rfc3339 w) (\<lambda>ts.
     and_then (gets_act en_owner_uid) (\<lambda>uid.
       let rec = new_row ts (Some uid) event_type subject detail outcome in
       and_then (store_call w (append_audit (w_crypto w) rec)) (\<lambda>seq.
       and_then (advance_audit_anchor_if_unlocked w) (\<lambda>_.
         emit (EvAudit (rec\<lparr>ar_seq := seq\<rparr>))))))"

definition audit_ok :: "world \<Rightarrow> string \<Rightarrow> string option \<Rightarrow> json \<Rightarrow> unit op" where
  "audit_ok w event_type subject detail = audit w event_type subject detail Ok"

definition audit_failed :: "world \<Rightarrow> string \<Rightarrow> string option \<Rightarrow> json \<Rightarrow> unit op" where
  "audit_failed w event_type subject detail = audit w event_type subject detail Failed"

definition refuse :: "world \<Rightarrow> string \<Rightarrow> string \<Rightarrow> string \<Rightarrow> unit op" where
  "refuse w event_type subject why =
     and_then (audit w event_type (Some subject) (JObj [(''reason'', JStr why)]) Refused) (\<lambda>_.
       emit (EvGuardRefused subject why))"

section \<open>Verifying the anchor\<close>

definition USIZE_MAX :: nat where "USIZE_MAX = 18446744073709551615"

text \<open>The hash the anchor must commit to: that of the row at the high-water mark.\<close>

definition anchored_hash :: "audit_record list \<Rightarrow> i64 \<Rightarrow> bytes option" where
  "anchored_hash rows stored_hw =
     (if stored_hw = 0 then Some []
      else let i = unat (stored_hw - 1) in
        if i < length rows \<and> ar_seq (rows ! i) = stored_hw then Some (ar_row_hash (rows ! i)) else None)"

definition check_anchor ::
  "crypto \<Rightarrow> dek \<Rightarrow> bytes \<Rightarrow> i64 \<Rightarrow> audit_record list \<Rightarrow> any_error + unit" where
  "check_anchor cr dek stored_mac stored_hw rows =
     (let cur_seq = fst (tail_of (last_row rows)) in
      if i64_lt cur_seq stored_hw then Inl (Engine (AuditChainBroken cur_seq))
      else case anchored_hash rows stored_hw of
        None \<Rightarrow> Inl (Engine (AuditChainBroken cur_seq))
      | Some h \<Rightarrow>
          if audit_head_mac cr dek stored_hw stored_hw h \<noteq> stored_mac
          then Inl (Engine (AuditChainBroken cur_seq)) else Inr ())"

definition lift_result :: "'e + 'a \<Rightarrow> ('s, 'e, 'a) act" where
  "lift_result r = (\<lambda>s. (r, s))"

definition verify_audit_anchor_with :: "world \<Rightarrow> dek \<Rightarrow> unit op" where
  "verify_audit_anchor_with w dek =
     and_then (store_call w (verify_audit_chain (w_crypto w))) (\<lambda>_.
     and_then (store_call w (get_meta META_AUDIT_HEAD)) (\<lambda>stored.
       case stored of
         None \<Rightarrow> ok_act ()
       | Some stored_hex \<Rightarrow>
         (case hex_decode stored_hex of
            None \<Rightarrow> fail_act (Engine (AuditChainBroken 0))
          | Some stored_mac \<Rightarrow>
              and_then (store_call w (get_meta META_AUDIT_HIGH_WATER)) (\<lambda>hw.
                case hw of
                  None \<Rightarrow> fail_act (Engine (AuditChainBroken 0))
                | Some t \<Rightarrow>
                  (case parse_i64 t of
                     None \<Rightarrow> fail_act (Engine (AuditChainBroken 0))
                   | Some stored_hw \<Rightarrow>
                       and_then (store_call w (query_audit 0 USIZE_MAX)) (\<lambda>rows.
                         lift_result (check_anchor (w_crypto w) dek stored_mac stored_hw rows)))))))"

definition verify_audit_anchor :: "world \<Rightarrow> unit op" where
  "verify_audit_anchor w = and_then require_dek (verify_audit_anchor_with w)"

section \<open>Reading the header\<close>

definition load_header_mac :: "world \<Rightarrow> bytes op" where
  "load_header_mac w =
     and_then (store_call w (get_meta META_HEADER_MAC)) (\<lambda>m.
       case m of
         None \<Rightarrow> fail_act (Engine UnlockFailed)
       | Some hexed \<Rightarrow>
         (case hex_decode hexed of None \<Rightarrow> fail_act (Engine UnlockFailed) | Some mac \<Rightarrow> ok_act mac))"

definition load_issuance_floor :: "world \<Rightarrow> i64 op" where
  "load_issuance_floor w =
     and_then (store_call w (get_meta META_ISSUANCE_FLOOR_MS)) (\<lambda>m.
       case m of
         None \<Rightarrow> fail_act (Engine UnlockFailed)
       | Some t \<Rightarrow> (case parse_i64 t of None \<Rightarrow> fail_act (Engine UnlockFailed) | Some v \<Rightarrow> ok_act v))"

definition load_dek_generation :: "world \<Rightarrow> i64 op" where
  "load_dek_generation w =
     and_then (store_call w (get_meta META_DEK_GENERATION)) (\<lambda>m.
       case m of
         None \<Rightarrow> fail_act (Bail ''dek_generation missing'')
       | Some t \<Rightarrow>
         (case parse_i64 t of
            None \<Rightarrow> fail_act (Bail ''dek_generation is not a valid integer'') | Some v \<Rightarrow> ok_act v))"

section \<open>Texts\<close>

fun factor_str :: "factor \<Rightarrow> string" where
  "factor_str Usb = ''usb''"
| "factor_str Passphrase = ''passphrase''"

fun method_str :: "http_method \<Rightarrow> string" where
  "method_str Get = ''GET''"
| "method_str Head = ''HEAD''"
| "method_str Post = ''POST''"
| "method_str Put = ''PUT''"
| "method_str Patch = ''PATCH''"
| "method_str Delete = ''DELETE''"
| "method_str Connect = ''CONNECT''"
| "method_str Options = ''OPTIONS''"

fun upstream_error_kind :: "upstream_error \<Rightarrow> string" where
  "upstream_error_kind (UpstreamIo _) = ''io''"
| "upstream_error_kind (UpstreamHostNotAllowed _) = ''host_not_allowed''"

text \<open>\<open>from_timestamp_millis(0)\<close> is always a date.\<close>

definition ms_to_rfc3339 :: "crypto \<Rightarrow> i64 \<Rightarrow> string" where
  "ms_to_rfc3339 cr ms =
     (case rfc3339_of_millis cr ms of
        Some t \<Rightarrow> t
      | None \<Rightarrow> (case rfc3339_of_millis cr 0 of Some t \<Rightarrow> t | None \<Rightarrow> []))"

section \<open>Running interactions\<close>

definition reliable :: "world \<Rightarrow> bool" where
  "reliable w \<longleftrightarrow> w_store_fault w = (\<lambda>_. None)"

lemma run_outside [run_simps]: "outside f s = (Inr (f (en_tick s)), s\<lparr>en_tick := Suc (en_tick s)\<rparr>)"
  by (simp add: outside_def)

lemma run_emit [run_simps]: "emit ev s = (Inr (), s\<lparr>en_events := en_events s @ [ev]\<rparr>)"
  by (simp add: emit_def run_simps)

lemma run_lift [run_simps]: "lift_result r s = (r, s)"
  by (simp add: lift_result_def)

lemma run_store_call [run_simps]:
  "reliable w \<Longrightarrow> store_call w m s =
     (fst (m (en_store s)), s\<lparr>en_tick := Suc (en_tick s), en_store := snd (m (en_store s))\<rparr>)"
  by (simp add: store_call_def reliable_def Let_def)

section \<open>What no operation undoes\<close>

text \<open>
  From one state to a later one: rows are only appended to the audit log, events only to the channel,
  calls only to the upstream log; interactions only go forward, and the owner stays.
\<close>

definition grows :: "engine \<Rightarrow> engine \<Rightarrow> bool" where
  "grows s t \<longleftrightarrow>
     (\<exists>rows. sd_audit (en_store t) = sd_audit (en_store s) @ rows)
     \<and> (\<exists>evs. en_events t = en_events s @ evs)
     \<and> (\<exists>calls. en_sent t = en_sent s @ calls)
     \<and> en_tick s \<le> en_tick t \<and> en_owner_uid t = en_owner_uid s"

end
