(* ===== verification/EngineVault.thy ===== *)
theory EngineVault
  imports EngineCore
begin

text \<open>
  The vault operations of the engine (\<open>crates/secrets-engine/src/lib.rs\<close>): initialising a vault,
  unlocking and locking it, and storing and reading secrets.
\<close>

section \<open>Initialisation\<close>

text \<open>A slot is built without its wrap, which its associated data does not cover, and then filled.\<close>

definition passphrase_slot :: "bytes \<Rightarrow> argon2_params \<Rightarrow> i64 \<Rightarrow> keyslot" where
  "passphrase_slot salt params dek_generation =
     \<lparr>ks_id = 1, ks_factor = Passphrase, ks_label = ''passphrase'', ks_kdf = Argon2id params,
      ks_salt = salt, ks_usb_partition_uuid = None, ks_wrap_nonce = [], ks_wrapped_dek = [],
      ks_dek_generation = dek_generation, ks_enabled = True\<rparr>"

definition usb_slot :: "bytes \<Rightarrow> string \<Rightarrow> i64 \<Rightarrow> keyslot" where
  "usb_slot salt uuid dek_generation =
     \<lparr>ks_id = 2, ks_factor = Usb, ks_label = ''usb'', ks_kdf = HkdfSha256,
      ks_salt = salt, ks_usb_partition_uuid = Some uuid, ks_wrap_nonce = [], ks_wrapped_dek = [],
      ks_dek_generation = dek_generation, ks_enabled = True\<rparr>"

text \<open>\<open>wrap_dek\<close> on a slot, with the nonce it draws.\<close>

definition fill_slot :: "world \<Rightarrow> keyslot \<Rightarrow> kek \<Rightarrow> dek \<Rightarrow> keyslot op" where
  "fill_slot w slot kek dek =
     and_then (random_bytes w 24) (\<lambda>nonce.
       let (n, wrapped) = wrap_dek (w_crypto w) nonce kek dek (keyslot_aad slot) in
       ok_act (slot\<lparr>ks_wrap_nonce := n, ks_wrapped_dek := wrapped\<rparr>))"

definition enroll_passphrase :: "world \<Rightarrow> string \<Rightarrow> argon2_params \<Rightarrow> dek \<Rightarrow> keyslot op" where
  "enroll_passphrase w passphrase params dek =
     and_then (random_bytes w 16) (\<lambda>salt.
       let slot = passphrase_slot salt params 1 in
       case kek_from_passphrase (w_crypto w) (str_bytes passphrase) (ks_salt slot) params of
         None \<Rightarrow> fail_act (Panicked ''kek_from_passphrase'')
       | Some kek \<Rightarrow> fill_slot w slot kek dek)"

definition enroll_usb :: "world \<Rightarrow> string option \<Rightarrow> bytes option \<Rightarrow> dek \<Rightarrow> keyslot list op" where
  "enroll_usb w usb_partition_uuid usb_keyfile dek =
     (case usb_keyfile of
        None \<Rightarrow> ok_act []
      | Some keyfile \<Rightarrow>
        (case usb_partition_uuid of
           None \<Rightarrow> fail_act (Bail ''usb keyfile provided without a usb_partition_uuid'')
         | Some uuid \<Rightarrow>
             and_then (random_bytes w 32) (\<lambda>salt.
               let slot = usb_slot salt uuid 1 in
               and_then (fill_slot w slot (kek_from_usb (w_crypto w) keyfile (ks_salt slot)) dek) (\<lambda>s.
                 ok_act [s]))))"

definition persist_header :: "world \<Rightarrow> dek \<Rightarrow> keyslot list \<Rightarrow> i64 \<Rightarrow> unit op" where
  "persist_header w dek slots issuance_floor_ms =
     and_then (for_act slots (\<lambda>slot. store_call w (save_keyslot slot))) (\<lambda>_.
     and_then (store_call w (put_meta META_HEADER_MAC
       (hex_encode (header_mac (w_crypto w) dek slots issuance_floor_ms)))) (\<lambda>_.
     and_then (store_call w (put_meta META_ISSUANCE_FLOOR_MS (i64_to_string issuance_floor_ms))) (\<lambda>_.
       store_call w (put_meta META_DEK_GENERATION (i64_to_string 1)))))"

definition init_vault ::
  "world \<Rightarrow> string \<Rightarrow> string option \<Rightarrow> bytes option \<Rightarrow> argon2_params \<Rightarrow> unit op" where
  "init_vault w passphrase usb_partition_uuid usb_keyfile params =
     and_then (store_call w (get_meta META_HEADER_MAC)) (\<lambda>existing.
       if existing \<noteq> None then fail_act (Bail ''vault already initialized (refusing to overwrite)'')
       else if ap_m_kib params < ARGON2_M_KIB_FLOOR then fail_act (Bail (''argon2 m_kib '' @ dec_nat (unat (ap_m_kib params)) @ '' is below the ''
         @ dec_nat (unat ARGON2_M_KIB_FLOOR) @ '' KiB floor''))
       else if ap_t_cost params < ARGON2_T_COST_FLOOR then fail_act (Bail (''argon2 t_cost '' @ dec_nat (unat (ap_t_cost params)) @ '' is below the ''
         @ dec_nat (unat ARGON2_T_COST_FLOOR) @ '' iteration floor''))
       else
         and_then (now_ms w) (\<lambda>issuance_floor_ms.
         and_then (mint_dek w) (\<lambda>dek.
         and_then (enroll_passphrase w passphrase params dek) (\<lambda>pp_slot.
         and_then (enroll_usb w usb_partition_uuid usb_keyfile dek) (\<lambda>usb_slots.
           let slots = pp_slot # usb_slots in
           and_then (persist_header w dek slots issuance_floor_ms) (\<lambda>_.
           and_then (audit_ok w ''vault_init'' None
             (JObj [(''slots'', JInt (int (length slots))), (''dek_generation'', JInt 1)])) (\<lambda>_.
           and_then (store_call w last_audit) (\<lambda>r.
             write_audit_anchor w dek (fst (tail_of r)) (snd (tail_of r))))))))))"

section \<open>Unlocking\<close>

text \<open>The parameters a passphrase slot must have before the KEK is derived from it.\<close>

definition derivable :: "argon2_params \<Rightarrow> bool" where
  "derivable p \<longleftrightarrow>
     ARGON2_M_KIB_FLOOR \<le> ap_m_kib p \<and> ARGON2_T_COST_FLOOR \<le> ap_t_cost p \<and> 1 \<le> ap_p_lanes p
     \<and> min (8 * unat (ap_p_lanes p)) 4294967295 \<le> unat (ap_m_kib p)"

fun try_passphrase :: "crypto \<Rightarrow> bytes \<Rightarrow> keyslot list \<Rightarrow> any_error + dek option" where
  "try_passphrase cr pp [] = Inr None"
| "try_passphrase cr pp (slot # slots) =
     (if \<not> (ks_enabled slot \<and> ks_factor slot = Passphrase) then try_passphrase cr pp slots
      else case ks_kdf slot of
        HkdfSha256 \<Rightarrow> try_passphrase cr pp slots
      | Argon2id p \<Rightarrow>
          if \<not> derivable p then try_passphrase cr pp slots
          else case kek_from_passphrase cr pp (ks_salt slot) p of
            None \<Rightarrow> Inl (Panicked ''kek_from_passphrase'')
          | Some kek \<Rightarrow>
            (case unwrap_dek cr kek (ks_wrap_nonce slot) (ks_wrapped_dek slot) (keyslot_aad slot) of
               Some d \<Rightarrow> Inr (Some d)
             | None \<Rightarrow> try_passphrase cr pp slots))"

fun try_usb :: "world \<Rightarrow> keyslot list \<Rightarrow> dek option op" where
  "try_usb w [] = ok_act None"
| "try_usb w (slot # slots) =
     (if \<not> (ks_enabled slot \<and> ks_factor slot = Usb) then try_usb w slots
      else case ks_usb_partition_uuid slot of
        None \<Rightarrow> try_usb w slots
      | Some uuid \<Rightarrow>
          and_then (keyfile_for w uuid) (\<lambda>k.
            case k of
              None \<Rightarrow> try_usb w slots
            | Some keyfile \<Rightarrow>
              (case unwrap_dek (w_crypto w) (kek_from_usb (w_crypto w) keyfile (ks_salt slot))
                      (ks_wrap_nonce slot) (ks_wrapped_dek slot) (keyslot_aad slot) of
                 Some d \<Rightarrow> ok_act (Some d)
               | None \<Rightarrow> try_usb w slots)))"

fun recover :: "world \<Rightarrow> unlock \<Rightarrow> keyslot list \<Rightarrow> dek option op" where
  "recover w (UnlockPassphrase pp) slots = lift_result (try_passphrase (w_crypto w) (str_bytes pp) slots)"
| "recover w UnlockUsb slots = try_usb w slots"

fun wanted_factor :: "unlock \<Rightarrow> factor" where
  "wanted_factor (UnlockPassphrase pp) = Passphrase"
| "wanted_factor UnlockUsb = Usb"

definition slot_generation :: "keyslot list \<Rightarrow> i64" where
  "slot_generation slots = (case max_i64 (map ks_dek_generation slots) of None \<Rightarrow> 1 | Some m \<Rightarrow> m)"

definition fail_audited :: "world \<Rightarrow> json \<Rightarrow> any_error \<Rightarrow> 'a op" where
  "fail_audited w detail e =
     and_then (audit_failed w ''vault_unlock'' None detail) (\<lambda>_. fail_act e)"

text \<open>Committing the recovered DEK: audit row, RAM state, anchor, event.\<close>

definition commit_unlock :: "world \<Rightarrow> factor \<Rightarrow> dek \<Rightarrow> vault_state op" where
  "commit_unlock w factor dek =
     and_then (audit_ok w ''vault_unlocked'' None (JObj [(''factor'', JStr (factor_str factor))])) (\<lambda>_.
     and_then (modify_act (\<lambda>s. s\<lparr>en_vault := VUnlocked dek\<rparr>)) (\<lambda>_.
     and_then (advance_audit_anchor_if_unlocked w) (\<lambda>_.
     and_then (emit (EvVaultUnlocked factor)) (\<lambda>_. ok_act Unlocked_state))))"

definition check_and_commit ::
  "world \<Rightarrow> factor \<Rightarrow> keyslot list \<Rightarrow> bytes \<Rightarrow> i64 \<Rightarrow> dek \<Rightarrow> vault_state op" where
  "check_and_commit w factor slots stored_mac issuance_floor_ms dek =
     (if \<not> verify_header_mac (w_crypto w) dek slots issuance_floor_ms stored_mac then
        fail_audited w (JObj [(''reason'', JStr ''header_mac'')]) (Engine HeaderMacMismatch)
      else
        and_then (load_dek_generation w) (\<lambda>stored_generation.
          if stored_generation \<noteq> slot_generation slots then
            fail_audited w (JObj [(''reason'', JStr ''dek_generation'')]) (Engine HeaderMacMismatch)
          else
            match_result (verify_audit_anchor_with w dek)
              (\<lambda>e. fail_audited w (JObj [(''reason'', JStr ''audit_chain'')]) e)
              (\<lambda>_. commit_unlock w factor dek)))"

definition unlock :: "world \<Rightarrow> unlock \<Rightarrow> vault_state op" where
  "unlock w u =
     and_then (gets_act (\<lambda>s. is_unlocked (en_vault s))) (\<lambda>already.
       if already then ok_act Unlocked_state
       else
         and_then (store_call w load_keyslots) (\<lambda>slots.
         and_then (load_header_mac w) (\<lambda>stored_mac.
         and_then (load_issuance_floor w) (\<lambda>issuance_floor_ms.
         and_then (recover w u slots) (\<lambda>recovered.
           case recovered of
             None \<Rightarrow> fail_audited w (JObj []) (Engine UnlockFailed)
           | Some dek \<Rightarrow> check_and_commit w (wanted_factor u) slots stored_mac issuance_floor_ms dek)))))"

section \<open>Locking\<close>

definition lock :: "world \<Rightarrow> unit op" where
  "lock w =
     and_then (modify_act (\<lambda>s. s\<lparr>en_vault := VLocked\<rparr>)) (\<lambda>_.
     and_then (modify_act (\<lambda>s. s\<lparr>en_ca := None\<rparr>)) (\<lambda>_.
     and_then (audit_ok w ''vault_locked'' None (JObj [])) (\<lambda>_. emit EvVaultLocked)))"

section \<open>Secrets\<close>

definition record_aad_of :: "secret_row \<Rightarrow> bytes" where
  "record_aad_of row =
     record_aad SecretVersion (sr_row_id row) (ucast (sr_version row)) (sr_dek_generation row)"

text \<open>The end of a put: the sealed row goes in, and must have got the id it was sealed against.\<close>

definition store_sealed :: "world \<Rightarrow> secret_row \<Rightarrow> unit op" where
  "store_sealed w row =
     and_then (store_call w (put_secret row)) (\<lambda>assigned.
       if assigned \<noteq> sr_row_id row then
         fail_act (Bail (''store assigned row_id '' @ i64_to_string assigned
           @ '' but the ciphertext was sealed against '' @ i64_to_string (sr_row_id row)))
       else
         and_then (audit_ok w ''secret_written'' (Some (sr_name row))
           (JObj [(''version'', JInt (uint (sr_version row)))])) (\<lambda>_.
           emit (EvSecretWritten (sr_name row) (sr_version row))))"

definition secret_put :: "world \<Rightarrow> secret_meta \<Rightarrow> bytes \<Rightarrow> unit op" where
  "secret_put w m body =
     and_then require_dek (\<lambda>dek.
     and_then (load_dek_generation w) (\<lambda>dek_generation.
     and_then (store_call w (max_secret_version (sm_name m))) (\<lambda>top.
     let version = top + 1 in
     and_then (store_call w reserve_secret_row_id) (\<lambda>row_id.
     let aad = record_aad SecretVersion row_id (ucast version) dek_generation in
     and_then (random_bytes w 24) (\<lambda>nonce24.
     let (nonce, ct_tag) = seal (w_crypto w) nonce24 dek aad body in
     and_then (now_rfc3339 w) (\<lambda>created_ts.
       store_sealed w
         \<lparr>sr_row_id = row_id, sr_name = sm_name m, sr_version = version,
          sr_provider = sm_provider m, sr_note = sm_note m, sr_broker_only = sm_broker_only m,
          sr_dek_generation = dek_generation, sr_nonce = nonce, sr_ct_tag = ct_tag,
          sr_created_ts = created_ts\<rparr>))))))"

text \<open>The gate on revealing a secret, and the read that hands nothing out.\<close>

definition reveal_secret :: "world \<Rightarrow> string \<Rightarrow> bool \<Rightarrow> secret_row \<Rightarrow> bytes \<Rightarrow> bytes op" where
  "reveal_secret w name apply_flag row plaintext =
     (if sr_broker_only row then
        and_then (refuse w ''secret_read'' name ''reveal refused: secret is broker-only'') (\<lambda>_.
          fail_act (Bail (''reveal refused: '' @ [CHR 0x27] @ name @ [CHR 0x27] @ '' is broker-only'')))
      else if \<not> apply_flag then
        and_then (refuse w ''secret_read'' name ''reveal refused: apply not set (dry-run)'') (\<lambda>_.
          fail_act (Bail (''reveal refused: '' @ [CHR 0x27] @ name @ [CHR 0x27] @ '' requires --apply'')))
      else
        and_then (gets_act en_owner_uid) (\<lambda>by_uid.
        and_then (audit_ok w ''secret_read'' (Some name)
          (JObj [(''version'', JInt (uint (sr_version row))), (''revealed'', JBool True)])) (\<lambda>_.
        and_then (emit (EvSecretRead name by_uid)) (\<lambda>_. ok_act plaintext))))"

definition read_unrevealed :: "world \<Rightarrow> string \<Rightarrow> secret_row \<Rightarrow> bytes op" where
  "read_unrevealed w name row =
     and_then (audit_ok w ''secret_read'' (Some name)
       (JObj [(''version'', JInt (uint (sr_version row))), (''revealed'', JBool False)])) (\<lambda>_.
     and_then (gets_act en_owner_uid) (\<lambda>by_uid.
     and_then (emit (EvSecretRead name by_uid)) (\<lambda>_. ok_act [])))"

definition secret_get :: "world \<Rightarrow> string \<Rightarrow> bool \<Rightarrow> bool \<Rightarrow> bytes op" where
  "secret_get w name reveal apply_flag =
     and_then require_dek (\<lambda>dek.
     and_then (store_call w (get_secret_latest name)) (\<lambda>found_row.
       case found_row of
         None \<Rightarrow>
           and_then (audit_failed w ''secret_read'' (Some name) (JObj [(''reason'', JStr ''not_found'')])) (\<lambda>_.
             fail_act (Bail (''unknown secret '' @ [CHR 0x27] @ name @ [CHR 0x27])))
       | Some row \<Rightarrow>
         (case open_sealed (w_crypto w) dek (record_aad_of row) (sr_nonce row) (sr_ct_tag row) of
            None \<Rightarrow>
              and_then (audit_failed w ''secret_read'' (Some name)
                (JObj [(''reason'', JStr ''tamper''), (''version'', JInt (uint (sr_version row)))])) (\<lambda>_.
                fail_act (Bail (''secret '' @ [CHR 0x27] @ name @ [CHR 0x27]
                  @ '' failed authentication (tampered or corrupt)'')))
          | Some plaintext \<Rightarrow>
              if reveal then reveal_secret w name apply_flag row plaintext
              else read_unrevealed w name row)))"

end
