(* ===== verification/Text.thy ===== *)
theory Text
  imports Decide
begin

text \<open>
  What the engine and the daemon use of the standard library on texts: white space, trimming and
  splitting, over the UTF-8 bytes a \<open>str\<close> is.
\<close>

section \<open>White space\<close>

text \<open>\<open>str::trim().is_empty()\<close>: only Unicode white space, over the UTF-8 bytes of the string.\<close>

definition white1 :: "nat \<Rightarrow> bool" where
  "white1 b \<longleftrightarrow> (9 \<le> b \<and> b \<le> 13) \<or> b = 32"

definition white2 :: "nat \<Rightarrow> nat \<Rightarrow> bool" where
  "white2 b c \<longleftrightarrow> b = 0xC2 \<and> (c = 0x85 \<or> c = 0xA0)"

definition white3 :: "nat \<Rightarrow> nat \<Rightarrow> nat \<Rightarrow> bool" where
  "white3 b c d \<longleftrightarrow>
     (b = 0xE1 \<and> c = 0x9A \<and> d = 0x80)
     \<or> (b = 0xE2 \<and> c = 0x80 \<and> (0x80 \<le> d \<and> d \<le> 0x8A \<or> d = 0xA8 \<or> d = 0xA9 \<or> d = 0xAF))
     \<or> (b = 0xE2 \<and> c = 0x81 \<and> d = 0x9F) \<or> (b = 0xE3 \<and> c = 0x80 \<and> d = 0x80)"

fun all_white :: "nat list \<Rightarrow> bool" where
  "all_white [] = True"
| "all_white [b] = white1 b"
| "all_white [b, c] = (if white1 b then all_white [c] else white2 b c)"
| "all_white (b # c # d # bs) =
     (if white1 b then all_white (c # d # bs)
      else if white2 b c then all_white (d # bs)
      else white3 b c d \<and> all_white bs)"

definition blank :: "string \<Rightarrow> bool" where
  "blank s = all_white (map of_char s)"

text \<open>\<open>str::trim\<close>, at both ends of the text.\<close>

fun trim_start :: "string \<Rightarrow> string" where
  "trim_start [] = []"
| "trim_start [b] = (if white1 (of_char b) then [] else [b])"
| "trim_start [b, c] =
     (if white1 (of_char b) then trim_start [c]
      else if white2 (of_char b) (of_char c) then [] else [b, c])"
| "trim_start (b # c # d # bs) =
     (if white1 (of_char b) then trim_start (c # d # bs)
      else if white2 (of_char b) (of_char c) then trim_start (d # bs)
      else if white3 (of_char b) (of_char c) (of_char d) then trim_start bs
      else b # c # d # bs)"

text \<open>The same from the end: on the reversed text, the bytes of a character are read backwards.\<close>

fun trim_rev :: "string \<Rightarrow> string" where
  "trim_rev [] = []"
| "trim_rev [b] = (if white1 (of_char b) then [] else [b])"
| "trim_rev [c, b] =
     (if white1 (of_char c) then trim_rev [b]
      else if white2 (of_char b) (of_char c) then [] else [c, b])"
| "trim_rev (d # c # b # bs) =
     (if white1 (of_char d) then trim_rev (c # b # bs)
      else if white2 (of_char c) (of_char d) then trim_rev (b # bs)
      else if white3 (of_char b) (of_char c) (of_char d) then trim_rev bs
      else d # c # b # bs)"

definition trim :: "string \<Rightarrow> string" where
  "trim s = rev (trim_rev (rev (trim_start s)))"

lemma blank_iff_trim_start: "blank s \<longleftrightarrow> trim_start s = []"
  by (induction s rule: trim_start.induct) (auto simp: blank_def)

text \<open>A text that neither begins nor ends with white space is left alone; ASCII is enough here.\<close>

definition graphic :: "char \<Rightarrow> bool" where
  "graphic c \<longleftrightarrow> 32 < (of_char c :: nat) \<and> (of_char c :: nat) < 127"

lemma trim_start_graphic: "graphic c \<Longrightarrow> trim_start (c # s) = c # s"
  by (cases s rule: trim_start.cases)
    (auto simp: graphic_def white1_def white2_def white3_def split: list.splits)

section \<open>Splitting\<close>

text \<open>\<open>str::split_once\<close>: at the first occurrence of the pattern.\<close>

fun split_once_str :: "string \<Rightarrow> string \<Rightarrow> (string \<times> string) option" where
  "split_once_str pat s =
     (if starts_with s pat then Some ([], drop (length pat) s)
      else case s of
        [] \<Rightarrow> None
      | c # cs \<Rightarrow> (case split_once_str pat cs of None \<Rightarrow> None | Some (a, b) \<Rightarrow> Some (c # a, b)))"

declare split_once_str.simps [simp del]

text \<open>\<open>str::rsplit_once\<close> of a character: at its last occurrence.\<close>

definition rsplit_once :: "char \<Rightarrow> string \<Rightarrow> (string \<times> string) option" where
  "rsplit_once c s =
     (if c \<in> set s
      then let after = rev (takeWhile (\<lambda>x. x \<noteq> c) (rev s))
           in Some (take (length s - length after - 1) s, after)
      else None)"

text \<open>\<open>s.split(f).next()\<close>, which is never \<open>None\<close>.\<close>

definition first_part :: "(char \<Rightarrow> bool) \<Rightarrow> string \<Rightarrow> string" where
  "first_part f s = takeWhile (\<lambda>c. \<not> f c) s"

lemma starts_with_append: "starts_with (p @ s) p"
  by (induction p) auto

lemma split_once_str_here: "split_once_str p (p @ s) = Some ([], s)"
  by (subst split_once_str.simps) (simp add: starts_with_append)

lemma split_once_str_first:
  assumes "\<And>k. k < length a \<Longrightarrow> \<not> starts_with (drop k a @ p @ b) p"
  shows "split_once_str p (a @ p @ b) = Some (a, b)"
  using assms
proof (induction a)
  case Nil
  then show ?case by (simp add: split_once_str_here)
next
  case (Cons c a)
  have "\<not> starts_with (drop k a @ p @ b) p" if "k < length a" for k
    using Cons.prems[of "Suc k"] that by simp
  then have "split_once_str p (a @ p @ b) = Some (a, b)" by (rule Cons.IH)
  then show ?case using Cons.prems[of 0] by (subst split_once_str.simps) simp
qed

lemma split_once_str_SomeD: "split_once_str p s = Some (a, b) \<Longrightarrow> s = a @ p @ b"
proof (induction p s arbitrary: a rule: split_once_str.induct)
  case (1 p s)
  show ?case
  proof (cases "starts_with s p")
    case True
    then show ?thesis using "1.prems"
      by (subst (asm) split_once_str.simps) (auto simp: starts_with_iff)
  next
    case False
    with "1.prems" obtain c cs a' where s: "s = c # cs" "split_once_str p cs = Some (a', b)" "a = c # a'"
      by (subst (asm) split_once_str.simps) (auto split: list.splits option.splits)
    then show ?thesis using "1.IH" [OF False] by simp
  qed
qed

lemma rsplit_once_append [simp]:
  assumes "c \<notin> set b" shows "rsplit_once c (a @ c # b) = Some (a, b)"
proof -
  have "takeWhile (\<lambda>x. x \<noteq> c) (rev (a @ c # b)) = rev b"
    using assms by (simp add: takeWhile_append)
  then show ?thesis by (simp add: rsplit_once_def)
qed

lemma rsplit_once_None [simp]: "rsplit_once c s = None \<longleftrightarrow> c \<notin> set s"
  by (simp add: rsplit_once_def Let_def)

lemma first_part_all: "(\<forall>c\<in>set s. \<not> f c) \<Longrightarrow> first_part f s = s"
  by (simp add: first_part_def takeWhile_eq_all_conv)

lemma first_part_stop: "\<forall>c\<in>set s. \<not> f c \<Longrightarrow> f d \<Longrightarrow> first_part f (s @ d # r) = s"
  by (simp add: first_part_def takeWhile_append)

end
