(* ===== verification/EngineRelay.thy ===== *)
theory EngineRelay
  imports EngineVault Text
begin

text \<open>
  The relay operations of the engine (\<open>crates/secrets-engine/src/lib.rs\<close>): minting bearers on both
  planes, registering remote clients, revoking, and the egress swap.
\<close>

section \<open>Gates\<close>

text \<open>Some enabled USB slot's keyfile is obtainable, or no USB slot is enrolled.\<close>

fun any_keyfile :: "world \<Rightarrow> keyslot list \<Rightarrow> bool op" where
  "any_keyfile w [] = ok_act False"
| "any_keyfile w (s # slots) =
     (case ks_usb_partition_uuid s of
        None \<Rightarrow> any_keyfile w slots
      | Some uuid \<Rightarrow>
          and_then (keyfile_for w uuid) (\<lambda>k. if k \<noteq> None then ok_act True else any_keyfile w slots))"

definition usb_possession_proven :: "world \<Rightarrow> bool op" where
  "usb_possession_proven w =
     and_then (store_call w load_keyslots) (\<lambda>slots.
       let usb_slots = filter (\<lambda>s. ks_enabled s \<and> ks_factor s = Usb) slots in
       if usb_slots = [] then ok_act True else any_keyfile w usb_slots)"

section \<open>Bearer rows\<close>

definition row_message :: "bearer_row \<Rightarrow> bytes" where
  "row_message row =
     bearer_row_mac_message (br_token_id row) (br_policy_id row) (br_expires_at_ms row)
       (br_issued_at_ms row) (br_issued_boottime_ms row) (br_client_uid row) (br_client_pid row)
       (br_client_id row) (br_dpop_jkt row) (br_revoked row)"

definition sealed_row :: "crypto \<Rightarrow> dek \<Rightarrow> bearer_row \<Rightarrow> bearer_row" where
  "sealed_row cr dek row = row\<lparr>br_row_mac := mac_bearer_row cr (broker_row_mac_key cr dek) (row_message row)\<rparr>"

definition reseal_bearer_row :: "world \<Rightarrow> bearer_row \<Rightarrow> bearer_row op" where
  "reseal_bearer_row w row = and_then require_dek (\<lambda>dek. ok_act (sealed_row (w_crypto w) dek row))"

section \<open>Minting\<close>

fun relay_kind_str :: "relay_kind \<Rightarrow> string" where
  "relay_kind_str Named = ''named''"
| "relay_kind_str Ephemeral = ''ephemeral''"

text \<open>The row columns of a plane binding: uid, pid, client id, thumbprint.\<close>

fun binding_columns ::
  "bearer_binding \<Rightarrow> u32 option \<times> u32 option \<times> string option \<times> bytes option" where
  "binding_columns (Local peer_uid peer_pid) = (peer_uid, peer_pid, None, None)"
| "binding_columns (Remote client_id dpop_jkt) = (None, None, Some client_id, Some dpop_jkt)"

definition refused :: "world \<Rightarrow> string \<Rightarrow> string \<Rightarrow> string \<Rightarrow> any_error \<Rightarrow> 'a op" where
  "refused w event_type subject why e = and_then (refuse w event_type subject why) (\<lambda>_. fail_act e)"

definition resolve_relay_id :: "world \<Rightarrow> relay_policy \<Rightarrow> relay_policy op" where
  "resolve_relay_id w spec =
     (if rp_kind spec = Ephemeral \<and> rp_relay_id spec = [] then
        and_then (random_bytes w 8) (\<lambda>r. ok_act (spec\<lparr>rp_relay_id := ''eph_'' @ hex_encode r\<rparr>))
      else ok_act spec)"

text \<open>The part after the gates: policy, wire bearer, both MACs, row, audit, event.\<close>

definition issue_bearer ::
  "world \<Rightarrow> dek \<Rightarrow> relay_policy \<Rightarrow> i64 \<Rightarrow> i64 \<Rightarrow> i64 \<Rightarrow> bearer_binding \<Rightarrow> bearer op" where
  "issue_bearer w dek spec0 expires_at_ms issued_ms issued_boottime_ms binding =
     (let (client_uid, client_pid, client_id, dpop_jkt) = binding_columns binding in
      and_then (resolve_relay_id w spec0) (\<lambda>spec.
      and_then (store_call w (save_relay_policy \<lparr>rr_id = 0, rr_policy = spec\<rparr>)) (\<lambda>policy_id.
      and_then (random_bytes w 16) (\<lambda>r1.
      and_then (random_bytes w 32) (\<lambda>r2.
      let token_id = hex_encode r1;
          raw = wire_bearer token_id (b64url_nopad r2);
          row = \<lparr>br_token_id = token_id, br_policy_id = policy_id,
                 br_mac = mac_bearer (w_crypto w) (broker_hmac_key (w_crypto w) dek) raw,
                 br_expires_at_ms = expires_at_ms, br_issued_at_ms = issued_ms,
                 br_issued_boottime_ms = issued_boottime_ms, br_client_uid = client_uid,
                 br_client_pid = client_pid, br_client_id = client_id, br_dpop_jkt = dpop_jkt,
                 br_revoked = False, br_row_mac = []\<rparr>;
          expires_at = ms_to_rfc3339 (w_crypto w) expires_at_ms in
      and_then (store_call w (save_bearer (sealed_row (w_crypto w) dek row))) (\<lambda>_.
      and_then (audit_ok w ''relay_minted'' (Some (rp_relay_id spec))
        (JObj [(''token_id'', JStr token_id), (''kind'', JStr (relay_kind_str (rp_kind spec))),
               (''expires_at_ms'', JInt (sint expires_at_ms))])) (\<lambda>_.
      and_then (emit (EvRelayMinted (rp_relay_id spec) (rp_kind spec) expires_at)) (\<lambda>_.
        ok_act \<lparr>b_relay_id = rp_relay_id spec, b_token_id = token_id, b_raw = raw,
                b_expires_at = expires_at\<rparr>))))))))"

definition mint_bearer_core :: "world \<Rightarrow> relay_policy \<Rightarrow> i64 \<Rightarrow> bearer_binding \<Rightarrow> bearer op" where
  "mint_bearer_core w spec requested_ttl_secs binding =
     (let (client_uid, client_pid, client_id, dpop_jkt) = binding_columns binding in
      and_then (now_ms w) (\<lambda>now.
      and_then (boottime_ms w) (\<lambda>boot.
      and_then require_dek (\<lambda>dek.
        if client_uid = None \<and> client_pid = None \<and> client_id = None then
          refused w ''relay_mint'' (rp_relay_id spec)
            ''bearer binding has no principal (uid/pid/client_id all absent)''
            (Bail ''relay_mint refused: binding has neither a local peer nor a remote client_id'')
        else
          and_then (usb_possession_proven w) (\<lambda>proven.
            if \<not> proven then
              refused w ''relay_mint'' (rp_relay_id spec) ''usb possession not proven'' (Engine UsbAbsent)
            else
              let now_secs = word_of_int (sint now div 1000) in
              case clamp_ttl now_secs (rp_policy_ttl_secs spec) requested_ttl_secs of
                None \<Rightarrow>
                  refused w ''relay_mint'' (rp_relay_id spec) ''ttl clamp refused (non-positive)''
                    (Bail ''relay_mint refused: clamped TTL is non-positive'')
              | Some expires_at_secs \<Rightarrow>
                  issue_bearer w dek spec (sat_mul expires_at_secs 1000) now boot binding)))))"

definition relay_mint ::
  "world \<Rightarrow> relay_policy \<Rightarrow> i64 \<Rightarrow> u32 option \<Rightarrow> u32 option \<Rightarrow> bearer op" where
  "relay_mint w spec requested_ttl_secs peer_uid peer_pid =
     mint_bearer_core w spec requested_ttl_secs (Local peer_uid peer_pid)"

definition register_remote_client :: "world \<Rightarrow> string \<Rightarrow> bytes \<Rightarrow> bool \<Rightarrow> unit op" where
  "register_remote_client w client_id dpop_jkt hardware_bound =
     (if blank client_id then fail_act (Bail ''register_remote_client refused: empty client_id'')
      else
        and_then (now_ms w) (\<lambda>now.
        and_then (usb_possession_proven w) (\<lambda>proven.
          if \<not> proven then
            refused w ''register_remote_client'' client_id ''usb possession not proven'' (Engine UsbAbsent)
          else
            and_then (store_call w (save_remote_client
              \<lparr>rc_client_id = client_id, rc_dpop_jkt = dpop_jkt, rc_enabled = True,
               rc_hardware_bound = hardware_bound, rc_created_at_ms = now, rc_revoked_at_ms = None\<rparr>)) (\<lambda>_.
            audit_ok w ''remote_client_registered'' (Some client_id)
              (JObj [(''hardware_bound'', JBool hardware_bound)])))))"

text \<open>The message quotes the client id with Rust's debug formatting.\<close>

definition relay_mint_remote :: "world \<Rightarrow> relay_policy \<Rightarrow> i64 \<Rightarrow> string \<Rightarrow> bytes \<Rightarrow> bearer op" where
  "relay_mint_remote w spec requested_ttl_secs client_id dpop_jkt =
     and_then (store_call w (load_remote_client client_id)) (\<lambda>registered.
       case registered of
         None \<Rightarrow>
           refused w ''relay_mint_remote'' (rp_relay_id spec) ''unknown remote client''
             (Bail (''relay_mint_remote refused: client '' @ debug_str client_id @ '' is not registered''))
       | Some c \<Rightarrow>
           if rc_enabled c \<and> rc_revoked_at_ms c = None \<and> rc_dpop_jkt c = dpop_jkt then
             mint_bearer_core w spec requested_ttl_secs (Remote client_id dpop_jkt)
           else
             refused w ''relay_mint_remote'' (rp_relay_id spec) ''remote client disabled/revoked or jkt mismatch''
               (Bail ''relay_mint_remote refused: client not enabled, or DPoP jkt does not match registration''))"

section \<open>Revoking\<close>

fun revoke_rows :: "world \<Rightarrow> bearer_row list \<Rightarrow> u32 \<Rightarrow> u32 op" where
  "revoke_rows w [] n = ok_act n"
| "revoke_rows w (b # bs) n =
     (if br_revoked b then revoke_rows w bs n
      else
        and_then (reseal_bearer_row w (b\<lparr>br_revoked := True\<rparr>)) (\<lambda>b.
        and_then (store_call w (save_bearer b)) (\<lambda>_. revoke_rows w bs (n + 1))))"

definition revoke_policy :: "world \<Rightarrow> string \<Rightarrow> unit op" where
  "revoke_policy w relay_id =
     and_then (store_call w (load_relay_policy relay_id)) (\<lambda>r.
       case r of
         None \<Rightarrow> ok_act ()
       | Some row \<Rightarrow>
           and_then (store_call w (save_relay_policy (row\<lparr>rr_policy := (rr_policy row)\<lparr>rp_revoked := True\<rparr>\<rparr>)))
             (\<lambda>_. ok_act ()))"

definition relay_revoke :: "world \<Rightarrow> string \<Rightarrow> bool \<Rightarrow> u32 op" where
  "relay_revoke w relay_id apply_flag =
     (if \<not> apply_flag then
        and_then (store_call w (list_bearers_for_relay relay_id)) (\<lambda>bs.
          let would = word_of_nat (length (filter (\<lambda>b. \<not> br_revoked b) bs)) in
          and_then (audit_ok w ''relay_revoked'' (Some relay_id)
            (JObj [(''apply'', JBool False), (''would_revoke'', JInt (uint (would :: u32)))])) (\<lambda>_.
            ok_act would))
      else
        and_then (revoke_policy w relay_id) (\<lambda>_.
        and_then (store_call w (list_bearers_for_relay relay_id)) (\<lambda>bs.
        and_then (revoke_rows w bs 0) (\<lambda>n.
        and_then (audit_ok w ''relay_revoked'' (Some relay_id)
          (JObj [(''apply'', JBool True), (''revoked'', JInt (uint n))])) (\<lambda>_.
        and_then (emit (EvRelayRevoked relay_id ''operator revoke'')) (\<lambda>_. ok_act n))))))"

text \<open>The flip of one live bearer, and the event that announces it.\<close>

definition flip_bearer :: "world \<Rightarrow> bearer_row option \<Rightarrow> u32 op" where
  "flip_bearer w live =
     (case live of
        Some b \<Rightarrow>
          and_then (reseal_bearer_row w (b\<lparr>br_revoked := True\<rparr>)) (\<lambda>b.
          and_then (store_call w (save_bearer b)) (\<lambda>_. ok_act 1))
      | None \<Rightarrow> ok_act 0)"

definition announce_flip :: "string \<Rightarrow> u32 \<Rightarrow> unit op" where
  "announce_flip token_id n =
     (if n = 1 then emit (EvRelayRevoked token_id ''bearer revoke'') else ok_act ())"

definition live_row :: "bearer_row option \<Rightarrow> bearer_row option" where
  "live_row row = (case row of Some b \<Rightarrow> if br_revoked b then None else Some b | None \<Rightarrow> None)"

definition relay_revoke_bearer :: "world \<Rightarrow> string \<Rightarrow> bool \<Rightarrow> u32 op" where
  "relay_revoke_bearer w token_id apply_flag =
     and_then (store_call w (load_bearer token_id)) (\<lambda>row.
       let would_flip = (if live_row row \<noteq> None then 1 else 0 :: u32) in
       if \<not> apply_flag then
         and_then (audit_ok w ''relay_bearer_revoked'' (Some token_id)
           (JObj [(''apply'', JBool False), (''would_revoke'', JInt (uint would_flip))])) (\<lambda>_.
           ok_act would_flip)
       else
         and_then (flip_bearer w (live_row row)) (\<lambda>n.
         and_then (audit_ok w ''relay_bearer_revoked'' (Some token_id)
           (JObj [(''apply'', JBool True), (''revoked'', JInt (uint n))])) (\<lambda>_.
         and_then (announce_flip token_id n) (\<lambda>_. ok_act n))))"

end
