(* ===== verification/EngineSwap.thy ===== *)
theory EngineSwap
  imports EngineRelay
begin

text \<open>
  The egress swap (\<open>crates/secrets-engine/src/lib.rs\<close>): \<open>relay_swap_prepare\<close> authenticates the
  bearer, snapshots clocks, floor and possession gate, counts the request, decides, and opens the
  real key only on \<open>Allow\<close>; \<open>relay_swap\<close> fences the host again, sends, and audits the outcome.
\<close>

section \<open>Texts\<close>

text \<open>The snake-case names serde gives the reasons.\<close>

fun deny_reason_str :: "deny_reason \<Rightarrow> string" where
  "deny_reason_str UnknownBearer = ''unknown_bearer''"
| "deny_reason_str Disabled = ''disabled''"
| "deny_reason_str Revoked = ''revoked''"
| "deny_reason_str BearerRevoked = ''bearer_revoked''"
| "deny_reason_str BearerExpired = ''bearer_expired''"
| "deny_reason_str PolicyExpired = ''policy_expired''"
| "deny_reason_str HostNotAllowed = ''host_not_allowed''"
| "deny_reason_str PathNotAllowed = ''path_not_allowed''"
| "deny_reason_str MethodNotAllowed = ''method_not_allowed''"
| "deny_reason_str UpstreamNotAllowed = ''upstream_not_allowed''"
| "deny_reason_str PeerMismatch = ''peer_mismatch''"
| "deny_reason_str SniHostMismatch = ''sni_host_mismatch''"
| "deny_reason_str BudgetRequests = ''budget_requests''"
| "deny_reason_str BudgetBytes = ''budget_bytes''"
| "deny_reason_str RateLimited = ''rate_limited''"
| "deny_reason_str GateAbsent = ''gate_absent''"
| "deny_reason_str ClockRollback = ''clock_rollback''"
| "deny_reason_str CrossKindPresentation = ''cross_kind_presentation''"
| "deny_reason_str RemoteNoDPoP = ''remote_no_d_po_p''"
| "deny_reason_str RemoteBindingMismatch = ''remote_binding_mismatch''"
| "deny_reason_str RemoteClientUnknown = ''remote_client_unknown''"
| "deny_reason_str RemoteClientRevoked = ''remote_client_revoked''"

fun engine_error_text :: "engine_error \<Rightarrow> string" where
  "engine_error_text (Db path source) = ''vault db error in '' @ path @ '': '' @ source"
| "engine_error_text Locked_err = ''vault is locked''"
| "engine_error_text UnlockFailed = ''unlock failed''"
| "engine_error_text UsbAbsent =
     ''relay issuance refused: USB keyfile possession not proven (rotation gating)''"
| "engine_error_text (UnknownRelay r) = ''unknown relay '' @ [CHR 0x27] @ r @ [CHR 0x27]"
| "engine_error_text (RuntimeDir d) = ''runtime dir not found or not 0700: '' @ d"
| "engine_error_text MlockFailed = ''mlockall failed; refusing to start (FS-S4)''"
| "engine_error_text HeaderMacMismatch = ''vault header MAC mismatch: keyslot set tampered (FS-S13)''"
| "engine_error_text NoCa = ''CA not initialized''"
| "engine_error_text (AuditChainBroken seq) = ''audit chain broken at seq '' @ i64_to_string seq"

text \<open>\<open>to_string\<close> of an error.\<close>

fun error_text :: "any_error \<Rightarrow> string" where
  "error_text (Engine e) = engine_error_text e"
| "error_text (Bail t) = t"
| "error_text (StoreFault t) = t"
| "error_text (Panicked t) = t"
| "error_text (SecretRowIdNotReserved r m) =
     ''put_secret row_id '' @ i64_to_string r
     @ '' was not reserved via reserve_secret_row_id (max reserved '' @ i64_to_string m @ '')''"
| "error_text (SecretRowIdCollides r) =
     ''put_secret row_id '' @ i64_to_string r @ '' collides with an existing row''"
| "error_text (SecretVersionNotNext v name e) =
     ''put_secret version '' @ dec_nat (unat v) @ '' for '' @ debug_str name
     @ '' violates monotonicity (expected '' @ dec_nat (unat e) @ '')''"

section \<open>Preparing a swap\<close>

record allow_prepared =
  al_relay_id :: string
  al_token_id :: string
  al_provider :: provider
  al_host :: string
  al_real_key :: bytes

datatype prepared = PDeny deny_reason | PAllow allow_prepared

fun trusted_sni_for :: "swap_mode \<Rightarrow> string option" where
  "trusted_sni_for ProxyMitm = Some (CHR 0x00 # ''untrusted-sni-not-observed'')"
| "trusted_sni_for (BaseUrlRepoint _) = None"
| "trusted_sni_for (NativeSubToken _) = None"

definition find_policy_by_id :: "world \<Rightarrow> i64 \<Rightarrow> relay_policy_row option op" where
  "find_policy_by_id w policy_id =
     and_then (store_call w list_relay_policies) (\<lambda>rs. ok_act (find (\<lambda>r. rr_id r = policy_id) rs))"

definition open_real_key :: "world \<Rightarrow> dek \<Rightarrow> string \<Rightarrow> bytes op" where
  "open_real_key w dek secret_name =
     and_then (store_call w (get_secret_latest secret_name)) (\<lambda>r.
       case r of
         None \<Rightarrow> fail_act (Bail (''relay secret '' @ [CHR 0x27] @ secret_name @ [CHR 0x27] @ '' not found''))
       | Some row \<Rightarrow>
         (case open_sealed (w_crypto w) dek (record_aad_of row) (sr_nonce row) (sr_ct_tag row) of
            None \<Rightarrow> fail_act (Bail (''relay secret '' @ [CHR 0x27] @ secret_name @ [CHR 0x27]
              @ '' failed authentication''))
          | Some key \<Rightarrow> ok_act key))"

definition opt_json :: "string option \<Rightarrow> json" where
  "opt_json x = (case x of None \<Rightarrow> JNull | Some t \<Rightarrow> JStr t)"

definition opt_str :: "string option \<Rightarrow> string" where
  "opt_str x = (case x of None \<Rightarrow> [] | Some t \<Rightarrow> t)"

definition deny_swap :: "world \<Rightarrow> string option \<Rightarrow> string option \<Rightarrow> deny_reason \<Rightarrow> prepared op" where
  "deny_swap w relay_id token_id why =
     and_then (audit w ''relay_swapped'' relay_id
       (JObj [(''token_id'', opt_json token_id), (''reason'', JStr (deny_reason_str why)),
              (''allowed'', JBool False)]) Refused) (\<lambda>_.
     and_then (gets_act en_owner_uid) (\<lambda>uid.
     and_then (emit (EvRelaySwapped (opt_str relay_id) [] [] False (opt_str token_id) uid [])) (\<lambda>_.
       ok_act (PDeny why))))"

definition bump_counters :: "string \<Rightarrow> i64 \<Rightarrow> u64 \<Rightarrow> (u64 \<times> u64 \<times> u32) op" where
  "bump_counters token_id now nbytes =
     (\<lambda>s. case bump token_id now nbytes (en_broker s) of (tallies, br) \<Rightarrow>
        (Inr tallies, s\<lparr>en_broker := br\<rparr>))"

definition verified_of :: "bearer_row \<Rightarrow> verified_bearer" where
  "verified_of row =
     \<lparr>vb_policy_id = br_policy_id row, vb_token_id = br_token_id row,
      vb_expires_at_ms = br_expires_at_ms row, vb_issued_at_ms = br_issued_at_ms row,
      vb_issued_boottime_ms = br_issued_boottime_ms row, vb_client_uid = br_client_uid row,
      vb_client_pid = br_client_pid row, vb_client_id = br_client_id row,
      vb_dpop_jkt = br_dpop_jkt row, vb_revoked = br_revoked row\<rparr>"

definition canon_of :: "swap_mode \<Rightarrow> egress_req \<Rightarrow> u64 \<times> u64 \<times> u32 \<Rightarrow> canon_request" where
  "canon_of swap req tallies =
     (case tallies of (total_requests, total_bytes, rate_in_window) \<Rightarrow>
       \<lparr>cr_method = eq_method req, cr_host = eq_host req, cr_sni = trusted_sni_for swap,
        cr_path = eq_path req, cr_bytes_out = eq_bytes_out req, cr_peer_uid = eq_peer_uid req,
        cr_peer_pid = eq_peer_pid req, cr_usage_requests = total_requests, cr_usage_bytes = total_bytes,
        cr_rate_in_window = rate_in_window, cr_remote = None\<rparr>)"

text \<open>Both MACs of a row: over the wire string, and over the stored fields.\<close>

definition row_authentic :: "crypto \<Rightarrow> dek \<Rightarrow> string \<Rightarrow> bearer_row \<Rightarrow> bool" where
  "row_authentic cr dek raw row \<longleftrightarrow>
     verify_bearer cr (broker_hmac_key cr dek) raw (br_mac row)
     \<and> verify_bearer_row cr (broker_row_mac_key cr dek) (row_message row) (br_row_mac row)"

text \<open>The part after the policy is found: possession gate, counters, decision, key.\<close>

definition decide_swap ::
  "world \<Rightarrow> dek \<Rightarrow> string \<Rightarrow> bearer_row \<Rightarrow> relay_policy \<Rightarrow> egress_req \<Rightarrow> i64 \<Rightarrow> i64 \<Rightarrow> i64 \<Rightarrow> prepared op" where
  "decide_swap w dek token_id row policy req now boot floor =
     and_then (usb_possession_proven w) (\<lambda>proven.
     let usb_absent = (if proven then None else Some now) in
     and_then (bump_counters (br_token_id row) now (eq_bytes_out req)) (\<lambda>tallies.
       case decide policy (verified_of row) (canon_of (rp_swap policy) req tallies) now boot usb_absent floor of
         Deny why \<Rightarrow> deny_swap w (Some (rp_relay_id policy)) (Some token_id) why
       | Allow \<Rightarrow>
           and_then (open_real_key w dek (rp_secret_name policy)) (\<lambda>key.
             ok_act (PAllow \<lparr>al_relay_id = rp_relay_id policy, al_token_id = br_token_id row,
               al_provider = rp_provider policy, al_host = eq_host req, al_real_key = key\<rparr>))))"

definition relay_swap_prepare :: "world \<Rightarrow> string \<Rightarrow> egress_req \<Rightarrow> prepared op" where
  "relay_swap_prepare w bearer_text req =
     (case parse_bearer bearer_text of
        None \<Rightarrow> deny_swap w None None UnknownBearer
      | Some (token_id, raw) \<Rightarrow>
          and_then (gets_act (\<lambda>s. vault_dek (en_vault s))) (\<lambda>d.
          case d of
            None \<Rightarrow> fail_act (Bail ''vault is locked'')
          | Some dek \<Rightarrow>
            and_then (now_ms w) (\<lambda>now.
            and_then (boottime_ms w) (\<lambda>boot.
            and_then (load_issuance_floor w) (\<lambda>floor.
            and_then (store_call w (load_bearer token_id)) (\<lambda>r.
            case r of
              None \<Rightarrow> deny_swap w None (Some token_id) UnknownBearer
            | Some row \<Rightarrow>
              if \<not> row_authentic (w_crypto w) dek raw row then
                deny_swap w None (Some token_id) UnknownBearer
              else
                and_then (find_policy_by_id w (br_policy_id row)) (\<lambda>p.
                case p of
                  None \<Rightarrow> deny_swap w None (Some token_id) UnknownBearer
                | Some pr \<Rightarrow> decide_swap w dek token_id row (rr_policy pr) req now boot floor)))))))"

section \<open>The swap\<close>

definition host_fenced :: "provider \<Rightarrow> string \<Rightarrow> string \<Rightarrow> bool" where
  "host_fenced p sent_host decided_host \<longleftrightarrow>
     list_ex (\<lambda>h. eq_ignore_ascii_case h sent_host \<and> eq_ignore_ascii_case h decided_host) (canonical_upstreams p)"

definition send_and_audit :: "world \<Rightarrow> egress_req \<Rightarrow> allow_prepared \<Rightarrow> swap_outcome op" where
  "send_and_audit w req allow =
     (if \<not> host_fenced (al_provider allow) (eq_host req) (al_host allow) then
        and_then (ignore_result (audit_failed w ''relay_swapped'' (Some (al_relay_id allow))
          (JObj [(''token_id'', JStr (al_token_id allow)), (''reason'', JStr ''upstream_fence''),
                 (''allowed'', JBool False)]))) (\<lambda>_.
          ok_act (InternalRefused ''upstream host fence''))
      else
        and_then (upstream_send w req (al_real_key allow)) (\<lambda>answer.
          case answer of
            Inr resp \<Rightarrow>
              and_then (ignore_result (audit_ok w ''relay_swapped'' (Some (al_relay_id allow))
                (JObj [(''token_id'', JStr (al_token_id allow)), (''host'', JStr (eq_host req)),
                       (''method'', JStr (method_str (eq_method req))), (''allowed'', JBool True)]))) (\<lambda>_.
              and_then (gets_act en_owner_uid) (\<lambda>uid.
              and_then (emit (EvRelaySwapped (al_relay_id allow) (eq_host req) (method_str (eq_method req)) True
                (al_token_id allow) (case eq_peer_uid req of Some u \<Rightarrow> u | None \<Rightarrow> uid) [])) (\<lambda>_.
                ok_act (Allowed resp))))
          | Inl ue \<Rightarrow>
              let kind = upstream_error_kind ue in
              and_then (ignore_result (audit_failed w ''relay_swapped'' (Some (al_relay_id allow))
                (JObj [(''token_id'', JStr (al_token_id allow)), (''reason'', JStr ''upstream''),
                       (''kind'', JStr kind)]))) (\<lambda>_.
                ok_act (InternalRefused (''upstream send failed ('' @ kind @ '')'')))))"

definition relay_swap :: "world \<Rightarrow> string \<Rightarrow> egress_req \<Rightarrow> swap_outcome op" where
  "relay_swap w bearer_text req =
     match_result (relay_swap_prepare w bearer_text req)
       (\<lambda>e. let msg = error_text e in
          and_then (ignore_result (audit_failed w ''relay_swapped'' None
            (JObj [(''reason'', JStr ''internal''), (''detail'', JStr msg)]))) (\<lambda>_.
            ok_act (InternalRefused msg)))
       (\<lambda>p. case p of
          PDeny why \<Rightarrow> ok_act (Denied why)
        | PAllow allow \<Rightarrow> send_and_audit w req allow)"

end
