(* ===== verification/EngineThreads.thy ===== *)
theory EngineThreads
  imports Threads EngineSwap
begin

text \<open>
  The requests of \<open>crates/secrets-engine/src/lib.rs\<close> as threads: the daemon runs each on a thread of
  its own (\<open>spawn_blocking\<close>) over one engine. A step is one call of the store (under the store's mutex),
  one reading of a clock, the generator or the USB probe, one access to the vault or the counters (under
  their locks), one send. The vault lock held over several of these steps is left out: reads, mints,
  revocations and swaps only share it, and nobody holds it exclusively while auditing; what holds of every
  interleaving here holds of the fewer ones with the lock. Each thread, run alone, is the operation of
  the other theories.
\<close>

type_synonym 'a job = "(engine, any_error, 'a) thread"

definition call :: "world \<Rightarrow> 'a store_op \<Rightarrow> 'a job" where
  "call w m = step_of (store_call w m)"

definition announce :: "secret_event \<Rightarrow> unit job" where
  "announce ev = step_of (emit ev)"

definition look :: "(engine \<Rightarrow> 'a) \<Rightarrow> 'a job" where
  "look f = step_of (gets_act f)"

definition alter :: "(engine \<Rightarrow> engine) \<Rightarrow> unit job" where
  "alter f = step_of (modify_act f)"

abbreviation okay :: "'a \<Rightarrow> 'a job" where
  "okay x \<equiv> Finished (Inr x)"

abbreviation failing :: "any_error \<Rightarrow> 'a job" where
  "failing e \<equiv> Finished (Inl e)"

lemma run_pieces [simp]:
  "run (call w m) = store_call w m" "run (announce ev) = emit ev" "run (look f) = gets_act f"
  "run (alter g) = modify_act g" "run (Finished r) = lift_result r"
  by (simp_all add: call_def announce_def look_def alter_def lift_result_def)

declare run.simps(1) [simp del]

section \<open>Auditing\<close>

text \<open>
  The anchor is advanced by separate store calls; an operation that audits holds no lock that keeps
  another from auditing.
\<close>

definition write_audit_anchor_thread :: "world \<Rightarrow> dek \<Rightarrow> i64 \<Rightarrow> bytes \<Rightarrow> unit job" where
  "write_audit_anchor_thread w dek new_seq row_tail =
     seq (call w (get_meta META_AUDIT_HIGH_WATER)) (\<lambda>stored.
       let prev_hw = (case stored of None \<Rightarrow> 0 | Some t \<Rightarrow> (case parse_i64 t of None \<Rightarrow> 0 | Some v \<Rightarrow> v));
           high_water = i64_max_of prev_hw new_seq in
       seq (call w (put_meta META_AUDIT_HIGH_WATER (i64_to_string high_water))) (\<lambda>_.
         call w (put_meta META_AUDIT_HEAD
           (hex_encode (audit_head_mac (w_crypto w) dek high_water high_water row_tail)))))"

definition advance_audit_anchor_if_unlocked_thread :: "world \<Rightarrow> unit job" where
  "advance_audit_anchor_if_unlocked_thread w =
     seq (look (\<lambda>s. vault_dek (en_vault s))) (\<lambda>d.
       case d of
         None \<Rightarrow> okay ()
       | Some dek \<Rightarrow>
           seq (call w last_audit) (\<lambda>r.
             write_audit_anchor_thread w dek (fst (tail_of r)) (snd (tail_of r))))"

definition audit_thread ::
  "world \<Rightarrow> string \<Rightarrow> string option \<Rightarrow> json \<Rightarrow> audit_outcome \<Rightarrow> unit job" where
  "audit_thread w event_type subject detail outcome =
     seq (step_of (now_rfc3339 w)) (\<lambda>ts.
     seq (look en_owner_uid) (\<lambda>uid.
       let rec = new_row ts (Some uid) event_type subject detail outcome in
       seq (call w (append_audit (w_crypto w) rec)) (\<lambda>row_seq.
       seq (advance_audit_anchor_if_unlocked_thread w) (\<lambda>_.
         announce (EvAudit (rec\<lparr>ar_seq := row_seq\<rparr>))))))"

definition audit_ok_thread :: "world \<Rightarrow> string \<Rightarrow> string option \<Rightarrow> json \<Rightarrow> unit job" where
  "audit_ok_thread w event_type subject detail = audit_thread w event_type subject detail Ok"

definition audit_failed_thread :: "world \<Rightarrow> string \<Rightarrow> string option \<Rightarrow> json \<Rightarrow> unit job" where
  "audit_failed_thread w event_type subject detail = audit_thread w event_type subject detail Failed"

definition refuse_thread :: "world \<Rightarrow> string \<Rightarrow> string \<Rightarrow> string \<Rightarrow> unit job" where
  "refuse_thread w event_type subject why =
     seq (audit_thread w event_type (Some subject) (JObj [(''reason'', JStr why)]) Refused) (\<lambda>_.
       announce (EvGuardRefused subject why))"

definition verify_audit_anchor_with_thread :: "world \<Rightarrow> dek \<Rightarrow> unit job" where
  "verify_audit_anchor_with_thread w dek =
     seq (call w (verify_audit_chain (w_crypto w))) (\<lambda>_.
     seq (call w (get_meta META_AUDIT_HEAD)) (\<lambda>stored.
       case stored of
         None \<Rightarrow> okay ()
       | Some stored_hex \<Rightarrow>
         (case hex_decode stored_hex of
            None \<Rightarrow> failing (Engine (AuditChainBroken 0))
          | Some stored_mac \<Rightarrow>
              seq (call w (get_meta META_AUDIT_HIGH_WATER)) (\<lambda>hw.
                case hw of
                  None \<Rightarrow> failing (Engine (AuditChainBroken 0))
                | Some t \<Rightarrow>
                  (case parse_i64 t of
                     None \<Rightarrow> failing (Engine (AuditChainBroken 0))
                   | Some stored_hw \<Rightarrow>
                       seq (call w (query_audit 0 USIZE_MAX)) (\<lambda>rows.
                         Finished (check_anchor (w_crypto w) dek stored_mac stored_hw rows)))))))"

definition verify_audit_anchor_thread :: "world \<Rightarrow> unit job" where
  "verify_audit_anchor_thread w = seq (step_of require_dek) (verify_audit_anchor_with_thread w)"

definition load_header_mac_thread :: "world \<Rightarrow> bytes job" where
  "load_header_mac_thread w =
     seq (call w (get_meta META_HEADER_MAC)) (\<lambda>m.
       case m of
         None \<Rightarrow> failing (Engine UnlockFailed)
       | Some hexed \<Rightarrow>
         (case hex_decode hexed of None \<Rightarrow> failing (Engine UnlockFailed) | Some mac \<Rightarrow> okay mac))"

definition load_issuance_floor_thread :: "world \<Rightarrow> i64 job" where
  "load_issuance_floor_thread w =
     seq (call w (get_meta META_ISSUANCE_FLOOR_MS)) (\<lambda>m.
       case m of
         None \<Rightarrow> failing (Engine UnlockFailed)
       | Some t \<Rightarrow> (case parse_i64 t of None \<Rightarrow> failing (Engine UnlockFailed) | Some v \<Rightarrow> okay v))"

definition load_dek_generation_thread :: "world \<Rightarrow> i64 job" where
  "load_dek_generation_thread w =
     seq (call w (get_meta META_DEK_GENERATION)) (\<lambda>m.
       case m of
         None \<Rightarrow> failing (Bail ''dek_generation missing'')
       | Some t \<Rightarrow>
         (case parse_i64 t of
            None \<Rightarrow> failing (Bail ''dek_generation is not a valid integer'') | Some v \<Rightarrow> okay v))"

section \<open>Initialisation\<close>

definition fill_slot_thread :: "world \<Rightarrow> keyslot \<Rightarrow> kek \<Rightarrow> dek \<Rightarrow> keyslot job" where
  "fill_slot_thread w slot kek dek =
     seq (step_of (random_bytes w 24)) (\<lambda>nonce.
       let (n, wrapped) = wrap_dek (w_crypto w) nonce kek dek (keyslot_aad slot) in
       okay (slot\<lparr>ks_wrap_nonce := n, ks_wrapped_dek := wrapped\<rparr>))"

definition enroll_passphrase_thread :: "world \<Rightarrow> string \<Rightarrow> argon2_params \<Rightarrow> dek \<Rightarrow> keyslot job" where
  "enroll_passphrase_thread w passphrase params dek =
     seq (step_of (random_bytes w 16)) (\<lambda>salt.
       let slot = passphrase_slot salt params 1 in
       case kek_from_passphrase (w_crypto w) (str_bytes passphrase) (ks_salt slot) params of
         None \<Rightarrow> failing (Panicked ''kek_from_passphrase'')
       | Some kek \<Rightarrow> fill_slot_thread w slot kek dek)"

definition enroll_usb_thread :: "world \<Rightarrow> string option \<Rightarrow> bytes option \<Rightarrow> dek \<Rightarrow> keyslot list job" where
  "enroll_usb_thread w usb_partition_uuid usb_keyfile dek =
     (case usb_keyfile of
        None \<Rightarrow> okay []
      | Some keyfile \<Rightarrow>
        (case usb_partition_uuid of
           None \<Rightarrow> failing (Bail ''usb keyfile provided without a usb_partition_uuid'')
         | Some uuid \<Rightarrow>
             seq (step_of (random_bytes w 32)) (\<lambda>salt.
               let slot = usb_slot salt uuid 1 in
               seq (fill_slot_thread w slot (kek_from_usb (w_crypto w) keyfile (ks_salt slot)) dek) (\<lambda>s.
                 okay [s]))))"

definition persist_header_thread :: "world \<Rightarrow> dek \<Rightarrow> keyslot list \<Rightarrow> i64 \<Rightarrow> unit job" where
  "persist_header_thread w dek slots issuance_floor_ms =
     seq (for_each slots (\<lambda>slot. call w (save_keyslot slot))) (\<lambda>_.
     seq (call w (put_meta META_HEADER_MAC
       (hex_encode (header_mac (w_crypto w) dek slots issuance_floor_ms)))) (\<lambda>_.
     seq (call w (put_meta META_ISSUANCE_FLOOR_MS (i64_to_string issuance_floor_ms))) (\<lambda>_.
       call w (put_meta META_DEK_GENERATION (i64_to_string 1)))))"

definition init_vault_thread ::
  "world \<Rightarrow> string \<Rightarrow> string option \<Rightarrow> bytes option \<Rightarrow> argon2_params \<Rightarrow> unit job" where
  "init_vault_thread w passphrase usb_partition_uuid usb_keyfile params =
     seq (call w (get_meta META_HEADER_MAC)) (\<lambda>existing.
       if existing \<noteq> None then failing (Bail ''vault already initialized (refusing to overwrite)'')
       else if ap_m_kib params < ARGON2_M_KIB_FLOOR then failing (Bail (''argon2 m_kib '' @ dec_nat (unat (ap_m_kib params)) @ '' is below the ''
         @ dec_nat (unat ARGON2_M_KIB_FLOOR) @ '' KiB floor''))
       else if ap_t_cost params < ARGON2_T_COST_FLOOR then failing (Bail (''argon2 t_cost '' @ dec_nat (unat (ap_t_cost params)) @ '' is below the ''
         @ dec_nat (unat ARGON2_T_COST_FLOOR) @ '' iteration floor''))
       else
         seq (step_of (now_ms w)) (\<lambda>issuance_floor_ms.
         seq (step_of (mint_dek w)) (\<lambda>dek.
         seq (enroll_passphrase_thread w passphrase params dek) (\<lambda>pp_slot.
         seq (enroll_usb_thread w usb_partition_uuid usb_keyfile dek) (\<lambda>usb_slots.
           let slots = pp_slot # usb_slots in
           seq (persist_header_thread w dek slots issuance_floor_ms) (\<lambda>_.
           seq (audit_ok_thread w ''vault_init'' None
             (JObj [(''slots'', JInt (int (length slots))), (''dek_generation'', JInt 1)])) (\<lambda>_.
           seq (call w last_audit) (\<lambda>r.
             write_audit_anchor_thread w dek (fst (tail_of r)) (snd (tail_of r))))))))))"

section \<open>Unlocking and locking\<close>

fun try_usb_thread :: "world \<Rightarrow> keyslot list \<Rightarrow> dek option job" where
  "try_usb_thread w [] = okay None"
| "try_usb_thread w (slot # slots) =
     (if \<not> (ks_enabled slot \<and> ks_factor slot = Usb) then try_usb_thread w slots
      else case ks_usb_partition_uuid slot of
        None \<Rightarrow> try_usb_thread w slots
      | Some uuid \<Rightarrow>
          seq (step_of (keyfile_for w uuid)) (\<lambda>k.
            case k of
              None \<Rightarrow> try_usb_thread w slots
            | Some keyfile \<Rightarrow>
              (case unwrap_dek (w_crypto w) (kek_from_usb (w_crypto w) keyfile (ks_salt slot))
                      (ks_wrap_nonce slot) (ks_wrapped_dek slot) (keyslot_aad slot) of
                 Some d \<Rightarrow> okay (Some d)
               | None \<Rightarrow> try_usb_thread w slots)))"

fun recover_thread :: "world \<Rightarrow> unlock \<Rightarrow> keyslot list \<Rightarrow> dek option job" where
  "recover_thread w (UnlockPassphrase pp) slots = Finished (try_passphrase (w_crypto w) (str_bytes pp) slots)"
| "recover_thread w UnlockUsb slots = try_usb_thread w slots"

definition fail_audited_thread :: "world \<Rightarrow> json \<Rightarrow> any_error \<Rightarrow> 'a job" where
  "fail_audited_thread w detail e =
     seq (audit_failed_thread w ''vault_unlock'' None detail) (\<lambda>_. failing e)"

definition commit_unlock_thread :: "world \<Rightarrow> factor \<Rightarrow> dek \<Rightarrow> vault_state job" where
  "commit_unlock_thread w factor dek =
     seq (audit_ok_thread w ''vault_unlocked'' None (JObj [(''factor'', JStr (factor_str factor))])) (\<lambda>_.
     seq (alter (\<lambda>s. s\<lparr>en_vault := VUnlocked dek\<rparr>)) (\<lambda>_.
     seq (advance_audit_anchor_if_unlocked_thread w) (\<lambda>_.
     seq (announce (EvVaultUnlocked factor)) (\<lambda>_. okay Unlocked_state))))"

definition check_and_commit_thread ::
  "world \<Rightarrow> factor \<Rightarrow> keyslot list \<Rightarrow> bytes \<Rightarrow> i64 \<Rightarrow> dek \<Rightarrow> vault_state job" where
  "check_and_commit_thread w factor slots stored_mac issuance_floor_ms dek =
     (if \<not> verify_header_mac (w_crypto w) dek slots issuance_floor_ms stored_mac then
        fail_audited_thread w (JObj [(''reason'', JStr ''header_mac'')]) (Engine HeaderMacMismatch)
      else
        seq (load_dek_generation_thread w) (\<lambda>stored_generation.
          if stored_generation \<noteq> slot_generation slots then
            fail_audited_thread w (JObj [(''reason'', JStr ''dek_generation'')]) (Engine HeaderMacMismatch)
          else
            catch (verify_audit_anchor_with_thread w dek)
              (\<lambda>e. fail_audited_thread w (JObj [(''reason'', JStr ''audit_chain'')]) e)
              (\<lambda>_. commit_unlock_thread w factor dek)))"

definition unlock_thread :: "world \<Rightarrow> unlock \<Rightarrow> vault_state job" where
  "unlock_thread w u =
     seq (look (\<lambda>s. is_unlocked (en_vault s))) (\<lambda>already.
       if already then okay Unlocked_state
       else
         seq (call w load_keyslots) (\<lambda>slots.
         seq (load_header_mac_thread w) (\<lambda>stored_mac.
         seq (load_issuance_floor_thread w) (\<lambda>issuance_floor_ms.
         seq (recover_thread w u slots) (\<lambda>recovered.
           case recovered of
             None \<Rightarrow> fail_audited_thread w (JObj []) (Engine UnlockFailed)
           | Some dek \<Rightarrow> check_and_commit_thread w (wanted_factor u) slots stored_mac issuance_floor_ms dek)))))"

definition lock_thread :: "world \<Rightarrow> unit job" where
  "lock_thread w =
     seq (alter (\<lambda>s. s\<lparr>en_vault := VLocked\<rparr>)) (\<lambda>_.
     seq (alter (\<lambda>s. s\<lparr>en_ca := None\<rparr>)) (\<lambda>_.
     seq (audit_ok_thread w ''vault_locked'' None (JObj [])) (\<lambda>_. announce EvVaultLocked)))"

section \<open>Secrets\<close>

definition store_sealed_thread :: "world \<Rightarrow> secret_row \<Rightarrow> unit job" where
  "store_sealed_thread w row =
     seq (call w (put_secret row)) (\<lambda>assigned.
       if assigned \<noteq> sr_row_id row then
         failing (Bail (''store assigned row_id '' @ i64_to_string assigned
           @ '' but the ciphertext was sealed against '' @ i64_to_string (sr_row_id row)))
       else
         seq (audit_ok_thread w ''secret_written'' (Some (sr_name row))
           (JObj [(''version'', JInt (uint (sr_version row)))])) (\<lambda>_.
           announce (EvSecretWritten (sr_name row) (sr_version row))))"

definition secret_put_thread :: "world \<Rightarrow> secret_meta \<Rightarrow> bytes \<Rightarrow> unit job" where
  "secret_put_thread w m body =
     seq (step_of require_dek) (\<lambda>dek.
     seq (load_dek_generation_thread w) (\<lambda>dek_generation.
     seq (call w (max_secret_version (sm_name m))) (\<lambda>top.
     let version = top + 1 in
     seq (call w reserve_secret_row_id) (\<lambda>row_id.
     let aad = record_aad SecretVersion row_id (ucast version) dek_generation in
     seq (step_of (random_bytes w 24)) (\<lambda>nonce24.
     let (nonce, ct_tag) = seal (w_crypto w) nonce24 dek aad body in
     seq (step_of (now_rfc3339 w)) (\<lambda>created_ts.
       store_sealed_thread w
         \<lparr>sr_row_id = row_id, sr_name = sm_name m, sr_version = version,
          sr_provider = sm_provider m, sr_note = sm_note m, sr_broker_only = sm_broker_only m,
          sr_dek_generation = dek_generation, sr_nonce = nonce, sr_ct_tag = ct_tag,
          sr_created_ts = created_ts\<rparr>))))))"

definition reveal_secret_thread :: "world \<Rightarrow> string \<Rightarrow> bool \<Rightarrow> secret_row \<Rightarrow> bytes \<Rightarrow> bytes job" where
  "reveal_secret_thread w name apply_flag row plaintext =
     (if sr_broker_only row then
        seq (refuse_thread w ''secret_read'' name ''reveal refused: secret is broker-only'') (\<lambda>_.
          failing (Bail (''reveal refused: '' @ [CHR 0x27] @ name @ [CHR 0x27] @ '' is broker-only'')))
      else if \<not> apply_flag then
        seq (refuse_thread w ''secret_read'' name ''reveal refused: apply not set (dry-run)'') (\<lambda>_.
          failing (Bail (''reveal refused: '' @ [CHR 0x27] @ name @ [CHR 0x27] @ '' requires --apply'')))
      else
        seq (look en_owner_uid) (\<lambda>by_uid.
        seq (audit_ok_thread w ''secret_read'' (Some name)
          (JObj [(''version'', JInt (uint (sr_version row))), (''revealed'', JBool True)])) (\<lambda>_.
        seq (announce (EvSecretRead name by_uid)) (\<lambda>_. okay plaintext))))"

definition read_unrevealed_thread :: "world \<Rightarrow> string \<Rightarrow> secret_row \<Rightarrow> bytes job" where
  "read_unrevealed_thread w name row =
     seq (audit_ok_thread w ''secret_read'' (Some name)
       (JObj [(''version'', JInt (uint (sr_version row))), (''revealed'', JBool False)])) (\<lambda>_.
     seq (look en_owner_uid) (\<lambda>by_uid.
     seq (announce (EvSecretRead name by_uid)) (\<lambda>_. okay [])))"

definition secret_get_thread :: "world \<Rightarrow> string \<Rightarrow> bool \<Rightarrow> bool \<Rightarrow> bytes job" where
  "secret_get_thread w name reveal apply_flag =
     seq (step_of require_dek) (\<lambda>dek.
     seq (call w (get_secret_latest name)) (\<lambda>found_row.
       case found_row of
         None \<Rightarrow>
           seq (audit_failed_thread w ''secret_read'' (Some name) (JObj [(''reason'', JStr ''not_found'')])) (\<lambda>_.
             failing (Bail (''unknown secret '' @ [CHR 0x27] @ name @ [CHR 0x27])))
       | Some row \<Rightarrow>
         (case open_sealed (w_crypto w) dek (record_aad_of row) (sr_nonce row) (sr_ct_tag row) of
            None \<Rightarrow>
              seq (audit_failed_thread w ''secret_read'' (Some name)
                (JObj [(''reason'', JStr ''tamper''), (''version'', JInt (uint (sr_version row)))])) (\<lambda>_.
                failing (Bail (''secret '' @ [CHR 0x27] @ name @ [CHR 0x27]
                  @ '' failed authentication (tampered or corrupt)'')))
          | Some plaintext \<Rightarrow>
              if reveal then reveal_secret_thread w name apply_flag row plaintext
              else read_unrevealed_thread w name row)))"

section \<open>Relays\<close>

fun any_keyfile_thread :: "world \<Rightarrow> keyslot list \<Rightarrow> bool job" where
  "any_keyfile_thread w [] = okay False"
| "any_keyfile_thread w (s # slots) =
     (case ks_usb_partition_uuid s of
        None \<Rightarrow> any_keyfile_thread w slots
      | Some uuid \<Rightarrow>
          seq (step_of (keyfile_for w uuid)) (\<lambda>k. if k \<noteq> None then okay True else any_keyfile_thread w slots))"

definition usb_possession_proven_thread :: "world \<Rightarrow> bool job" where
  "usb_possession_proven_thread w =
     seq (call w load_keyslots) (\<lambda>slots.
       let usb_slots = filter (\<lambda>s. ks_enabled s \<and> ks_factor s = Usb) slots in
       if usb_slots = [] then okay True else any_keyfile_thread w usb_slots)"

definition reseal_bearer_row_thread :: "world \<Rightarrow> bearer_row \<Rightarrow> bearer_row job" where
  "reseal_bearer_row_thread w row = seq (step_of require_dek) (\<lambda>dek. okay (sealed_row (w_crypto w) dek row))"

definition refused_thread :: "world \<Rightarrow> string \<Rightarrow> string \<Rightarrow> string \<Rightarrow> any_error \<Rightarrow> 'a job" where
  "refused_thread w event_type subject why e = seq (refuse_thread w event_type subject why) (\<lambda>_. failing e)"

definition resolve_relay_id_thread :: "world \<Rightarrow> relay_policy \<Rightarrow> relay_policy job" where
  "resolve_relay_id_thread w spec =
     (if rp_kind spec = Ephemeral \<and> rp_relay_id spec = [] then
        seq (step_of (random_bytes w 8)) (\<lambda>r. okay (spec\<lparr>rp_relay_id := ''eph_'' @ hex_encode r\<rparr>))
      else okay spec)"

definition issue_bearer_thread ::
  "world \<Rightarrow> dek \<Rightarrow> relay_policy \<Rightarrow> i64 \<Rightarrow> i64 \<Rightarrow> i64 \<Rightarrow> bearer_binding \<Rightarrow> bearer job" where
  "issue_bearer_thread w dek spec0 expires_at_ms issued_ms issued_boottime_ms binding =
     (let (client_uid, client_pid, client_id, dpop_jkt) = binding_columns binding in
      seq (resolve_relay_id_thread w spec0) (\<lambda>spec.
      seq (call w (save_relay_policy \<lparr>rr_id = 0, rr_policy = spec\<rparr>)) (\<lambda>policy_id.
      seq (step_of (random_bytes w 16)) (\<lambda>r1.
      seq (step_of (random_bytes w 32)) (\<lambda>r2.
      let token_id = hex_encode r1;
          raw = wire_bearer token_id (b64url_nopad r2);
          row = \<lparr>br_token_id = token_id, br_policy_id = policy_id,
                 br_mac = mac_bearer (w_crypto w) (broker_hmac_key (w_crypto w) dek) raw,
                 br_expires_at_ms = expires_at_ms, br_issued_at_ms = issued_ms,
                 br_issued_boottime_ms = issued_boottime_ms, br_client_uid = client_uid,
                 br_client_pid = client_pid, br_client_id = client_id, br_dpop_jkt = dpop_jkt,
                 br_revoked = False, br_row_mac = []\<rparr>;
          expires_at = ms_to_rfc3339 (w_crypto w) expires_at_ms in
      seq (call w (save_bearer (sealed_row (w_crypto w) dek row))) (\<lambda>_.
      seq (audit_ok_thread w ''relay_minted'' (Some (rp_relay_id spec))
        (JObj [(''token_id'', JStr token_id), (''kind'', JStr (relay_kind_str (rp_kind spec))),
               (''expires_at_ms'', JInt (sint expires_at_ms))])) (\<lambda>_.
      seq (announce (EvRelayMinted (rp_relay_id spec) (rp_kind spec) expires_at)) (\<lambda>_.
        okay \<lparr>b_relay_id = rp_relay_id spec, b_token_id = token_id, b_raw = raw,
                b_expires_at = expires_at\<rparr>))))))))"

definition mint_bearer_core_thread :: "world \<Rightarrow> relay_policy \<Rightarrow> i64 \<Rightarrow> bearer_binding \<Rightarrow> bearer job" where
  "mint_bearer_core_thread w spec requested_ttl_secs binding =
     (let (client_uid, client_pid, client_id, dpop_jkt) = binding_columns binding in
      seq (step_of (now_ms w)) (\<lambda>now.
      seq (step_of (boottime_ms w)) (\<lambda>boot.
      seq (step_of require_dek) (\<lambda>dek.
        if client_uid = None \<and> client_pid = None \<and> client_id = None then
          refused_thread w ''relay_mint'' (rp_relay_id spec)
            ''bearer binding has no principal (uid/pid/client_id all absent)''
            (Bail ''relay_mint refused: binding has neither a local peer nor a remote client_id'')
        else
          seq (usb_possession_proven_thread w) (\<lambda>proven.
            if \<not> proven then
              refused_thread w ''relay_mint'' (rp_relay_id spec) ''usb possession not proven'' (Engine UsbAbsent)
            else
              let now_secs = word_of_int (sint now div 1000) in
              case clamp_ttl now_secs (rp_policy_ttl_secs spec) requested_ttl_secs of
                None \<Rightarrow>
                  refused_thread w ''relay_mint'' (rp_relay_id spec) ''ttl clamp refused (non-positive)''
                    (Bail ''relay_mint refused: clamped TTL is non-positive'')
              | Some expires_at_secs \<Rightarrow>
                  issue_bearer_thread w dek spec (sat_mul expires_at_secs 1000) now boot binding)))))"

definition relay_mint_thread ::
  "world \<Rightarrow> relay_policy \<Rightarrow> i64 \<Rightarrow> u32 option \<Rightarrow> u32 option \<Rightarrow> bearer job" where
  "relay_mint_thread w spec requested_ttl_secs peer_uid peer_pid =
     mint_bearer_core_thread w spec requested_ttl_secs (Local peer_uid peer_pid)"

definition register_remote_client_thread :: "world \<Rightarrow> string \<Rightarrow> bytes \<Rightarrow> bool \<Rightarrow> unit job" where
  "register_remote_client_thread w client_id dpop_jkt hardware_bound =
     (if blank client_id then failing (Bail ''register_remote_client refused: empty client_id'')
      else
        seq (step_of (now_ms w)) (\<lambda>now.
        seq (usb_possession_proven_thread w) (\<lambda>proven.
          if \<not> proven then
            refused_thread w ''register_remote_client'' client_id ''usb possession not proven'' (Engine UsbAbsent)
          else
            seq (call w (save_remote_client
              \<lparr>rc_client_id = client_id, rc_dpop_jkt = dpop_jkt, rc_enabled = True,
               rc_hardware_bound = hardware_bound, rc_created_at_ms = now, rc_revoked_at_ms = None\<rparr>)) (\<lambda>_.
            audit_ok_thread w ''remote_client_registered'' (Some client_id)
              (JObj [(''hardware_bound'', JBool hardware_bound)])))))"

definition relay_mint_remote_thread :: "world \<Rightarrow> relay_policy \<Rightarrow> i64 \<Rightarrow> string \<Rightarrow> bytes \<Rightarrow> bearer job" where
  "relay_mint_remote_thread w spec requested_ttl_secs client_id dpop_jkt =
     seq (call w (load_remote_client client_id)) (\<lambda>registered.
       case registered of
         None \<Rightarrow>
           refused_thread w ''relay_mint_remote'' (rp_relay_id spec) ''unknown remote client''
             (Bail (''relay_mint_remote refused: client '' @ debug_str client_id @ '' is not registered''))
       | Some c \<Rightarrow>
           if rc_enabled c \<and> rc_revoked_at_ms c = None \<and> rc_dpop_jkt c = dpop_jkt then
             mint_bearer_core_thread w spec requested_ttl_secs (Remote client_id dpop_jkt)
           else
             refused_thread w ''relay_mint_remote'' (rp_relay_id spec) ''remote client disabled/revoked or jkt mismatch''
               (Bail ''relay_mint_remote refused: client not enabled, or DPoP jkt does not match registration''))"

fun revoke_rows_thread :: "world \<Rightarrow> bearer_row list \<Rightarrow> u32 \<Rightarrow> u32 job" where
  "revoke_rows_thread w [] n = okay n"
| "revoke_rows_thread w (b # bs) n =
     (if br_revoked b then revoke_rows_thread w bs n
      else
        seq (reseal_bearer_row_thread w (b\<lparr>br_revoked := True\<rparr>)) (\<lambda>b.
        seq (call w (save_bearer b)) (\<lambda>_. revoke_rows_thread w bs (n + 1))))"

definition revoke_policy_thread :: "world \<Rightarrow> string \<Rightarrow> unit job" where
  "revoke_policy_thread w relay_id =
     seq (call w (load_relay_policy relay_id)) (\<lambda>r.
       case r of
         None \<Rightarrow> okay ()
       | Some row \<Rightarrow>
           seq (call w (save_relay_policy (row\<lparr>rr_policy := (rr_policy row)\<lparr>rp_revoked := True\<rparr>\<rparr>)))
             (\<lambda>_. okay ()))"

definition relay_revoke_thread :: "world \<Rightarrow> string \<Rightarrow> bool \<Rightarrow> u32 job" where
  "relay_revoke_thread w relay_id apply_flag =
     (if \<not> apply_flag then
        seq (call w (list_bearers_for_relay relay_id)) (\<lambda>bs.
          let would = word_of_nat (length (filter (\<lambda>b. \<not> br_revoked b) bs)) in
          seq (audit_ok_thread w ''relay_revoked'' (Some relay_id)
            (JObj [(''apply'', JBool False), (''would_revoke'', JInt (uint (would :: u32)))])) (\<lambda>_.
            okay would))
      else
        seq (revoke_policy_thread w relay_id) (\<lambda>_.
        seq (call w (list_bearers_for_relay relay_id)) (\<lambda>bs.
        seq (revoke_rows_thread w bs 0) (\<lambda>n.
        seq (audit_ok_thread w ''relay_revoked'' (Some relay_id)
          (JObj [(''apply'', JBool True), (''revoked'', JInt (uint n))])) (\<lambda>_.
        seq (announce (EvRelayRevoked relay_id ''operator revoke'')) (\<lambda>_. okay n))))))"

definition flip_bearer_thread :: "world \<Rightarrow> bearer_row option \<Rightarrow> u32 job" where
  "flip_bearer_thread w live =
     (case live of
        Some b \<Rightarrow>
          seq (reseal_bearer_row_thread w (b\<lparr>br_revoked := True\<rparr>)) (\<lambda>b.
          seq (call w (save_bearer b)) (\<lambda>_. okay 1))
      | None \<Rightarrow> okay 0)"

definition announce_flip_thread :: "string \<Rightarrow> u32 \<Rightarrow> unit job" where
  "announce_flip_thread token_id n =
     (if n = 1 then announce (EvRelayRevoked token_id ''bearer revoke'') else okay ())"

definition relay_revoke_bearer_thread :: "world \<Rightarrow> string \<Rightarrow> bool \<Rightarrow> u32 job" where
  "relay_revoke_bearer_thread w token_id apply_flag =
     seq (call w (load_bearer token_id)) (\<lambda>row.
       let would_flip = (if live_row row \<noteq> None then 1 else 0 :: u32) in
       if \<not> apply_flag then
         seq (audit_ok_thread w ''relay_bearer_revoked'' (Some token_id)
           (JObj [(''apply'', JBool False), (''would_revoke'', JInt (uint would_flip))])) (\<lambda>_.
           okay would_flip)
       else
         seq (flip_bearer_thread w (live_row row)) (\<lambda>n.
         seq (audit_ok_thread w ''relay_bearer_revoked'' (Some token_id)
           (JObj [(''apply'', JBool True), (''revoked'', JInt (uint n))])) (\<lambda>_.
         seq (announce_flip_thread token_id n) (\<lambda>_. okay n))))"

section \<open>The swap\<close>

definition find_policy_by_id_thread :: "world \<Rightarrow> i64 \<Rightarrow> relay_policy_row option job" where
  "find_policy_by_id_thread w policy_id =
     seq (call w list_relay_policies) (\<lambda>rs. okay (find (\<lambda>r. rr_id r = policy_id) rs))"

definition open_real_key_thread :: "world \<Rightarrow> dek \<Rightarrow> string \<Rightarrow> bytes job" where
  "open_real_key_thread w dek secret_name =
     seq (call w (get_secret_latest secret_name)) (\<lambda>r.
       case r of
         None \<Rightarrow> failing (Bail (''relay secret '' @ [CHR 0x27] @ secret_name @ [CHR 0x27] @ '' not found''))
       | Some row \<Rightarrow>
         (case open_sealed (w_crypto w) dek (record_aad_of row) (sr_nonce row) (sr_ct_tag row) of
            None \<Rightarrow> failing (Bail (''relay secret '' @ [CHR 0x27] @ secret_name @ [CHR 0x27]
              @ '' failed authentication''))
          | Some key \<Rightarrow> okay key))"

definition deny_swap_thread :: "world \<Rightarrow> string option \<Rightarrow> string option \<Rightarrow> deny_reason \<Rightarrow> prepared job" where
  "deny_swap_thread w relay_id token_id why =
     seq (audit_thread w ''relay_swapped'' relay_id
       (JObj [(''token_id'', opt_json token_id), (''reason'', JStr (deny_reason_str why)),
              (''allowed'', JBool False)]) Refused) (\<lambda>_.
     seq (look en_owner_uid) (\<lambda>uid.
     seq (announce (EvRelaySwapped (opt_str relay_id) [] [] False (opt_str token_id) uid [])) (\<lambda>_.
       okay (PDeny why))))"

definition decide_swap_thread ::
  "world \<Rightarrow> dek \<Rightarrow> string \<Rightarrow> bearer_row \<Rightarrow> relay_policy \<Rightarrow> egress_req \<Rightarrow> i64 \<Rightarrow> i64 \<Rightarrow> i64 \<Rightarrow> prepared job" where
  "decide_swap_thread w dek token_id row policy req now boot floor =
     seq (usb_possession_proven_thread w) (\<lambda>proven.
     let usb_absent = (if proven then None else Some now) in
     seq (step_of (bump_counters (br_token_id row) now (eq_bytes_out req))) (\<lambda>tallies.
       case decide policy (verified_of row) (canon_of (rp_swap policy) req tallies) now boot usb_absent floor of
         Deny why \<Rightarrow> deny_swap_thread w (Some (rp_relay_id policy)) (Some token_id) why
       | Allow \<Rightarrow>
           seq (open_real_key_thread w dek (rp_secret_name policy)) (\<lambda>key.
             okay (PAllow \<lparr>al_relay_id = rp_relay_id policy, al_token_id = br_token_id row,
               al_provider = rp_provider policy, al_host = eq_host req, al_real_key = key\<rparr>))))"

definition relay_swap_prepare_thread :: "world \<Rightarrow> string \<Rightarrow> egress_req \<Rightarrow> prepared job" where
  "relay_swap_prepare_thread w bearer_text req =
     (case parse_bearer bearer_text of
        None \<Rightarrow> deny_swap_thread w None None UnknownBearer
      | Some (token_id, raw) \<Rightarrow>
          seq (look (\<lambda>s. vault_dek (en_vault s))) (\<lambda>d.
          case d of
            None \<Rightarrow> failing (Bail ''vault is locked'')
          | Some dek \<Rightarrow>
            seq (step_of (now_ms w)) (\<lambda>now.
            seq (step_of (boottime_ms w)) (\<lambda>boot.
            seq (load_issuance_floor_thread w) (\<lambda>floor.
            seq (call w (load_bearer token_id)) (\<lambda>r.
            case r of
              None \<Rightarrow> deny_swap_thread w None (Some token_id) UnknownBearer
            | Some row \<Rightarrow>
              if \<not> row_authentic (w_crypto w) dek raw row then
                deny_swap_thread w None (Some token_id) UnknownBearer
              else
                seq (find_policy_by_id_thread w (br_policy_id row)) (\<lambda>p.
                case p of
                  None \<Rightarrow> deny_swap_thread w None (Some token_id) UnknownBearer
                | Some pr \<Rightarrow> decide_swap_thread w dek token_id row (rr_policy pr) req now boot floor)))))))"

definition send_and_audit_thread :: "world \<Rightarrow> egress_req \<Rightarrow> allow_prepared \<Rightarrow> swap_outcome job" where
  "send_and_audit_thread w req allow =
     (if \<not> host_fenced (al_provider allow) (eq_host req) (al_host allow) then
        seq (ignored (audit_failed_thread w ''relay_swapped'' (Some (al_relay_id allow))
          (JObj [(''token_id'', JStr (al_token_id allow)), (''reason'', JStr ''upstream_fence''),
                 (''allowed'', JBool False)]))) (\<lambda>_.
          okay (InternalRefused ''upstream host fence''))
      else
        seq (step_of (upstream_send w req (al_real_key allow))) (\<lambda>answer.
          case answer of
            Inr resp \<Rightarrow>
              seq (ignored (audit_ok_thread w ''relay_swapped'' (Some (al_relay_id allow))
                (JObj [(''token_id'', JStr (al_token_id allow)), (''host'', JStr (eq_host req)),
                       (''method'', JStr (method_str (eq_method req))), (''allowed'', JBool True)]))) (\<lambda>_.
              seq (look en_owner_uid) (\<lambda>uid.
              seq (announce (EvRelaySwapped (al_relay_id allow) (eq_host req) (method_str (eq_method req)) True
                (al_token_id allow) (case eq_peer_uid req of Some u \<Rightarrow> u | None \<Rightarrow> uid) [])) (\<lambda>_.
                okay (Allowed resp))))
          | Inl ue \<Rightarrow>
              let kind = upstream_error_kind ue in
              seq (ignored (audit_failed_thread w ''relay_swapped'' (Some (al_relay_id allow))
                (JObj [(''token_id'', JStr (al_token_id allow)), (''reason'', JStr ''upstream''),
                       (''kind'', JStr kind)]))) (\<lambda>_.
                okay (InternalRefused (''upstream send failed ('' @ kind @ '')'')))))"

definition relay_swap_thread :: "world \<Rightarrow> string \<Rightarrow> egress_req \<Rightarrow> swap_outcome job" where
  "relay_swap_thread w bearer_text req =
     catch (relay_swap_prepare_thread w bearer_text req)
       (\<lambda>e. let msg = error_text e in
          seq (ignored (audit_failed_thread w ''relay_swapped'' None
            (JObj [(''reason'', JStr ''internal''), (''detail'', JStr msg)]))) (\<lambda>_.
            okay (InternalRefused msg)))
       (\<lambda>p. case p of
          PDeny why \<Rightarrow> okay (Denied why)
        | PAllow allow \<Rightarrow> send_and_audit_thread w req allow)"

section \<open>A request that nothing interrupts\<close>

named_theorems solo "what a thread run alone is"

lemma lift_ok [solo]: "lift_result (Inr x) = ok_act x"
  and lift_fail [solo]: "lift_result (Inl e) = fail_act e"
  by (simp_all add: lift_result_def ok_act_def fail_act_def)

lemma solo_anchor [solo]:
  "run (write_audit_anchor_thread w dek q h) = write_audit_anchor w dek q h"
  by (simp add: write_audit_anchor_thread_def write_audit_anchor_def Let_def)

lemma run_if [solo]: "run (if b then t else u) = (if b then run t else run u)"
  by simp

lemma run_option [solo]: "run (case x of None \<Rightarrow> t | Some y \<Rightarrow> u y) = (case x of None \<Rightarrow> run t | Some y \<Rightarrow> run (u y))"
  by (cases x) simp_all

lemma solo_audit [solo]:
  "run (advance_audit_anchor_if_unlocked_thread w) = advance_audit_anchor_if_unlocked w"
  "run (audit_thread w ev sub det out) = audit w ev sub det out"
  "run (audit_ok_thread w ev sub det) = audit_ok w ev sub det"
  "run (audit_failed_thread w ev sub det) = audit_failed w ev sub det"
  "run (refuse_thread w ev subj why) = refuse w ev subj why"
  by (simp_all add: advance_audit_anchor_if_unlocked_thread_def advance_audit_anchor_if_unlocked_def audit_thread_def
      audit_def audit_ok_thread_def audit_ok_def audit_failed_thread_def audit_failed_def refuse_thread_def refuse_def
      Let_def solo cong: if_cong option.case_cong relay_decision.case_cong sum.case_cong prepared.case_cong)

lemma solo_loads [solo]:
  "run (verify_audit_anchor_with_thread w dek) = verify_audit_anchor_with w dek"
  "run (load_header_mac_thread w) = load_header_mac w"
  "run (load_issuance_floor_thread w) = load_issuance_floor w"
  "run (load_dek_generation_thread w) = load_dek_generation w"
  by (simp_all add: verify_audit_anchor_with_thread_def verify_audit_anchor_with_def load_header_mac_thread_def
      load_header_mac_def load_issuance_floor_thread_def load_issuance_floor_def load_dek_generation_thread_def
      load_dek_generation_def solo cong: if_cong option.case_cong relay_decision.case_cong sum.case_cong prepared.case_cong)

lemma solo_verify [solo]: "run (verify_audit_anchor_thread w) = verify_audit_anchor w"
  by (simp add: verify_audit_anchor_thread_def verify_audit_anchor_def solo)

lemma solo_init [solo]:
  "run (fill_slot_thread w slot kek dek) = fill_slot w slot kek dek"
  "run (enroll_passphrase_thread w pp params dek) = enroll_passphrase w pp params dek"
  "run (enroll_usb_thread w uuid kf dek) = enroll_usb w uuid kf dek"
  "run (persist_header_thread w dek slots floor) = persist_header w dek slots floor"
  "run (init_vault_thread w pp uuid kf params) = init_vault w pp uuid kf params"
  by (simp_all add: fill_slot_thread_def fill_slot_def enroll_passphrase_thread_def enroll_passphrase_def
      enroll_usb_thread_def enroll_usb_def persist_header_thread_def persist_header_def init_vault_thread_def
      init_vault_def Let_def split_beta solo cong: if_cong option.case_cong relay_decision.case_cong sum.case_cong prepared.case_cong)

lemma solo_try_usb [solo]: "run (try_usb_thread w slots) = try_usb w slots"
  by (induction slots) (simp_all add: solo cong: if_cong option.case_cong relay_decision.case_cong sum.case_cong prepared.case_cong)

lemma solo_recover [solo]: "run (recover_thread w u slots) = recover w u slots"
  by (cases u) (simp_all add: solo cong: if_cong option.case_cong relay_decision.case_cong sum.case_cong prepared.case_cong)

lemma solo_vault [solo]:
  "run (fail_audited_thread w det e) = fail_audited w det e"
  "run (commit_unlock_thread w f dek) = commit_unlock w f dek"
  "run (check_and_commit_thread w f slots mac floor dek) = check_and_commit w f slots mac floor dek"
  "run (unlock_thread w u) = unlock w u"
  "run (lock_thread w) = lock w"
  by (simp_all add: fail_audited_thread_def fail_audited_def commit_unlock_thread_def commit_unlock_def
      check_and_commit_thread_def check_and_commit_def unlock_thread_def unlock_def lock_thread_def lock_def solo cong: if_cong option.case_cong relay_decision.case_cong sum.case_cong prepared.case_cong)

lemma solo_secrets [solo]:
  "run (store_sealed_thread w row) = store_sealed w row"
  "run (secret_put_thread w m body) = secret_put w m body"
  "run (reveal_secret_thread w name ap row pt) = reveal_secret w name ap row pt"
  "run (read_unrevealed_thread w name row) = read_unrevealed w name row"
  "run (secret_get_thread w name reveal ap) = secret_get w name reveal ap"
  by (simp_all add: store_sealed_thread_def store_sealed_def secret_put_thread_def secret_put_def
      reveal_secret_thread_def reveal_secret_def read_unrevealed_thread_def read_unrevealed_def
      secret_get_thread_def secret_get_def Let_def split_beta solo cong: if_cong option.case_cong relay_decision.case_cong sum.case_cong prepared.case_cong)

lemma solo_any_keyfile [solo]: "run (any_keyfile_thread w slots) = any_keyfile w slots"
  by (induction slots) (simp_all add: solo cong: if_cong option.case_cong relay_decision.case_cong sum.case_cong prepared.case_cong)

lemma solo_revoke_rows [solo]: "run (revoke_rows_thread w bs n) = revoke_rows w bs n"
  by (induction bs arbitrary: n) (simp_all add: solo reseal_bearer_row_thread_def reseal_bearer_row_def)

lemma solo_mint [solo]:
  "run (usb_possession_proven_thread w) = usb_possession_proven w"
  "run (refused_thread w ev subj why e) = refused w ev subj why e"
  "run (resolve_relay_id_thread w spec) = resolve_relay_id w spec"
  "run (issue_bearer_thread w dek spec ex iss boot binding) = issue_bearer w dek spec ex iss boot binding"
  "run (mint_bearer_core_thread w spec ttl binding) = mint_bearer_core w spec ttl binding"
  "run (relay_mint_thread w spec ttl uid pid) = relay_mint w spec ttl uid pid"
  "run (register_remote_client_thread w cid jkt hw) = register_remote_client w cid jkt hw"
  "run (relay_mint_remote_thread w spec ttl cid jkt) = relay_mint_remote w spec ttl cid jkt"
  by (simp_all add: usb_possession_proven_thread_def usb_possession_proven_def refused_thread_def refused_def
      resolve_relay_id_thread_def resolve_relay_id_def issue_bearer_thread_def issue_bearer_def
      mint_bearer_core_thread_def mint_bearer_core_def relay_mint_thread_def relay_mint_def
      register_remote_client_thread_def register_remote_client_def relay_mint_remote_thread_def relay_mint_remote_def Let_def split_beta solo cong: if_cong option.case_cong relay_decision.case_cong sum.case_cong prepared.case_cong)

lemma solo_revoke [solo]:
  "run (revoke_policy_thread w rid) = revoke_policy w rid"
  "run (relay_revoke_thread w rid ap) = relay_revoke w rid ap"
  "run (flip_bearer_thread w live) = flip_bearer w live"
  "run (announce_flip_thread tid n) = announce_flip tid n"
  "run (relay_revoke_bearer_thread w tid ap) = relay_revoke_bearer w tid ap"
  by (simp_all add: revoke_policy_thread_def revoke_policy_def relay_revoke_thread_def relay_revoke_def
      flip_bearer_thread_def flip_bearer_def announce_flip_thread_def announce_flip_def
      relay_revoke_bearer_thread_def relay_revoke_bearer_def reseal_bearer_row_thread_def reseal_bearer_row_def
      Let_def solo cong: if_cong option.case_cong relay_decision.case_cong sum.case_cong prepared.case_cong)

lemma run_decision [solo]:
  "run (case d of Allow \<Rightarrow> t | Deny why \<Rightarrow> u why) = (case d of Allow \<Rightarrow> run t | Deny why \<Rightarrow> run (u why))"
  by (cases d) simp_all

lemma run_sum [solo]: "run (case r of Inl e \<Rightarrow> t e | Inr x \<Rightarrow> u x) = (case r of Inl e \<Rightarrow> run (t e) | Inr x \<Rightarrow> run (u x))"
  by (cases r) simp_all

lemma run_prepared [solo]:
  "run (case p of PDeny why \<Rightarrow> t why | PAllow al \<Rightarrow> u al) = (case p of PDeny why \<Rightarrow> run (t why) | PAllow al \<Rightarrow> run (u al))"
  by (cases p) simp_all

lemma solo_swap [solo]:
  "run (find_policy_by_id_thread w pid) = find_policy_by_id w pid"
  "run (open_real_key_thread w dek name) = open_real_key w dek name"
  "run (deny_swap_thread w rid tido why) = deny_swap w rid tido why"
  "run (decide_swap_thread w dek tid row pol req now boot floor) = decide_swap w dek tid row pol req now boot floor"
  "run (relay_swap_prepare_thread w bearer_text req) = relay_swap_prepare w bearer_text req"
  "run (send_and_audit_thread w req allow) = send_and_audit w req allow"
  "run (relay_swap_thread w bearer_text req) = relay_swap w bearer_text req"
  by (simp_all add: find_policy_by_id_thread_def find_policy_by_id_def open_real_key_thread_def open_real_key_def
      deny_swap_thread_def deny_swap_def decide_swap_thread_def decide_swap_def relay_swap_prepare_thread_def
      relay_swap_prepare_def send_and_audit_thread_def send_and_audit_def relay_swap_thread_def relay_swap_def
      Let_def split_beta solo cong: if_cong option.case_cong relay_decision.case_cong sum.case_cong prepared.case_cong)

end
