(* ===== verification/EngineFrames.thy ===== *)
theory EngineFrames
  imports EngineSwap
begin

text \<open>
  What every operation of the engine preserves, whatever its arguments, the outside and the faults of
  the store: the logs only grow (\<open>grows\<close>), the audit chain verifies, and only a swap that was
  allowed hands anything to the upstream. The rules of the locale \<open>frame_relation\<close> carry each proof
  from the primitive actions to the operations.
\<close>

lemma frames_sum [frame_rules]:
  "(\<And>e. r = Inl e \<Longrightarrow> frames R (f e)) \<Longrightarrow> (\<And>x. r = Inr x \<Longrightarrow> frames R (g x)) \<Longrightarrow>
   frames R (case r of Inl e \<Rightarrow> f e | Inr x \<Rightarrow> g x)"
  by (cases r) auto

lemma frames_prod [frame_rules]: "(\<And>x y. p = (x, y) \<Longrightarrow> frames R (f x y)) \<Longrightarrow> frames R (case p of (x, y) \<Rightarrow> f x y)"
  by (cases p) auto

lemma frames_kdf [frame_rules]:
  "(\<And>p. k = Argon2id p \<Longrightarrow> frames R (f p)) \<Longrightarrow> (k = HkdfSha256 \<Longrightarrow> frames R g) \<Longrightarrow>
   frames R (case k of Argon2id p \<Rightarrow> f p | HkdfSha256 \<Rightarrow> g)"
  by (cases k) auto

lemma frames_decision [frame_rules]:
  "(d = Allow \<Longrightarrow> frames R f) \<Longrightarrow> (\<And>r. d = Deny r \<Longrightarrow> frames R (g r)) \<Longrightarrow>
   frames R (case d of Allow \<Rightarrow> f | Deny r \<Rightarrow> g r)"
  by (cases d) auto

lemma frames_prepared [frame_rules]:
  "(\<And>r. p = PDeny r \<Longrightarrow> frames R (f r)) \<Longrightarrow> (\<And>a. p = PAllow a \<Longrightarrow> frames R (g a)) \<Longrightarrow>
   frames R (case p of PDeny r \<Rightarrow> f r | PAllow a \<Rightarrow> g a)"
  by (cases p) auto

section \<open>Relations carried by every operation\<close>

text \<open>
  Contracts of a relation \<open>R\<close> between engine states, with the relation \<open>S\<close> between stores it
  rests on. The first is what single steps need: \<open>R\<close> composes, an interaction, an event and an appended
  row are related. The rows are hashed by the world \<open>w\<close>.
\<close>

locale step_relation = frame_relation R for R :: "engine \<Rightarrow> engine \<Rightarrow> bool" +
  fixes w :: world
    and S :: "in_mem_data \<Rightarrow> in_mem_data \<Rightarrow> bool"
  assumes refl_S: "S g g"
    and audit_S: "S g (snd (append_audit (w_crypto w) rec g))"
    and tick_R: "S (en_store s) g \<Longrightarrow> R s (s\<lparr>en_tick := Suc (en_tick s), en_store := g\<rparr>)"
    and event_R: "R s (s\<lparr>en_events := en_events s @ [ev]\<rparr>)"
begin

lemma reads_S:
  "S g (snd (get_meta k g))" "S g (snd (get_secret_latest n g))" "S g (snd (max_secret_version n g))"
  "S g (snd (load_keyslots g))" "S g (snd (verify_audit_chain (w_crypto w) g))"
  "S g (snd (last_audit g))" "S g (snd (query_audit q l g))" "S g (snd (load_relay_policy rid g))"
  "S g (snd (list_relay_policies g))" "S g (snd (load_bearer tid g))"
  "S g (snd (list_bearers_for_relay rid g))" "S g (snd (load_remote_client cid g))"
  by (simp_all add: store_ops verify_audit_chain_def refl_S split: sum.split)

lemma outside: "frames R (outside f)"
  using tick_R [OF refl_S] by (auto intro!: framesI simp: run_simps)

lemma emit: "frames R (emit ev)"
  by (rule framesI) (simp add: run_simps event_R)

lemma lift_result: "frames R (lift_result r)"
  by (rule framesI) (simp add: run_simps refl_R)

lemma store_call: "(\<And>g. S g (snd (m g))) \<Longrightarrow> frames R (store_call w m)"
proof (rule framesI)
  fix s :: engine
  assume m: "\<And>g. S g (snd (m g))"
  have "s\<lparr>en_tick := Suc (en_tick s)\<rparr> = s\<lparr>en_tick := Suc (en_tick s), en_store := en_store s\<rparr>"
    by simp
  with tick_R [OF refl_S, of s] tick_R [OF m, of s] show "R s (snd (store_call w m s))"
    by (auto simp: store_call_def Let_def split: option.split)
qed

lemma require_dek: "frames R require_dek"
  by (rule framesI) (simp add: require_dek_def refl_R split: option.split)

lemma clock:
  "frames R (now_ms w)" "frames R (now_rfc3339 w)" "frames R (boottime_ms w)"
  "frames R (random_bytes w n)" "frames R (mint_dek w)" "frames R (keyfile_for w u)"
  by (simp_all add: now_ms_def now_rfc3339_def boottime_ms_def random_bytes_def mint_dek_def
      keyfile_for_def outside)

lemmas step_base = outside emit lift_result store_call reads_S audit_S require_dek clock

end

text \<open>The second adds the writes of the anchor: what the audit machinery needs.\<close>

locale audit_relation = step_relation +
  assumes anchor_S: "S g (snd (put_meta META_AUDIT_HEAD v g))" "S g (snd (put_meta META_AUDIT_HIGH_WATER v g))"
begin

lemmas base = step_base anchor_S

lemma write_audit_anchor: "frames R (write_audit_anchor w dek q h)"
  unfolding write_audit_anchor_def Let_def by (intro frame_rules base)

lemma advance: "frames R (advance_audit_anchor_if_unlocked w)"
  unfolding advance_audit_anchor_if_unlocked_def by (intro frame_rules base write_audit_anchor)

lemma audit: "frames R (audit w ev sub det out)"
  unfolding audit_def Let_def by (intro frame_rules base advance)

lemma audit_kinds:
  "frames R (audit_ok w ev sub det)" "frames R (audit_failed w ev sub det)"
  "frames R (refuse w ev subj why)" "frames R (refused w ev subj why e)" "frames R (fail_audited w det e)"
  unfolding audit_ok_def audit_failed_def refuse_def refused_def fail_audited_def
  by (intro frame_rules base audit)+

lemma loads:
  "frames R (verify_audit_anchor_with w dek)" "frames R (load_header_mac w)"
  "frames R (load_issuance_floor w)" "frames R (load_dek_generation w)"
  unfolding verify_audit_anchor_with_def load_header_mac_def load_issuance_floor_def load_dek_generation_def
  by (intro frame_rules base)+

lemmas audit_parts = base audit audit_kinds advance write_audit_anchor loads

lemma verify_audit_anchor: "frames R (verify_audit_anchor w)"
  unfolding verify_audit_anchor_def by (intro frame_rules audit_parts)

lemma try_usb: "frames R (try_usb w slots)"
  by (induction slots) (simp_all, intro frame_rules base conjI impI, auto intro!: frame_rules base)

lemma recover: "frames R (recover w u slots)"
  by (cases u) (simp_all add: base try_usb)

lemma secret_get: "frames R (secret_get w name reveal apply_flag)"
  unfolding secret_get_def reveal_secret_def read_unrevealed_def by (intro frame_rules audit_parts)

lemma any_keyfile: "frames R (any_keyfile w slots)"
  by (induction slots) (auto intro!: frame_rules base)

lemma usb_possession_proven: "frames R (usb_possession_proven w)"
  unfolding usb_possession_proven_def Let_def by (intro frame_rules base any_keyfile)

lemma deny_swap: "frames R (deny_swap w rid tid why)"
  unfolding deny_swap_def by (intro frame_rules audit_parts)

end

text \<open>
  The third contract adds the writes of the store but those of policies, and the counters. It is
  extended in two directions, and the two together are the contract of every operation but a swap.
\<close>

locale data_relation = audit_relation +
  assumes meta_S: "S g (snd (put_meta k v g))"
    and reserve_S: "S g (snd (reserve_secret_row_id g))"
    and secret_S: "S g (snd (put_secret row g))"
    and keyslot_S: "S g (snd (save_keyslot slot g))"
    and bearer_S: "S g (snd (save_bearer b g))"
    and client_S: "S g (snd (save_remote_client c g))"
    and broker_R: "R s (s\<lparr>en_broker := br\<rparr>)"
begin

lemma bump_counters: "frames R (bump_counters t now n)"
  by (rule framesI) (simp add: bump_counters_def broker_R split: prod.split)

lemmas parts = audit_parts meta_S reserve_S secret_S keyslot_S bearer_S client_S bump_counters

lemma init_vault: "frames R (init_vault w pp uuid kf params)"
  unfolding init_vault_def enroll_passphrase_def enroll_usb_def fill_slot_def persist_header_def Let_def
  by (intro frame_rules parts)

lemma secret_put: "frames R (secret_put w m body)"
  unfolding secret_put_def store_sealed_def Let_def by (intro frame_rules parts)

lemma register_remote_client: "frames R (register_remote_client w cid jkt hw)"
  unfolding register_remote_client_def by (intro frame_rules parts usb_possession_proven)

lemma revoke_rows: "frames R (revoke_rows w bs n)"
  by (induction bs arbitrary: n) (auto intro!: frame_rules parts simp: reseal_bearer_row_def)

lemma relay_revoke_bearer: "frames R (relay_revoke_bearer w tid apply_flag)"
  unfolding relay_revoke_bearer_def flip_bearer_def announce_flip_def reseal_bearer_row_def Let_def by (intro frame_rules parts)

lemma decide_swap: "frames R (decide_swap w dek tid row policy req now boot floor)"
  unfolding decide_swap_def open_real_key_def Let_def
  by (intro frame_rules parts deny_swap usb_possession_proven)

lemma relay_swap_prepare: "frames R (relay_swap_prepare w bearer_text req)"
  unfolding relay_swap_prepare_def find_policy_by_id_def
  by (intro frame_rules parts deny_swap decide_swap)

end

text \<open>A relation that opening and closing the vault carries too.\<close>

locale vault_relation = data_relation +
  assumes vault_R: "R s (s\<lparr>en_vault := vlt\<rparr>)"
    and ca_R: "R s (s\<lparr>en_ca := ca\<rparr>)"
begin

lemma set_vault: "frames R (modify_act (\<lambda>s. s\<lparr>en_vault := v\<rparr>))"
  by (rule framesI) (simp add: run_simps vault_R)

lemma set_ca: "frames R (modify_act (\<lambda>s. s\<lparr>en_ca := ca\<rparr>))"
  by (rule framesI) (simp add: run_simps ca_R)

lemma unlock: "frames R (unlock w u)"
  unfolding unlock_def check_and_commit_def commit_unlock_def by (intro frame_rules parts recover set_vault)

lemma lock: "frames R (lock w)"
  unfolding lock_def by (intro frame_rules parts set_vault set_ca)

end

text \<open>A relation that writing a policy carries too.\<close>

locale policy_relation = data_relation +
  assumes relay_S: "S g (snd (save_relay_policy pol g))"
begin

lemma mint_bearer_core: "frames R (mint_bearer_core w spec ttl binding)"
  unfolding mint_bearer_core_def issue_bearer_def resolve_relay_id_def Let_def
  by (intro frame_rules parts relay_S usb_possession_proven)

lemma relay_mint: "frames R (relay_mint w spec ttl uid pid)"
  unfolding relay_mint_def by (rule mint_bearer_core)

lemma relay_mint_remote: "frames R (relay_mint_remote w spec ttl cid jkt)"
  unfolding relay_mint_remote_def by (intro frame_rules parts mint_bearer_core)

lemma relay_revoke: "frames R (relay_revoke w rid apply_flag)"
  unfolding relay_revoke_def revoke_policy_def Let_def by (intro frame_rules parts relay_S revoke_rows)

end

locale engine_relation = vault_relation R w S + policy_relation R w S
  for R :: "engine \<Rightarrow> engine \<Rightarrow> bool" and w :: world and S :: "in_mem_data \<Rightarrow> in_mem_data \<Rightarrow> bool"

text \<open>A relation that a send carries too.\<close>

locale engine_send_relation = engine_relation +
  assumes send_R: "R s (s\<lparr>en_tick := Suc (en_tick s), en_sent := en_sent s @ [(req, key)]\<rparr>)"
begin

lemma upstream_send: "frames R (upstream_send w req key)"
  by (rule framesI) (simp add: upstream_send_def send_R)

lemma relay_swap: "frames R (relay_swap w bearer_text req)"
  unfolding relay_swap_def send_and_audit_def Let_def
  by (intro frame_rules parts relay_swap_prepare upstream_send)

end

section \<open>Auditing leaves everything else alone\<close>

definition data_kept :: "in_mem_data \<Rightarrow> in_mem_data \<Rightarrow> bool" where
  "data_kept g h \<longleftrightarrow>
     sd_secrets h = sd_secrets g \<and> sd_keyslots h = sd_keyslots g
     \<and> sd_next_secret_row_id h = sd_next_secret_row_id g \<and> sd_relays h = sd_relays g
     \<and> sd_bearers h = sd_bearers g \<and> sd_remote_clients h = sd_remote_clients g \<and> sd_certs h = sd_certs g
     \<and> sd_meta h META_HEADER_MAC = sd_meta g META_HEADER_MAC
     \<and> sd_meta h META_ISSUANCE_FLOOR_MS = sd_meta g META_ISSUANCE_FLOOR_MS
     \<and> sd_meta h META_DEK_GENERATION = sd_meta g META_DEK_GENERATION"

definition kept :: "engine \<Rightarrow> engine \<Rightarrow> bool" where
  "kept s t \<longleftrightarrow>
     data_kept (en_store s) (en_store t) \<and> en_vault t = en_vault s \<and> en_broker t = en_broker s
     \<and> en_ca t = en_ca s \<and> en_sent t = en_sent s \<and> en_owner_uid t = en_owner_uid s"

interpretation keep: audit_relation kept w data_kept for w
  by unfold_locales (auto simp: kept_def data_kept_def store_ops append_audit_def Let_def)

section \<open>Requests and reachable states\<close>

datatype request =
    InitVault string "string option" "bytes option" argon2_params
  | Unlock unlock
  | Lock
  | SecretPut secret_meta bytes
  | SecretGet string bool bool
  | RelayMint relay_policy i64 "u32 option" "u32 option"
  | RegisterRemoteClient string bytes bool
  | RelayMintRemote relay_policy i64 string bytes
  | RelayRevoke string bool
  | RelayRevokeBearer string bool
  | RelaySwap string egress_req
  | VerifyAuditAnchor

fun perform :: "world \<Rightarrow> request \<Rightarrow> engine \<Rightarrow> engine" where
  "perform w (InitVault pp uuid kf params) s = snd (init_vault w pp uuid kf params s)"
| "perform w (Unlock u) s = snd (unlock w u s)"
| "perform w Lock s = snd (lock w s)"
| "perform w (SecretPut m body) s = snd (secret_put w m body s)"
| "perform w (SecretGet name reveal apply_flag) s = snd (secret_get w name reveal apply_flag s)"
| "perform w (RelayMint spec ttl uid pid) s = snd (relay_mint w spec ttl uid pid s)"
| "perform w (RegisterRemoteClient cid jkt hw) s = snd (register_remote_client w cid jkt hw s)"
| "perform w (RelayMintRemote spec ttl cid jkt) s = snd (relay_mint_remote w spec ttl cid jkt s)"
| "perform w (RelayRevoke rid apply_flag) s = snd (relay_revoke w rid apply_flag s)"
| "perform w (RelayRevokeBearer tid apply_flag) s = snd (relay_revoke_bearer w tid apply_flag s)"
| "perform w (RelaySwap bearer_text req) s = snd (relay_swap w bearer_text req s)"
| "perform w VerifyAuditAnchor s = snd (verify_audit_anchor w s)"

inductive reachable :: "world \<Rightarrow> engine \<Rightarrow> engine \<Rightarrow> bool" for w s where
  start: "reachable w s s"
| request: "reachable w s t \<Longrightarrow> reachable w s (perform w r t)"

context engine_relation
begin

lemma perform: "\<forall>bearer_text req. r \<noteq> RelaySwap bearer_text req \<Longrightarrow> R s (perform w r s)"
  by (cases r) (simp_all add: framesD init_vault unlock lock secret_put secret_get relay_mint
      register_remote_client relay_mint_remote relay_revoke relay_revoke_bearer verify_audit_anchor)

end

context engine_send_relation
begin

lemma perform_any: "R s (perform w r s)"
proof (cases "\<forall>bearer_text req. r \<noteq> RelaySwap bearer_text req")
  case False
  then show ?thesis by (auto simp: framesD relay_swap)
qed (rule perform)

lemma reachable: "reachable w s t \<Longrightarrow> R s t"
  by (induction rule: reachable.induct) (auto intro: refl_R trans_R perform_any)

end

section \<open>The logs only grow\<close>

definition log_append :: "in_mem_data \<Rightarrow> in_mem_data \<Rightarrow> bool" where
  "log_append g h \<longleftrightarrow> (\<exists>rows. sd_audit h = sd_audit g @ rows)"

named_theorems audit_kept "store operations that leave the audit log as it is"

lemma audit_kept_ops [audit_kept]:
  "sd_audit (snd (put_meta k v g)) = sd_audit g" "sd_audit (snd (reserve_secret_row_id g)) = sd_audit g"
  "sd_audit (snd (put_secret row g)) = sd_audit g" "sd_audit (snd (save_keyslot slot g)) = sd_audit g"
  "sd_audit (snd (save_relay_policy pol g)) = sd_audit g" "sd_audit (snd (save_bearer b g)) = sd_audit g"
  "sd_audit (snd (save_remote_client c g)) = sd_audit g"
  by (simp_all add: store_ops reserve_secret_row_id_def put_secret_def save_relay_policy_def Let_def)

lemma audit_appended: "sd_audit (snd (append_audit cr rec g)) = append_row cr (sd_audit g) rec"
  by (simp add: append_audit_def append_row_def Let_def)

interpretation grow: engine_send_relation grows w log_append for w
proof unfold_locales
  show "grows s u" if "grows s t" "grows t u" for s t u
    using that by (auto simp: grows_def)
qed (auto simp: audit_kept audit_appended append_row_def grows_def log_append_def)

text \<open>
  Whatever requests are served, in any order, with any faults of the store: the audit log, the
  event channel and the log of upstream calls are only appended to.
\<close>

theorem logs_append_only:
  assumes "reachable w s t"
  shows "(\<exists>rows. audit_rows (en_store t) = audit_rows (en_store s) @ rows)
    \<and> (\<exists>evs. en_events t = en_events s @ evs) \<and> (\<exists>calls. en_sent t = en_sent s @ calls)"
  using grow.reachable [OF assms] by (simp add: grows_def audit_rows_def)

section \<open>The chain verifies in every reachable state\<close>

definition chain_ok :: "crypto \<Rightarrow> in_mem_data \<Rightarrow> bool" where
  "chain_ok cr g \<longleftrightarrow> verify_chain cr (sd_audit g) = Inr ()"

interpretation chain: engine_send_relation
  "\<lambda>s t. chain_ok (w_crypto w) (en_store s) \<longrightarrow> chain_ok (w_crypto w) (en_store t)" w
  "\<lambda>g h. chain_ok (w_crypto w) g \<longrightarrow> chain_ok (w_crypto w) h" for w
  by unfold_locales (simp_all add: chain_ok_def audit_kept audit_appended verify_append_row)

text \<open>
  An engine that starts with a verifying log keeps it verifying through every sequence of
  requests, faults included.
\<close>

theorem audit_chain_invariant:
  assumes "reachable w s t" "fst (verify_audit_chain (w_crypto w) (en_store s)) = Inr ()"
  shows "fst (verify_audit_chain (w_crypto w) (en_store t)) = Inr ()"
  using chain.reachable [OF assms(1)] assms(2)
  by (simp add: chain_ok_def verify_audit_chain_def split: sum.splits)

end
