(* ===== verification/EngineInterleave.thy ===== *)
theory EngineInterleave
  imports EngineThreads EngineFrames
begin

text \<open>
  Requests served at the same time: what holds however their steps are interleaved. A relation that the
  single steps respect (the contracts of \<open>EngineFrames\<close>) is respected by every interleaving: the logs are
  only appended to, and the audit chain verifies, though nothing keeps one request from auditing while
  another does.
\<close>

section \<open>Requests as threads\<close>

text \<open>The result goes to the client; here only the effect matters.\<close>

fun request_thread :: "world \<Rightarrow> request \<Rightarrow> unit job" where
  "request_thread w (InitVault pp uuid kf params) = ignored (init_vault_thread w pp uuid kf params)"
| "request_thread w (Unlock u) = ignored (unlock_thread w u)"
| "request_thread w Lock = ignored (lock_thread w)"
| "request_thread w (SecretPut m body) = ignored (secret_put_thread w m body)"
| "request_thread w (SecretGet name reveal apply_flag) = ignored (secret_get_thread w name reveal apply_flag)"
| "request_thread w (RelayMint spec ttl uid pid) = ignored (relay_mint_thread w spec ttl uid pid)"
| "request_thread w (RegisterRemoteClient cid jkt hw) = ignored (register_remote_client_thread w cid jkt hw)"
| "request_thread w (RelayMintRemote spec ttl cid jkt) = ignored (relay_mint_remote_thread w spec ttl cid jkt)"
| "request_thread w (RelayRevoke rid apply_flag) = ignored (relay_revoke_thread w rid apply_flag)"
| "request_thread w (RelayRevokeBearer tid apply_flag) = ignored (relay_revoke_bearer_thread w tid apply_flag)"
| "request_thread w (RelaySwap bearer_text req) = ignored (relay_swap_thread w bearer_text req)"
| "request_thread w VerifyAuditAnchor = ignored (verify_audit_anchor_thread w)"

lemma request_alone: "run (request_thread w r) s = (Inr (), perform w r s)"
  by (cases r) (simp_all add: solo run_simps)

definition concurrently :: "world \<Rightarrow> request list \<Rightarrow> engine \<Rightarrow> engine \<Rightarrow> bool" where
  "concurrently w rs s t \<longleftrightarrow> (\<exists>ts. interleave (s, map (request_thread w) rs) (t, ts))"

text \<open>Serving the requests one after the other is one of the interleavings.\<close>

lemma in_order_interleaves:
  "interleave (s, ds @ map (request_thread w) rs)
     (fold (perform w) rs s, ds @ map (\<lambda>_. Finished (Inr ())) rs)"
proof (induction rs arbitrary: s ds)
  case (Cons r rs)
  let ?ts = "ds @ map (request_thread w) (r # rs)"
  have "interleave (s, ?ts) (snd (run (request_thread w r) s),
      ?ts[length ds := Finished (fst (run (request_thread w r) s))])"
    by (rule alone_interleave [OF alone_run]) simp_all
  also have "(snd (run (request_thread w r) s), ?ts[length ds := Finished (fst (run (request_thread w r) s))])
      = (perform w r s, (ds @ [Finished (Inr ())]) @ map (request_thread w) rs)"
    by (simp add: request_alone)
  also have "interleave \<dots> (fold (perform w) rs (perform w r s),
      (ds @ [Finished (Inr ())]) @ map (\<lambda>_. Finished (Inr ())) rs)"
    by (rule Cons.IH)
  finally show ?case by simp
qed simp

lemma in_order: "concurrently w rs s (fold (perform w) rs s)"
  using in_order_interleaves [of s "[]" w rs] by (auto simp: concurrently_def)

section \<open>Relations that every step respects\<close>

lemma obeys_decision [thread_rules]:
  "obeys E R I t \<Longrightarrow> (\<And>why. obeys E R I (u why)) \<Longrightarrow> obeys E R I (case d of Allow \<Rightarrow> t | Deny why \<Rightarrow> u why)"
  by (cases d) auto

lemma obeys_prepared [thread_rules]:
  "(\<And>why. obeys E R I (t why)) \<Longrightarrow> (\<And>al. obeys E R I (u al)) \<Longrightarrow>
   obeys E R I (case p of PDeny why \<Rightarrow> t why | PAllow al \<Rightarrow> u al)"
  by (cases p) auto

text \<open>The policy a request asks to be minted, and the one that is written for it at the \<open>k\<close>-th interaction.\<close>

fun mint_spec :: "request \<Rightarrow> relay_policy option" where
  "mint_spec (RelayMint spec ttl uid pid) = Some spec"
| "mint_spec (RelayMintRemote spec ttl cid jkt) = Some spec"
| "mint_spec _ = None"

definition resolved :: "world \<Rightarrow> nat \<Rightarrow> relay_policy \<Rightarrow> relay_policy" where
  "resolved w k spec =
     (if rp_kind spec = Ephemeral \<and> rp_relay_id spec = []
      then spec\<lparr>rp_relay_id := ''eph_'' @ hex_encode (w_random w k 8)\<rparr> else spec)"

definition policy_fits :: "world \<Rightarrow> (engine \<Rightarrow> bool) \<Rightarrow> (relay_policy \<Rightarrow> bool) \<Rightarrow> relay_policy \<Rightarrow> bool" where
  "policy_fits w I P spec \<longleftrightarrow>
     (if rp_kind spec = Ephemeral \<and> rp_relay_id spec = []
      then \<forall>s. I s \<longrightarrow> P (resolved w (en_tick s) spec) else P spec)"

definition request_fits :: "world \<Rightarrow> (engine \<Rightarrow> bool) \<Rightarrow> (relay_policy \<Rightarrow> bool) \<Rightarrow> request \<Rightarrow> bool" where
  "request_fits w I P r \<longleftrightarrow> (\<forall>spec. mint_spec r = Some spec \<longrightarrow> policy_fits w I P spec)"

lemma any_request_fits [simp]: "request_fits w I (\<lambda>_. True) r"
  by (simp add: request_fits_def policy_fits_def)

text \<open>
  The contract: \<open>R\<close> and the relation \<open>S\<close> between stores as in \<open>EngineFrames\<close>, with an invariant \<open>I\<close> that \<open>R\<close>
  keeps and on which the advance of the anchor may rest. \<open>B\<close> says of a bearer's row that writing it is
  in \<open>R\<close>: a revoked row, or one under a token id drawn in a state of \<open>I\<close>; \<open>P\<close> says it of a policy: a revoked
  one, or one that a request asks to be minted. Every other step is in \<open>R\<close> on its own.
\<close>

locale thread_relation = step_relation +
  fixes E :: "engine \<Rightarrow> engine \<Rightarrow> bool" and I :: "engine \<Rightarrow> bool" and B :: "bearer_row \<Rightarrow> bool"
    and P :: "relay_policy \<Rightarrow> bool"
  assumes stable_I: "stable E I" "stable R I"
    and anchor_I: "obeys E R I (seq (call w last_audit) (\<lambda>r.
      write_audit_anchor_thread w dek (fst (tail_of r)) (snd (tail_of r))))"
    and header_S: "S g (snd (put_meta META_HEADER_MAC v g))" "S g (snd (put_meta META_ISSUANCE_FLOOR_MS v g))"
      "S g (snd (put_meta META_DEK_GENERATION v g))"
    and reserve_S: "S g (snd (reserve_secret_row_id g))"
    and secret_S: "S g (snd (put_secret row g))"
    and keyslot_S: "S g (snd (save_keyslot slot g))"
    and bearer_S: "B b \<Longrightarrow> S g (snd (save_bearer b g))"
    and revoked_B: "br_revoked b \<Longrightarrow> B b"
    and minted_B: "I s \<Longrightarrow> br_token_id b = hex_encode (w_random w (en_tick s) 16) \<Longrightarrow> B b"
    and client_S: "S g (snd (save_remote_client c g))"
    and relay_S: "P (rr_policy pol) \<Longrightarrow> S g (snd (save_relay_policy pol g))"
    and revoked_P: "rp_revoked p \<Longrightarrow> P p"
    and broker_R: "R s (s\<lparr>en_broker := br\<rparr>)"
    and vault_R: "R s (s\<lparr>en_vault := vlt\<rparr>)"
    and ca_R: "R s (s\<lparr>en_ca := ca\<rparr>)"
begin

lemmas rules = obeys_Finished [OF stable_I] obeys_step [OF stable_I] obeys_for [OF stable_I] obeys_seq obeys_catch obeys_ignored obeys_if obeys_option
  obeys_sum obeys_decision obeys_prepared

lemma call: "frames R (store_call w m) \<Longrightarrow> obeys E R I (call w m)"
  unfolding call_def by (rule obeys_step [OF stable_I])

lemma announce: "obeys E R I (announce ev)"
  unfolding announce_def by (rule obeys_step [OF stable_I emit])

lemma look: "obeys E R I (look f)"
  unfolding look_def by (rule obeys_step [OF stable_I gets_act])

lemma alter: "(\<And>s. R s (f s)) \<Longrightarrow> obeys E R I (alter f)"
  unfolding alter_def by (rule obeys_step [OF stable_I modify_act])

lemma counters: "frames R (bump_counters t now n)"
  by (rule framesI) (simp add: bump_counters_def broker_R split: prod.split)

lemmas pieces = call announce look alter counters step_base header_S reserve_S secret_S keyslot_S
  client_S relay_S vault_R ca_R

lemma advance_thread: "obeys E R I (advance_audit_anchor_if_unlocked_thread w)"
  unfolding advance_audit_anchor_if_unlocked_thread_def by (intro rules pieces anchor_I)

lemma audit_thread: "obeys E R I (audit_thread w ev sub det out)"
  unfolding audit_thread_def Let_def by (intro rules pieces advance_thread)

lemma audit_threads:
  "obeys E R I (audit_ok_thread w ev sub det)" "obeys E R I (audit_failed_thread w ev sub det)"
  "obeys E R I (refuse_thread w ev subj why)" "obeys E R I (refused_thread w ev subj why e)"
  "obeys E R I (fail_audited_thread w det e)" "obeys E R I (deny_swap_thread w rid tid reason_given)"
  unfolding audit_ok_thread_def audit_failed_thread_def refuse_thread_def refused_thread_def fail_audited_thread_def
    deny_swap_thread_def
  by (intro rules pieces audit_thread)+

lemma load_threads:
  "obeys E R I (verify_audit_anchor_with_thread w dek)" "obeys E R I (load_header_mac_thread w)"
  "obeys E R I (load_issuance_floor_thread w)" "obeys E R I (load_dek_generation_thread w)"
  unfolding verify_audit_anchor_with_thread_def load_header_mac_thread_def load_issuance_floor_thread_def
    load_dek_generation_thread_def
  by (intro rules pieces)+

lemmas parts = pieces advance_thread audit_thread audit_threads load_threads

lemma verify_thread: "obeys E R I (verify_audit_anchor_thread w)"
  unfolding verify_audit_anchor_thread_def by (intro rules parts)

lemma recover_thread: "obeys E R I (recover_thread w u slots)"
proof (cases u)
  case UnlockUsb
  have "obeys E R I (try_usb_thread w slots)"
    by (induction slots) (auto intro!: rules parts)
  then show ?thesis by (simp add: UnlockUsb)
qed (simp add: obeys_Finished stable_I)

lemma unlock_thread: "obeys E R I (unlock_thread w u)"
  unfolding unlock_thread_def check_and_commit_thread_def commit_unlock_thread_def
  by (intro rules parts recover_thread)

lemma lock_thread: "obeys E R I (lock_thread w)"
  unfolding lock_thread_def by (intro rules parts)

lemma init_thread: "obeys E R I (init_vault_thread w pp uuid kf params)"
  unfolding init_vault_thread_def enroll_passphrase_thread_def enroll_usb_thread_def fill_slot_thread_def
    persist_header_thread_def Let_def split_beta
  by (intro rules parts anchor_I)

lemma secret_put_thread: "obeys E R I (secret_put_thread w m body)"
  unfolding secret_put_thread_def store_sealed_thread_def Let_def split_beta by (intro rules parts)

lemma secret_get_thread: "obeys E R I (secret_get_thread w name reveal apply_flag)"
  unfolding secret_get_thread_def reveal_secret_thread_def read_unrevealed_thread_def
  by (intro rules parts)

lemma usb_thread: "obeys E R I (usb_possession_proven_thread w)"
proof -
  have "obeys E R I (any_keyfile_thread w slots)" for slots
    by (induction slots) (auto intro!: rules parts)
  then show ?thesis unfolding usb_possession_proven_thread_def Let_def by (intro rules parts)
qed

text \<open>A bearer's row is written with a token id that was drawn, or revoked.\<close>

lemma save_thread: "B b \<Longrightarrow> obeys E R I (call w (save_bearer b))"
  by (intro pieces bearer_S)

lemma drawn:
  assumes "\<And>s. I s \<Longrightarrow> obeys E R I (f (w_random w (en_tick s) n))" shows "obeys E R I (seq (step_of (random_bytes w n)) f)"
proof (rule obeys_seq_known [OF stable_I])
  show "frames R (random_bytes w n)"
    unfolding random_bytes_def by (rule outside)
  show "\<exists>s. I s \<and> x = w_random w (en_tick s) n" if "I s" "random_bytes w n s = (Inr x, t)" for s x t
    using that by (auto simp: random_bytes_def run_simps)
qed (use assms in auto)

lemma resealed:
  assumes "\<And>b'. br_revoked b' = br_revoked b \<Longrightarrow> br_token_id b' = br_token_id b \<Longrightarrow> obeys E R I (f b')"
  shows "obeys E R I (seq (reseal_bearer_row_thread w b) f)"
  unfolding reseal_bearer_row_thread_def seq_assoc
  by (rule obeys_seq, (intro rules parts)[1]) (simp add: assms sealed_row_def)

lemma resolve_thread:
  assumes "policy_fits w I P spec" "\<And>p. P p \<Longrightarrow> obeys E R I (f p)"
  shows "obeys E R I (seq (resolve_relay_id_thread w spec) f)"
proof (cases "rp_kind spec = Ephemeral \<and> rp_relay_id spec = []")
  case True
  have "obeys E R I (seq (step_of (random_bytes w 8)) (\<lambda>r. f (spec\<lparr>rp_relay_id := ''eph_'' @ hex_encode r\<rparr>)))"
    using True assms by (intro drawn) (auto simp: policy_fits_def resolved_def)
  then show ?thesis using True by (simp add: resolve_relay_id_thread_def seq_assoc)
next
  case False
  then show ?thesis using assms by (auto simp: resolve_relay_id_thread_def policy_fits_def)
qed

lemma issue_thread:
  assumes "policy_fits w I P spec"
  shows "obeys E R I (issue_bearer_thread w dek spec expires issued boot binding)"
proof -
  have save: "B (sealed_row (w_crypto w) dek b)" if "I s" "br_token_id b = hex_encode (w_random w (en_tick s) 16)" for b s
    using that by (intro minted_B) (simp_all add: sealed_row_def)
  show ?thesis
    unfolding issue_bearer_thread_def Let_def split_beta
    by (rule resolve_thread [OF assms], rule obeys_seq, (intro rules parts; simp)[1], rule drawn)
      (intro rules parts save_thread save, assumption, simp_all)
qed

lemma mint_core_thread: "policy_fits w I P spec \<Longrightarrow> obeys E R I (mint_bearer_core_thread w spec ttl binding)"
  unfolding mint_bearer_core_thread_def Let_def split_beta
  by (intro rules parts usb_thread issue_thread)

lemma mint_threads:
  "policy_fits w I P spec \<Longrightarrow> obeys E R I (relay_mint_thread w spec ttl uid pid)"
  "policy_fits w I P spec \<Longrightarrow> obeys E R I (relay_mint_remote_thread w spec ttl cid jkt)"
  "obeys E R I (register_remote_client_thread w cid jkt hw)"
  unfolding relay_mint_thread_def relay_mint_remote_thread_def register_remote_client_thread_def
  by (intro rules parts usb_thread mint_core_thread; assumption)+

lemma revoke_rows_thread: "obeys E R I (revoke_rows_thread w bs n)"
proof (induction bs arbitrary: n)
  case (Cons b bs)
  have "obeys E R I (seq (reseal_bearer_row_thread w (b\<lparr>br_revoked := True\<rparr>)) (\<lambda>b.
      seq (call w (save_bearer b)) (\<lambda>_. revoke_rows_thread w bs (n + 1))))" for n
    by (rule resealed) (intro rules save_thread revoked_B Cons.IH, simp)
  with Cons.IH show ?case by simp
qed (simp add: rules)

lemma flip_thread: "obeys E R I (flip_bearer_thread w live)"
proof (cases live)
  case (Some b)
  have "obeys E R I (seq (reseal_bearer_row_thread w (b\<lparr>br_revoked := True\<rparr>)) (\<lambda>b. seq (call w (save_bearer b)) (\<lambda>_. okay 1)))"
    by (rule resealed) (intro rules save_thread revoked_B, simp)
  with Some show ?thesis by (simp add: flip_bearer_thread_def)
qed (simp add: flip_bearer_thread_def rules)

lemma revoke_threads:
  "obeys E R I (relay_revoke_thread w rid apply_flag)" "obeys E R I (relay_revoke_bearer_thread w tid apply_flag)"
  unfolding relay_revoke_thread_def revoke_policy_thread_def relay_revoke_bearer_thread_def
    announce_flip_thread_def Let_def
  by (intro rules parts revoke_rows_thread flip_thread revoked_P; simp)+

lemma decide_swap_thread: "obeys E R I (decide_swap_thread w dek tid row pol req now boot floor)"
  unfolding decide_swap_thread_def open_real_key_thread_def Let_def by (intro rules parts usb_thread)

lemma prepare_thread: "obeys E R I (relay_swap_prepare_thread w bearer_text req)"
  unfolding relay_swap_prepare_thread_def find_policy_by_id_thread_def split_beta
  by (intro rules parts decide_swap_thread)

text \<open>No request but a swap has other steps.\<close>

lemma quiet_request:
  "request_fits w I P r \<Longrightarrow> \<forall>bearer_text req. r \<noteq> RelaySwap bearer_text req \<Longrightarrow> obeys E R I (request_thread w r)"
  by (cases r) (simp_all add: request_fits_def obeys_ignored init_thread unlock_thread lock_thread secret_put_thread
      secret_get_thread mint_threads revoke_threads verify_thread)

end

text \<open>A relation that a send carries too.\<close>

locale thread_send_relation = thread_relation +
  assumes send_R: "R s (s\<lparr>en_tick := Suc (en_tick s), en_sent := en_sent s @ [(req, key)]\<rparr>)"
begin

lemma sends: "frames R (upstream_send w req key)"
  by (rule framesI) (simp add: upstream_send_def send_R)

lemma swap_thread: "obeys E R I (relay_swap_thread w bearer_text req)"
  unfolding relay_swap_thread_def send_and_audit_thread_def Let_def by (intro rules parts sends prepare_thread)

lemma request_thread:
  assumes "request_fits w I P r" shows "obeys E R I (request_thread w r)"
proof (cases "\<forall>bearer_text req. r \<noteq> RelaySwap bearer_text req")
  case False
  then show ?thesis by (auto simp: obeys_ignored swap_thread)
qed (rule quiet_request [OF assms])

lemma concurrently:
  assumes "E = R" "concurrently w rs s t" "\<forall>r\<in>set rs. request_fits w I P r" "I s" shows "R s t"
proof -
  have "obeys R R I (request_thread w r)" if "r \<in> set rs" for r
    using request_thread [of r] assms(1,3) that by simp
  then show ?thesis
    using assms(2,4) stable_I(2) interleaved_obeys [of s "map (request_thread w) rs" t]
    unfolding concurrently_def by auto
qed

end

text \<open>A relation that every operation respects, whatever the state, is respected by every interleaving.\<close>

sublocale engine_relation \<subseteq> threads: thread_relation R w S R "\<lambda>_. True" "\<lambda>_. True" "\<lambda>_. True"
proof
  show any: "stable R (\<lambda>_. True)" by (simp add: stable_def)
  show "obeys R R (\<lambda>_. True) (seq (call w last_audit) (\<lambda>r.
      write_audit_anchor_thread w dek (fst (tail_of r)) (snd (tail_of r))))" for dek
    unfolding write_audit_anchor_thread_def call_def Let_def by (intro thread_rules any base)
qed (simp_all add: meta_S reserve_S secret_S keyslot_S bearer_S client_S relay_S broker_R vault_R ca_R)

sublocale engine_send_relation \<subseteq> threads: thread_send_relation R w S R "\<lambda>_. True" "\<lambda>_. True" "\<lambda>_. True"
  by unfold_locales (rule send_R)

section \<open>The logs and the chain\<close>

text \<open>
  C14: whatever requests are served at the same time, and however their steps interleave, with any faults
  of the store: the audit log, the event channel and the log of upstream calls are only appended to, and
  an audit chain that verified still verifies.
\<close>

theorem interleaved_audit_chain:
  assumes "concurrently w rs s t" "fst (verify_audit_chain (w_crypto w) (en_store s)) = Inr ()"
  shows "fst (verify_audit_chain (w_crypto w) (en_store t)) = Inr ()
    \<and> (\<exists>rows. audit_rows (en_store t) = audit_rows (en_store s) @ rows)
    \<and> (\<exists>evs. en_events t = en_events s @ evs) \<and> (\<exists>calls. en_sent t = en_sent s @ calls)"
  using chain.threads.concurrently [OF refl assms(1)] grow.threads.concurrently [OF refl assms(1)] assms(2)
  by (simp add: chain_ok_def verify_audit_chain_def grows_def audit_rows_def split: sum.splits)

end
