(* ===== verification/EngineSafety.thy ===== *)
theory EngineSafety
  imports EngineFrames
begin

text \<open>
  What a swap may do with the real key: who receives it, when, and what a refused swap leaves
  undone. The proofs read the run of \<open>relay_swap\<close> backwards from its result.
\<close>

section \<open>Reads change nothing but the interaction count\<close>

definition only_ticks :: "engine \<Rightarrow> engine \<Rightarrow> bool" where
  "only_ticks s t \<longleftrightarrow> (\<exists>n. t = s\<lparr>en_tick := n\<rparr>)"

interpretation ticks: frame_relation only_ticks
proof unfold_locales
  fix s t u :: engine
  have "s = s\<lparr>en_tick := en_tick s\<rparr>" by simp
  then show "only_ticks s s" unfolding only_ticks_def by blast
  show "only_ticks s u" if "only_ticks s t" "only_ticks t u"
    using that by (auto simp: only_ticks_def)
qed

lemma only_ticksD:
  "only_ticks s t \<Longrightarrow> en_store t = en_store s \<and> en_vault t = en_vault s \<and> en_broker t = en_broker s
     \<and> en_sent t = en_sent s \<and> en_events t = en_events s \<and> en_owner_uid t = en_owner_uid s"
  by (auto simp: only_ticks_def)

definition reads :: "'a store_op \<Rightarrow> bool" where
  "reads m \<longleftrightarrow> (\<forall>g. snd (m g) = g)"

lemma reads_ops:
  "reads (get_meta k)" "reads (get_secret_latest n)" "reads (max_secret_version n)" "reads load_keyslots"
  "reads (verify_audit_chain cr)" "reads last_audit" "reads (query_audit q l)"
  "reads (load_relay_policy rid)" "reads list_relay_policies" "reads (load_bearer tid)"
  "reads (list_bearers_for_relay rid)" "reads (load_remote_client cid)"
  by (simp_all add: reads_def store_ops verify_audit_chain_def split: sum.split)

lemma ticks_outside: "frames only_ticks (outside f)"
  by (rule framesI) (auto simp: run_simps only_ticks_def)

lemma ticks_store_call: "reads m \<Longrightarrow> frames only_ticks (store_call w m)"
proof (rule framesI)
  fix s :: engine
  assume "reads m"
  then have "s\<lparr>en_tick := Suc (en_tick s), en_store := snd (m (en_store s))\<rparr> = s\<lparr>en_tick := Suc (en_tick s)\<rparr>"
    by (simp add: reads_def)
  then show "only_ticks s (snd (store_call w m s))"
    by (auto simp: store_call_def Let_def only_ticks_def split: option.split)
qed

lemma ticks_keyfile_for: "frames only_ticks (keyfile_for w u)"
  unfolding keyfile_for_def by (rule ticks_outside)

lemma ticks_any_keyfile: "frames only_ticks (any_keyfile w slots)"
  by (induction slots) (auto intro!: frame_rules ticks_keyfile_for)

lemma ticks_usb: "frames only_ticks (usb_possession_proven w)"
  unfolding usb_possession_proven_def Let_def
  by (intro frame_rules ticks_store_call reads_ops ticks_any_keyfile)

lemma ticks_loads:
  "frames only_ticks (load_issuance_floor w)" "frames only_ticks (load_dek_generation w)"
  "frames only_ticks (load_header_mac w)" "frames only_ticks (find_policy_by_id w i)"
  "frames only_ticks (open_real_key w dek n)" "frames only_ticks (now_ms w)" "frames only_ticks (boottime_ms w)"
  unfolding load_issuance_floor_def load_dek_generation_def load_header_mac_def find_policy_by_id_def
    open_real_key_def now_ms_def boottime_ms_def
  by (intro frame_rules ticks_store_call reads_ops ticks_outside)+

text \<open>A successful call of the store is the store's own method.\<close>

lemma store_call_InrD: "store_call w m s = (Inr x, t) \<Longrightarrow> fst (m (en_store s)) = Inr x"
  by (auto simp: store_call_def Let_def split: option.splits)

section \<open>What an allowed preparation guarantees\<close>

text \<open>
  The evidence a swap rests on, read in the state it started from: an open vault, a bearer in the wire
  form whose stored row is authentic under the vault's key, its policy, an \<open>Allow\<close> of the decision,
  and the latest version of the policy's secret, opened.
\<close>

definition swap_evidence :: "world \<Rightarrow> string \<Rightarrow> egress_req \<Rightarrow> engine \<Rightarrow> allow_prepared \<Rightarrow> bool" where
  "swap_evidence w bearer_text req s a \<longleftrightarrow>
     (\<exists>dek token_id raw row pr srow now boot floor tallies.
        vault_dek (en_vault s) = Some dek
        \<and> parse_bearer bearer_text = Some (token_id, raw)
        \<and> found (load_bearer token_id) (en_store s) = Some row
        \<and> row_authentic (w_crypto w) dek raw row
        \<and> pr \<in> set (sd_relays (en_store s)) \<and> rr_id pr = br_policy_id row
        \<and> decide (rr_policy pr) (verified_of row) (canon_of (rp_swap (rr_policy pr)) req tallies)
            now boot None floor = Allow
        \<and> found (get_secret_latest (rp_secret_name (rr_policy pr))) (en_store s) = Some srow
        \<and> open_sealed (w_crypto w) dek (record_aad_of srow) (sr_nonce srow) (sr_ct_tag srow)
            = Some (al_real_key a)
        \<and> al_provider a = rp_provider (rr_policy pr) \<and> al_host a = eq_host req
        \<and> al_token_id a = token_id \<and> al_relay_id a = rp_relay_id (rr_policy pr))"

lemma deny_swap_not_allow: "deny_swap w rid tid why s \<noteq> (Inr (PAllow a), t)"
  by (auto simp: deny_swap_def and_then_Inr_iff run_simps)

lemma open_real_key_InrD:
  assumes "open_real_key w dek name s = (Inr key, t)"
  shows "\<exists>srow. found (get_secret_latest name) (en_store s) = Some srow
    \<and> open_sealed (w_crypto w) dek (record_aad_of srow) (sr_nonce srow) (sr_ct_tag srow) = Some key"
proof -
  from assms obtain r s1 where call: "store_call w (get_secret_latest name) s = (Inr r, s1)"
    and rest: "(case r of
        None \<Rightarrow> fail_act (Bail (''relay secret '' @ [CHR 0x27] @ name @ [CHR 0x27] @ '' not found''))
      | Some row \<Rightarrow>
        (case open_sealed (w_crypto w) dek (record_aad_of row) (sr_nonce row) (sr_ct_tag row) of
           None \<Rightarrow> fail_act (Bail (''relay secret '' @ [CHR 0x27] @ name @ [CHR 0x27] @ '' failed authentication''))
         | Some key \<Rightarrow> ok_act key)) s1 = (Inr key, t)"
    unfolding open_real_key_def by (blast elim: and_then_InrE)
  from rest obtain srow where r: "r = Some srow" by (cases r) (auto simp: run_simps)
  with rest have "open_sealed (w_crypto w) dek (record_aad_of srow) (sr_nonce srow) (sr_ct_tag srow) = Some key"
    by (cases "open_sealed (w_crypto w) dek (record_aad_of srow) (sr_nonce srow) (sr_ct_tag srow)")
      (auto simp: run_simps)
  moreover have "found (get_secret_latest name) (en_store s) = Some srow"
    using store_call_InrD [OF call] r by (simp add: found_def)
  ultimately show ?thesis by blast
qed

lemma find_policy_InrD:
  assumes "find_policy_by_id w i s = (Inr (Some pr), t)"
  shows "pr \<in> set (sd_relays (en_store s)) \<and> rr_id pr = i"
proof -
  have "find (\<lambda>r. rr_id r = i) (sd_relays (en_store s)) = Some pr"
    using assms by (auto simp: find_policy_by_id_def and_then_Inr_iff run_simps store_ops dest!: store_call_InrD)
  then show ?thesis by (auto simp: find_Some_iff)
qed

lemma decide_swap_allowD:
  assumes "decide_swap w dek tid row policy req now boot floor s = (Inr (PAllow a), t)"
  shows "\<exists>tallies srow.
      decide policy (verified_of row) (canon_of (rp_swap policy) req tallies) now boot None floor = Allow
      \<and> found (get_secret_latest (rp_secret_name policy)) (en_store s) = Some srow
      \<and> open_sealed (w_crypto w) dek (record_aad_of srow) (sr_nonce srow) (sr_ct_tag srow) = Some (al_real_key a)
      \<and> al_provider a = rp_provider policy \<and> al_host a = eq_host req
      \<and> al_token_id a = br_token_id row \<and> al_relay_id a = rp_relay_id policy"
proof -
  from assms obtain proven s1 tallies s2 where
    usb: "usb_possession_proven w s = (Inr proven, s1)" and
    bump: "bump_counters (br_token_id row) now (eq_bytes_out req) s1 = (Inr tallies, s2)" and
    rest: "(case decide policy (verified_of row) (canon_of (rp_swap policy) req tallies) now boot
              (if proven then None else Some now) floor of
            Deny why \<Rightarrow> deny_swap w (Some (rp_relay_id policy)) (Some tid) why
          | Allow \<Rightarrow> and_then (open_real_key w dek (rp_secret_name policy)) (\<lambda>key.
             ok_act (PAllow \<lparr>al_relay_id = rp_relay_id policy, al_token_id = br_token_id row,
               al_provider = rp_provider policy, al_host = eq_host req, al_real_key = key\<rparr>))) s2
          = (Inr (PAllow a), t)"
    unfolding decide_swap_def Let_def by (auto elim!: and_then_InrE)
  have allow: "decide policy (verified_of row) (canon_of (rp_swap policy) req tallies) now boot
      (if proven then None else Some now) floor = Allow"
    using rest deny_swap_not_allow by (auto split: relay_decision.splits)
  with rest obtain key s3 where key: "open_real_key w dek (rp_secret_name policy) s2 = (Inr key, s3)"
    and a: "a = \<lparr>al_relay_id = rp_relay_id policy, al_token_id = br_token_id row,
               al_provider = rp_provider policy, al_host = eq_host req, al_real_key = key\<rparr>"
    by (auto simp: run_simps elim!: and_then_InrE)
  have proven: "proven" using allow by (auto simp: decide_Allow_raw split: if_splits)
  have "en_store s2 = en_store s"
    using only_ticksD [OF framesD_run [OF ticks_usb usb]] bump
    by (auto simp: bump_counters_def split: prod.splits)
  with open_real_key_InrD [OF key] obtain srow where
    srow: "found (get_secret_latest (rp_secret_name policy)) (en_store s) = Some srow"
      "open_sealed (w_crypto w) dek (record_aad_of srow) (sr_nonce srow) (sr_ct_tag srow) = Some key"
    by auto
  have "decide policy (verified_of row) (canon_of (rp_swap policy) req tallies) now boot None floor = Allow"
    using allow proven by simp
  with srow a show ?thesis
    by (intro exI [of _ tallies] exI [of _ srow]) simp
qed

lemma relay_swap_prepare_allowD:
  assumes "relay_swap_prepare w bearer_text req s = (Inr (PAllow a), t)"
  shows "swap_evidence w bearer_text req s a"
proof -
  obtain tid raw where parse: "parse_bearer bearer_text = Some (tid, raw)"
    using assms deny_swap_not_allow by (cases "parse_bearer bearer_text") (auto simp: relay_swap_prepare_def)
  obtain dek where dek: "vault_dek (en_vault s) = Some dek"
    using assms parse by (cases "vault_dek (en_vault s)") (auto simp: relay_swap_prepare_def run_simps)
  from assms parse dek obtain now s1 boot s2 floor s3 r s4 where
    runs: "now_ms w s = (Inr now, s1)" "boottime_ms w s1 = (Inr boot, s2)"
      "load_issuance_floor w s2 = (Inr floor, s3)" "store_call w (load_bearer tid) s3 = (Inr r, s4)" and
    rest: "(case r of None \<Rightarrow> deny_swap w None (Some tid) UnknownBearer
            | Some row \<Rightarrow>
              if \<not> row_authentic (w_crypto w) dek raw row then deny_swap w None (Some tid) UnknownBearer
              else and_then (find_policy_by_id w (br_policy_id row)) (\<lambda>p.
                case p of None \<Rightarrow> deny_swap w None (Some tid) UnknownBearer
                | Some pr \<Rightarrow> decide_swap w dek tid row (rr_policy pr) req now boot floor)) s4 = (Inr (PAllow a), t)"
    unfolding relay_swap_prepare_def by (auto simp: run_simps elim!: and_then_InrE)
  have store: "en_store s3 = en_store s" "en_store s4 = en_store s"
    using only_ticksD [OF framesD_run [OF ticks_loads(6) runs(1)]]
      only_ticksD [OF framesD_run [OF ticks_loads(7) runs(2)]]
      only_ticksD [OF framesD_run [OF ticks_loads(1) runs(3)]]
      only_ticksD [OF framesD_run [OF ticks_store_call [OF reads_ops(10)] runs(4)]] by simp_all
  obtain row where row: "r = Some row" "row_authentic (w_crypto w) dek raw row"
    using rest deny_swap_not_allow by (auto split: option.splits if_splits)
  with rest obtain p s5 where find: "find_policy_by_id w (br_policy_id row) s4 = (Inr p, s5)"
    and rest2: "(case p of None \<Rightarrow> deny_swap w None (Some tid) UnknownBearer
      | Some pr \<Rightarrow> decide_swap w dek tid row (rr_policy pr) req now boot floor) s5 = (Inr (PAllow a), t)"
    by (auto elim!: and_then_InrE)
  obtain pr where pr: "p = Some pr" using rest2 deny_swap_not_allow by (auto split: option.splits)
  have found_row: "found (load_bearer tid) (en_store s) = Some row"
    using store_call_InrD [OF runs(4)] store row by (simp add: found_def)
  then have tid: "br_token_id row = tid"
    by (auto simp: store_ops dest: find_by_SomeD)
  have "en_store s5 = en_store s"
    using only_ticksD [OF framesD_run [OF ticks_loads(4) find]] store by simp
  with decide_swap_allowD [OF rest2 [unfolded pr option.case]] find_policy_InrD [OF find [unfolded pr]]
    parse dek found_row row tid store show ?thesis
    unfolding swap_evidence_def by (metis (no_types, lifting))
qed

section \<open>Only an allowed swap hands out the key\<close>

interpretation quiet: engine_relation "\<lambda>s t. en_sent t = en_sent s" w "\<lambda>_ _. True" for w
  by unfold_locales auto

text \<open>No request but a swap talks to the upstream.\<close>

lemma only_swaps_send:
  "\<forall>bearer_text req. r \<noteq> RelaySwap bearer_text req \<Longrightarrow> en_sent (perform w r s) = en_sent s"
  by (rule quiet.perform)

lemma audits_send_nothing:
  "en_sent (snd (audit_ok w ev sub det s)) = en_sent s"
  "en_sent (snd (audit_failed w ev sub det s)) = en_sent s"
  by (simp_all add: framesD [OF quiet.audit_kinds(1)] framesD [OF quiet.audit_kinds(2)])

lemma send_and_audit_sends:
  "\<exists>out. fst (send_and_audit w req a s) = Inr out
     \<and> (if host_fenced (al_provider a) (eq_host req) (al_host a)
        then en_sent (snd (send_and_audit w req a s)) = en_sent s @ [(req, al_real_key a)]
           \<and> (\<forall>why. out \<noteq> Denied why)
        else en_sent (snd (send_and_audit w req a s)) = en_sent s \<and> out = InternalRefused ''upstream host fence'')"
  by (auto simp: send_and_audit_def run_and_then run_simps upstream_send_def audits_send_nothing Let_def
      split: sum.split)

lemma host_fenced_host_in: "host_fenced p h h' \<Longrightarrow> host_in h (canonical_upstreams p)"
  by (auto simp: host_fenced_def host_in_def list_ex_iff)

lemma swap_sends_any:
  "\<exists>out. fst (relay_swap w bearer_text req s) = Inr out
     \<and> (en_sent (snd (relay_swap w bearer_text req s)) = en_sent s \<and> \<not> (\<exists>resp. out = Allowed resp)
        \<or> (\<exists>a. en_sent (snd (relay_swap w bearer_text req s)) = en_sent s @ [(req, al_real_key a)]
              \<and> swap_evidence w bearer_text req s a
              \<and> host_in (eq_host req) (canonical_upstreams (al_provider a))
              \<and> \<not> (\<exists>why. out = Denied why)))"
proof -
  obtain r t where prep: "relay_swap_prepare w bearer_text req s = (r, t)" by force
  have sent: "en_sent t = en_sent s"
    using framesD_run [OF quiet.relay_swap_prepare prep] .
  show ?thesis
  proof (cases r)
    case (Inl e)
    then show ?thesis
      using sent by (simp add: relay_swap_def match_result_def prep run_and_then run_simps audits_send_nothing Let_def)
  next
    case (Inr p)
    show ?thesis
    proof (cases p)
      case (PDeny why)
      then show ?thesis
        using sent Inr by (simp add: relay_swap_def match_result_def prep run_simps)
    next
      case (PAllow a)
      have run: "relay_swap w bearer_text req s = send_and_audit w req a t"
        using PAllow Inr by (simp add: relay_swap_def match_result_def prep)
      have "swap_evidence w bearer_text req s a"
        using relay_swap_prepare_allowD prep PAllow Inr by blast
      moreover have "host_fenced (al_provider a) (eq_host req) (al_host a) \<Longrightarrow>
          host_in (eq_host req) (canonical_upstreams (al_provider a))"
        by (rule host_fenced_host_in)
      ultimately show ?thesis
        using send_and_audit_sends [of w req a t] sent
        unfolding run by (auto split: if_splits)
    qed
  qed
qed

text \<open>
  C1: a swap always returns an outcome. Either it sent nothing, and the outcome is not \<open>Allowed\<close>; or it
  sent the request once, with the real key, to a canonical upstream of the provider, on the evidence
  of an unlocked vault, an authentic bearer, its policy, an \<open>Allow\<close> of the decision with the
  possession gate proven, and a secret that authenticated; and then the outcome is not \<open>Denied\<close>.
\<close>

theorem swap_sends_only_on_evidence:
  "\<exists>out. fst (relay_swap w bearer_text req s) = Inr out
     \<and> (en_sent (snd (relay_swap w bearer_text req s)) = en_sent s \<and> \<not> (\<exists>resp. out = Allowed resp)
        \<or> (\<exists>a. en_sent (snd (relay_swap w bearer_text req s)) = en_sent s @ [(req, al_real_key a)]
              \<and> swap_evidence w bearer_text req s a
              \<and> host_in (eq_host req) (canonical_upstreams (al_provider a))
              \<and> \<not> (\<exists>why. out = Denied why)))"
  by (rule swap_sends_any)

section \<open>What is never swapped\<close>

lemma swap_sent_evidence:
  assumes "en_sent (snd (relay_swap w bearer_text req s)) \<noteq> en_sent s"
  shows "\<exists>a. swap_evidence w bearer_text req s a \<and> host_in (eq_host req) (canonical_upstreams (al_provider a))
    \<and> en_sent (snd (relay_swap w bearer_text req s)) = en_sent s @ [(req, al_real_key a)]"
  using swap_sends_any [of w bearer_text req s] assms by blast

lemma verified_of_fields [simp]:
  "vb_revoked (verified_of row) = br_revoked row" "vb_client_id (verified_of row) = br_client_id row"
  "vb_client_uid (verified_of row) = br_client_uid row" "vb_client_pid (verified_of row) = br_client_pid row"
  "vb_dpop_jkt (verified_of row) = br_dpop_jkt row" "vb_expires_at_ms (verified_of row) = br_expires_at_ms row"
  "vb_issued_at_ms (verified_of row) = br_issued_at_ms row"
  "vb_issued_boottime_ms (verified_of row) = br_issued_boottime_ms row"
  "vb_policy_id (verified_of row) = br_policy_id row" "vb_token_id (verified_of row) = br_token_id row"
  by (simp_all add: verified_of_def)

text \<open>No canonical host is the sentinel that stands for an unobserved SNI.\<close>

lemma sentinel_not_canonical:
  assumes "host_in host (canonical_upstreams p)"
  shows "\<not> eq_ignore_ascii_case (CHR 0x00 # ''untrusted-sni-not-observed'') host"
proof
  assume "eq_ignore_ascii_case (CHR 0x00 # ''untrusted-sni-not-observed'') host"
  then have "length host = 27" by (auto dest: eq_ignore_ascii_case_length)
  moreover from assms obtain h where "h \<in> set (canonical_upstreams p)" "length h = length host"
    by (auto simp: host_in_iff dest: eq_ignore_ascii_case_length)
  then have "length host \<noteq> 27" by (cases p) auto
  ultimately show False by simp
qed

lemma local_swap_row_live:
  assumes "en_sent (snd (relay_swap w bearer_text req s)) \<noteq> en_sent s"
  shows "\<exists>token_id raw row pr. parse_bearer bearer_text = Some (token_id, raw)
    \<and> found (load_bearer token_id) (en_store s) = Some row
    \<and> pr \<in> set (sd_relays (en_store s)) \<and> rr_id pr = br_policy_id row
    \<and> br_client_id row = None \<and> \<not> br_revoked row
    \<and> rp_swap (rr_policy pr) \<noteq> ProxyMitm \<and> rp_enabled (rr_policy pr) \<and> \<not> rp_revoked (rr_policy pr)"
proof -
  from swap_sent_evidence [OF assms] obtain a where ev: "swap_evidence w bearer_text req s a"
    and host: "host_in (eq_host req) (canonical_upstreams (al_provider a))" by blast
  from ev obtain token_id raw row pr now boot floor tallies where
    e: "parse_bearer bearer_text = Some (token_id, raw)" "found (load_bearer token_id) (en_store s) = Some row"
      "pr \<in> set (sd_relays (en_store s))" "rr_id pr = br_policy_id row" "al_provider a = rp_provider (rr_policy pr)"
    and allow: "decide (rr_policy pr) (verified_of row) (canon_of (rp_swap (rr_policy pr)) req tallies)
            now boot None floor = Allow"
    unfolding swap_evidence_def by blast
  let ?canon = "canon_of (rp_swap (rr_policy pr)) req tallies"
  have canon: "cr_host ?canon = eq_host req" "cr_sni ?canon = trusted_sni_for (rp_swap (rr_policy pr))"
    "cr_remote ?canon = None"
    by (simp_all add: canon_of_def split: prod.split)
  from allow have raw_allow: "rp_enabled (rr_policy pr)" "\<not> rp_revoked (rr_policy pr)" "\<not> br_revoked row"
    "within_scope (rr_policy pr) ?canon" "presenter_bound (verified_of row) ?canon"
    by (simp_all add: decide_Allow_raw)
  have "br_client_id row = None"
    using raw_allow(5) canon by (simp add: presenter_bound_def)
  moreover have "rp_swap (rr_policy pr) \<noteq> ProxyMitm"
    using raw_allow(4) canon sentinel_not_canonical [OF host] by (auto simp: within_scope_def)
  ultimately show ?thesis using e raw_allow by blast
qed

text \<open>
  On the local plane a swap is never made for a bearer bound to a remote client, nor for a relay in
  the MITM mode, whose TLS server name the engine cannot observe.
\<close>

theorem local_swap_excludes_remote_and_mitm:
  assumes "en_sent (snd (relay_swap w bearer_text req s)) \<noteq> en_sent s"
  shows "\<exists>token_id raw row pr. parse_bearer bearer_text = Some (token_id, raw)
    \<and> found (load_bearer token_id) (en_store s) = Some row
    \<and> pr \<in> set (sd_relays (en_store s)) \<and> rr_id pr = br_policy_id row
    \<and> br_client_id row = None \<and> \<not> br_revoked row
    \<and> rp_swap (rr_policy pr) \<noteq> ProxyMitm \<and> rp_enabled (rr_policy pr) \<and> \<not> rp_revoked (rr_policy pr)"
  using assms by (rule local_swap_row_live)

end
