(* ===== verification/EngineRevoke.thy ===== *)
theory EngineRevoke
  imports EngineSafety
begin

text \<open>
  Revocation: what \<open>relay_revoke_bearer\<close> and \<open>relay_revoke\<close> leave in the store, and that no later swap
  is made for what they revoked.
\<close>

section \<open>Unique keys\<close>

definition tables_ok :: "in_mem_data \<Rightarrow> bool" where
  "tables_ok g \<longleftrightarrow>
     distinct (map relay_key (sd_relays g)) \<and> distinct (map br_token_id (sd_bearers g))
     \<and> distinct (map rc_client_id (sd_remote_clients g))"

interpretation unique: engine_send_relation
  "\<lambda>s t. tables_ok (en_store s) \<longrightarrow> tables_ok (en_store t)" w "\<lambda>g h. tables_ok g \<longrightarrow> tables_ok h" for w
  by unfold_locales (simp_all add: tables_ok_def store_ops reserve_secret_row_id_def put_secret_def
      save_relay_policy_def append_audit_def Let_def distinct_upsert)

section \<open>Revoking one bearer\<close>

lemma keptD_bearers: "kept s t \<Longrightarrow> sd_bearers (en_store t) = sd_bearers (en_store s)"
  by (simp add: kept_def data_kept_def)

lemma keptD_relays: "kept s t \<Longrightarrow> sd_relays (en_store t) = sd_relays (en_store s)"
  by (simp add: kept_def data_kept_def)

lemma kept_emit: "emit ev s = (r, t) \<Longrightarrow> kept s t"
  using framesD_run [OF keep.emit] .

definition token_dead :: "string \<Rightarrow> in_mem_data \<Rightarrow> bool" where
  "token_dead token_id g \<longleftrightarrow> (\<forall>row. find_by br_token_id token_id (sd_bearers g) = Some row \<longrightarrow> br_revoked row)"

lemma sealed_row_fields [simp]:
  "br_token_id (sealed_row cr dek row) = br_token_id row" "br_revoked (sealed_row cr dek row) = br_revoked row"
  "br_policy_id (sealed_row cr dek row) = br_policy_id row"
  by (simp_all add: sealed_row_def)

lemma reseal_InrD: "reseal_bearer_row w row s = (Inr b, t) \<Longrightarrow>
    t = s \<and> (\<exists>dek. vault_dek (en_vault s) = Some dek \<and> b = sealed_row (w_crypto w) dek row)"
  by (auto simp: reseal_bearer_row_def require_dek_def run_simps elim!: and_then_InrE split: option.splits)

lemma save_bearer_InrD:
  assumes "store_call w (save_bearer b) s = (Inr x, t)"
  shows "sd_bearers (en_store t) = upsert br_token_id b (sd_bearers (en_store s))
    \<and> sd_relays (en_store t) = sd_relays (en_store s) \<and> en_vault t = en_vault s"
  using assms by (auto simp: store_call_def Let_def store_ops split: option.splits)

lemma live_bearer_revoked:
  assumes "and_then (reseal_bearer_row w (b\<lparr>br_revoked := True\<rparr>)) (\<lambda>b.
      and_then (store_call w (save_bearer b)) (\<lambda>_. ok_act n)) s = (Inr x, t)"
  shows "token_dead (br_token_id b) (en_store t) \<and> x = n"
proof -
  from assms obtain b' s1 s2 u where
    seal: "reseal_bearer_row w (b\<lparr>br_revoked := True\<rparr>) s = (Inr b', s1)" and
    save: "store_call w (save_bearer b') s1 = (Inr u, s2)" and x: "x = n" "t = s2"
    by (auto simp: run_simps elim!: and_then_InrE)
  from reseal_InrD [OF seal] have "br_token_id b' = br_token_id b" "br_revoked b'" by auto
  then show ?thesis
    using save_bearer_InrD [OF save] x by (auto simp: token_dead_def vec_table.load_save)
qed

lemma relay_revoke_bearer_dead:
  assumes "relay_revoke_bearer w token_id True s = (Inr n, t)"
  shows "token_dead token_id (en_store t)"
proof -
  from assms obtain row s1 m s2 s3 where
    load: "store_call w (load_bearer token_id) s = (Inr row, s1)" and
    flip: "flip_bearer w (live_row row) s1 = (Inr m, s2)" and
    aud: "audit_ok w ''relay_bearer_revoked'' (Some token_id)
           (JObj [(''apply'', JBool True), (''revoked'', JInt (uint m))]) s2 = (Inr (), s3)" and
    last: "announce_flip token_id m s3 = (Inr (), t)"
    unfolding relay_revoke_bearer_def Let_def by (auto simp: run_simps elim!: and_then_InrE)
  have s1: "en_store s1 = en_store s"
    using only_ticksD [OF framesD_run [OF ticks_store_call [OF reads_ops(10)] load]] by simp
  have row: "row = find_by br_token_id token_id (sd_bearers (en_store s))"
    using store_call_InrD [OF load] by (simp add: store_ops)
  have dead: "token_dead token_id (en_store s2)"
  proof (cases "live_row row")
    case (Some b)
    then have "row = Some b" by (auto simp: live_row_def split: option.splits if_splits)
    then have "br_token_id b = token_id" using row by (auto dest: find_by_SomeD)
    with flip Some live_bearer_revoked [of w b 1 s1 m s2] show ?thesis by (simp add: flip_bearer_def)
  next
    case None
    then have "s2 = s1" using flip by (simp add: flip_bearer_def run_simps)
    with None row s1 show ?thesis by (auto simp: token_dead_def live_row_def split: if_splits)
  qed
  have "kept s2 s3" using framesD_run [OF keep.audit_kinds(1) aud] .
  moreover have "kept s3 t"
    using last by (auto simp: announce_flip_def run_simps kept_def data_kept_def split: if_splits)
  ultimately show ?thesis using dead by (simp add: token_dead_def keptD_bearers)
qed

text \<open>
  C4: once \<open>relay_revoke_bearer\<close> has returned, a swap with any bearer string of that token sends
  nothing, whatever was stored under the token before.
\<close>

theorem revoked_bearer_never_swapped:
  assumes "relay_revoke_bearer w token_id True s = (Inr n, t)"
    and "parse_bearer bearer_text = Some (token_id, raw)"
  shows "en_sent (snd (relay_swap w' bearer_text req t)) = en_sent t"
proof (rule ccontr)
  assume "en_sent (snd (relay_swap w' bearer_text req t)) \<noteq> en_sent t"
  from local_swap_row_live [OF this] obtain token raw' row where
    "parse_bearer bearer_text = Some (token, raw')" "found (load_bearer token) (en_store t) = Some row" "\<not> br_revoked row"
    by blast
  with assms(2) relay_revoke_bearer_dead [OF assms(1)] show False
    by (auto simp: token_dead_def store_ops)
qed

section \<open>Revoking a relay\<close>

definition relay_dead :: "string \<Rightarrow> in_mem_data \<Rightarrow> bool" where
  "relay_dead relay_id g \<longleftrightarrow>
     list_all (\<lambda>r. relay_key r = relay_id \<longrightarrow> rp_revoked (rr_policy r)) (sd_relays g)"

definition same_relays :: "engine \<Rightarrow> engine \<Rightarrow> bool" where
  "same_relays s t \<longleftrightarrow> sd_relays (en_store t) = sd_relays (en_store s)"

interpretation relays: frame_relation same_relays
  by unfold_locales (simp_all add: same_relays_def)

lemma relays_save_bearer: "frames same_relays (store_call w (save_bearer b))"
  by (rule framesI) (simp add: store_call_def store_ops same_relays_def Let_def split: option.split)

lemma relays_reseal: "frames same_relays (reseal_bearer_row w b)"
  by (rule framesI)
    (simp add: reseal_bearer_row_def require_dek_def run_and_then run_simps same_relays_def split: option.split)

lemma relays_revoke_rows: "frames same_relays (revoke_rows w bs n)"
  by (induction bs arbitrary: n) (auto intro!: frame_rules relays_save_bearer relays_reseal)

lemma list_all_upsert:
  assumes "distinct (map key vs)" "\<And>x. key x \<noteq> key v \<Longrightarrow> P x" "P v"
  shows "list_all P (upsert key v vs)"
proof -
  have "x = v" if "x \<in> set (upsert key v vs)" "key x = key v" for x
  proof -
    have "find_by key (key x) (upsert key v vs) = Some x"
      using find_by_distinct [OF distinct_upsert [OF assms(1)] that(1)] .
    with that(2) show ?thesis by (simp add: find_by_upsert_same)
  qed
  then show ?thesis using assms(2,3) by (auto simp: list_all_iff)
qed

lemma revoke_policy_dead:
  assumes "revoke_policy w relay_id s = (Inr (), t)" "tables_ok (en_store s)"
  shows "relay_dead relay_id (en_store t)"
proof -
  from assms(1) obtain r s1 where load: "store_call w (load_relay_policy relay_id) s = (Inr r, s1)"
    and rest: "(case r of None \<Rightarrow> ok_act ()
       | Some row \<Rightarrow> and_then (store_call w (save_relay_policy (row\<lparr>rr_policy := (rr_policy row)\<lparr>rp_revoked := True\<rparr>\<rparr>)))
             (\<lambda>_. ok_act ())) s1 = (Inr (), t)"
    unfolding revoke_policy_def by (blast elim: and_then_InrE)
  have s1: "en_store s1 = en_store s"
    using only_ticksD [OF framesD_run [OF ticks_store_call [OF reads_ops(8)] load]] by simp
  have r: "r = find_by relay_key relay_id (sd_relays (en_store s))"
    using store_call_InrD [OF load] by (simp add: store_ops)
  show ?thesis
  proof (cases r)
    case None
    then have "relay_id \<notin> relay_key ` set (sd_relays (en_store s))" using r by (simp add: find_by_None_iff)
    with None rest s1 show ?thesis by (auto simp: run_simps relay_dead_def list_all_iff)
  next
    case (Some row)
    define new where "new = row\<lparr>rr_policy := (rr_policy row)\<lparr>rp_revoked := True\<rparr>\<rparr>"
    have key: "relay_key row = relay_id" using Some r by (auto dest: find_by_SomeD)
    from rest Some obtain i s2 where save: "store_call w (save_relay_policy new) s1 = (Inr i, s2)" "t = s2"
      by (auto simp: run_simps new_def elim!: and_then_InrE)
    from save have t: "\<exists>i. sd_relays (en_store t) = upsert relay_key (new\<lparr>rr_id := i\<rparr>) (sd_relays (en_store s))"
      using s1 by (auto simp: store_call_def save_relay_policy_def Let_def split: option.splits)
    then obtain i where t: "sd_relays (en_store t) = upsert relay_key (new\<lparr>rr_id := i\<rparr>) (sd_relays (en_store s))" ..
    have "relay_key (new\<lparr>rr_id := i\<rparr>) = relay_id" using key by (simp add: relay_key_def new_def)
    then show ?thesis
      using assms(2) unfolding relay_dead_def t
      by (intro list_all_upsert) (auto simp: tables_ok_def new_def)
  qed
qed

lemma relay_revoke_dead:
  assumes "relay_revoke w relay_id True s = (Inr n, t)" "tables_ok (en_store s)"
  shows "relay_dead relay_id (en_store t)"
proof -
  from assms(1) obtain s1 bs s2 m s3 s4 s5 where
    pol: "revoke_policy w relay_id s = (Inr (), s1)" and
    bs: "store_call w (list_bearers_for_relay relay_id) s1 = (Inr bs, s2)" and
    rows: "revoke_rows w bs 0 s2 = (Inr m, s3)" and
    aud: "audit_ok w ''relay_revoked'' (Some relay_id)
          (JObj [(''apply'', JBool True), (''revoked'', JInt (uint m))]) s3 = (Inr (), s4)" and
    ev: "emit (EvRelayRevoked relay_id ''operator revoke'') s4 = (Inr (), s5)" "t = s5"
    unfolding relay_revoke_def by (auto simp: run_simps elim!: and_then_InrE)
  have "sd_relays (en_store s2) = sd_relays (en_store s1)"
    using only_ticksD [OF framesD_run [OF ticks_store_call [OF reads_ops(11)] bs]] by simp
  moreover have "sd_relays (en_store s3) = sd_relays (en_store s2)"
    using framesD_run [OF relays_revoke_rows rows] by (simp add: same_relays_def)
  moreover have "sd_relays (en_store s4) = sd_relays (en_store s3)"
    using framesD_run [OF keep.audit_kinds(1) aud] by (rule keptD_relays)
  moreover have "sd_relays (en_store t) = sd_relays (en_store s4)"
    using keptD_relays [OF kept_emit [OF ev(1)]] ev(2) by simp
  ultimately show ?thesis
    using revoke_policy_dead [OF pol assms(2)] by (simp add: relay_dead_def)
qed

text \<open>The bearers of the relay: none that the store held before is live after.\<close>

lemma dead_when_saved:
  assumes "store_call w (save_bearer b) s = (Inr x, t)" "br_revoked b"
  shows "token_dead (br_token_id b) (en_store t)"
    and "token_dead token_id (en_store s) \<Longrightarrow> token_dead token_id (en_store t)"
  using save_bearer_InrD [OF assms(1)] assms(2)
  by (auto simp: token_dead_def find_by_upsert_same) (metis find_by_upsert_other find_by_upsert_same option.inject)

lemma revoke_rows_dead:
  assumes "revoke_rows w bs n s = (Inr m, t)"
    and "\<And>b. b \<in> set bs \<Longrightarrow> br_revoked b \<Longrightarrow> token_dead (br_token_id b) (en_store s)"
  shows "(\<forall>b\<in>set bs. token_dead (br_token_id b) (en_store t))
    \<and> (\<forall>token_id. token_dead token_id (en_store s) \<longrightarrow> token_dead token_id (en_store t))"
  using assms
proof (induction bs arbitrary: n s)
  case Nil
  then show ?case by (simp add: run_simps)
next
  case (Cons b bs)
  show ?case
  proof (cases "br_revoked b")
    case True
    with Cons.prems Cons.IH [of n s] show ?thesis by auto
  next
    case False
    with Cons.prems(1) obtain b' s1 x s2 where seal: "reseal_bearer_row w (b\<lparr>br_revoked := True\<rparr>) s = (Inr b', s1)"
      and save: "store_call w (save_bearer b') s1 = (Inr x, s2)" and rest: "revoke_rows w bs (n + 1) s2 = (Inr m, t)"
      by (auto elim!: and_then_InrE)
    from reseal_InrD [OF seal] have b': "br_revoked b'" "br_token_id b' = br_token_id b" "s1 = s" by auto
    note dead = dead_when_saved [OF save b'(1)]
    have "token_dead (br_token_id c) (en_store s2)" if "c \<in> set bs" "br_revoked c" for c
      using dead(2) Cons.prems(2) that b'(3) by simp
    from Cons.IH [OF rest this] show ?thesis using dead b' by auto
  qed
qed

lemma revoke_policy_keeps_bearers:
  assumes "revoke_policy w relay_id s = (Inr (), t)"
  shows "sd_bearers (en_store t) = sd_bearers (en_store s)"
    and "fst (list_bearers_for_relay relay_id (en_store t)) = fst (list_bearers_for_relay relay_id (en_store s))"
proof -
  from assms obtain r s1 where load: "store_call w (load_relay_policy relay_id) s = (Inr r, s1)"
    and rest: "(case r of None \<Rightarrow> ok_act ()
       | Some row \<Rightarrow> and_then (store_call w (save_relay_policy (row\<lparr>rr_policy := (rr_policy row)\<lparr>rp_revoked := True\<rparr>\<rparr>)))
             (\<lambda>_. ok_act ())) s1 = (Inr (), t)"
    unfolding revoke_policy_def by (blast elim: and_then_InrE)
  have s1: "en_store s1 = en_store s"
    using only_ticksD [OF framesD_run [OF ticks_store_call [OF reads_ops(8)] load]] by simp
  have r: "r = find_by relay_key relay_id (sd_relays (en_store s))"
    using store_call_InrD [OF load] by (simp add: store_ops)
  have "sd_bearers (en_store t) = sd_bearers (en_store s)
    \<and> map_option rr_id (find_by relay_key relay_id (sd_relays (en_store t)))
      = map_option rr_id (find_by relay_key relay_id (sd_relays (en_store s)))"
  proof (cases r)
    case None
    then show ?thesis using rest s1 by (simp add: run_simps)
  next
    case (Some row)
    define new where "new = row\<lparr>rr_policy := (rr_policy row)\<lparr>rp_revoked := True\<rparr>\<rparr>"
    have key: "relay_key new = relay_id" and found: "find_by relay_key relay_id (sd_relays (en_store s)) = Some row"
      using Some r by (auto simp: new_def relay_key_def dest: find_by_SomeD)
    from rest Some obtain i s2 where save: "store_call w (save_relay_policy new) s1 = (Inr i, s2)" "t = s2"
      by (auto simp: run_simps new_def elim!: and_then_InrE)
    then have store: "en_store t = (en_store s)\<lparr>sd_relays :=
        upsert relay_key (new\<lparr>rr_id := assigned_relay_id new (sd_relays (en_store s))\<rparr>) (sd_relays (en_store s))\<rparr>"
      using s1 by (auto simp: store_call_def save_relay_policy_def Let_def split: option.splits)
    have id: "assigned_relay_id new (sd_relays (en_store s)) = rr_id row"
      using key found by (simp add: assigned_relay_id_def) (simp add: new_def)
    have "relay_key (new\<lparr>rr_id := rr_id row\<rparr>) = relay_id" using key by (simp add: relay_key_def)
    then have "find_by relay_key relay_id (upsert relay_key (new\<lparr>rr_id := rr_id row\<rparr>) (sd_relays (en_store s)))
        = Some (new\<lparr>rr_id := rr_id row\<rparr>)"
      using find_by_upsert_same by metis
    with found show ?thesis by (simp add: store id)
  qed
  then show "sd_bearers (en_store t) = sd_bearers (en_store s)"
    "fst (list_bearers_for_relay relay_id (en_store t)) = fst (list_bearers_for_relay relay_id (en_store s))"
    by (auto simp: store_ops split: option.split)
qed

lemma relay_revoke_bearers_dead:
  assumes "relay_revoke w relay_id True s = (Inr n, t)" "tables_ok (en_store s)"
    and "fst (list_bearers_for_relay relay_id (en_store s)) = Inr rows" "row \<in> set rows"
  shows "token_dead (br_token_id row) (en_store t)"
proof -
  from assms(1) obtain s1 bs s2 m s3 s4 s5 where
    pol: "revoke_policy w relay_id s = (Inr (), s1)" and
    bs: "store_call w (list_bearers_for_relay relay_id) s1 = (Inr bs, s2)" and
    rows: "revoke_rows w bs 0 s2 = (Inr m, s3)" and
    aud: "audit_ok w ''relay_revoked'' (Some relay_id)
          (JObj [(''apply'', JBool True), (''revoked'', JInt (uint m))]) s3 = (Inr (), s4)" and
    ev: "emit (EvRelayRevoked relay_id ''operator revoke'') s4 = (Inr (), s5)" "t = s5"
    unfolding relay_revoke_def by (auto simp: run_simps elim!: and_then_InrE)
  have s2: "en_store s2 = en_store s1"
    using only_ticksD [OF framesD_run [OF ticks_store_call [OF reads_ops(11)] bs]] by simp
  have listed: "bs = rows"
    using store_call_InrD [OF bs] revoke_policy_keeps_bearers(2) [OF pol] assms(3) by simp
  have "set rows \<subseteq> set (sd_bearers (en_store s2))"
    using assms(3) revoke_policy_keeps_bearers(1) [OF pol] s2 by (auto simp: store_ops split: option.splits)
  then have "token_dead (br_token_id b) (en_store s2)" if "b \<in> set bs" "br_revoked b" for b
    using that assms(2) find_by_distinct [of br_token_id "sd_bearers (en_store s2)" b]
      revoke_policy_keeps_bearers(1) [OF pol] s2
    by (auto simp: token_dead_def tables_ok_def listed)
  from revoke_rows_dead [OF rows this] have "token_dead (br_token_id row) (en_store s3)"
    using assms(4) listed by blast
  moreover have "sd_bearers (en_store t) = sd_bearers (en_store s3)"
    using keptD_bearers [OF framesD_run [OF keep.audit_kinds(1) aud]] keptD_bearers [OF kept_emit [OF ev(1)]] ev(2) by simp
  ultimately show ?thesis by (simp add: token_dead_def)
qed

end
