(* ===== verification/EngineLive.thy ===== *)
theory EngineLive
  imports EngineRevoke
begin

text \<open>
  What the engine does when nothing fails: on a store without faults the audit machinery always
  succeeds, an authentic bearer of a live relay is served with the real key, and a minted bearer is
  such a bearer.
\<close>

section \<open>Auditing succeeds\<close>

named_theorems runs "the outcome of an operation in a world without store faults"

lemma write_audit_anchor_ok [runs]:
  assumes "reliable w"
  shows "fst (write_audit_anchor w dek q h s) = Inr ()"
  using assms by (simp add: write_audit_anchor_def run_simps store_ops Let_def)

lemma advance_ok [runs]:
  assumes "reliable w"
  shows "fst (advance_audit_anchor_if_unlocked w s) = Inr ()"
  using assms
  by (simp add: advance_audit_anchor_if_unlocked_def run_simps store_ops write_audit_anchor_ok split: option.split)

lemma audit_ok_run [runs]:
  assumes "reliable w"
  shows "fst (audit w ev sub det out s) = Inr ()"
  using assms
  by (simp add: audit_def run_simps now_rfc3339_def append_audit_def Let_def run_and_then advance_ok)

lemma audit_kinds_ok [runs]:
  assumes "reliable w"
  shows "fst (audit_ok w ev sub det s) = Inr ()" "fst (audit_failed w ev sub det s) = Inr ()"
    "fst (refuse w ev subj why s) = Inr ()"
  using assms by (simp_all add: audit_ok_def audit_failed_def refuse_def run_and_then audit_ok_run run_simps)

text \<open>An audit row in such a world: it succeeds and keeps everything but the log, the anchor and the channel.\<close>

lemma audit_runs:
  assumes "reliable w"
  obtains t where "audit w ev sub det out s = (Inr (), t)" "kept s t"
  using audit_ok_run [OF assms, of ev sub det out s] framesD [OF keep.audit, of s w ev sub det out]
  by (metis prod.collapse)

lemma audit_ok_runs:
  assumes "reliable w"
  obtains t where "audit_ok w ev sub det s = (Inr (), t)" "kept s t"
  using audit_runs [OF assms] unfolding audit_ok_def by metis

section \<open>The possession gate\<close>

definition usb_slots :: "in_mem_data \<Rightarrow> keyslot list" where
  "usb_slots g = filter (\<lambda>s. ks_enabled s \<and> ks_factor s = Usb) (sd_keyslots g)"

text \<open>No USB slot is enrolled, or the keyfile of one is present at every probe.\<close>

definition possession :: "world \<Rightarrow> in_mem_data \<Rightarrow> bool" where
  "possession w g \<longleftrightarrow>
     usb_slots g = []
     \<or> (\<exists>s\<in>set (usb_slots g). \<exists>uuid. ks_usb_partition_uuid s = Some uuid \<and> (\<forall>n. w_keyfile_for w n uuid \<noteq> None))"

lemma any_keyfile_found:
  assumes "slot \<in> set slots" "ks_usb_partition_uuid slot = Some uuid" "\<forall>n. w_keyfile_for w n uuid \<noteq> None"
  shows "fst (any_keyfile w slots s) = Inr True"
  using assms(1)
proof (induction slots arbitrary: s)
  case Nil
  then show ?case by simp
next
  case (Cons a slots)
  show ?case
  proof (cases "a = slot")
    case True
    then show ?thesis using assms(2,3) by (simp add: keyfile_for_def run_simps)
  next
    case False
    then have "slot \<in> set slots" using Cons.prems by simp
    from Cons.IH [OF this] show ?thesis
      by (simp add: keyfile_for_def run_simps split: option.split)
  qed
qed

lemma possession_proven [runs]:
  assumes "reliable w" "possession w (en_store s)"
  shows "fst (usb_possession_proven w s) = Inr True"
  using assms any_keyfile_found
  by (auto simp: usb_possession_proven_def run_simps store_ops possession_def usb_slots_def Let_def)

section \<open>A valid bearer is served\<close>

text \<open>
  The state in which a request is served: everything the evidence of a swap asks for, at the clock
  readings and tallies this request will meet.
\<close>

definition serves :: "world \<Rightarrow> string \<Rightarrow> egress_req \<Rightarrow> engine \<Rightarrow> bytes \<Rightarrow> bool" where
  "serves w bearer_text req s key \<longleftrightarrow>
     (\<exists>dek token_id raw row pr srow floor.
        en_vault s = VUnlocked dek
        \<and> parse_bearer bearer_text = Some (token_id, raw)
        \<and> sd_meta (en_store s) META_ISSUANCE_FLOOR_MS = Some (i64_to_string floor)
        \<and> find_by br_token_id token_id (sd_bearers (en_store s)) = Some row
        \<and> row_authentic (w_crypto w) dek raw row
        \<and> find (\<lambda>r. rr_id r = br_policy_id row) (sd_relays (en_store s)) = Some pr
        \<and> possession w (en_store s)
        \<and> decide (rr_policy pr) (verified_of row)
            (canon_of (rp_swap (rr_policy pr)) req
              (fst (bump (br_token_id row) (w_now_ms w (en_tick s)) (eq_bytes_out req) (en_broker s))))
            (w_now_ms w (en_tick s)) (w_boottime_ms w (Suc (en_tick s))) None floor = Allow
        \<and> found (get_secret_latest (rp_secret_name (rr_policy pr))) (en_store s) = Some srow
        \<and> open_sealed (w_crypto w) dek (record_aad_of srow) (sr_nonce srow) (sr_ct_tag srow) = Some key)"

lemma load_issuance_floor_run:
  assumes "reliable w" "sd_meta (en_store s) META_ISSUANCE_FLOOR_MS = Some (i64_to_string floor)"
  shows "load_issuance_floor w s = (Inr floor, s\<lparr>en_tick := Suc (en_tick s)\<rparr>)"
  using assms by (simp add: load_issuance_floor_def run_simps store_ops parse_i64_to_string)

lemma open_real_key_run:
  assumes "reliable w" "found (get_secret_latest name) (en_store s) = Some srow"
    and "open_sealed (w_crypto w) dek (record_aad_of srow) (sr_nonce srow) (sr_ct_tag srow) = Some key"
  shows "open_real_key w dek name s = (Inr key, s\<lparr>en_tick := Suc (en_tick s)\<rparr>)"
  using assms by (simp add: open_real_key_def run_simps store_ops)

lemma usb_run:
  assumes "reliable w" "possession w (en_store s)"
  obtains n where "usb_possession_proven w s = (Inr True, s\<lparr>en_tick := n\<rparr>)"
  using possession_proven [OF assms] framesD [OF ticks_usb, of s w]
  by (auto simp: only_ticks_def prod_eq_iff)

lemma decide_swap_run:
  assumes "reliable w" "possession w (en_store s)"
    and "decide policy (verified_of row)
            (canon_of (rp_swap policy) req (fst (bump (br_token_id row) now (eq_bytes_out req) (en_broker s))))
            now boot None floor = Allow"
    and "found (get_secret_latest (rp_secret_name policy)) (en_store s) = Some srow"
    and "open_sealed (w_crypto w) dek (record_aad_of srow) (sr_nonce srow) (sr_ct_tag srow) = Some key"
  shows "fst (decide_swap w dek tid row policy req now boot floor s) =
     Inr (PAllow \<lparr>al_relay_id = rp_relay_id policy, al_token_id = br_token_id row,
           al_provider = rp_provider policy, al_host = eq_host req, al_real_key = key\<rparr>)"
proof -
  obtain n where usb: "usb_possession_proven w s = (Inr True, s\<lparr>en_tick := n\<rparr>)"
    using usb_run [OF assms(1,2)] .
  obtain tallies br where bump: "bump (br_token_id row) now (eq_bytes_out req) (en_broker s) = (tallies, br)"
    by (metis surj_pair)
  have key: "open_real_key w dek (rp_secret_name policy) (s\<lparr>en_tick := n, en_broker := br\<rparr>)
      = (Inr key, s\<lparr>en_tick := Suc n, en_broker := br\<rparr>)"
    using open_real_key_run [OF assms(1), of "rp_secret_name policy" "s\<lparr>en_tick := n, en_broker := br\<rparr>" srow dek key]
      assms(4,5) by simp
  have "bump_counters (br_token_id row) now (eq_bytes_out req) (s\<lparr>en_tick := n\<rparr>) = (Inr tallies, s\<lparr>en_tick := n, en_broker := br\<rparr>)"
    by (simp add: bump_counters_def bump)
  then show ?thesis
    using assms(3) by (simp add: decide_swap_def Let_def run_simps usb bump key)
qed

lemma swap_prepare_run:
  assumes "reliable w" "serves w bearer_text req s key"
  shows "\<exists>a. fst (relay_swap_prepare w bearer_text req s) = Inr (PAllow a) \<and> al_real_key a = key"
proof -
  from assms(2) obtain dek token_id raw row pr srow floor where
    v: "en_vault s = VUnlocked dek" and parse: "parse_bearer bearer_text = Some (token_id, raw)"
    and fl: "sd_meta (en_store s) META_ISSUANCE_FLOOR_MS = Some (i64_to_string floor)"
    and row: "find_by br_token_id token_id (sd_bearers (en_store s)) = Some row"
      "row_authentic (w_crypto w) dek raw row"
    and pr: "find (\<lambda>r. rr_id r = br_policy_id row) (sd_relays (en_store s)) = Some pr"
    and rest: "possession w (en_store s)"
      "decide (rr_policy pr) (verified_of row)
            (canon_of (rp_swap (rr_policy pr)) req
              (fst (bump (br_token_id row) (w_now_ms w (en_tick s)) (eq_bytes_out req) (en_broker s))))
            (w_now_ms w (en_tick s)) (w_boottime_ms w (Suc (en_tick s))) None floor = Allow"
      "found (get_secret_latest (rp_secret_name (rr_policy pr))) (en_store s) = Some srow"
      "open_sealed (w_crypto w) dek (record_aad_of srow) (sr_nonce srow) (sr_ct_tag srow) = Some key"
    unfolding serves_def by blast
  let ?s = "\<lambda>n. s\<lparr>en_tick := n\<rparr>"
  have floor: "load_issuance_floor w (?s n) = (Inr floor, ?s (Suc n))" for n
    using load_issuance_floor_run [OF assms(1), of "?s n"] fl by simp
  have bearer: "store_call w (load_bearer token_id) (?s n) = (Inr (Some row), ?s (Suc n))" for n
    using assms(1) row by (simp add: run_simps store_ops)
  have policy: "find_policy_by_id w (br_policy_id row) (?s n) = (Inr (Some pr), ?s (Suc n))" for n
    using assms(1) pr by (simp add: find_policy_by_id_def run_simps store_ops)
  have "fst (decide_swap w dek token_id row (rr_policy pr) req (w_now_ms w (en_tick s))
      (w_boottime_ms w (Suc (en_tick s))) floor (?s n)) =
     Inr (PAllow \<lparr>al_relay_id = rp_relay_id (rr_policy pr), al_token_id = br_token_id row,
           al_provider = rp_provider (rr_policy pr), al_host = eq_host req, al_real_key = key\<rparr>)" for n
    by (rule decide_swap_run [OF assms(1)]) (use rest in simp_all)
  then show ?thesis
    by (simp add: relay_swap_prepare_def parse run_simps v now_ms_def boottime_ms_def floor bearer row policy)
qed

lemma evidence_fenced:
  assumes "swap_evidence w bearer_text req s a"
  shows "host_fenced (al_provider a) (eq_host req) (al_host a)"
proof -
  from assms obtain row pr now boot floor tallies where
    "pr \<in> set (sd_relays (en_store s))" "decide (rr_policy pr) (verified_of row) (canon_of (rp_swap (rr_policy pr)) req tallies) now boot None floor = Allow"
    and a: "al_provider a = rp_provider (rr_policy pr)" "al_host a = eq_host req"
    unfolding swap_evidence_def by blast
  then have "within_scope (rr_policy pr) (canon_of (rp_swap (rr_policy pr)) req tallies)"
    by (simp add: decide_Allow_raw)
  then have "host_in (eq_host req) (canonical_upstreams (rp_provider (rr_policy pr)))"
    by (simp add: within_scope_def canon_of_def split: prod.splits)
  then show ?thesis
    using a by (simp add: host_fenced_def host_in_def)
qed

text \<open>The outcome the caller sees for each answer of the upstream.\<close>

fun outcome_of :: "upstream_error + egress_resp \<Rightarrow> swap_outcome" where
  "outcome_of (Inr resp) = Allowed resp"
| "outcome_of (Inl ue) = InternalRefused (''upstream send failed ('' @ upstream_error_kind ue @ '')'')"

lemma send_and_audit_run:
  assumes "host_fenced (al_provider a) (eq_host req) (al_host a)"
  shows "fst (send_and_audit w req a s) = Inr (outcome_of (w_upstream w (en_tick s) req (al_real_key a)))
    \<and> en_sent (snd (send_and_audit w req a s)) = en_sent s @ [(req, al_real_key a)]"
  using assms
  by (cases "w_upstream w (en_tick s) req (al_real_key a)")
    (simp_all add: send_and_audit_def run_and_then run_simps upstream_send_def audits_send_nothing Let_def)

lemma served_run:
  assumes "reliable w" "serves w bearer_text req s key"
  shows "(\<exists>n. fst (relay_swap w bearer_text req s) = Inr (outcome_of (w_upstream w n req key)))
    \<and> en_sent (snd (relay_swap w bearer_text req s)) = en_sent s @ [(req, key)]"
proof -
  obtain a t where prep: "relay_swap_prepare w bearer_text req s = (Inr (PAllow a), t)" and key: "al_real_key a = key"
    using swap_prepare_run [OF assms] by (metis prod.collapse)
  have "host_fenced (al_provider a) (eq_host req) (al_host a)"
    using evidence_fenced [OF relay_swap_prepare_allowD [OF prep]] .
  moreover have "en_sent t = en_sent s"
    using framesD_run [OF quiet.relay_swap_prepare prep] .
  moreover have "relay_swap w bearer_text req s = send_and_audit w req a t"
    by (simp add: relay_swap_def match_result_def prep)
  ultimately show ?thesis
    using send_and_audit_run [of a req w t] key by auto
qed

text \<open>
  C24: in a world without store faults an authentic live bearer is served: the request goes once to the
  upstream with the secret's plaintext, and the upstream's answer is the outcome; an error of the
  upstream reaches the caller only as its fixed label.
\<close>

theorem valid_bearer_served:
  assumes "reliable w" "serves w bearer_text req s key"
  shows "(\<exists>n. fst (relay_swap w bearer_text req s) = Inr (outcome_of (w_upstream w n req key)))
    \<and> en_sent (snd (relay_swap w bearer_text req s)) = en_sent s @ [(req, key)]"
  using assms by (rule served_run)

section \<open>A concrete world\<close>

text \<open>A clock that stands still, a generator that repeats its draw number, an upstream that answers.\<close>

definition toy_world :: world where
  "toy_world = \<lparr>
     w_crypto = toy_crypto,
     w_now_ms = (\<lambda>_. 1700000000000),
     w_now_rfc3339 = (\<lambda>_. ''2023-11-14T22:13:20+00:00''),
     w_boottime_ms = (\<lambda>_. 5000000),
     w_keyfile_for = (\<lambda>_ _. None),
     w_random = (\<lambda>k n. replicate n (word_of_nat k)),
     w_upstream = (\<lambda>_ req key. Inr \<lparr>ep_status = 200, ep_headers = [], ep_allowed = True\<rparr>),
     w_store_fault = (\<lambda>_. None)\<rparr>"

lemma toy_world_simps [simp]:
  "w_crypto toy_world = toy_crypto" "w_now_ms toy_world n = 1700000000000"
  "w_boottime_ms toy_world n = 5000000" "w_keyfile_for toy_world n u = None"
  "w_random toy_world k i = replicate i (word_of_nat k)" "reliable toy_world"
  "w_upstream toy_world n req key = Inr \<lparr>ep_status = 200, ep_headers = [], ep_allowed = True\<rparr>"
  by (simp_all add: toy_world_def reliable_def)

definition toy_dek :: dek where "toy_dek = replicate 32 7"

definition toy_secret :: secret_row where
  "toy_secret =
     \<lparr>sr_row_id = 1, sr_name = ''anthropic_key'', sr_version = 1, sr_provider = Anthropic, sr_note = [],
      sr_broker_only = True, sr_dek_generation = 1, sr_nonce = replicate 24 9,
      sr_ct_tag = snd (seal toy_crypto (replicate 24 9) toy_dek (record_aad SecretVersion 1 1 1) (str_bytes ''sk-ant-real'')),
      sr_created_ts = []\<rparr>"

text \<open>A token id as the engine writes them: sixteen bytes in hexadecimal.\<close>

abbreviation toy_token :: string where
  "toy_token \<equiv> ''deadbeefdeadbeefdeadbeefdeadbeef''"

definition toy_raw :: string where
  "toy_raw = wire_bearer toy_token ''secret''"

definition toy_row :: bearer_row where
  "toy_row = sealed_row toy_crypto toy_dek
     \<lparr>br_token_id = toy_token, br_policy_id = 1,
      br_mac = mac_bearer toy_crypto (broker_hmac_key toy_crypto toy_dek) toy_raw,
      br_expires_at_ms = 1700003600000, br_issued_at_ms = 1699999000000,
      br_issued_boottime_ms = 4000000, br_client_uid = Some 1000, br_client_pid = None,
      br_client_id = None, br_dpop_jkt = None, br_revoked = False, br_row_mac = []\<rparr>"

definition toy_store :: in_mem_data where
  "toy_store = empty_store
     \<lparr>sd_meta := [META_ISSUANCE_FLOOR_MS \<mapsto> i64_to_string 1699000000000],
      sd_secrets := [toy_secret], sd_next_secret_row_id := 1,
      sd_relays := [\<lparr>rr_id = 1, rr_policy = base_policy\<rparr>], sd_bearers := [toy_row]\<rparr>"

definition toy_engine :: engine where
  "toy_engine = (with_seams 1000 toy_store)\<lparr>en_vault := VUnlocked toy_dek\<rparr>"

definition toy_req :: egress_req where
  "toy_req = \<lparr>eq_method = Post, eq_host = ''api.anthropic.com'', eq_path = ''/v1/messages'',
     eq_headers = [], eq_bytes_out = 128, eq_peer_uid = Some 1000, eq_peer_pid = None\<rparr>"

lemma toy_parse: "parse_bearer toy_raw = Some (toy_token, toy_raw)"
proof -
  have "list_all is_ascii_alphanumeric toy_token" by (simp add: is_ascii_alphanumeric_def)
  then show ?thesis unfolding toy_raw_def by (intro parse_wire_bearer) simp_all
qed

lemma toy_row_authentic: "row_authentic toy_crypto toy_dek toy_raw toy_row"
  by (simp add: row_authentic_def verify_bearer_def verify_bearer_row_def ct_eq_mac_iff toy_row_def
      sealed_row_def row_message_def mac_bearer_def mac_bearer_row_def digests_32D [OF toy_digests_32])

lemma toy_row_fields [simp]:
  "br_token_id toy_row = toy_token" "br_policy_id toy_row = 1" "br_expires_at_ms toy_row = 1700003600000"
  "br_issued_at_ms toy_row = 1699999000000" "br_issued_boottime_ms toy_row = 4000000"
  "br_client_uid toy_row = Some 1000" "br_client_pid toy_row = None" "br_client_id toy_row = None"
  "br_dpop_jkt toy_row = None" "br_revoked toy_row = False"
  by (simp_all add: toy_row_def sealed_row_def)

lemma toy_bump:
  "fst (bump toy_token 1700000000000 128 default_broker) = (1, 128, 1)"
  by (simp add: bump_def counters_of_def default_broker_def default_counters_def usat_add_def Let_def)

lemma toy_decide:
  "decide base_policy (verified_of toy_row) (canon_of (rp_swap base_policy) toy_req (1, 128, 1))
     1700000000000 5000000 None 1699000000000 = Allow"
proof -
  have "swap_permitted base_policy (verified_of toy_row) (canon_of (rp_swap base_policy) toy_req (1, 128, 1))
     1700000000000 5000000 None 1699000000000"
    by (simp add: swap_permitted_def within_scope_def presenter_bound_def within_budget_def
        live_on_both_clocks_def base_policy_def canon_of_def toy_req_def host_in_iff path_allowed_iff
        pattern_prefix_def strip_suffix_star_def CLOCK_SKEW_MS_def)
  then show ?thesis by (subst decide_Allow_exact) simp_all
qed

lemma toy_secret_opens:
  "open_sealed toy_crypto toy_dek (record_aad_of toy_secret) (sr_nonce toy_secret) (sr_ct_tag toy_secret)
     = Some (str_bytes ''sk-ant-real'')"
proof -
  have "record_aad_of toy_secret = record_aad SecretVersion 1 1 1"
    by (simp add: record_aad_of_def toy_secret_def)
  then show ?thesis
    using open_seal [OF toy_aead_inverts, of toy_dek "replicate 24 9"]
    by (simp add: toy_secret_def toy_dek_def)
qed

lemma toy_engine_simps [simp]:
  "en_vault toy_engine = VUnlocked toy_dek" "en_store toy_engine = toy_store"
  "en_broker toy_engine = default_broker" "en_sent toy_engine = []" "en_tick toy_engine = 0"
  by (simp_all add: toy_engine_def with_seams_def)

lemma toy_serves: "serves toy_world toy_raw toy_req toy_engine (str_bytes ''sk-ant-real'')"
proof -
  have "rr_policy \<lparr>rr_id = 1, rr_policy = base_policy\<rparr> = base_policy" by simp
  moreover have "eq_bytes_out toy_req = 128" by (simp add: toy_req_def)
  moreover have "possession toy_world toy_store"
    by (simp add: possession_def usb_slots_def toy_store_def empty_store_def)
  moreover have "found (get_secret_latest (rp_secret_name base_policy)) toy_store = Some toy_secret"
    by (simp add: store_ops base_policy_def toy_store_def toy_secret_def empty_store_def)
  moreover have "sd_meta toy_store META_ISSUANCE_FLOOR_MS = Some (i64_to_string 1699000000000)"
    "find_by br_token_id toy_token (sd_bearers toy_store) = Some toy_row"
    "find (\<lambda>r. rr_id r = br_policy_id toy_row) (sd_relays toy_store) = Some \<lparr>rr_id = 1, rr_policy = base_policy\<rparr>"
    by (simp_all add: toy_store_def empty_store_def)
  ultimately show ?thesis
    unfolding serves_def
    using toy_parse toy_row_authentic toy_bump toy_decide toy_secret_opens
    by (intro exI [of _ toy_dek] exI [of _ toy_token] exI [of _ toy_raw] exI [of _ toy_row]
        exI [of _ "\<lparr>rr_id = 1, rr_policy = base_policy\<rparr>"] exI [of _ toy_secret]
        exI [of _ 1699000000000]) simp
qed

theorem valid_bearer_served_witness:
  "en_sent (snd (relay_swap toy_world toy_raw toy_req toy_engine)) = [(toy_req, str_bytes ''sk-ant-real'')]"
  using valid_bearer_served [OF _ toy_serves] by simp

theorem local_swap_excludes_remote_and_mitm_witness:
  "\<exists>pr. pr \<in> set (sd_relays toy_store) \<and> rp_swap (rr_policy pr) \<noteq> ProxyMitm"
proof -
  have "en_sent (snd (relay_swap toy_world toy_raw toy_req toy_engine)) \<noteq> en_sent toy_engine"
    using served_run [OF _ toy_serves] by simp
  from local_swap_excludes_remote_and_mitm [OF this] show ?thesis by auto
qed

section \<open>Revocation succeeds on an unlocked vault\<close>

lemma reseal_run [runs]:
  "en_vault s = VUnlocked dek \<Longrightarrow> reseal_bearer_row w row s = (Inr (sealed_row (w_crypto w) dek row), s)"
  by (simp add: reseal_bearer_row_def require_dek_def run_simps)

lemma flip_bearer_run:
  assumes "reliable w" "en_vault s = VUnlocked dek"
  shows "\<exists>n t. flip_bearer w live s = (Inr n, t)"
  using assms by (cases live) (simp_all add: flip_bearer_def run_simps reseal_run store_ops)

lemma relay_revoke_bearer_run:
  assumes "reliable w" "en_vault s = VUnlocked dek"
  shows "\<exists>n t. relay_revoke_bearer w token_id True s = (Inr n, t)"
proof -
  let ?s1 = "s\<lparr>en_tick := Suc (en_tick s)\<rparr>"
  obtain row where load: "store_call w (load_bearer token_id) s = (Inr row, ?s1)"
    using assms(1) by (simp add: run_simps store_ops)
  obtain n s2 where flip: "flip_bearer w (live_row row) ?s1 = (Inr n, s2)"
    using flip_bearer_run [OF assms(1), of ?s1 dek "live_row row"] assms(2) by auto
  obtain s3 where aud: "audit_ok w ''relay_bearer_revoked'' (Some token_id)
      (JObj [(''apply'', JBool True), (''revoked'', JInt (uint n))]) s2 = (Inr (), s3)"
    using audit_ok_runs [OF assms(1)] by blast
  obtain s4 where "announce_flip token_id n s3 = (Inr (), s4)"
    by (cases "n = 1") (simp_all add: announce_flip_def run_simps)
  then show ?thesis
    by (simp add: relay_revoke_bearer_def Let_def run_simps load flip aud)
qed

lemma revoke_rows_run:
  assumes "reliable w"
  shows "en_vault s = VUnlocked dek \<Longrightarrow> \<exists>m t. revoke_rows w bs n s = (Inr m, t) \<and> en_vault t = VUnlocked dek"
proof (induction bs arbitrary: n s)
  case Nil
  then show ?case by (simp add: run_simps)
next
  case (Cons b bs)
  let ?b = "sealed_row (w_crypto w) dek (b\<lparr>br_revoked := True\<rparr>)"
  have save: "store_call w (save_bearer ?b) s = (Inr (), s\<lparr>en_tick := Suc (en_tick s), en_store := snd (save_bearer ?b (en_store s))\<rparr>)"
    using assms by (simp add: run_simps store_ops)
  show ?case
    using Cons.IH [of s n] Cons.IH [of "s\<lparr>en_tick := Suc (en_tick s), en_store := snd (save_bearer ?b (en_store s))\<rparr>" "n + 1"] Cons.prems
    by (simp add: run_simps reseal_run save)
qed

lemma revoke_policy_run:
  assumes "reliable w"
  shows "\<exists>t. revoke_policy w relay_id s = (Inr (), t) \<and> en_vault t = en_vault s"
  using assms
  by (simp add: revoke_policy_def run_simps store_ops save_relay_policy_def Let_def split: option.split)

lemma relay_revoke_run:
  assumes "reliable w" "en_vault s = VUnlocked dek"
  shows "\<exists>n t. relay_revoke w relay_id True s = (Inr n, t)"
proof -
  obtain s1 where pol: "revoke_policy w relay_id s = (Inr (), s1)" "en_vault s1 = VUnlocked dek"
    using revoke_policy_run [OF assms(1), of relay_id s] assms(2) by auto
  obtain bs where bs: "store_call w (list_bearers_for_relay relay_id) s1 = (Inr bs, s1\<lparr>en_tick := Suc (en_tick s1)\<rparr>)"
    using assms(1) by (simp add: run_simps store_ops)
  obtain n s2 where rows: "revoke_rows w bs 0 (s1\<lparr>en_tick := Suc (en_tick s1)\<rparr>) = (Inr n, s2)"
    using revoke_rows_run [OF assms(1), of "s1\<lparr>en_tick := Suc (en_tick s1)\<rparr>" dek bs 0] pol(2) by auto
  obtain s3 where aud: "audit_ok w ''relay_revoked'' (Some relay_id)
      (JObj [(''apply'', JBool True), (''revoked'', JInt (uint n))]) s2 = (Inr (), s3)"
    using audit_ok_runs [OF assms(1)] by blast
  show ?thesis
    by (simp add: relay_revoke_def run_simps pol bs rows aud)
qed

theorem revoked_bearer_never_swapped_witness:
  "let t = snd (relay_revoke_bearer toy_world toy_token True toy_engine) in
     en_sent (snd (relay_swap toy_world toy_raw toy_req t)) = en_sent t"
proof -
  obtain n t where run: "relay_revoke_bearer toy_world toy_token True toy_engine = (Inr n, t)"
    using relay_revoke_bearer_run [of toy_world toy_engine toy_dek toy_token] by auto
  from revoked_bearer_never_swapped [OF run toy_parse] show ?thesis by (simp add: run)
qed

lemma toy_run:
  "reachable toy_world toy_engine (perform toy_world (RelaySwap toy_raw toy_req) (perform toy_world Lock toy_engine))"
  by (intro reachable.intros)

theorem logs_append_only_witness:
  "\<exists>rows. audit_rows (en_store (perform toy_world (RelaySwap toy_raw toy_req) (perform toy_world Lock toy_engine)))
     = audit_rows toy_store @ rows"
  using logs_append_only [OF toy_run] unfolding toy_engine_simps by blast

theorem audit_chain_invariant_witness:
  "fst (verify_audit_chain toy_crypto (en_store (perform toy_world (RelaySwap toy_raw toy_req)
     (perform toy_world Lock toy_engine)))) = Inr ()"
proof -
  have "fst (verify_audit_chain (w_crypto toy_world) (en_store toy_engine)) = Inr ()"
    by (simp add: verify_audit_chain_def toy_store_def empty_store_def)
  from audit_chain_invariant [OF toy_run this] show ?thesis unfolding toy_world_simps .
qed

end
