(* ===== verification/EngineUnlock.thy ===== *)
theory EngineUnlock
  imports EngineLive
begin

text \<open>
  Unlocking: what a vault must hold before its data key is put into memory, that this is enough when the
  store does not fail, and what a fault leaves that strikes while the anchor is advanced.
\<close>

section \<open>What an unlock rests on\<close>

text \<open>The slot the data key is recovered from, with the credential that opens it.\<close>

definition slot_yields :: "world \<Rightarrow> unlock \<Rightarrow> keyslot \<Rightarrow> dek \<Rightarrow> bool" where
  "slot_yields w u slot dek \<longleftrightarrow>
     ks_enabled slot \<and> ks_factor slot = wanted_factor u
     \<and> (\<exists>kek. unwrap_dek (w_crypto w) kek (ks_wrap_nonce slot) (ks_wrapped_dek slot) (keyslot_aad slot) = Some dek
        \<and> (case u of
             UnlockPassphrase pp \<Rightarrow>
               (\<exists>p. ks_kdf slot = Argon2id p \<and> derivable p
                  \<and> kek_from_passphrase (w_crypto w) (str_bytes pp) (ks_salt slot) p = Some kek)
           | UnlockUsb \<Rightarrow>
               (\<exists>uuid keyfile n. ks_usb_partition_uuid slot = Some uuid \<and> w_keyfile_for w n uuid = Some keyfile
                  \<and> kek = kek_from_usb (w_crypto w) keyfile (ks_salt slot))))"

definition header_authentic :: "crypto \<Rightarrow> dek \<Rightarrow> in_mem_data \<Rightarrow> bool" where
  "header_authentic cr dek g \<longleftrightarrow>
     (\<exists>mac_text mac floor_text floor. sd_meta g META_HEADER_MAC = Some mac_text \<and> hex_decode mac_text = Some mac
        \<and> sd_meta g META_ISSUANCE_FLOOR_MS = Some floor_text \<and> parse_i64 floor_text = Some floor
        \<and> verify_header_mac cr dek (sd_keyslots g) floor mac)
     \<and> (\<exists>generation_text. sd_meta g META_DEK_GENERATION = Some generation_text
        \<and> parse_i64 generation_text = Some (slot_generation (sd_keyslots g)))"

definition log_authentic :: "crypto \<Rightarrow> dek \<Rightarrow> in_mem_data \<Rightarrow> bool" where
  "log_authentic cr dek g \<longleftrightarrow>
     verify_chain cr (sd_audit g) = Inr ()
     \<and> (\<forall>head_text. sd_meta g META_AUDIT_HEAD = Some head_text \<longrightarrow>
          (\<exists>mac hw_text hw rows. hex_decode head_text = Some mac
             \<and> sd_meta g META_AUDIT_HIGH_WATER = Some hw_text \<and> parse_i64 hw_text = Some hw
             \<and> fst (query_audit 0 USIZE_MAX g) = Inr rows \<and> check_anchor cr dek mac hw rows = Inr ()))"

definition unlock_evidence :: "world \<Rightarrow> unlock \<Rightarrow> dek \<Rightarrow> in_mem_data \<Rightarrow> bool" where
  "unlock_evidence w u dek g \<longleftrightarrow>
     (\<exists>slot\<in>set (sd_keyslots g). slot_yields w u slot dek)
     \<and> header_authentic (w_crypto w) dek g \<and> log_authentic (w_crypto w) dek g"

section \<open>Reading a run that leaves the vault open\<close>

text \<open>A step that can only tick cannot be where a run left the states reached by ticking.\<close>

lemma past_tick:
  assumes "and_then m k s = (r, t)" "frames only_ticks m" "only_ticks s0 s" "\<not> only_ticks s0 t"
  obtains x u where "m s = (Inr x, u)" "only_ticks s0 u" "k x u = (r, t)"
proof -
  obtain r0 u where m: "m s = (r0, u)" by fastforce
  have u: "only_ticks s0 u" using assms(3) framesD_run [OF assms(2) m] by (rule ticks.trans_R)
  then obtain x where "r0 = Inr x" using assms(1,4) m by (cases r0) (auto simp: and_then_def)
  then show thesis using that [of x u] m u assms(1) by (simp add: and_then_def)
qed

lemma ticks_vault: "only_ticks s t \<Longrightarrow> en_vault t = en_vault s"
  and ticks_store: "only_ticks s t \<Longrightarrow> en_store t = en_store s"
  by (simp_all add: only_ticksD)

lemma ticks_try_usb: "frames only_ticks (try_usb w slots)"
  by (induction slots) (auto intro!: frame_rules ticks_keyfile_for split: option.split)

lemma ticks_lift: "frames only_ticks (lift_result r)"
  by (rule framesI) (simp add: lift_result_def ticks.refl_R)

lemma ticks_recover: "frames only_ticks (recover w u slots)"
  by (cases u) (simp_all add: ticks_try_usb ticks_lift)

lemma ticks_verify_anchor: "frames only_ticks (verify_audit_anchor_with w dek)"
  unfolding verify_audit_anchor_with_def
  by (intro frame_rules ticks_store_call reads_ops ticks_lift)

lemma fail_audited_vault: "en_vault (snd (fail_audited w detail e s)) = en_vault s"
proof -
  have "frames kept (fail_audited w detail e)"
    unfolding fail_audited_def audit_failed_def by (intro frame_rules keep.audit)
  from framesD [OF this, of s] show ?thesis unfolding kept_def by blast
qed

lemma try_passphrase_yields:
  "try_passphrase (w_crypto w) (str_bytes pp) slots = Inr (Some dek) \<Longrightarrow>
   \<exists>slot\<in>set slots. slot_yields w (UnlockPassphrase pp) slot dek"
  by (induction slots) (fastforce simp: slot_yields_def split: if_splits kdf.splits option.splits)+

lemma try_usb_yields:
  "try_usb w slots s = (Inr (Some dek), t) \<Longrightarrow> \<exists>slot\<in>set slots. slot_yields w UnlockUsb slot dek"
proof (induction slots arbitrary: s)
  case Nil
  then show ?case by (simp add: run_simps)
next
  case (Cons slot slots)
  show ?case
  proof (cases "ks_enabled slot \<and> ks_factor slot = Usb \<and> ks_usb_partition_uuid slot \<noteq> None")
    case False
    then have "try_usb w slots s = (Inr (Some dek), t)" using Cons.prems by (auto split: option.splits if_splits)
    then show ?thesis using Cons.IH by auto
  next
    case True
    then obtain uuid where uuid: "ks_usb_partition_uuid slot = Some uuid" by auto
    let ?s = "s\<lparr>en_tick := Suc (en_tick s)\<rparr>"
    have step: "(case w_keyfile_for w (en_tick s) uuid of None \<Rightarrow> try_usb w slots
        | Some keyfile \<Rightarrow>
            (case unwrap_dek (w_crypto w) (kek_from_usb (w_crypto w) keyfile (ks_salt slot))
                      (ks_wrap_nonce slot) (ks_wrapped_dek slot) (keyslot_aad slot) of
                 Some d \<Rightarrow> ok_act (Some d)
               | None \<Rightarrow> try_usb w slots)) ?s = (Inr (Some dek), t)"
      using Cons.prems True uuid by (simp add: keyfile_for_def outside_def run_simps)
    show ?thesis
    proof (cases "try_usb w slots ?s = (Inr (Some dek), t)")
      case True
      then show ?thesis using Cons.IH by auto
    next
      case False
      then obtain keyfile where "w_keyfile_for w (en_tick s) uuid = Some keyfile"
        "unwrap_dek (w_crypto w) (kek_from_usb (w_crypto w) keyfile (ks_salt slot))
           (ks_wrap_nonce slot) (ks_wrapped_dek slot) (keyslot_aad slot) = Some dek"
        using step by (auto simp: run_simps split: option.splits)
      then have "slot_yields w UnlockUsb slot dek" using \<open>ks_enabled slot \<and> _\<close> uuid by (auto simp: slot_yields_def)
      then show ?thesis by simp
    qed
  qed
qed

lemma recover_yields:
  "recover w u slots s = (Inr (Some dek), t) \<Longrightarrow> \<exists>slot\<in>set slots. slot_yields w u slot dek"
  by (cases u) (auto simp: lift_result_def dest: try_passphrase_yields try_usb_yields)

lemma load_header_mac_InrD:
  "load_header_mac w s = (Inr mac, t) \<Longrightarrow>
   \<exists>x. sd_meta (en_store s) META_HEADER_MAC = Some x \<and> hex_decode x = Some mac"
  unfolding load_header_mac_def
  by (auto simp: run_simps store_ops split: option.splits elim!: and_then_InrE dest!: store_call_InrD)

lemma load_issuance_floor_InrD:
  "load_issuance_floor w s = (Inr v, t) \<Longrightarrow>
   \<exists>x. sd_meta (en_store s) META_ISSUANCE_FLOOR_MS = Some x \<and> parse_i64 x = Some v"
  unfolding load_issuance_floor_def
  by (auto simp: run_simps store_ops split: option.splits elim!: and_then_InrE dest!: store_call_InrD)

lemma load_dek_generation_InrD:
  "load_dek_generation w s = (Inr v, t) \<Longrightarrow>
   \<exists>x. sd_meta (en_store s) META_DEK_GENERATION = Some x \<and> parse_i64 x = Some v"
  unfolding load_dek_generation_def
  by (auto simp: run_simps store_ops split: option.splits elim!: and_then_InrE dest!: store_call_InrD)

lemma store_call_ticks: "reads m \<Longrightarrow> store_call w m s = (Inr x, t) \<Longrightarrow> en_store t = en_store s"
  by (metis framesD_run ticks_store ticks_store_call)

lemma verify_audit_anchor_InrD:
  assumes "verify_audit_anchor_with w dek s = (Inr (), t)"
  shows "log_authentic (w_crypto w) dek (en_store s)"
proof -
  let ?g = "en_store s"
  from assms obtain u stored v where chain: "store_call w (verify_audit_chain (w_crypto w)) s = (Inr (), u)"
    and head: "store_call w (get_meta META_AUDIT_HEAD) u = (Inr stored, v)"
    and rest: "(case stored of
         None \<Rightarrow> ok_act ()
       | Some stored_hex \<Rightarrow>
         (case hex_decode stored_hex of
            None \<Rightarrow> fail_act (Engine (AuditChainBroken 0))
          | Some stored_mac \<Rightarrow>
              and_then (store_call w (get_meta META_AUDIT_HIGH_WATER)) (\<lambda>hw.
                case hw of
                  None \<Rightarrow> fail_act (Engine (AuditChainBroken 0))
                | Some t \<Rightarrow>
                  (case parse_i64 t of
                     None \<Rightarrow> fail_act (Engine (AuditChainBroken 0))
                   | Some stored_hw \<Rightarrow>
                       and_then (store_call w (query_audit 0 USIZE_MAX)) (\<lambda>rows.
                         lift_result (check_anchor (w_crypto w) dek stored_mac stored_hw rows)))))) v = (Inr (), t)"
    unfolding verify_audit_anchor_with_def by (elim and_then_InrE) simp
  have g: "en_store u = ?g" "en_store v = ?g"
    using store_call_ticks [OF reads_ops(5) chain] store_call_ticks [OF reads_ops(1) head] by simp_all
  have "verify_chain (w_crypto w) (sd_audit ?g) = Inr ()"
    using store_call_InrD [OF chain] by (auto simp: verify_audit_chain_def split: sum.splits)
  moreover have stored: "stored = sd_meta ?g META_AUDIT_HEAD"
    using store_call_InrD [OF head] g(1) by (simp add: store_ops)
  moreover have "\<exists>mac hw_text hw rows. hex_decode head_text = Some mac
      \<and> sd_meta ?g META_AUDIT_HIGH_WATER = Some hw_text \<and> parse_i64 hw_text = Some hw
      \<and> fst (query_audit 0 USIZE_MAX ?g) = Inr rows \<and> check_anchor (w_crypto w) dek mac hw rows = Inr ()"
    if "sd_meta ?g META_AUDIT_HEAD = Some head_text" for head_text
  proof -
    from rest that stored obtain mac hw_text hw x y rows where
      "hex_decode head_text = Some mac"
      and hw: "store_call w (get_meta META_AUDIT_HIGH_WATER) v = (Inr (Some hw_text), x)" "parse_i64 hw_text = Some hw"
      and rows: "store_call w (query_audit 0 USIZE_MAX) x = (Inr rows, y)"
      and "check_anchor (w_crypto w) dek mac hw rows = Inr ()"
      by (auto simp: run_simps lift_result_def split: option.splits elim!: and_then_InrE)
    moreover have "en_store x = ?g" using store_call_ticks [OF reads_ops(1) hw(1)] g(2) by simp
    moreover have "sd_meta ?g META_AUDIT_HIGH_WATER = Some hw_text"
      using store_call_InrD [OF hw(1)] g(2) by (simp add: store_ops)
    ultimately show ?thesis using store_call_InrD [OF rows] by metis
  qed
  ultimately show ?thesis by (simp add: log_authentic_def)
qed

lemma keeps_vault: "frames kept m \<Longrightarrow> frames (\<lambda>s t. P (en_vault s) \<longrightarrow> P (en_vault t)) m"
  unfolding frames_def kept_def by simp

lemma check_and_commit_opens:
  assumes run: "check_and_commit w f slots mac floor dek s = (r, t)"
    and locked: "en_vault s = VLocked" and opened: "en_vault t = VUnlocked dek'"
    and slots: "slots = sd_keyslots (en_store s)"
  shows "dek' = dek \<and> verify_header_mac (w_crypto w) dek slots floor mac
    \<and> (\<exists>x. sd_meta (en_store s) META_DEK_GENERATION = Some x \<and> parse_i64 x = Some (slot_generation slots))
    \<and> log_authentic (w_crypto w) dek (en_store s)"
proof -
  have shut: "fail_audited w d e v \<noteq> (r, t)" if "en_vault v = VLocked" for d e v
    using fail_audited_vault [of w d e v] that opened by (metis snd_conv vault.distinct(1))
  have header: "verify_header_mac (w_crypto w) dek slots floor mac"
    using run shut [OF locked] by (auto simp: check_and_commit_def split: if_splits)
  have never: "\<not> only_ticks s t" using locked opened ticks_vault by fastforce
  from run header have "and_then (load_dek_generation w) (\<lambda>stored_generation.
          if stored_generation \<noteq> slot_generation slots then
            fail_audited w (JObj [(''reason'', JStr ''dek_generation'')]) (Engine HeaderMacMismatch)
          else
            match_result (verify_audit_anchor_with w dek)
              (\<lambda>e. fail_audited w (JObj [(''reason'', JStr ''audit_chain'')]) e)
              (\<lambda>_. commit_unlock w f dek)) s = (r, t)"
    by (simp add: check_and_commit_def)
  then obtain stored u where gen: "load_dek_generation w s = (Inr stored, u)" "only_ticks s u"
    and rest: "(if stored \<noteq> slot_generation slots then
            fail_audited w (JObj [(''reason'', JStr ''dek_generation'')]) (Engine HeaderMacMismatch)
          else
            match_result (verify_audit_anchor_with w dek)
              (\<lambda>e. fail_audited w (JObj [(''reason'', JStr ''audit_chain'')]) e)
              (\<lambda>_. commit_unlock w f dek)) u = (r, t)"
    by (rule past_tick [OF _ ticks_loads(2) ticks.refl_R never])
  have u: "en_vault u = VLocked" "en_store u = en_store s"
    using ticks_vault [OF gen(2)] ticks_store [OF gen(2)] locked by simp_all
  have same: "stored = slot_generation slots" using rest shut [OF u(1)] by (auto split: if_splits)
  obtain r1 v where check: "verify_audit_anchor_with w dek u = (r1, v)" by fastforce
  then have v: "en_vault v = VLocked" using framesD_run [OF ticks_verify_anchor check] ticks_vault u(1) by simp
  have "r1 = Inr ()" and commit: "commit_unlock w f dek v = (r, t)"
    using rest same check shut [OF v] by (cases r1; simp add: match_result_def)+
  then have log: "log_authentic (w_crypto w) dek (en_store s)"
    using verify_audit_anchor_InrD [of w dek u v] check u(2) by simp
  have "dek' = dek"
  proof (rule ccontr)
    assume ne: "dek' \<noteq> dek"
    have "frames (\<lambda>x y. en_vault x \<noteq> VUnlocked dek' \<longrightarrow> en_vault y \<noteq> VUnlocked dek') (commit_unlock w f dek)"
      unfolding commit_unlock_def audit_ok_def emit_def
      by (intro frame_rules invariant_frame.and_then invariant_frame.modify_act invariant_frame.ok_act
          keeps_vault [OF keep.audit] keeps_vault [OF keep.advance]) (use ne in auto)
    from framesD [OF this, of v] show False using commit v opened by simp
  qed
  with header log load_dek_generation_InrD [OF gen(1)] same show ?thesis by metis
qed

lemma run_gets_then: "and_then (gets_act f) k s = k (f s) s"
  by (simp add: run_simps)

lemma opened_on_evidence:
  assumes "unlock w u s = (r, t)" "en_vault s = VLocked" "en_vault t = VUnlocked dek"
  shows "unlock_evidence w u dek (en_store s)"
proof -
  have never: "\<not> only_ticks s t" using assms(2,3) ticks_vault by fastforce
  have "and_then (store_call w load_keyslots) (\<lambda>slots.
         and_then (load_header_mac w) (\<lambda>stored_mac.
         and_then (load_issuance_floor w) (\<lambda>issuance_floor_ms.
         and_then (recover w u slots) (\<lambda>recovered.
           case recovered of
             None \<Rightarrow> fail_audited w (JObj []) (Engine UnlockFailed)
           | Some dek \<Rightarrow> check_and_commit w (wanted_factor u) slots stored_mac issuance_floor_ms dek)))) s = (r, t)"
    using assms(1,2) by (simp add: unlock_def run_gets_then is_unlocked_def)
  then obtain slots s1 mac s2 floor s3 recovered s4 where
    slots: "store_call w load_keyslots s = (Inr slots, s1)" "only_ticks s s1"
    and mac: "load_header_mac w s1 = (Inr mac, s2)" "only_ticks s s2"
    and floor: "load_issuance_floor w s2 = (Inr floor, s3)" "only_ticks s s3"
    and rec: "recover w u slots s3 = (Inr recovered, s4)" "only_ticks s s4"
    and rest: "(case recovered of
             None \<Rightarrow> fail_audited w (JObj []) (Engine UnlockFailed)
           | Some dek \<Rightarrow> check_and_commit w (wanted_factor u) slots mac floor dek) s4 = (r, t)"
    by (elim past_tick [OF _ _ _ never])
      (auto intro: ticks_store_call reads_ops ticks_loads ticks_recover ticks.refl_R)
  note g = ticks_store [OF slots(2)] ticks_store [OF mac(2)] ticks_store [OF floor(2)] ticks_store [OF rec(2)]
  have s4: "en_vault s4 = VLocked" using ticks_vault [OF rec(2)] assms(2) by simp
  have all: "slots = sd_keyslots (en_store s)" using store_call_InrD [OF slots(1)] by (simp add: store_ops)
  obtain dek0 where dek0: "recovered = Some dek0"
    using rest fail_audited_vault [of w "JObj []" "Engine UnlockFailed" s4, where 'a = vault_state] s4 assms(3)
    by (cases recovered) auto
  then have "check_and_commit w (wanted_factor u) slots mac floor dek0 s4 = (r, t)" using rest by simp
  from check_and_commit_opens [OF this s4 assms(3)] g(4) all
  have "dek = dek0" "verify_header_mac (w_crypto w) dek0 slots floor mac"
    "\<exists>x. sd_meta (en_store s) META_DEK_GENERATION = Some x \<and> parse_i64 x = Some (slot_generation slots)"
    "log_authentic (w_crypto w) dek0 (en_store s)"
    by simp_all
  then show ?thesis
    using recover_yields [of w u slots s3 dek0 s4] rec(1) dek0 all load_header_mac_InrD [OF mac(1)]
      load_issuance_floor_InrD [OF floor(1)] g
    unfolding unlock_evidence_def header_authentic_def by auto
qed

text \<open>
  C7: the vault is opened only on evidence: whatever the result of an unlock, if the vault was locked
  before and holds a data key after, that key came out of an enabled slot under the credential given,
  it authenticates the whole header with its issuance floor and generation, and the audit log
  verifies and agrees with its anchor.
\<close>

theorem unlock_rests_on_evidence:
  assumes "unlock w u s = (r, t)" "en_vault s = VLocked" "en_vault t = VUnlocked dek"
  shows "unlock_evidence w u dek (en_store s)"
  by (rule opened_on_evidence [OF assms])

section \<open>When an unlock succeeds\<close>

text \<open>What the reads of an unlock return in a world without store faults.\<close>

lemma header_reads:
  assumes "reliable w" "header_authentic (w_crypto w) dek (en_store s)"
  obtains mac floor where
    "\<And>n. load_header_mac w (s\<lparr>en_tick := n\<rparr>) = (Inr mac, s\<lparr>en_tick := Suc n\<rparr>)"
    "\<And>n. load_issuance_floor w (s\<lparr>en_tick := n\<rparr>) = (Inr floor, s\<lparr>en_tick := Suc n\<rparr>)"
    "\<And>n. load_dek_generation w (s\<lparr>en_tick := n\<rparr>) = (Inr (slot_generation (sd_keyslots (en_store s))), s\<lparr>en_tick := Suc n\<rparr>)"
    "verify_header_mac (w_crypto w) dek (sd_keyslots (en_store s)) floor mac"
proof -
  from assms(2) obtain mac_text mac floor_text floor gen_text where
    "sd_meta (en_store s) META_HEADER_MAC = Some mac_text" "hex_decode mac_text = Some mac"
    "sd_meta (en_store s) META_ISSUANCE_FLOOR_MS = Some floor_text" "parse_i64 floor_text = Some floor"
    "verify_header_mac (w_crypto w) dek (sd_keyslots (en_store s)) floor mac"
    "sd_meta (en_store s) META_DEK_GENERATION = Some gen_text"
    "parse_i64 gen_text = Some (slot_generation (sd_keyslots (en_store s)))"
    by (auto simp: header_authentic_def)
  then show thesis
    using assms(1)
    by (intro that [of mac floor])
      (simp_all add: load_header_mac_def load_issuance_floor_def load_dek_generation_def run_simps store_ops)
qed

lemma anchor_check_passes:
  assumes "reliable w" "log_authentic (w_crypto w) dek (en_store s)"
  shows "fst (verify_audit_anchor_with w dek s) = Inr ()"
proof (cases "sd_meta (en_store s) META_AUDIT_HEAD")
  case None
  then show ?thesis
    using assms by (simp add: verify_audit_anchor_with_def log_authentic_def run_simps store_ops verify_audit_chain_def)
next
  case (Some head_text)
  then obtain mac hw_text hw rows where
    "hex_decode head_text = Some mac" "sd_meta (en_store s) META_AUDIT_HIGH_WATER = Some hw_text"
    "parse_i64 hw_text = Some hw" "fst (query_audit 0 USIZE_MAX (en_store s)) = Inr rows"
    "check_anchor (w_crypto w) dek mac hw rows = Inr ()"
    using assms(2) by (auto simp: log_authentic_def)
  then show ?thesis
    using assms Some by (simp add: verify_audit_anchor_with_def log_authentic_def run_simps store_ops
        verify_audit_chain_def lift_result_def)
qed

lemma commit_unlock_runs:
  assumes "reliable w"
  shows "\<exists>t. commit_unlock w f dek s = (Inr Unlocked_state, t) \<and> en_vault t = VUnlocked dek"
proof -
  obtain u where u: "audit_ok w ''vault_unlocked'' None (JObj [(''factor'', JStr (factor_str f))]) s = (Inr (), u)"
    by (rule audit_ok_runs [OF assms])
  let ?v = "u\<lparr>en_vault := VUnlocked dek\<rparr>"
  have "fst (advance_audit_anchor_if_unlocked w ?v) = Inr ()" by (rule advance_ok [OF assms])
  moreover have "en_vault (snd (advance_audit_anchor_if_unlocked w ?v)) = VUnlocked dek"
    using framesD [OF keep.advance, of ?v w] unfolding kept_def by simp
  ultimately show ?thesis
    by (simp add: commit_unlock_def run_simps u run_and_then emit_def)
qed

lemma check_and_commit_runs:
  assumes "reliable w" "verify_header_mac (w_crypto w) dek slots floor mac"
    and "load_dek_generation w s = (Inr (slot_generation slots), v)" "only_ticks s v"
    and "log_authentic (w_crypto w) dek (en_store s)"
  shows "\<exists>t. check_and_commit w f slots mac floor dek s = (Inr Unlocked_state, t) \<and> en_vault t = VUnlocked dek"
proof -
  have "log_authentic (w_crypto w) dek (en_store v)" using assms(4,5) ticks_store by simp
  from anchor_check_passes [OF assms(1) this] obtain u
    where "verify_audit_anchor_with w dek v = (Inr (), u)" by (metis prod.collapse)
  then show ?thesis
    using assms(2,3) commit_unlock_runs [OF assms(1), of f dek u]
    by (simp add: check_and_commit_def run_simps)
qed

lemma unlock_runs:
  assumes w: "reliable w" and locked: "en_vault s = VLocked"
    and rec: "\<forall>n. fst (recover w u (sd_keyslots (en_store s)) (s\<lparr>en_tick := n\<rparr>)) = Inr (Some dek)"
    and header: "header_authentic (w_crypto w) dek (en_store s)"
    and log: "log_authentic (w_crypto w) dek (en_store s)"
  shows "\<exists>t. unlock w u s = (Inr Unlocked_state, t) \<and> en_vault t = VUnlocked dek"
proof -
  obtain mac floor where reads:
    "\<And>n. load_header_mac w (s\<lparr>en_tick := n\<rparr>) = (Inr mac, s\<lparr>en_tick := Suc n\<rparr>)"
    "\<And>n. load_issuance_floor w (s\<lparr>en_tick := n\<rparr>) = (Inr floor, s\<lparr>en_tick := Suc n\<rparr>)"
    "\<And>n. load_dek_generation w (s\<lparr>en_tick := n\<rparr>) = (Inr (slot_generation (sd_keyslots (en_store s))), s\<lparr>en_tick := Suc n\<rparr>)"
    "verify_header_mac (w_crypto w) dek (sd_keyslots (en_store s)) floor mac"
    by (rule header_reads [OF w header]) (rule that)
  let ?s3 = "s\<lparr>en_tick := Suc (Suc (Suc (en_tick s)))\<rparr>"
  obtain s4 where rec4: "recover w u (sd_keyslots (en_store s)) ?s3 = (Inr (Some dek), s4)"
    using rec by (metis prod.collapse)
  then obtain n where s4: "s4 = s\<lparr>en_tick := n\<rparr>"
    using framesD_run [OF ticks_recover rec4] by (auto simp: only_ticks_def)
  have "\<exists>t. check_and_commit w (wanted_factor u) (sd_keyslots (en_store s)) mac floor dek s4 = (Inr Unlocked_state, t)
      \<and> en_vault t = VUnlocked dek"
    unfolding s4
    by (rule check_and_commit_runs [OF w reads(4) reads(3)]) (use log in \<open>auto simp: only_ticks_def\<close>)
  moreover have "unlock w u s = check_and_commit w (wanted_factor u) (sd_keyslots (en_store s)) mac floor dek s4"
    using locked w by (simp add: unlock_def run_gets_then is_unlocked_def run_simps store_ops reads rec4)
  ultimately show ?thesis by simp
qed

section \<open>The evidence is enough\<close>

text \<open>
  What has to be so around the vault: every slot that opens under the credential holds this key, the salts
  and lane counts are such that Argon2 accepts them, and the USB probe always gives the same answer.
\<close>

definition only_key :: "world \<Rightarrow> unlock \<Rightarrow> keyslot list \<Rightarrow> dek \<Rightarrow> bool" where
  "only_key w u slots dek \<longleftrightarrow> (\<forall>slot\<in>set slots. \<forall>d. slot_yields w u slot d \<longrightarrow> d = dek)"

definition slots_sound :: "keyslot list \<Rightarrow> bool" where
  "slots_sound slots \<longleftrightarrow>
     (\<forall>slot\<in>set slots. \<forall>p. ks_kdf slot = Argon2id p \<longrightarrow> 8 \<le> length (ks_salt slot) \<and> unat (ap_p_lanes p) \<le> 16777215)"

definition steady_probe :: "world \<Rightarrow> bool" where
  "steady_probe w \<longleftrightarrow> (\<forall>n m uuid. w_keyfile_for w n uuid = w_keyfile_for w m uuid)"

lemma derivable_accepts:
  assumes "derivable p" "unat (ap_p_lanes p) \<le> 16777215"
  shows "argon2_accepts (ap_m_kib p) (ap_t_cost p) (ap_p_lanes p)"
proof -
  have "8 * unat (ap_p_lanes p) \<le> unat (ap_m_kib p)"
    using assms by (simp add: derivable_def min_def split: if_splits)
  moreover have "1 \<le> ap_t_cost p"
    using assms(1) order_trans [of 1 ARGON2_T_COST_FLOOR] by (simp add: derivable_def ARGON2_T_COST_FLOOR_def)
  ultimately show ?thesis using assms by (simp add: argon2_accepts_def derivable_def word_le_nat_alt)
qed

lemma sound_slot_derives:
  assumes "argon2_total cr" "slots_sound slots" "slot \<in> set slots" "ks_kdf slot = Argon2id p" "derivable p"
  shows "kek_from_passphrase cr pp (ks_salt slot) p \<noteq> None"
proof -
  have "8 \<le> length (ks_salt slot)" "unat (ap_p_lanes p) \<le> 16777215"
    using assms(2-4) by (auto simp: slots_sound_def)
  moreover from this derivable_accepts [OF assms(5)] obtain k where
    "argon2id cr pp (ks_salt slot) (ap_m_kib p) (ap_t_cost p) (ap_p_lanes p) = Some k"
    using assms(1) unfolding argon2_total_def by blast
  ultimately show ?thesis using assms(5) by (simp add: kek_from_passphrase_def derivable_def not_less)
qed

lemma try_passphrase_finds:
  assumes "\<exists>slot\<in>set slots. slot_yields w (UnlockPassphrase pp) slot dek"
    and "only_key w (UnlockPassphrase pp) slots dek"
    and "\<And>slot p. slot \<in> set slots \<Longrightarrow> ks_kdf slot = Argon2id p \<Longrightarrow> derivable p \<Longrightarrow>
      kek_from_passphrase (w_crypto w) (str_bytes pp) (ks_salt slot) p \<noteq> None"
  shows "try_passphrase (w_crypto w) (str_bytes pp) slots = Inr (Some dek)"
  using assms
proof (induction slots)
  case (Cons slot slots)
  let ?wrap = "\<lambda>kek. unwrap_dek (w_crypto w) kek (ks_wrap_nonce slot) (ks_wrapped_dek slot) (keyslot_aad slot)"
  have rest: "try_passphrase (w_crypto w) (str_bytes pp) slots = Inr (Some dek)"
    if "\<not> slot_yields w (UnlockPassphrase pp) slot dek"
    using that Cons.prems by (intro Cons.IH) (auto simp: only_key_def)
  show ?case
  proof (cases "ks_enabled slot \<and> ks_factor slot = Passphrase \<and> (\<exists>p. ks_kdf slot = Argon2id p \<and> derivable p)")
    case True
    then obtain p where p: "ks_enabled slot" "ks_factor slot = Passphrase" "ks_kdf slot = Argon2id p" "derivable p" by blast
    with Cons.prems(3) obtain kek where kek: "kek_from_passphrase (w_crypto w) (str_bytes pp) (ks_salt slot) p = Some kek"
      by (metis list.set_intros(1) not_None_eq)
    have yields: "slot_yields w (UnlockPassphrase pp) slot d \<longleftrightarrow> ?wrap kek = Some d" for d
      using p kek by (auto simp: slot_yields_def)
    show ?thesis
    proof (cases "?wrap kek")
      case None
      with yields rest p kek show ?thesis by simp
    next
      case (Some d)
      with yields Cons.prems(2) have "d = dek" by (simp add: only_key_def)
      with Some p kek show ?thesis by simp
    qed
  next
    case False
    then have "\<not> slot_yields w (UnlockPassphrase pp) slot dek" by (auto simp: slot_yields_def)
    with rest False show ?thesis by (auto split: kdf.split)
  qed
qed simp

lemma try_usb_finds:
  assumes "\<exists>slot\<in>set slots. slot_yields w UnlockUsb slot dek" "only_key w UnlockUsb slots dek" "steady_probe w"
  shows "fst (try_usb w slots s) = Inr (Some dek)"
  using assms
proof (induction slots arbitrary: s)
  case (Cons slot slots)
  let ?wrap = "\<lambda>keyfile. unwrap_dek (w_crypto w) (kek_from_usb (w_crypto w) keyfile (ks_salt slot))
      (ks_wrap_nonce slot) (ks_wrapped_dek slot) (keyslot_aad slot)"
  have rest: "fst (try_usb w slots v) = Inr (Some dek)" if "\<not> slot_yields w UnlockUsb slot dek" for v
    using that Cons.prems by (intro Cons.IH) (auto simp: only_key_def)
  show ?case
  proof (cases "ks_enabled slot \<and> ks_factor slot = Usb \<and> (\<exists>uuid. ks_usb_partition_uuid slot = Some uuid)")
    case True
    then obtain uuid where uuid: "ks_enabled slot" "ks_factor slot = Usb" "ks_usb_partition_uuid slot = Some uuid" by blast
    have yields: "slot_yields w UnlockUsb slot d \<longleftrightarrow> (\<exists>keyfile. w_keyfile_for w (en_tick s) uuid = Some keyfile \<and> ?wrap keyfile = Some d)" for d
      using uuid Cons.prems(3) by (auto simp: slot_yields_def steady_probe_def) metis+
    show ?thesis
    proof (cases "\<exists>keyfile d. w_keyfile_for w (en_tick s) uuid = Some keyfile \<and> ?wrap keyfile = Some d")
      case True
      then obtain keyfile d where found: "w_keyfile_for w (en_tick s) uuid = Some keyfile" "?wrap keyfile = Some d" by blast
      with yields Cons.prems(2) have "d = dek" by (auto simp: only_key_def)
      with found uuid show ?thesis by (simp add: keyfile_for_def run_simps)
    next
      case False
      with yields have "\<not> slot_yields w UnlockUsb slot dek" by blast
      with rest False uuid show ?thesis by (auto simp: keyfile_for_def run_simps split: option.split)
    qed
  next
    case False
    then have "\<not> slot_yields w UnlockUsb slot dek" by (auto simp: slot_yields_def)
    with rest False show ?thesis by (auto split: option.split)
  qed
qed simp

lemma recover_finds:
  assumes "\<exists>slot\<in>set slots. slot_yields w u slot dek" "only_key w u slots dek"
    and "argon2_total (w_crypto w)" "slots_sound slots" "steady_probe w"
  shows "fst (recover w u slots s) = Inr (Some dek)"
proof (cases u)
  case (UnlockPassphrase pp)
  have "try_passphrase (w_crypto w) (str_bytes pp) slots = Inr (Some dek)"
    using assms(1,2) sound_slot_derives [OF assms(3,4)] unfolding UnlockPassphrase by (intro try_passphrase_finds)
  then show ?thesis by (simp add: UnlockPassphrase lift_result_def)
next
  case UnlockUsb
  then show ?thesis using assms try_usb_finds by simp
qed

text \<open>
  C27: conversely, in a world whose store does not fail, the evidence is enough: a locked vault with an
  enabled slot that yields a key under the credential, and whose header and log authenticate under that
  key, is opened by the unlock and holds the key; provided that no other slot yields another key, that
  Argon2 accepts the parameters of the slots, and that the USB stick is not plugged in or out meanwhile.
\<close>

theorem unlock_succeeds_on_evidence:
  assumes "reliable w" "en_vault s = VLocked" and evidence: "unlock_evidence w u dek (en_store s)"
    and around: "only_key w u (sd_keyslots (en_store s)) dek" "argon2_total (w_crypto w)"
      "slots_sound (sd_keyslots (en_store s))" "steady_probe w"
  shows "\<exists>t. unlock w u s = (Inr Unlocked_state, t) \<and> en_vault t = VUnlocked dek"
  using evidence recover_finds [OF _ around] unfolding unlock_evidence_def
  by (intro unlock_runs [OF assms(1,2)]) auto

section \<open>A fault while the anchor is advanced\<close>

text \<open>
  Two worlds that differ in the faults of the store from the \<open>k\<close>-th interaction on: an operation that is
  over by then runs in both alike.
\<close>

definition same_until :: "nat \<Rightarrow> 'a op \<Rightarrow> 'a op \<Rightarrow> bool" where
  "same_until k m m' \<longleftrightarrow>
     (\<forall>s. en_tick s \<le> en_tick (snd (m s)) \<and> (en_tick (snd (m s)) \<le> k \<longrightarrow> m' s = m s))"

named_theorems same_rules "operations that run alike until a fault"

lemma same_until_run: "same_until k m m' \<Longrightarrow> m s = (r, t) \<Longrightarrow> en_tick t \<le> k \<Longrightarrow> m' s = (r, t)"
  by (metis same_until_def snd_conv)

lemma same_until_mono: "same_until k m m' \<Longrightarrow> m s = (r, t) \<Longrightarrow> en_tick s \<le> en_tick t"
  by (metis same_until_def snd_conv)

lemma same_pure [same_rules]:
  "same_until k (ok_act x) (ok_act x)" "same_until k (fail_act e) (fail_act e)"
  "same_until k (lift_result r) (lift_result r)"
  by (simp_all add: same_until_def run_simps lift_result_def)

lemma same_and_then [same_rules]:
  assumes "same_until k m m'" "\<And>x. same_until k (f x) (f' x)"
  shows "same_until k (and_then m f) (and_then m' f')"
  unfolding same_until_def
proof (intro allI conjI impI)
  fix s
  obtain r t where run: "m s = (r, t)" by fastforce
  note mono = same_until_mono [OF assms(1) run]
  have later: "en_tick t \<le> en_tick (snd (f x t))" for x
    using assms(2) [of x] by (simp add: same_until_def)
  show "en_tick s \<le> en_tick (snd (and_then m f s))"
    using mono order_trans [OF mono later] by (cases r) (simp_all add: and_then_def run)
  assume k: "en_tick (snd (and_then m f s)) \<le> k"
  have "en_tick t \<le> k" using k order_trans [OF later] by (cases r) (simp_all add: and_then_def run)
  then have "m' s = (r, t)" by (rule same_until_run [OF assms(1) run])
  with k assms(2) show "and_then m' f' s = and_then m f s"
    by (cases r) (auto simp: and_then_def run same_until_def)
qed

lemma same_option [same_rules]:
  "same_until k m m' \<Longrightarrow> (\<And>x. same_until k (f x) (f' x)) \<Longrightarrow>
   same_until k (case y of None \<Rightarrow> m | Some x \<Rightarrow> f x) (case y of None \<Rightarrow> m' | Some x \<Rightarrow> f' x)"
  by (cases y) auto

lemma same_if [same_rules]:
  "same_until k m m' \<Longrightarrow> same_until k n n' \<Longrightarrow> same_until k (if b then m else n) (if b then m' else n')"
  by simp

lemma same_keyfile [same_rules]: "same_until k (keyfile_for w uuid) (keyfile_for (w\<lparr>w_store_fault := f\<rparr>) uuid)"
  by (simp add: same_until_def keyfile_for_def outside_def)

lemma same_store_call [same_rules]:
  assumes "\<And>n. n < k \<Longrightarrow> f n = w_store_fault w n"
  shows "same_until k (store_call w m) (store_call (w\<lparr>w_store_fault := f\<rparr>) m)"
  unfolding same_until_def
proof (intro allI conjI impI)
  fix s
  have tick: "en_tick (snd (store_call w m s)) = Suc (en_tick s)"
    by (simp add: store_call_def Let_def split: option.split)
  then show "en_tick s \<le> en_tick (snd (store_call w m s))" by simp
  assume "en_tick (snd (store_call w m s)) \<le> k"
  then have "f (en_tick s) = w_store_fault w (en_tick s)" using tick assms by simp
  then show "store_call (w\<lparr>w_store_fault := f\<rparr>) m s = store_call w m s" by (simp add: store_call_def)
qed

lemma same_loads:
  assumes "\<And>n. n < k \<Longrightarrow> f n = w_store_fault w n"
  shows "same_until k (load_header_mac w) (load_header_mac (w\<lparr>w_store_fault := f\<rparr>))"
    "same_until k (load_issuance_floor w) (load_issuance_floor (w\<lparr>w_store_fault := f\<rparr>))"
    "same_until k (load_dek_generation w) (load_dek_generation (w\<lparr>w_store_fault := f\<rparr>))"
  unfolding load_header_mac_def load_issuance_floor_def load_dek_generation_def
  by (intro same_rules assms; assumption)+

lemma same_recover: "same_until k (recover w u slots) (recover (w\<lparr>w_store_fault := f\<rparr>) u slots)"
proof (cases u)
  case UnlockUsb
  have "same_until k (try_usb w slots) (try_usb (w\<lparr>w_store_fault := f\<rparr>) slots)"
    by (induction slots) (auto intro!: same_rules)
  then show ?thesis by (simp add: UnlockUsb)
qed (simp add: same_pure)

lemma same_verify_anchor:
  assumes "\<And>n. n < k \<Longrightarrow> f n = w_store_fault w n"
  shows "same_until k (verify_audit_anchor_with w dek) (verify_audit_anchor_with (w\<lparr>w_store_fault := f\<rparr>) dek)"
proof -
  have "w_crypto (w\<lparr>w_store_fault := f\<rparr>) = w_crypto w" by simp
  then show ?thesis
    unfolding verify_audit_anchor_with_def by (simp only:) (intro same_rules assms; assumption)
qed

text \<open>The commit of a locked vault: two interactions for the audit row, and four store calls for the anchor.\<close>

lemma commit_unlock_ticks:
  assumes "reliable w" "en_vault s = VLocked" "commit_unlock w fac dek s = (r, t)"
  shows "en_tick t = en_tick s + 6" "en_vault t = VUnlocked dek"
  using assms
  by (auto simp: commit_unlock_def audit_ok_def audit_def now_rfc3339_def outside_def run_simps Let_def
      append_audit_def advance_audit_anchor_if_unlocked_def emit_def write_audit_anchor_def store_ops)

lemma commit_unlock_fault:
  assumes "reliable w" "en_vault s = VLocked" "k \<in> {en_tick s + 2 ..< en_tick s + 6}"
  shows "\<exists>t. commit_unlock (w\<lparr>w_store_fault := (\<lambda>n. if n = k then Some (took_effect, msg) else None)\<rparr>) fac dek s
      = (Inl (StoreFault msg), t) \<and> en_vault t = VUnlocked dek"
proof -
  have "k = Suc (Suc (en_tick s)) \<or> k = Suc (Suc (Suc (en_tick s))) \<or> k = Suc (Suc (Suc (Suc (en_tick s))))
      \<or> k = Suc (Suc (Suc (Suc (Suc (en_tick s)))))"
    using assms(3) by auto
  with assms(1,2) show ?thesis
    by (elim disjE) (simp_all add: commit_unlock_def audit_ok_def audit_def now_rfc3339_def outside_def run_simps
      Let_def store_call_def append_audit_def advance_audit_anchor_if_unlocked_def emit_def write_audit_anchor_def store_ops)
qed

text \<open>An unlock that succeeds has a commit at its end, and what runs before is alike until the fault.\<close>

lemma same_step:
  assumes "and_then m g s = (Inr x, t)" "same_until k m m'" "frames only_ticks m"
  obtains y v where "m s = (Inr y, v)" "g y v = (Inr x, t)" "only_ticks s v" "en_tick s \<le> en_tick v"
    "en_tick v \<le> k \<Longrightarrow> m' s = (Inr y, v)"
proof -
  obtain y v where run: "m s = (Inr y, v)" "g y v = (Inr x, t)" using assms(1) by (rule and_then_InrE)
  show thesis
  proof (rule that [OF run])
    show "only_ticks s v" by (rule framesD_run [OF assms(3) run(1)])
    show "en_tick s \<le> en_tick v" by (rule same_until_mono [OF assms(2) run(1)])
    show "m' s = (Inr y, v)" if "en_tick v \<le> k" by (rule same_until_run [OF assms(2) run(1) that])
  qed
qed

lemma fail_audited_fails: "fail_audited w d e s \<noteq> (Inr x, t)"
  by (auto simp: fail_audited_def run_simps elim!: and_then_InrE)

lemma check_and_commit_commits:
  assumes run: "check_and_commit w fac slots mac floor dek s = (Inr x, t)"
    and before: "\<And>n. n < k \<Longrightarrow> f n = w_store_fault w n"
  obtains v where "commit_unlock w fac dek v = (Inr x, t)" "only_ticks s v" "en_tick s \<le> en_tick v"
    "en_tick v \<le> k \<Longrightarrow> check_and_commit (w\<lparr>w_store_fault := f\<rparr>) fac slots mac floor dek s
      = commit_unlock (w\<lparr>w_store_fault := f\<rparr>) fac dek v"
proof -
  let ?w = "w\<lparr>w_store_fault := f\<rparr>"
  have header: "verify_header_mac (w_crypto w) dek slots floor mac"
    using run by (auto simp: check_and_commit_def fail_audited_fails split: if_splits)
  from run header obtain gen u where gen: "only_ticks s u" "en_tick s \<le> en_tick u"
    "en_tick u \<le> k \<Longrightarrow> load_dek_generation ?w s = (Inr gen, u)"
    and rest: "(if gen \<noteq> slot_generation slots then
            fail_audited w (JObj [(''reason'', JStr ''dek_generation'')]) (Engine HeaderMacMismatch)
          else
            match_result (verify_audit_anchor_with w dek)
              (\<lambda>e. fail_audited w (JObj [(''reason'', JStr ''audit_chain'')]) e)
              (\<lambda>_. commit_unlock w fac dek)) u = (Inr x, t)"
    by (auto simp: check_and_commit_def elim!: same_step [OF _ same_loads(3) [OF before] ticks_loads(2)])
  have same: "gen = slot_generation slots" using rest by (auto simp: fail_audited_fails split: if_splits)
  obtain r v where check: "verify_audit_anchor_with w dek u = (r, v)" by fastforce
  with rest same have "r = Inr ()" and commit: "commit_unlock w fac dek v = (Inr x, t)"
    by (cases r; simp add: match_result_def fail_audited_fails)+
  note alike = same_verify_anchor [where dek = dek, OF before]
  have v: "only_ticks u v" "en_tick u \<le> en_tick v"
    using framesD_run [OF ticks_verify_anchor check] same_until_mono [OF alike check] by simp_all
  show thesis
  proof (rule that [OF commit])
    show "only_ticks s v" by (rule ticks.trans_R [OF gen(1) v(1)])
    show "en_tick s \<le> en_tick v" using gen(2) v(2) by simp
    assume k: "en_tick v \<le> k"
    with v(2) have u: "en_tick u \<le> k" by simp
    have "verify_audit_anchor_with ?w dek u = (Inr (), v)"
      using same_until_run [OF alike check k] \<open>r = Inr ()\<close> by simp
    with u header same show "check_and_commit ?w fac slots mac floor dek s = commit_unlock ?w fac dek v"
      by (simp add: check_and_commit_def gen(3) run_simps)
  qed
qed

lemma unlock_commits:
  assumes run: "unlock w u s = (Inr x, t)" and locked: "en_vault s = VLocked"
    and before: "\<And>n. n < k \<Longrightarrow> f n = w_store_fault w n"
  obtains v dek where "commit_unlock w (wanted_factor u) dek v = (Inr x, t)" "en_vault v = VLocked"
    "en_tick v \<le> k \<Longrightarrow>
      unlock (w\<lparr>w_store_fault := f\<rparr>) u s = commit_unlock (w\<lparr>w_store_fault := f\<rparr>) (wanted_factor u) dek v"
proof -
  let ?w = "w\<lparr>w_store_fault := f\<rparr>"
  let ?unlock = "\<lambda>w. and_then (store_call w load_keyslots) (\<lambda>slots.
         and_then (load_header_mac w) (\<lambda>stored_mac.
         and_then (load_issuance_floor w) (\<lambda>issuance_floor_ms.
         and_then (recover w u slots) (\<lambda>recovered.
           case recovered of
             None \<Rightarrow> fail_audited w (JObj []) (Engine UnlockFailed)
           | Some dek \<Rightarrow> check_and_commit w (wanted_factor u) slots stored_mac issuance_floor_ms dek))))"
  have shape: "unlock w' u s = ?unlock w' s" for w'
    using locked by (simp add: unlock_def run_gets_then is_unlocked_def)
  from run obtain slots s1 where s1: "only_ticks s s1" "en_tick s \<le> en_tick s1"
      "en_tick s1 \<le> k \<Longrightarrow> store_call ?w load_keyslots s = (Inr slots, s1)"
    and "and_then (load_header_mac w) (\<lambda>stored_mac.
         and_then (load_issuance_floor w) (\<lambda>issuance_floor_ms.
         and_then (recover w u slots) (\<lambda>recovered.
           case recovered of
             None \<Rightarrow> fail_audited w (JObj []) (Engine UnlockFailed)
           | Some dek \<Rightarrow> check_and_commit w (wanted_factor u) slots stored_mac issuance_floor_ms dek))) s1 = (Inr x, t)"
    unfolding shape by (rule same_step [OF _ same_store_call [OF before] ticks_store_call]) (auto intro: reads_ops)
  then obtain mac s2 where s2: "only_ticks s1 s2" "en_tick s1 \<le> en_tick s2"
      "en_tick s2 \<le> k \<Longrightarrow> load_header_mac ?w s1 = (Inr mac, s2)"
    and "and_then (load_issuance_floor w) (\<lambda>issuance_floor_ms.
         and_then (recover w u slots) (\<lambda>recovered.
           case recovered of
             None \<Rightarrow> fail_audited w (JObj []) (Engine UnlockFailed)
           | Some dek \<Rightarrow> check_and_commit w (wanted_factor u) slots mac issuance_floor_ms dek)) s2 = (Inr x, t)"
    by (elim same_step [OF _ same_loads(1) [OF before]]) (auto intro: ticks_loads)
  then obtain floor s3 where s3: "only_ticks s2 s3" "en_tick s2 \<le> en_tick s3"
      "en_tick s3 \<le> k \<Longrightarrow> load_issuance_floor ?w s2 = (Inr floor, s3)"
    and "and_then (recover w u slots) (\<lambda>recovered.
           case recovered of
             None \<Rightarrow> fail_audited w (JObj []) (Engine UnlockFailed)
           | Some dek \<Rightarrow> check_and_commit w (wanted_factor u) slots mac floor dek) s3 = (Inr x, t)"
    by (elim same_step [OF _ same_loads(2) [OF before]]) (auto intro: ticks_loads)
  then obtain recovered s4 where s4: "only_ticks s3 s4" "en_tick s3 \<le> en_tick s4"
      "en_tick s4 \<le> k \<Longrightarrow> recover ?w u slots s3 = (Inr recovered, s4)"
    and rest: "(case recovered of
             None \<Rightarrow> fail_audited w (JObj []) (Engine UnlockFailed)
           | Some dek \<Rightarrow> check_and_commit w (wanted_factor u) slots mac floor dek) s4 = (Inr x, t)"
    by (elim same_step [OF _ same_recover [where k = k and f = f] ticks_recover]) blast
  from rest obtain dek where dek: "recovered = Some dek"
    and check: "check_and_commit w (wanted_factor u) slots mac floor dek s4 = (Inr x, t)"
    by (cases recovered) (simp_all add: fail_audited_fails)
  obtain v where commit: "commit_unlock w (wanted_factor u) dek v = (Inr x, t)"
    and v: "only_ticks s4 v" "en_tick s4 \<le> en_tick v"
      "en_tick v \<le> k \<Longrightarrow> check_and_commit ?w (wanted_factor u) slots mac floor dek s4 = commit_unlock ?w (wanted_factor u) dek v"
    using check_and_commit_commits [OF check, where k = k and f = f] before by blast
  have "en_vault v = VLocked"
    using locked ticks_vault [OF s1(1)] ticks_vault [OF s2(1)] ticks_vault [OF s3(1)] ticks_vault [OF s4(1)]
      ticks_vault [OF v(1)] by simp
  then show thesis
  proof (rule that [OF commit])
    assume "en_tick v \<le> k"
    then show "unlock ?w u s = commit_unlock ?w (wanted_factor u) dek v"
      using s2(2) s3(2) s4(2) v(2) by (simp add: shape s1(3) s2(3) s3(3) s4(3) dek v(3) run_simps)
  qed
qed

text \<open>
  C28: the anchor is advanced after the key is put into memory. So when, in an unlock that would succeed,
  the medium under the store fails at any one of the four store calls that advance the anchor, whether or
  not that call took effect, the unlock reports the error and yet leaves the vault unlocked with its key.
\<close>

theorem anchor_fault_leaves_vault_open:
  assumes "reliable w" "en_vault s = VLocked" "unlock w u s = (Inr x, t)"
    and "k \<in> {en_tick t - 4 ..< en_tick t}"
  shows "\<exists>t' dek. unlock (w\<lparr>w_store_fault := (\<lambda>n. if n = k then Some (took_effect, msg) else None)\<rparr>) u s
      = (Inl (StoreFault msg), t') \<and> en_vault t' = VUnlocked dek \<and> en_vault t = VUnlocked dek"
proof -
  let ?f = "\<lambda>n. if n = k then Some (took_effect, msg) else None"
  have alike: "?f n = w_store_fault w n" if "n < k" for n using that assms(1) by (simp add: reliable_def)
  obtain v dek where commit: "commit_unlock w (wanted_factor u) dek v = (Inr x, t)" "en_vault v = VLocked"
    and same: "en_tick v \<le> k \<Longrightarrow>
      unlock (w\<lparr>w_store_fault := ?f\<rparr>) u s = commit_unlock (w\<lparr>w_store_fault := ?f\<rparr>) (wanted_factor u) dek v"
    using unlock_commits [OF assms(3,2), where k = k and f = ?f] alike by blast
  note ticks = commit_unlock_ticks [OF assms(1) commit(2,1)]
  with commit_unlock_fault [OF assms(1) commit(2), of k took_effect msg "wanted_factor u" dek] same assms(4)
  show ?thesis by auto
qed

end
