(* ===== verification/EngineSecrets.thy ===== *)
theory EngineSecrets
  imports EngineLive
begin

text \<open>
  Secrets: what \<open>secret_get\<close> may hand out in any world, and that a stored secret is read back.
\<close>

section \<open>What a read may return\<close>

lemma reveal_secret_InrD:
  "reveal_secret w name apply_flag row plaintext s = (Inr out, t) \<Longrightarrow>
     \<not> sr_broker_only row \<and> apply_flag \<and> out = plaintext"
  by (auto simp: reveal_secret_def run_simps elim!: and_then_InrE split: if_splits)

lemma read_unrevealed_InrD: "read_unrevealed w name row s = (Inr out, t) \<Longrightarrow> out = []"
  by (auto simp: read_unrevealed_def run_simps elim!: and_then_InrE)

text \<open>
  In any state and world, a read that succeeds returns nothing unless a reveal was asked for;
  then the reveal was applied, and the read returns the plaintext of the latest version, which is not broker-only and which
  authenticates under the row's own identity and the unlocked vault's key.
\<close>

lemma secret_get_reveals:
  assumes "secret_get w name reveal apply_flag s = (Inr out, t)" "out \<noteq> [] \<or> reveal"
  shows "reveal \<and> apply_flag
    \<and> (\<exists>dek row. en_vault s = VUnlocked dek \<and> found (get_secret_latest name) (en_store s) = Some row
        \<and> \<not> sr_broker_only row
        \<and> open_sealed (w_crypto w) dek (record_aad_of row) (sr_nonce row) (sr_ct_tag row) = Some out)"
proof -
  obtain dek where dek: "en_vault s = VUnlocked dek"
    using assms(1) by (cases "en_vault s") (auto simp: secret_get_def require_dek_def run_simps)
  then have "require_dek s = (Inr dek, s)" by (simp add: require_dek_def)
  with assms(1) obtain r s1 where load: "store_call w (get_secret_latest name) s = (Inr r, s1)" and
    rest: "(case r of
         None \<Rightarrow>
           and_then (audit_failed w ''secret_read'' (Some name) (JObj [(''reason'', JStr ''not_found'')])) (\<lambda>_.
             fail_act (Bail (''unknown secret '' @ [CHR 0x27] @ name @ [CHR 0x27])))
       | Some row \<Rightarrow>
         (case open_sealed (w_crypto w) dek (record_aad_of row) (sr_nonce row) (sr_ct_tag row) of
            None \<Rightarrow>
              and_then (audit_failed w ''secret_read'' (Some name)
                (JObj [(''reason'', JStr ''tamper''), (''version'', JInt (uint (sr_version row)))])) (\<lambda>_.
                fail_act (Bail (''secret '' @ [CHR 0x27] @ name @ [CHR 0x27]
                  @ '' failed authentication (tampered or corrupt)'')))
          | Some plaintext \<Rightarrow>
              if reveal then reveal_secret w name apply_flag row plaintext
              else read_unrevealed w name row)) s1 = (Inr out, t)"
    unfolding secret_get_def by (auto simp only: run_simps elim!: and_then_InrE)
  obtain row where row: "r = Some row"
    using rest by (cases r) (auto simp: run_simps elim!: and_then_InrE)
  obtain plaintext where pt: "open_sealed (w_crypto w) dek (record_aad_of row) (sr_nonce row) (sr_ct_tag row) = Some plaintext"
    using rest row
    by (cases "open_sealed (w_crypto w) dek (record_aad_of row) (sr_nonce row) (sr_ct_tag row)")
      (auto simp: run_simps elim!: and_then_InrE)
  have "reveal" using rest row pt assms(2) by (auto dest: read_unrevealed_InrD split: if_splits)
  with rest row pt have "\<not> sr_broker_only row \<and> apply_flag \<and> out = plaintext"
    by (auto dest: reveal_secret_InrD)
  moreover have "found (get_secret_latest name) (en_store s) = Some row"
    using store_call_InrD [OF load] row by (simp add: found_def)
  ultimately show ?thesis using \<open>reveal\<close> dek pt by blast
qed

section \<open>A stored secret is read back\<close>

definition random_lengths :: "world \<Rightarrow> bool" where
  "random_lengths w \<longleftrightarrow> (\<forall>k n. length (w_random w k n) = n)"

lemma load_dek_generation_run:
  "reliable w \<Longrightarrow> sd_meta (en_store s) META_DEK_GENERATION = Some (i64_to_string g) \<Longrightarrow>
   load_dek_generation w s = (Inr g, s\<lparr>en_tick := Suc (en_tick s)\<rparr>)"
  by (simp add: load_dek_generation_def run_simps store_ops parse_i64_to_string)

lemma max_secret_version_run:
  assumes "reliable w" "secrets_ok (en_store s)"
  shows "store_call w (max_secret_version name) s
    = (Inr (word_of_nat (length (history name (en_store s)))), s\<lparr>en_tick := Suc (en_tick s)\<rparr>)"
proof -
  have c: "counted (history name (en_store s))" using assms(2) by (rule secrets_ok_counted)
  have "(case max_version (versions_of name (en_store s)) of None \<Rightarrow> 0 | Some m \<Rightarrow> m)
      = word_of_nat (length (history name (en_store s)))"
    using word_of_length_history [OF c] by (simp add: versions_of_history max_version_counted [OF c] split: if_splits)
  then show ?thesis using assms(1) by (simp add: run_simps store_ops)
qed

text \<open>The row a put seals into a store, from the nonce and the time it draws.\<close>

definition put_row ::
  "crypto \<Rightarrow> dek \<Rightarrow> i64 \<Rightarrow> secret_meta \<Rightarrow> bytes \<Rightarrow> in_mem_data \<Rightarrow> bytes \<Rightarrow> string \<Rightarrow> secret_row" where
  "put_row cr dek g m body d nonce ts =
     (let row_id = sd_next_secret_row_id d + 1;
          version = word_of_nat (length (history (sm_name m) d)) + 1 in
      \<lparr>sr_row_id = row_id, sr_name = sm_name m, sr_version = version, sr_provider = sm_provider m,
       sr_note = sm_note m, sr_broker_only = sm_broker_only m, sr_dek_generation = g,
       sr_nonce = nonce,
       sr_ct_tag = snd (seal cr nonce dek (record_aad SecretVersion row_id (ucast version) g) body),
       sr_created_ts = ts\<rparr>)"

lemma put_row_fields [simp]:
  "sr_row_id (put_row cr dek g m body d nonce ts) = sd_next_secret_row_id d + 1"
  "sr_name (put_row cr dek g m body d nonce ts) = sm_name m"
  "sr_version (put_row cr dek g m body d nonce ts) = word_of_nat (length (history (sm_name m) d)) + 1"
  "sr_broker_only (put_row cr dek g m body d nonce ts) = sm_broker_only m"
  "sr_nonce (put_row cr dek g m body d nonce ts) = nonce"
  by (simp_all add: put_row_def Let_def)

lemma put_row_opens:
  assumes "aead_inverts cr" "length nonce = 24" "length dek = 32"
  shows "open_sealed cr dek (record_aad_of (put_row cr dek g m body d nonce ts))
    nonce (sr_ct_tag (put_row cr dek g m body d nonce ts)) = Some body"
  using open_seal [OF assms(1,3,2), of "record_aad_of (put_row cr dek g m body d nonce ts)" body]
  by (simp add: put_row_def record_aad_of_def Let_def)

lemma secret_put_prefix:
  fixes s :: engine and body :: bytes
  assumes rel: "reliable w" and v: "en_vault s = VUnlocked dek"
    and gen: "sd_meta (en_store s) META_DEK_GENERATION = Some (i64_to_string g)"
    and ok: "secrets_ok (en_store s)" and lens: "random_lengths w"
  obtains nonce ts n where "length nonce = 24"
    "secret_put w m body s = store_sealed w (put_row (w_crypto w) dek g m body (en_store s) nonce ts)
       (s\<lparr>en_store := snd (reserve_secret_row_id (en_store s)), en_tick := n\<rparr>)"
proof -
  let ?s = "\<lambda>n. s\<lparr>en_tick := n\<rparr>"
  have load: "load_dek_generation w s = (Inr g, ?s (Suc (en_tick s)))"
    using load_dek_generation_run [OF rel gen] .
  have top: "store_call w (max_secret_version (sm_name m)) (?s (Suc (en_tick s)))
      = (Inr (word_of_nat (length (history (sm_name m) (en_store s)))), ?s (Suc (Suc (en_tick s))))"
    using max_secret_version_run [OF rel, of "?s (Suc (en_tick s))"] ok by simp
  have reserve: "store_call w reserve_secret_row_id (?s n)
      = (Inr (sd_next_secret_row_id (en_store s) + 1),
         s\<lparr>en_tick := Suc n, en_store := snd (reserve_secret_row_id (en_store s))\<rparr>)" for n
    using rel by (simp add: run_simps reserve_secret_row_id_def Let_def)
  let ?n = "Suc (Suc (Suc (en_tick s)))"
  have "secret_put w m body s = store_sealed w
      (put_row (w_crypto w) dek g m body (en_store s) (w_random w ?n 24) (w_now_rfc3339 w (Suc ?n)))
      (s\<lparr>en_store := snd (reserve_secret_row_id (en_store s)), en_tick := Suc (Suc ?n)\<rparr>)"
    by (simp add: secret_put_def require_dek_def v run_simps load top reserve random_bytes_def
        now_rfc3339_def Let_def put_row_def seal_def)
  moreover have "length (w_random w ?n 24) = 24" using lens by (simp add: random_lengths_def)
  ultimately show thesis using that by blast
qed

lemma secret_put_run:
  fixes s :: engine and body :: bytes
  assumes rel: "reliable w" and v: "en_vault s = VUnlocked dek"
    and gen: "sd_meta (en_store s) META_DEK_GENERATION = Some (i64_to_string g)"
    and ok: "secrets_ok (en_store s)" and lens: "random_lengths w"
    and ids: "sint (sd_next_secret_row_id (en_store s)) < i64_max"
    and room: "length (history (sm_name m) (en_store s)) < 4294967295"
  obtains row nonce ts t where "row = put_row (w_crypto w) dek g m body (en_store s) nonce ts"
    "length nonce = 24"
    "secret_put w m body s = (Inr (), t)" "secrets_ok (en_store t)" "en_vault t = VUnlocked dek"
    "\<And>name. history name (en_store t) = history name (en_store s) @ (if sm_name m = name then [row] else [])"
    "sd_meta (en_store t) META_DEK_GENERATION = Some (i64_to_string g)"
proof -
  obtain nonce ts n where nonce: "length nonce = 24" and
    run: "secret_put w m body s = store_sealed w (put_row (w_crypto w) dek g m body (en_store s) nonce ts)
       (s\<lparr>en_store := snd (reserve_secret_row_id (en_store s)), en_tick := n\<rparr>)"
    using secret_put_prefix [OF rel v gen ok lens] by blast
  define row where "row = put_row (w_crypto w) dek g m body (en_store s) nonce ts"
  obtain g1 where res: "reserve_secret_row_id (en_store s) = (Inr (sr_row_id row), g1)"
    by (simp add: reserve_secret_row_id_def Let_def row_def)
  obtain r g2 where put: "put_secret row g1 = (r, g2)" by (metis surj_pair)
  have stored: "r = Inr (sr_row_id row)" "secrets_ok g2"
    "\<And>name. history name g2 = history name (en_store s) @ (if sm_name m = name then [row] else [])"
    using reserve_then_put [OF ok ids _ res _ _ put] room by (simp_all add: row_def)
  have meta: "sd_meta g2 = sd_meta (en_store s)"
    using res put by (auto simp: reserve_secret_row_id_def put_secret_def Let_def split: if_splits)
  let ?u = "s\<lparr>en_store := g2, en_tick := Suc n\<rparr>"
  obtain t where aud: "audit_ok w ''secret_written'' (Some (sr_name row))
      (JObj [(''version'', JInt (uint (sr_version row)))]) ?u = (Inr (), t)" "kept ?u t"
    using audit_ok_runs [OF rel] by blast
  have "store_call w (put_secret row) (s\<lparr>en_store := g1, en_tick := n\<rparr>) = (Inr (sr_row_id row), ?u)"
    using rel by (simp add: run_simps put stored(1))
  then have fin: "secret_put w m body s
      = (Inr (), t\<lparr>en_events := en_events t @ [EvSecretWritten (sr_name row) (sr_version row)]\<rparr>)"
    unfolding run res row_def [symmetric] store_sealed_def using aud(1) by (simp add: run_simps del: put_row_fields)
  have k: "data_kept g2 (en_store t)" "en_vault t = VUnlocked dek"
    using aud(2) v by (simp_all add: kept_def)
  from k(1) have same: "sd_secrets (en_store t) = sd_secrets g2"
    "sd_next_secret_row_id (en_store t) = sd_next_secret_row_id g2"
    "sd_meta (en_store t) META_DEK_GENERATION = sd_meta g2 META_DEK_GENERATION"
    by (simp_all add: data_kept_def)
  have h: "history name (en_store t) = history name g2" for name by (simp add: history_def same)
  have ok2: "secrets_ok (en_store t)"
    using stored(2) by (simp add: secrets_ok_def h same)
  show thesis
    by (rule that [OF row_def nonce fin]) (use ok2 k(2) h stored(3) same(3) meta gen in simp_all)
qed

text \<open>What a revealing read returns, when the latest row opens.\<close>

definition revealed :: "secret_row \<Rightarrow> bytes \<Rightarrow> any_error + bytes" where
  "revealed row body =
     (if sr_broker_only row
      then Inl (Bail (''reveal refused: '' @ [CHR 0x27] @ sr_name row @ [CHR 0x27] @ '' is broker-only''))
      else Inr body)"

lemma refuse_runs: "reliable w \<Longrightarrow> \<exists>t. refuse w ev subj why s = (Inr (), t)"
proof -
  assume rel: "reliable w"
  obtain t where "audit w ev (Some subj) (JObj [(''reason'', JStr why)]) Refused s = (Inr (), t)"
    using audit_runs [OF rel] by blast
  then show ?thesis by (simp add: refuse_def run_simps)
qed

lemma secret_get_reveals_latest:
  fixes s :: engine
  assumes rel: "reliable w" and v: "en_vault s = VUnlocked dek"
    and latest: "found (get_secret_latest name) (en_store s) = Some row" "sr_name row = name"
    and opens: "open_sealed (w_crypto w) dek (record_aad_of row) (sr_nonce row) (sr_ct_tag row) = Some body"
  shows "fst (secret_get w name True True s) = revealed row body"
proof -
  let ?s = "s\<lparr>en_tick := Suc (en_tick s)\<rparr>"
  have load: "store_call w (get_secret_latest name) s = (Inr (Some row), ?s)"
    using rel latest(1) by (simp add: run_simps store_ops)
  obtain t where ref: "refuse w ''secret_read'' name ''reveal refused: secret is broker-only'' ?s = (Inr (), t)"
    using refuse_runs [OF rel] by blast
  obtain u where aud: "audit_ok w ''secret_read'' (Some name)
      (JObj [(''version'', JInt (uint (sr_version row))), (''revealed'', JBool True)]) ?s = (Inr (), u)"
    using audit_ok_runs [OF rel] by blast
  have "require_dek s = (Inr dek, s)" by (simp add: require_dek_def v)
  then have "fst (secret_get w name True True s) = fst (reveal_secret w name True row body ?s)"
    by (simp add: secret_get_def run_simps load opens)
  also have "\<dots> = revealed row body"
    using ref aud latest(2) by (simp add: reveal_secret_def revealed_def run_simps)
  finally show ?thesis .
qed

lemma latest_of_history:
  assumes "secrets_ok d" "history name d = h @ [row]"
  shows "found (get_secret_latest name) d = Some row"
  using last_max_counted [OF secrets_ok_counted [OF assms(1)], of name] assms(2)
  by (simp add: store_ops history_def)

lemma put_then_get:
  fixes s :: engine and body :: bytes
  assumes rel: "reliable w" and v: "en_vault s = VUnlocked dek" and key: "length dek = 32"
    and gen: "sd_meta (en_store s) META_DEK_GENERATION = Some (i64_to_string g)"
    and ok: "secrets_ok (en_store s)" and lens: "random_lengths w" and inv: "aead_inverts (w_crypto w)"
    and ids: "sint (sd_next_secret_row_id (en_store s)) < i64_max"
    and room: "length (history (sm_name m) (en_store s)) < 4294967295"
  shows "\<exists>row t. secret_put w m body s = (Inr (), t) \<and> secrets_ok (en_store t)
    \<and> sr_name row = sm_name m \<and> sr_broker_only row = sm_broker_only m
    \<and> (\<forall>name. history name (en_store t)
          = history name (en_store s) @ (if sm_name m = name then [row] else []))
    \<and> fst (secret_get w (sm_name m) True True t) = revealed row body"
proof -
  obtain row nonce ts t where row: "row = put_row (w_crypto w) dek g m body (en_store s) nonce ts"
    and nonce: "length nonce = 24" and run: "secret_put w m body s = (Inr (), t)"
    and t: "secrets_ok (en_store t)" "en_vault t = VUnlocked dek"
      "\<And>name. history name (en_store t) = history name (en_store s) @ (if sm_name m = name then [row] else [])"
      "sd_meta (en_store t) META_DEK_GENERATION = Some (i64_to_string g)"
    by (rule secret_put_run [OF rel v gen ok lens ids room, of body]) (rule that)
  have "found (get_secret_latest (sm_name m)) (en_store t) = Some row"
    by (rule latest_of_history [OF t(1)]) (simp add: t(3))
  moreover have "open_sealed (w_crypto w) dek (record_aad_of row) (sr_nonce row) (sr_ct_tag row) = Some body"
    using put_row_opens [OF inv nonce key] by (simp add: row)
  ultimately have "fst (secret_get w (sm_name m) True True t) = revealed row body"
    using secret_get_reveals_latest [OF rel t(2)] by (simp add: row)
  with run t row show ?thesis by fastforce
qed

text \<open>
  C9: in a world without store faults, storing a secret in an unlocked vault succeeds and appends one
  row to the history of its name and to no other; a revealing read then returns the stored body, and a
  broker-only secret is refused even then.
\<close>

theorem secret_round_trip:
  fixes s :: engine and body :: bytes
  assumes rel: "reliable w" and v: "en_vault s = VUnlocked dek" and key: "length dek = 32"
    and gen: "sd_meta (en_store s) META_DEK_GENERATION = Some (i64_to_string g)"
    and ok: "secrets_ok (en_store s)" and lens: "random_lengths w" and inv: "aead_inverts (w_crypto w)"
    and ids: "sint (sd_next_secret_row_id (en_store s)) < i64_max"
    and room: "length (history (sm_name m) (en_store s)) < 4294967295"
  shows "\<exists>row t. secret_put w m body s = (Inr (), t) \<and> secrets_ok (en_store t)
    \<and> sr_name row = sm_name m \<and> sr_broker_only row = sm_broker_only m
    \<and> (\<forall>name. history name (en_store t)
          = history name (en_store s) @ (if sm_name m = name then [row] else []))
    \<and> fst (secret_get w (sm_name m) True True t) = revealed row body"
  using assms by (rule put_then_get)

section \<open>Concrete runs\<close>

definition toy_keeper :: engine where
  "toy_keeper = toy_engine\<lparr>en_store := toy_store
     \<lparr>sd_meta := (sd_meta toy_store)(META_DEK_GENERATION \<mapsto> i64_to_string 1)\<rparr>\<rparr>"

definition toy_meta :: secret_meta where
  "toy_meta = \<lparr>sm_name = ''second_key'', sm_provider = Anthropic, sm_note = [], sm_broker_only = False\<rparr>"

lemma toy_keeper_ok:
  "secrets_ok (en_store toy_keeper)" "random_lengths toy_world" "length toy_dek = 32"
  "en_vault toy_keeper = VUnlocked toy_dek"
  "sd_meta (en_store toy_keeper) META_DEK_GENERATION = Some (i64_to_string 1)"
  "sint (sd_next_secret_row_id (en_store toy_keeper)) < i64_max"
  "history (sm_name toy_meta) (en_store toy_keeper) = []"
  by (simp_all add: toy_keeper_def toy_store_def empty_store_def secrets_ok_def counted_def history_def
      random_lengths_def toy_dek_def toy_secret_def toy_meta_def)

theorem secret_round_trip_witness:
  "\<exists>row t. secret_put toy_world toy_meta [1, 2] toy_keeper = (Inr (), t)
     \<and> history ''second_key'' (en_store t) = [row]
     \<and> fst (secret_get toy_world ''second_key'' True True t) = Inr [1, 2]"
proof -
  obtain row t where run: "secret_put toy_world toy_meta [1, 2] toy_keeper = (Inr (), t)"
    and row: "sr_broker_only row = sm_broker_only toy_meta"
    and h: "\<forall>name. history name (en_store t)
          = history name (en_store toy_keeper) @ (if sm_name toy_meta = name then [row] else [])"
    and get: "fst (secret_get toy_world (sm_name toy_meta) True True t) = revealed row [1, 2]"
    using secret_round_trip [OF _ toy_keeper_ok(4,3,5,1,2) _ toy_keeper_ok(6), of toy_meta "[1, 2]"]
      toy_keeper_ok(7) toy_aead_inverts by auto
  have "history (sm_name toy_meta) (en_store t) = [row]" using h toy_keeper_ok(7) by simp
  with run row get show ?thesis by (auto simp: revealed_def toy_meta_def)
qed

definition toy_open_row :: secret_row where
  "toy_open_row = toy_secret\<lparr>sr_broker_only := False\<rparr>"

definition toy_reader :: engine where
  "toy_reader = toy_engine\<lparr>en_store := toy_store\<lparr>sd_secrets := [toy_open_row]\<rparr>\<rparr>"

lemma toy_reader_reveals:
  obtains t where "secret_get toy_world ''anthropic_key'' True True toy_reader = (Inr (str_bytes ''sk-ant-real''), t)"
proof -
  have found_row: "found (get_secret_latest ''anthropic_key'') (en_store toy_reader) = Some toy_open_row"
    by (simp add: toy_reader_def toy_open_row_def toy_secret_def store_ops)
  have aad: "record_aad_of toy_open_row = record_aad_of toy_secret"
    "sr_nonce toy_open_row = sr_nonce toy_secret" "sr_ct_tag toy_open_row = sr_ct_tag toy_secret"
    by (simp_all add: record_aad_of_def toy_open_row_def)
  have "fst (secret_get toy_world ''anthropic_key'' True True toy_reader)
      = revealed toy_open_row (str_bytes ''sk-ant-real'')"
  proof (rule secret_get_reveals_latest [OF _ _ found_row])
    show "en_vault toy_reader = VUnlocked toy_dek" by (simp add: toy_reader_def)
    show "sr_name toy_open_row = ''anthropic_key''" by (simp add: toy_open_row_def toy_secret_def)
  qed (simp_all add: aad toy_secret_opens)
  moreover have "\<not> sr_broker_only toy_open_row" by (simp add: toy_open_row_def)
  ultimately show thesis using that by (metis prod.collapse revealed_def)
qed

end
