(* ===== verification/EngineInit.thy ===== *)
theory EngineInit
  imports EngineUnlock EngineSecrets
begin

text \<open>
  A vault initialised on an empty store opens under its passphrase: the run of \<open>init_vault\<close> computed
  in a world without store faults, and the unlocks after it.
\<close>

section \<open>The store an initialisation leaves\<close>

lemmas other_meta_keys [simp] = meta_keys_distinct [symmetric]

definition filled_slot :: "crypto \<Rightarrow> bytes \<Rightarrow> keyslot \<Rightarrow> kek \<Rightarrow> dek \<Rightarrow> keyslot" where
  "filled_slot cr nonce slot kek dek =
     slot\<lparr>ks_wrap_nonce := nonce, ks_wrapped_dek := snd (wrap_dek cr nonce kek dek (keyslot_aad slot))\<rparr>"

text \<open>The associated data of a slot does not cover its wrap.\<close>

lemma keyslot_aad_filled [simp]: "keyslot_aad (filled_slot cr nonce slot kek dek) = keyslot_aad slot"
  by (simp add: filled_slot_def keyslot_aad_def)

lemma fill_slot_run:
  "fill_slot w slot kek dek s =
     (Inr (filled_slot (w_crypto w) (w_random w (en_tick s) 24) slot kek dek), s\<lparr>en_tick := Suc (en_tick s)\<rparr>)"
  by (simp add: fill_slot_def random_bytes_def run_simps wrap_dek_def filled_slot_def)

text \<open>The USB slots an initialisation enrols: none, or one with id 2.\<close>

definition usb_enrolled :: "keyslot list \<Rightarrow> bool" where
  "usb_enrolled us \<longleftrightarrow> us = [] \<or> (\<exists>u. us = [u] \<and> ks_id u = 2 \<and> ks_dek_generation u = 1 \<and> ks_factor u = Usb)"

lemma enroll_usb_run:
  assumes "keyfile = None \<or> uuid \<noteq> None"
  obtains us n where "enroll_usb w uuid keyfile dek s = (Inr us, s\<lparr>en_tick := n\<rparr>)" "usb_enrolled us"
proof (cases keyfile)
  case None
  have "enroll_usb w uuid keyfile dek s = (Inr [], s\<lparr>en_tick := en_tick s\<rparr>)"
    by (simp add: enroll_usb_def None run_simps)
  then show thesis by (rule that) (simp add: usb_enrolled_def)
next
  case (Some kf)
  with assms obtain u where u: "uuid = Some u" by auto
  have "enroll_usb w uuid keyfile dek s = (Inr [filled_slot (w_crypto w) (w_random w (Suc (en_tick s)) 24)
      (usb_slot (w_random w (en_tick s) 32) u 1)
      (kek_from_usb (w_crypto w) kf (ks_salt (usb_slot (w_random w (en_tick s) 32) u 1))) dek],
     s\<lparr>en_tick := Suc (Suc (en_tick s))\<rparr>)"
    by (simp add: enroll_usb_def Some u random_bytes_def run_simps fill_slot_run Let_def)
  then show thesis by (rule that) (simp add: usb_enrolled_def filled_slot_def usb_slot_def)
qed

definition initialised :: "crypto \<Rightarrow> dek \<Rightarrow> keyslot list \<Rightarrow> i64 \<Rightarrow> audit_record \<Rightarrow> in_mem_data" where
  "initialised cr dek slots floor_ms rec =
     empty_store
       \<lparr>sd_keyslots := slots, sd_audit := [link_row cr None rec],
        sd_meta :=
          [META_HEADER_MAC \<mapsto> hex_encode (header_mac cr dek slots floor_ms),
           META_ISSUANCE_FLOOR_MS \<mapsto> i64_to_string floor_ms,
           META_DEK_GENERATION \<mapsto> i64_to_string 1,
           META_AUDIT_HIGH_WATER \<mapsto> i64_to_string 1,
           META_AUDIT_HEAD \<mapsto> hex_encode (audit_head_mac cr dek 1 1 (ar_row_hash (link_row cr None rec)))]\<rparr>"

lemma persist_header_run:
  assumes "reliable w" "en_store s = empty_store" "ks_id p = 1" "usb_enrolled us"
  shows "\<exists>n. persist_header w dek (p # us) floor_ms s = (Inr (), s\<lparr>en_tick := n, en_store := empty_store
      \<lparr>sd_keyslots := p # us,
       sd_meta := [META_HEADER_MAC \<mapsto> hex_encode (header_mac (w_crypto w) dek (p # us) floor_ms),
         META_ISSUANCE_FLOOR_MS \<mapsto> i64_to_string floor_ms, META_DEK_GENERATION \<mapsto> i64_to_string 1]\<rparr>\<rparr>)"
proof -
  have save: "for_act (p # us) (\<lambda>slot. store_call w (save_keyslot slot)) s
      = (Inr (), s\<lparr>en_tick := en_tick s + length (p # us), en_store := empty_store\<lparr>sd_keyslots := p # us\<rparr>\<rparr>)"
    using assms by (auto simp: usb_enrolled_def run_simps store_ops empty_store_def keyslot_key_def)
  show ?thesis
    unfolding persist_header_def
      run_and_then_ok [where m = "for_act (p # us) (\<lambda>slot. store_call w (save_keyslot slot))" and s = s, OF save]
    by (rule exI [of _ "Suc (Suc (Suc (en_tick s + length (p # us))))"])
      (use assms(1) in \<open>simp add: run_simps store_ops empty_store_def\<close>)
qed

text \<open>An audit row written while the vault is locked: the row goes in, the anchor stays.\<close>

lemma audit_locked_run:
  assumes "reliable w" "en_vault s = VLocked"
  obtains rec t where "audit w ev sub det out s = (Inr (), t)" "en_vault t = VLocked"
    "en_store t = (en_store s)\<lparr>sd_audit := append_row (w_crypto w) (sd_audit (en_store s)) rec\<rparr>"
proof -
  let ?rec = "new_row (w_now_rfc3339 w (en_tick s)) (Some (en_owner_uid s)) ev sub det out"
  let ?row = "link_row (w_crypto w) (last_row (sd_audit (en_store s))) ?rec"
  have "audit w ev sub det out s = (Inr (), s\<lparr>en_tick := Suc (Suc (en_tick s)),
      en_store := (en_store s)\<lparr>sd_audit := append_row (w_crypto w) (sd_audit (en_store s)) ?rec\<rparr>,
      en_events := en_events s @ [EvAudit (?rec\<lparr>ar_seq := ar_seq ?row\<rparr>)]\<rparr>)"
    using assms by (simp add: audit_def run_simps now_rfc3339_def append_audit_def append_row_def Let_def
         advance_audit_anchor_if_unlocked_def)
  then show thesis by (rule that) (simp_all add: assms(2))
qed

text \<open>The end of an initialisation: the first audit row and the anchor on it.\<close>

lemma first_anchor_run:
  assumes w: "reliable w" and locked: "en_vault s = VLocked"
    and audit: "sd_audit (en_store s) = []" and fresh: "sd_meta (en_store s) META_AUDIT_HIGH_WATER = None"
  obtains rec t where
    "and_then (audit_ok w ev sub det) (\<lambda>_. and_then (store_call w last_audit) (\<lambda>r.
       write_audit_anchor w dek (fst (tail_of r)) (snd (tail_of r)))) s = (Inr (), t)"
    "en_vault t = VLocked"
    "en_store t = (en_store s)\<lparr>sd_audit := [link_row (w_crypto w) None rec],
       sd_meta := (sd_meta (en_store s))(META_AUDIT_HIGH_WATER \<mapsto> i64_to_string 1,
         META_AUDIT_HEAD \<mapsto> hex_encode (audit_head_mac (w_crypto w) dek 1 1 (ar_row_hash (link_row (w_crypto w) None rec))))\<rparr>"
proof -
  obtain rec v where aud: "audit_ok w ev sub det s = (Inr (), v)" and v: "en_vault v = VLocked"
    "en_store v = (en_store s)\<lparr>sd_audit := [link_row (w_crypto w) None rec]\<rparr>"
    by (rule audit_locked_run [OF w locked, where ev = ev and sub = sub and det = det and out = Ok])
      (simp_all add: audit_ok_def append_row_def audit)
  let ?t = "v\<lparr>en_tick := Suc (Suc (Suc (Suc (en_tick v)))),
      en_store := (en_store v)\<lparr>sd_meta := (sd_meta (en_store v))(META_AUDIT_HIGH_WATER \<mapsto> i64_to_string 1,
         META_AUDIT_HEAD \<mapsto> hex_encode (audit_head_mac (w_crypto w) dek 1 1 (ar_row_hash (link_row (w_crypto w) None rec))))\<rparr>\<rparr>"
  have "and_then (store_call w last_audit) (\<lambda>r. write_audit_anchor w dek (fst (tail_of r)) (snd (tail_of r))) v
     = (Inr (), ?t)"
    using w fresh by (simp add: write_audit_anchor_def run_simps store_ops last_row_def link_row_fields Let_def
        i64_max_of_def v(2))
  then show thesis
    by (intro that [of ?t rec]) (simp_all add: run_and_then aud v)
qed

lemma init_vault_run:
  assumes w: "reliable w" and store: "en_store s = empty_store" and locked: "en_vault s = VLocked"
    and cost: "derivable params" and usb: "keyfile = None \<or> uuid \<noteq> None"
    and dek: "dek = w_random w (Suc (Suc (en_tick s))) 32" and salt: "salt = w_random w (Suc (Suc (Suc (en_tick s)))) 16"
    and nonce: "nonce = w_random w (Suc (Suc (Suc (Suc (en_tick s))))) 24"
    and kek: "kek_from_passphrase (w_crypto w) (str_bytes pp) salt params = Some kek"
  obtains us rec t where "init_vault w pp uuid keyfile params s = (Inr (), t)" "en_vault t = VLocked"
    "usb_enrolled us"
    "en_store t = initialised (w_crypto w) dek (filled_slot (w_crypto w) nonce (passphrase_slot salt params 1) kek dek # us)
       (w_now_ms w (Suc (en_tick s))) rec"
proof -
  define slot where "slot = filled_slot (w_crypto w) nonce (passphrase_slot salt params 1) kek dek"
  define floor_ms where "floor_ms = w_now_ms w (Suc (en_tick s))"
  let ?at = "\<lambda>n. s\<lparr>en_tick := n\<rparr>"
  let ?t = "en_tick s"
  have floors: "\<not> ap_m_kib params < ARGON2_M_KIB_FLOOR" "\<not> ap_t_cost params < ARGON2_T_COST_FLOOR"
    using cost by (simp_all add: derivable_def not_less)
  have enrol: "enroll_passphrase w pp params dek (?at (Suc (Suc (Suc ?t)))) = (Inr slot, ?at (Suc (Suc (Suc (Suc (Suc ?t))))))"
    using kek by (simp add: enroll_passphrase_def random_bytes_def run_simps fill_slot_run Let_def
        passphrase_slot_def slot_def salt nonce)
  obtain us n where us: "enroll_usb w uuid keyfile dek (?at (Suc (Suc (Suc (Suc (Suc ?t)))))) = (Inr us, ?at n)"
    "usb_enrolled us"
    using enroll_usb_run [OF usb, of w dek "?at (Suc (Suc (Suc (Suc (Suc ?t)))))"] by auto
  have "ks_id slot = 1" by (simp add: slot_def filled_slot_def passphrase_slot_def)
  from persist_header_run [OF w _ this us(2), of "?at n" dek floor_ms] store obtain m where
    persist: "persist_header w dek (slot # us) floor_ms (?at n) = (Inr (), (?at m)\<lparr>en_store := empty_store
      \<lparr>sd_keyslots := slot # us,
       sd_meta := [META_HEADER_MAC \<mapsto> hex_encode (header_mac (w_crypto w) dek (slot # us) floor_ms),
         META_ISSUANCE_FLOOR_MS \<mapsto> i64_to_string floor_ms, META_DEK_GENERATION \<mapsto> i64_to_string 1]\<rparr>\<rparr>)"
    by auto
  let ?u = "snd (persist_header w dek (slot # us) floor_ms (?at n))"
  obtain rec t where last: "and_then (audit_ok w ''vault_init'' None
        (JObj [(''slots'', JInt (int (length (slot # us)))), (''dek_generation'', JInt 1)]))
      (\<lambda>_. and_then (store_call w last_audit) (\<lambda>r. write_audit_anchor w dek (fst (tail_of r)) (snd (tail_of r)))) ?u
      = (Inr (), t)" "en_vault t = VLocked"
    "en_store t = (en_store ?u)\<lparr>sd_audit := [link_row (w_crypto w) None rec],
       sd_meta := (sd_meta (en_store ?u))(META_AUDIT_HIGH_WATER \<mapsto> i64_to_string 1,
         META_AUDIT_HEAD \<mapsto> hex_encode (audit_head_mac (w_crypto w) dek 1 1 (ar_row_hash (link_row (w_crypto w) None rec))))\<rparr>"
    by (rule first_anchor_run [OF w, where s = ?u and dek = dek]) (simp_all add: persist locked empty_store_def)
  have same: "s\<lparr>en_tick := n, en_store := empty_store\<rparr> = ?at n" "s\<lparr>en_store := empty_store, en_tick := n\<rparr> = ?at n" for n
    using store by (metis engine.surjective engine.simps)+
  have none: "sd_meta empty_store META_HEADER_MAC = None" by (simp add: empty_store_def)
  have "init_vault w pp uuid keyfile params s
      = and_then (enroll_passphrase w pp params dek) (\<lambda>pp_slot.
         and_then (enroll_usb w uuid keyfile dek) (\<lambda>usb_slots.
           let slots = pp_slot # usb_slots in
           and_then (persist_header w dek slots floor_ms) (\<lambda>_.
           and_then (audit_ok w ''vault_init'' None
             (JObj [(''slots'', JInt (int (length slots))), (''dek_generation'', JInt 1)])) (\<lambda>_.
           and_then (store_call w last_audit) (\<lambda>r.
             write_audit_anchor w dek (fst (tail_of r)) (snd (tail_of r))))))) (?at (Suc (Suc (Suc ?t))))"
    using w floors by (simp add: init_vault_def run_simps get_meta_def store same none now_ms_def mint_dek_def
        random_bytes_def dek floor_ms_def)
  also have "\<dots> = (Inr (), t)"
    using last(1) by (simp only: run_and_then_ok enrol us(1) persist Let_def snd_conv)
  finally have "init_vault w pp uuid keyfile params s = (Inr (), t)" .
  then show thesis
    by (rule that) (use last us(2) persist in \<open>simp_all add: initialised_def empty_store_def slot_def floor_ms_def\<close>)
qed

section \<open>The initialised vault opens\<close>

lemma init_header_authentic:
  assumes "ks_dek_generation slot = 1" "usb_enrolled us"
  shows "header_authentic cr dek (initialised cr dek (slot # us) floor_ms rec)"
proof -
  have "slot_generation (slot # us) = 1"
    using assms by (auto simp: slot_generation_def usb_enrolled_def i64_max_of_def)
  then show ?thesis
    by (simp add: header_authentic_def initialised_def verify_header_mac_def hex_decode_encode parse_i64_to_string)
qed

lemma init_log_authentic: "log_authentic cr dek (initialised cr dek slots floor_ms rec)"
proof -
  let ?row = "link_row cr None rec"
  have "verify_chain cr [?row] = Inr ()"
    using verify_append_row [of cr "[]" rec] by (simp add: append_row_def)
  moreover have "ar_seq ?row = 1" by (simp add: link_row_fields)
  ultimately show ?thesis
    by (simp add: log_authentic_def initialised_def hex_decode_encode parse_i64_to_string store_ops
        check_anchor_def anchored_hash_def i64_lt_def USIZE_MAX_def last_row_def)
qed

text \<open>The passphrase slot yields its key under its own KEK; under another one it is passed over.\<close>

lemma try_own_passphrase:
  assumes "aead_inverts cr" "length nonce = 24" "length dek = 32" "length kek = 32" "derivable params"
    and "kek_from_passphrase cr pp salt params = Some kek"
  shows "try_passphrase cr pp (filled_slot cr nonce (passphrase_slot salt params 1) kek dek # us) = Inr (Some dek)"
proof -
  let ?aad = "keyslot_aad (passphrase_slot salt params 1)"
  have "unwrap_dek cr kek nonce (aead_encrypt cr kek nonce ?aad dek) ?aad = Some dek"
    using assms(1-4) by (simp add: unwrap_dek_def aead_invertsD)
  then show ?thesis
    using assms(5,6) keyslot_aad_filled [of cr nonce "passphrase_slot salt params 1" kek dek]
    by (simp add: filled_slot_def passphrase_slot_def wrap_dek_def)
qed

lemma try_other_passphrase:
  assumes "aead_binds_key cr" "kek' \<noteq> kek" "derivable params"
    and "kek_from_passphrase cr pp salt params = Some kek'" "usb_enrolled us"
  shows "try_passphrase cr pp (filled_slot cr nonce (passphrase_slot salt params 1) kek dek # us) = Inr None"
proof -
  have "try_passphrase cr pp us = Inr None" using assms(5) by (auto simp: usb_enrolled_def)
  moreover have "unwrap_dek cr kek' nonce (aead_encrypt cr kek nonce a dek) a' = None" for a a'
    using assms(1,2) by (simp add: unwrap_dek_def aead_binds_key_def)
  ultimately show ?thesis
    using assms(3,4) by (simp add: filled_slot_def passphrase_slot_def wrap_dek_def)
qed

lemma unlock_refused:
  assumes w: "reliable w" and locked: "en_vault s = VLocked"
    and none: "try_passphrase (w_crypto w) (str_bytes pp) (sd_keyslots (en_store s)) = Inr None"
    and header: "header_authentic (w_crypto w) dek (en_store s)"
  shows "\<exists>t. unlock w (UnlockPassphrase pp) s = (Inl (Engine UnlockFailed), t) \<and> en_vault t = VLocked"
proof -
  obtain mac floor where reads:
    "\<And>n. load_header_mac w (s\<lparr>en_tick := n\<rparr>) = (Inr mac, s\<lparr>en_tick := Suc n\<rparr>)"
    "\<And>n. load_issuance_floor w (s\<lparr>en_tick := n\<rparr>) = (Inr floor, s\<lparr>en_tick := Suc n\<rparr>)"
    by (rule header_reads [OF w header]) (rule that)
  let ?s3 = "s\<lparr>en_tick := Suc (Suc (Suc (en_tick s)))\<rparr>"
  obtain t where "audit w ''vault_unlock'' None (JObj []) Failed ?s3 = (Inr (), t)" "kept ?s3 t"
    by (rule audit_runs [OF w])
  then have "fail_audited w (JObj []) (Engine UnlockFailed) ?s3 = (Inl (Engine UnlockFailed) :: any_error + vault_state, t)"
    "en_vault t = VLocked"
    using locked by (simp_all add: fail_audited_def audit_failed_def run_simps kept_def)
  then show ?thesis
    using w locked by (simp add: unlock_def run_gets_then is_unlocked_def run_simps store_ops reads none)
qed

lemma init_unlock_runs:
  assumes "reliable w" "random_lengths w" "argon2_total (w_crypto w)" "aead_inverts (w_crypto w)"
    and "aead_binds_key (w_crypto w)"
    and "en_store s = empty_store" "en_vault s = VLocked"
    and "derivable params" "unat (ap_p_lanes params) \<le> 16777215" "keyfile = None \<or> uuid \<noteq> None"
  shows "\<exists>t. init_vault w pp uuid keyfile params s = (Inr (), t) \<and> en_vault t = VLocked
    \<and> (\<exists>t'. unlock w (UnlockPassphrase pp) t = (Inr Unlocked_state, t')
         \<and> en_vault t' = VUnlocked (w_random w (Suc (Suc (en_tick s))) 32))
    \<and> (\<forall>pp'. argon2id (w_crypto w) (str_bytes pp') (w_random w (Suc (Suc (Suc (en_tick s)))) 16)
              (ap_m_kib params) (ap_t_cost params) (ap_p_lanes params)
            \<noteq> argon2id (w_crypto w) (str_bytes pp) (w_random w (Suc (Suc (Suc (en_tick s)))) 16)
              (ap_m_kib params) (ap_t_cost params) (ap_p_lanes params)
          \<longrightarrow> (\<exists>t'. unlock w (UnlockPassphrase pp') t = (Inl (Engine UnlockFailed), t') \<and> en_vault t' = VLocked))"
proof -
  let ?cr = "w_crypto w"
  define dek where "dek = w_random w (Suc (Suc (en_tick s))) 32"
  define salt where "salt = w_random w (Suc (Suc (Suc (en_tick s)))) 16"
  define nonce where "nonce = w_random w (Suc (Suc (Suc (Suc (en_tick s))))) 24"
  have len: "length dek = 32" "length salt = 16" "length nonce = 24"
    using assms(2) by (simp_all add: dek_def salt_def nonce_def random_lengths_def)
  have cost: "argon2_accepts (ap_m_kib params) (ap_t_cost params) (ap_p_lanes params)"
    using assms(8,9) by (rule derivable_accepts)
  have derive: "\<exists>k. kek_from_passphrase ?cr p salt params = Some k
      \<and> argon2id ?cr p salt (ap_m_kib params) (ap_t_cost params) (ap_p_lanes params) = Some k \<and> length k = 32" for p
    using assms(3,8) cost len(2) by (auto simp: kek_from_passphrase_def argon2_total_def derivable_def)
  from derive [of "str_bytes pp"] obtain kek where kek: "kek_from_passphrase ?cr (str_bytes pp) salt params = Some kek"
    "argon2id ?cr (str_bytes pp) salt (ap_m_kib params) (ap_t_cost params) (ap_p_lanes params) = Some kek" "length kek = 32"
    by blast
  let ?slot = "filled_slot ?cr nonce (passphrase_slot salt params 1) kek dek"
  obtain us rec t where init: "init_vault w pp uuid keyfile params s = (Inr (), t)" "en_vault t = VLocked"
    "usb_enrolled us" and t: "en_store t = initialised ?cr dek (?slot # us) (w_now_ms w (Suc (en_tick s))) rec"
    by (rule init_vault_run [OF assms(1,6,7,8,10) dek_def salt_def nonce_def kek(1)]) (rule that)
  have header: "header_authentic ?cr dek (en_store t)"
    unfolding t by (rule init_header_authentic [OF _ init(3)]) (simp add: filled_slot_def passphrase_slot_def)
  have log: "log_authentic ?cr dek (en_store t)" unfolding t by (rule init_log_authentic)
  have slots: "sd_keyslots (en_store t) = ?slot # us" by (simp add: t initialised_def)
  have own: "\<exists>t'. unlock w (UnlockPassphrase pp) t = (Inr Unlocked_state, t') \<and> en_vault t' = VUnlocked dek"
    by (rule unlock_runs [OF assms(1) init(2) _ header log])
      (simp only: slots recover.simps lift_result_def fst_conv simp_thms
        try_own_passphrase [OF assms(4) len(3,1) kek(3) assms(8) kek(1)])
  have other: "\<exists>t'. unlock w (UnlockPassphrase pp') t = (Inl (Engine UnlockFailed), t') \<and> en_vault t' = VLocked"
    if "argon2id ?cr (str_bytes pp') salt (ap_m_kib params) (ap_t_cost params) (ap_p_lanes params)
      \<noteq> argon2id ?cr (str_bytes pp) salt (ap_m_kib params) (ap_t_cost params) (ap_p_lanes params)" for pp'
  proof -
    note differ = that
    from derive [of "str_bytes pp'"] obtain kek' where
      "kek_from_passphrase ?cr (str_bytes pp') salt params = Some kek'" "kek' \<noteq> kek"
      using differ kek(2) by auto
    then have "try_passphrase ?cr (str_bytes pp') (sd_keyslots (en_store t)) = Inr None"
      unfolding slots by (intro try_other_passphrase [OF assms(5) _ assms(8) _ init(3)]) auto
    then show ?thesis by (rule unlock_refused [OF assms(1) init(2) _ header])
  qed
  show ?thesis
    using init(1,2) own other unfolding dek_def salt_def by blast
qed

text \<open>
  C18: a vault initialised on an empty store is locked, and opens under the passphrase it was
  initialised with, giving the data key drawn then; under a passphrase whose derived key differs the
  unlock is refused and the vault stays locked.
\<close>

theorem init_then_unlock:
  assumes "reliable w" "random_lengths w" "argon2_total (w_crypto w)" "aead_inverts (w_crypto w)"
    and "aead_binds_key (w_crypto w)"
    and "en_store s = empty_store" "en_vault s = VLocked"
    and "derivable params" "unat (ap_p_lanes params) \<le> 16777215" "keyfile = None \<or> uuid \<noteq> None"
  shows "\<exists>t. init_vault w pp uuid keyfile params s = (Inr (), t) \<and> en_vault t = VLocked
    \<and> (\<exists>t'. unlock w (UnlockPassphrase pp) t = (Inr Unlocked_state, t')
         \<and> en_vault t' = VUnlocked (w_random w (Suc (Suc (en_tick s))) 32))
    \<and> (\<forall>pp'. argon2id (w_crypto w) (str_bytes pp') (w_random w (Suc (Suc (Suc (en_tick s)))) 16)
              (ap_m_kib params) (ap_t_cost params) (ap_p_lanes params)
            \<noteq> argon2id (w_crypto w) (str_bytes pp) (w_random w (Suc (Suc (Suc (en_tick s)))) 16)
              (ap_m_kib params) (ap_t_cost params) (ap_p_lanes params)
          \<longrightarrow> (\<exists>t'. unlock w (UnlockPassphrase pp') t = (Inl (Engine UnlockFailed), t') \<and> en_vault t' = VLocked))"
  by (rule init_unlock_runs [OF assms])

section \<open>An example\<close>

definition toy_params :: argon2_params where
  "toy_params = \<lparr>ap_m_kib = ARGON2_M_KIB_FLOOR, ap_t_cost = ARGON2_T_COST_FLOOR, ap_p_lanes = 1\<rparr>"

abbreviation toy_fresh :: engine where "toy_fresh \<equiv> with_seams 1000 empty_store"

lemma toy_init_assumptions:
  "random_lengths toy_world" "argon2_total (w_crypto toy_world)" "aead_inverts (w_crypto toy_world)"
  "aead_binds_key (w_crypto toy_world)" "en_store toy_fresh = empty_store" "en_vault toy_fresh = VLocked"
  "derivable toy_params" "unat (ap_p_lanes toy_params) \<le> 16777215" "(None :: bytes option) = None \<or> (None :: string option) \<noteq> None"
  using toy_argon2_total toy_aead_inverts toy_aead_binds_key
  by (simp_all add: random_lengths_def with_seams_def derivable_def toy_params_def ARGON2_M_KIB_FLOOR_def
      ARGON2_T_COST_FLOOR_def)

lemma init_then_unlock_witness:
  "\<exists>t t'. init_vault toy_world ''correct horse'' None None toy_params toy_fresh = (Inr (), t)
     \<and> unlock toy_world (UnlockPassphrase ''correct horse'') t = (Inr Unlocked_state, t')
     \<and> en_vault t' = VUnlocked (replicate 32 2)"
  using init_then_unlock [OF toy_world_simps(6) toy_init_assumptions, where pp = "''correct horse''"]
  by (auto simp: with_seams_def)

lemma unlock_rests_on_evidence_witness:
  "\<exists>(t :: engine) dek. en_vault t = VLocked \<and> unlock_evidence toy_world (UnlockPassphrase ''correct horse'') dek (en_store t)"
proof -
  from init_unlock_runs [OF toy_world_simps(6) toy_init_assumptions, where pp = "''correct horse''"]
  obtain t t' dek where run: "en_vault t = VLocked" "en_vault t' = VUnlocked dek"
    "unlock toy_world (UnlockPassphrase ''correct horse'') t = (Inr Unlocked_state, t')"
    by blast
  from unlock_rests_on_evidence [OF run(3,1,2)] run(1) show ?thesis by blast
qed

text \<open>A vault whose header was written by hand, and its unlock.\<close>

definition toy_salt :: bytes where "toy_salt = replicate 16 1"

definition toy_kek :: kek where
  "toy_kek = the (kek_from_passphrase toy_crypto (str_bytes ''pw'') toy_salt toy_params)"

abbreviation toy_slot :: keyslot where
  "toy_slot \<equiv> filled_slot toy_crypto (replicate 24 2) (passphrase_slot toy_salt toy_params 1) toy_kek toy_dek"

definition toy_vault :: engine where
  "toy_vault = with_seams 1000 (initialised toy_crypto toy_dek [toy_slot] 7 sample_row)"

lemma toy_kek: "kek_from_passphrase toy_crypto (str_bytes ''pw'') toy_salt toy_params = Some toy_kek" "length toy_kek = 32"
proof -
  have "argon2_accepts (ap_m_kib toy_params) (ap_t_cost toy_params) (ap_p_lanes toy_params)"
    by (rule derivable_accepts [OF toy_init_assumptions(7,8)])
  moreover have "8 \<le> length toy_salt" by (simp add: toy_salt_def)
  ultimately obtain k where "argon2id toy_crypto (str_bytes ''pw'') toy_salt
      (ap_m_kib toy_params) (ap_t_cost toy_params) (ap_p_lanes toy_params) = Some k" "length k = 32"
    using toy_argon2_total unfolding argon2_total_def by blast
  then have "kek_from_passphrase toy_crypto (str_bytes ''pw'') toy_salt toy_params = Some k" "length k = 32"
    by (simp_all add: kek_from_passphrase_def toy_params_def)
  then show "kek_from_passphrase toy_crypto (str_bytes ''pw'') toy_salt toy_params = Some toy_kek" "length toy_kek = 32"
    by (simp_all add: toy_kek_def)
qed

text \<open>Its slot yields its key and no other, so the vault holds the evidence for its passphrase.\<close>

lemma toy_slot_yields: "slot_yields toy_world (UnlockPassphrase ''pw'') toy_slot d \<longleftrightarrow> d = toy_dek"
proof -
  let ?aad = "keyslot_aad (passphrase_slot toy_salt toy_params 1)"
  have "unwrap_dek toy_crypto toy_kek (replicate 24 2) (aead_encrypt toy_crypto toy_kek (replicate 24 2) ?aad toy_dek) ?aad = Some toy_dek"
    using toy_aead_inverts toy_kek(2) by (simp add: unwrap_dek_def aead_invertsD toy_dek_def)
  then show ?thesis
    using toy_kek(1) toy_init_assumptions(7)
      keyslot_aad_filled [of toy_crypto "replicate 24 2" "passphrase_slot toy_salt toy_params 1" toy_kek toy_dek]
    by (auto simp: slot_yields_def filled_slot_def passphrase_slot_def wrap_dek_def toy_world_simps)
qed

lemma toy_vault_fits:
  "en_vault toy_vault = VLocked" "unlock_evidence toy_world (UnlockPassphrase ''pw'') toy_dek (en_store toy_vault)"
  "only_key toy_world (UnlockPassphrase ''pw'') (sd_keyslots (en_store toy_vault)) toy_dek"
  "slots_sound (sd_keyslots (en_store toy_vault))"
proof -
  have store: "en_store toy_vault = initialised toy_crypto toy_dek [toy_slot] 7 sample_row"
    by (simp add: toy_vault_def with_seams_def)
  then have slots: "sd_keyslots (en_store toy_vault) = [toy_slot]" by (simp add: initialised_def)
  have "header_authentic (w_crypto toy_world) toy_dek (en_store toy_vault)"
    unfolding store toy_world_simps
    by (rule init_header_authentic) (simp_all add: filled_slot_def passphrase_slot_def usb_enrolled_def)
  moreover have "log_authentic (w_crypto toy_world) toy_dek (en_store toy_vault)"
    unfolding store toy_world_simps by (rule init_log_authentic)
  ultimately show "unlock_evidence toy_world (UnlockPassphrase ''pw'') toy_dek (en_store toy_vault)"
    by (simp add: unlock_evidence_def slots toy_slot_yields)
  show "en_vault toy_vault = VLocked" by (simp add: toy_vault_def with_seams_def)
  show "only_key toy_world (UnlockPassphrase ''pw'') (sd_keyslots (en_store toy_vault)) toy_dek"
    by (simp add: only_key_def slots toy_slot_yields)
  show "slots_sound (sd_keyslots (en_store toy_vault))"
    by (simp add: slots_sound_def slots filled_slot_def passphrase_slot_def toy_salt_def toy_params_def)
qed

lemma toy_probe: "steady_probe toy_world" "argon2_total (w_crypto toy_world)"
  using toy_argon2_total by (simp_all add: steady_probe_def toy_world_def)

lemma unlock_succeeds_on_evidence_witness:
  "\<exists>t. unlock toy_world (UnlockPassphrase ''pw'') toy_vault = (Inr Unlocked_state, t) \<and> en_vault t = VUnlocked toy_dek"
  by (rule unlock_succeeds_on_evidence [OF toy_world_simps(6) toy_vault_fits(1-3) toy_probe(2) toy_vault_fits(4) toy_probe(1)])

text \<open>The same unlock with a disk error at its last store call.\<close>

lemma anchor_fault_leaves_vault_open_witness:
  "\<exists>t t' k. unlock toy_world (UnlockPassphrase ''pw'') toy_vault = (Inr Unlocked_state, t) \<and> k < en_tick t
     \<and> unlock (toy_world\<lparr>w_store_fault := (\<lambda>n. if n = k then Some (False, ''disk'') else None)\<rparr>)
         (UnlockPassphrase ''pw'') toy_vault = (Inl (StoreFault ''disk''), t')
     \<and> en_vault t' = VUnlocked toy_dek"
proof -
  have rec: "\<forall>n. fst (recover toy_world (UnlockPassphrase ''pw'') (sd_keyslots (en_store toy_vault)) (toy_vault\<lparr>en_tick := n\<rparr>))
      = Inr (Some toy_dek)"
    using recover_finds [OF _ toy_vault_fits(3) toy_probe(2) toy_vault_fits(4) toy_probe(1)] toy_vault_fits(2)
    by (simp add: unlock_evidence_def)
  obtain t where run: "unlock toy_world (UnlockPassphrase ''pw'') toy_vault = (Inr Unlocked_state, t)"
    and opened: "en_vault t = VUnlocked toy_dek"
    using unlock_runs [OF toy_world_simps(6) toy_vault_fits(1) rec] toy_vault_fits(2)
    by (auto simp: unlock_evidence_def)
  obtain v dek where "commit_unlock toy_world (wanted_factor (UnlockPassphrase ''pw'')) dek v = (Inr Unlocked_state, t)"
    "en_vault v = VLocked"
    using unlock_commits [OF run toy_vault_fits(1), where k = 0 and f = "\<lambda>_. None"] by blast
  then have "0 < en_tick t" using commit_unlock_ticks(1) [OF toy_world_simps(6)] by fastforce
  then have "en_tick t - 1 \<in> {en_tick t - 4 ..< en_tick t}" "en_tick t - 1 < en_tick t" by auto
  with run opened anchor_fault_leaves_vault_open [OF toy_world_simps(6) toy_vault_fits(1) run, of "en_tick t - 1" False "''disk''"]
  show ?thesis by (metis vault.inject)
qed

end
