(* ===== verification/Anchor.thy ===== *)
theory Anchor
  imports EngineInterleave EngineInit
begin

text \<open>
  The audit anchor, a high-water mark and a MAC over the row at it, on a store without faults: when a
  verified log agrees with it, what an advance writes, and the steps of an audited read up to the moment
  it has read the tail (\<open>audit\<close>, \<open>write_audit_anchor\<close>, \<open>secret_get\<close> in \<open>crates/secrets-engine/src/lib.rs\<close>).
\<close>

section \<open>Rows of a verified log\<close>

lemma sint_of_nat_i64: "n < 2 ^ 63 \<Longrightarrow> sint (word_of_nat n :: i64) = int n"
  by (simp add: signed_of_nat signed_take_bit_int_eq_self)

lemma verified_nth:
  assumes "verify_chain cr rows = Inr ()" "i < length rows"
  shows "ar_seq (rows ! i) = word_of_nat (Suc i)"
proof -
  have "verify_chain cr (take i rows @ rows ! i # drop (Suc i) rows) = Inr ()"
    using assms id_take_nth_drop by metis
  then have "ar_seq (rows ! i) = word_of_nat (length (take i rows)) + 1"
    by (simp add: verify_chain_append Let_def split: sum.splits if_splits)
  then show ?thesis using assms(2) by (simp add: min_def)
qed

text \<open>All rows are returned by the query the verification makes.\<close>

lemma query_all:
  assumes "verify_chain cr (sd_audit g) = Inr ()" "length (sd_audit g) < 2 ^ 63"
  shows "query_audit 0 USIZE_MAX g = (Inr (sd_audit g), g)"
proof -
  have "i64_lt 0 (ar_seq r)" if "r \<in> set (sd_audit g)" for r
  proof -
    from that obtain i where i: "i < length (sd_audit g)" "r = sd_audit g ! i" by (auto simp only: in_set_conv_nth)
    then have "ar_seq r = word_of_nat (Suc i)" using verified_nth [OF assms(1)] by simp
    moreover have "sint (word_of_nat (Suc i) :: i64) = int (Suc i)"
      using i(1) assms(2) by (intro sint_of_nat_i64) simp
    ultimately show ?thesis by (simp add: i64_lt_def)
  qed
  then have "filter (\<lambda>r. i64_lt 0 (ar_seq r)) (sd_audit g) = sd_audit g" by (simp add: filter_id_conv)
  moreover have "length (sd_audit g) \<le> USIZE_MAX" using assms(2) unfolding USIZE_MAX_def by simp
  ultimately show ?thesis by (simp add: store_ops)
qed

lemma check_anchor_at:
  assumes "verify_chain cr rows = Inr ()" "length rows < 2 ^ 63" "0 < k" "k \<le> length rows"
  shows "check_anchor cr dek mac (word_of_nat k) rows =
    (if audit_head_mac cr dek (word_of_nat k) (word_of_nat k) (ar_row_hash (rows ! (k - 1))) = mac
     then Inr () else Inl (Engine (AuditChainBroken (word_of_nat (length rows)))))"
proof -
  have k: "k < 2 ^ 63" using assms(2,4) by simp
  have ne: "rows \<noteq> []" using assms(3,4) by auto
  have seq: "fst (tail_of (last_row rows)) = word_of_nat (length rows)"
    using verified_nth [OF assms(1), of "length rows - 1"] ne by (simp add: last_row_def last_conv_nth)
  have low: "\<not> i64_lt (word_of_nat (length rows)) (word_of_nat k)"
    using assms(2,4) k by (simp add: i64_lt_def sint_of_nat_i64)
  have nz: "(word_of_nat k :: i64) \<noteq> 0"
    using sint_of_nat_i64 [OF k] assms(3) by auto
  have "word_of_nat k - 1 = (word_of_nat (k - 1) :: i64)" using assms(3) by simp
  then have idx: "unat (word_of_nat k - 1 :: i64) = k - 1"
    using k by (simp add: unat_of_nat take_bit_nat_eq_self)
  have "ar_seq (rows ! (k - 1)) = word_of_nat k"
    using verified_nth [OF assms(1), of "k - 1"] assms(3,4) by simp
  then have "anchored_hash rows (word_of_nat k) = Some (ar_row_hash (rows ! (k - 1)))"
    using assms(3,4) nz by (simp add: anchored_hash_def Let_def idx)
  then show ?thesis by (simp add: check_anchor_def Let_def seq low)
qed

section \<open>The anchor in the store\<close>

definition high_water :: "in_mem_data \<Rightarrow> i64" where
  "high_water g = (case sd_meta g META_AUDIT_HIGH_WATER of None \<Rightarrow> 0 | Some t \<Rightarrow> (case parse_i64 t of None \<Rightarrow> 0 | Some v \<Rightarrow> v))"

definition put_anchor :: "crypto \<Rightarrow> dek \<Rightarrow> i64 \<Rightarrow> bytes \<Rightarrow> in_mem_data \<Rightarrow> in_mem_data" where
  "put_anchor cr dek hw h g = g\<lparr>sd_meta := (sd_meta g)(META_AUDIT_HIGH_WATER \<mapsto> i64_to_string hw,
     META_AUDIT_HEAD \<mapsto> hex_encode (audit_head_mac cr dek hw hw h))\<rparr>"

lemma put_anchor_fields [simp]:
  "sd_audit (put_anchor cr dek hw h g) = sd_audit g" "high_water (put_anchor cr dek hw h g) = hw"
  "sd_meta (put_anchor cr dek hw h g) META_AUDIT_HIGH_WATER = Some (i64_to_string hw)"
  "sd_meta (put_anchor cr dek hw h g) META_AUDIT_HEAD = Some (hex_encode (audit_head_mac cr dek hw hw h))"
  by (simp_all add: put_anchor_def high_water_def parse_i64_to_string)

lemma high_water_audit [simp]: "high_water (g\<lparr>sd_audit := rows\<rparr>) = high_water g"
  by (simp add: high_water_def)

text \<open>Whether the log agrees with its anchor, when the mark is a row of the log.\<close>

lemma log_authentic_iff:
  assumes "verify_chain cr (sd_audit g) = Inr ()" "length (sd_audit g) < 2 ^ 63" "0 < k" "k \<le> length (sd_audit g)"
    and "sd_meta g META_AUDIT_HIGH_WATER = Some (i64_to_string (word_of_nat k))"
    and "sd_meta g META_AUDIT_HEAD = Some (hex_encode mac)"
  shows "log_authentic cr dek g \<longleftrightarrow>
    mac = audit_head_mac cr dek (word_of_nat k) (word_of_nat k) (ar_row_hash (sd_audit g ! (k - 1)))"
  using assms check_anchor_at [OF assms(1-4), of dek mac]
  by (auto simp: log_authentic_def query_all parse_i64_to_string hex_decode_encode)

lemma anchor_verdict:
  assumes "reliable w" "verify_chain (w_crypto w) (sd_audit (en_store s)) = Inr ()"
    and "length (sd_audit (en_store s)) < 2 ^ 63" "0 < k" "k \<le> length (sd_audit (en_store s))"
    and "sd_meta (en_store s) META_AUDIT_HIGH_WATER = Some (i64_to_string (word_of_nat k))"
    and "sd_meta (en_store s) META_AUDIT_HEAD = Some (hex_encode mac)"
    and "mac \<noteq> audit_head_mac (w_crypto w) dek (word_of_nat k) (word_of_nat k) (ar_row_hash (sd_audit (en_store s) ! (k - 1)))"
    and "en_vault s = VUnlocked dek"
  shows "fst (verify_audit_anchor w s) = Inl (Engine (AuditChainBroken (word_of_nat (length (sd_audit (en_store s))))))"
  using assms check_anchor_at [OF assms(2-5), of dek mac] query_all [OF assms(2,3)]
  by (simp add: verify_audit_anchor_def verify_audit_anchor_with_def require_dek_def run_simps
      verify_audit_chain_def hex_decode_encode parse_i64_to_string store_ops)

section \<open>Runs on a store without faults\<close>

lemma anchor_run:
  assumes "reliable w"
  shows "write_audit_anchor w dek q h s = (Inr (), s\<lparr>en_tick := Suc (Suc (Suc (en_tick s))),
    en_store := put_anchor (w_crypto w) dek (i64_max_of (high_water (en_store s)) q) h (en_store s)\<rparr>)"
  using assms by (simp add: write_audit_anchor_def run_simps store_ops Let_def put_anchor_def high_water_def)

definition audit_row :: "world \<Rightarrow> string \<Rightarrow> string option \<Rightarrow> json \<Rightarrow> audit_outcome \<Rightarrow> engine \<Rightarrow> audit_record" where
  "audit_row w ev sub det out s = link_row (w_crypto w) (last_row (sd_audit (en_store s)))
     (new_row (w_now_rfc3339 w (en_tick s)) (Some (en_owner_uid s)) ev sub det out)"

text \<open>The store once the row is appended, before the anchor follows.\<close>

definition with_row :: "audit_record \<Rightarrow> engine \<Rightarrow> engine" where
  "with_row r s = s\<lparr>en_store := (en_store s)\<lparr>sd_audit := sd_audit (en_store s) @ [r]\<rparr>\<rparr>"

lemma with_row_fields [simp]:
  "sd_audit (en_store (with_row r s)) = sd_audit (en_store s) @ [r]" "en_vault (with_row r s) = en_vault s"
  "high_water (en_store (with_row r s)) = high_water (en_store s)" "en_owner_uid (with_row r s) = en_owner_uid s"
  "en_tick (with_row r s) = en_tick s" "sd_secrets (en_store (with_row r s)) = sd_secrets (en_store s)"
  by (simp_all add: with_row_def high_water_def)

lemma alone_step: "m s = (Inr x, s') \<Longrightarrow> alone (k x) s' u s'' \<Longrightarrow> alone (seq (step_of m) k) s u s''"
  using alone_trans [OF alone_first [of "step_of m" s x s' k]] by simp

lemma audit_front:
  fixes ev sub det out
  assumes "reliable w" "en_vault s = VUnlocked dek"
  defines "r \<equiv> audit_row w ev sub det out s"
  obtains event where
    "alone (audit_thread w ev sub det out) s
       (seq (write_audit_anchor_thread w dek (ar_seq r) (ar_row_hash r)) (\<lambda>_. announce event))
       (with_row r (s\<lparr>en_tick := Suc (Suc (Suc (en_tick s)))\<rparr>))"
proof -
  let ?rec = "new_row (w_now_rfc3339 w (en_tick s)) (Some (en_owner_uid s)) ev sub det out"
  have "alone (audit_thread w ev sub det out) s
       (seq (write_audit_anchor_thread w dek (ar_seq r) (ar_row_hash r)) (\<lambda>_. announce (EvAudit (?rec\<lparr>ar_seq := ar_seq r\<rparr>))))
       (with_row r (s\<lparr>en_tick := Suc (Suc (Suc (en_tick s)))\<rparr>))"
    unfolding audit_thread_def Let_def advance_audit_anchor_if_unlocked_thread_def seq_assoc call_def look_def
    by (rule alone_step, simp add: now_rfc3339_def run_simps, rule alone_step, simp add: run_simps,
        rule alone_step, simp add: assms(1) run_simps append_audit_def Let_def, rule alone_step, simp add: run_simps,
        simp add: assms(2) seq_assoc, rule alone_step, simp add: assms(1) run_simps store_ops)
      (simp add: r_def audit_row_def with_row_def alone.stop)
  then show thesis by (rule that)
qed

lemma audit_unlocked_run:
  fixes ev sub det out
  assumes "reliable w" "en_vault s = VUnlocked dek"
  defines "r \<equiv> audit_row w ev sub det out s"
  obtains t where "audit w ev sub det out s = (Inr (), t)"
    "en_store t = put_anchor (w_crypto w) dek (i64_max_of (high_water (en_store s)) (ar_seq r)) (ar_row_hash r)
       (en_store (with_row r s))"
    "en_vault t = VUnlocked dek" "en_owner_uid t = en_owner_uid s"
proof -
  obtain event where "alone (audit_thread w ev sub det out) s
       (seq (write_audit_anchor_thread w dek (ar_seq r) (ar_row_hash r)) (\<lambda>_. announce event))
       (with_row r (s\<lparr>en_tick := Suc (Suc (Suc (en_tick s)))\<rparr>))"
    unfolding r_def by (rule audit_front [OF assms(1,2)])
  note front = this
  let ?u = "with_row r (s\<lparr>en_tick := Suc (Suc (Suc (en_tick s)))\<rparr>)"
  let ?t = "?u\<lparr>en_tick := Suc (Suc (Suc (en_tick ?u))),
    en_store := put_anchor (w_crypto w) dek (i64_max_of (high_water (en_store ?u)) (ar_seq r)) (ar_row_hash r) (en_store ?u),
    en_events := en_events ?u @ [event]\<rparr>"
  have "audit w ev sub det out s = (Inr (), ?t)"
    using alone_then_run [OF front] by (simp add: solo run_simps anchor_run [OF assms(1)])
  moreover have "en_store ?u = en_store (with_row r s)" by (simp add: with_row_def)
  ultimately show thesis by (intro that [of ?t]) (simp_all add: assms(2))
qed

text \<open>A read that reveals nothing, of a secret that is there and opens.\<close>

definition readable :: "world \<Rightarrow> dek \<Rightarrow> engine \<Rightarrow> string \<Rightarrow> secret_row \<Rightarrow> bool" where
  "readable w dek s name row \<longleftrightarrow>
     found (get_secret_latest name) (en_store s) = Some row
     \<and> open_sealed (w_crypto w) dek (record_aad_of row) (sr_nonce row) (sr_ct_tag row) \<noteq> None"

definition read_detail :: "secret_row \<Rightarrow> json" where
  "read_detail row = JObj [(''version'', JInt (uint (sr_version row))), (''revealed'', JBool False)]"

text \<open>The row such a read appends when it starts in \<open>s\<close>, and the engine when it has read the tail.\<close>

definition read_row :: "world \<Rightarrow> string \<Rightarrow> secret_row \<Rightarrow> engine \<Rightarrow> audit_record" where
  "read_row w name row s =
     audit_row w ''secret_read'' (Some name) (read_detail row) Ok (s\<lparr>en_tick := Suc (en_tick s)\<rparr>)"

definition mid_read :: "world \<Rightarrow> string \<Rightarrow> secret_row \<Rightarrow> engine \<Rightarrow> engine" where
  "mid_read w name row s =
     with_row (read_row w name row s) (s\<lparr>en_tick := Suc (Suc (Suc (Suc (en_tick s))))\<rparr>)"

lemma readable_store: "sd_secrets (en_store t) = sd_secrets (en_store s) \<Longrightarrow> readable w dek t name row = readable w dek s name row"
  by (simp add: readable_def store_ops)

lemma read_starts:
  assumes "reliable w" "en_vault s = VUnlocked dek" "readable w dek s name row"
  shows "alone (secret_get_thread w name False ap) s (read_unrevealed_thread w name row) (s\<lparr>en_tick := Suc (en_tick s)\<rparr>)"
  unfolding secret_get_thread_def call_def
  by (rule alone_step, simp add: require_dek_def assms(2), rule alone_step, simp add: assms(1) run_simps store_ops)
    (use assms(3) in \<open>auto simp: readable_def store_ops intro: alone.stop\<close>)

lemma read_front:
  assumes "reliable w" "en_vault s = VUnlocked dek" "readable w dek s name row"
  defines "r \<equiv> read_row w name row s"
  obtains event where
    "alone (secret_get_thread w name False ap) s
       (seq (seq (write_audit_anchor_thread w dek (ar_seq r) (ar_row_hash r)) (\<lambda>_. announce event))
         (\<lambda>_. seq (look en_owner_uid) (\<lambda>by_uid. seq (announce (EvSecretRead name by_uid)) (\<lambda>_. okay []))))
       (mid_read w name row s)"
proof -
  let ?s = "s\<lparr>en_tick := Suc (en_tick s)\<rparr>"
  have "en_vault ?s = VUnlocked dek" using assms(2) by simp
  then obtain event where "alone (audit_thread w ''secret_read'' (Some name) (read_detail row) Ok) ?s
       (seq (write_audit_anchor_thread w dek (ar_seq r) (ar_row_hash r)) (\<lambda>_. announce event))
       (with_row r (?s\<lparr>en_tick := Suc (Suc (Suc (en_tick ?s)))\<rparr>))"
    unfolding r_def read_row_def by (rule audit_front [OF assms(1)])
  from alone_seq [OF this, of "\<lambda>_. seq (look en_owner_uid) (\<lambda>by_uid.
      seq (announce (EvSecretRead name by_uid)) (\<lambda>_. okay []))"]
  have "alone (read_unrevealed_thread w name row) ?s
       (seq (seq (write_audit_anchor_thread w dek (ar_seq r) (ar_row_hash r)) (\<lambda>_. announce event))
         (\<lambda>_. seq (look en_owner_uid) (\<lambda>by_uid. seq (announce (EvSecretRead name by_uid)) (\<lambda>_. okay []))))
       (mid_read w name row s)"
    by (simp add: read_unrevealed_thread_def audit_ok_thread_def read_detail_def mid_read_def r_def)
  from alone_trans [OF read_starts [OF assms(1-3)] this] show thesis by (rule that)
qed

lemma read_run:
  assumes "reliable w" "en_vault s = VUnlocked dek" "readable w dek s name row"
  defines "r \<equiv> read_row w name row s"
  obtains t where "secret_get w name False ap s = (Inr [], t)"
    "en_store t = put_anchor (w_crypto w) dek (i64_max_of (high_water (en_store s)) (ar_seq r)) (ar_row_hash r)
       (en_store (with_row r s))"
    "en_vault t = VUnlocked dek"
proof -
  let ?s = "s\<lparr>en_tick := Suc (en_tick s)\<rparr>"
  have v: "en_vault ?s = VUnlocked dek" using assms(2) by simp
  obtain t where t: "audit w ''secret_read'' (Some name) (read_detail row) Ok ?s = (Inr (), t)"
    "en_store t = put_anchor (w_crypto w) dek (i64_max_of (high_water (en_store ?s)) (ar_seq r)) (ar_row_hash r)
       (en_store (with_row r ?s))" "en_vault t = VUnlocked dek"
    unfolding r_def read_row_def by (rule audit_unlocked_run [OF assms(1) v])
  have "secret_get w name False ap s = read_unrevealed w name row ?s"
    using alone_then_run [OF read_starts [OF assms(1-3), of ap]] by (simp add: solo)
  also have "\<dots> = (Inr [], t\<lparr>en_events := en_events t @ [EvSecretRead name (en_owner_uid t)]\<rparr>)"
    using t(1) by (simp add: read_unrevealed_def audit_ok_def read_detail_def run_simps)
  finally show thesis
    by (rule that) (use t(2,3) in \<open>simp_all add: with_row_def\<close>)
qed

lemma audit_row_seq:
  assumes "verify_chain (w_crypto w) (sd_audit (en_store s)) = Inr ()"
  shows "ar_seq (audit_row w ev sub det out s) = word_of_nat (Suc (length (sd_audit (en_store s))))"
proof -
  let ?rows = "append_row (w_crypto w) (sd_audit (en_store s))
    (new_row (w_now_rfc3339 w (en_tick s)) (Some (en_owner_uid s)) ev sub det out)"
  have "ar_seq (?rows ! length (sd_audit (en_store s))) = word_of_nat (Suc (length (sd_audit (en_store s))))"
    using verify_append_row [OF assms] by (rule verified_nth) simp
  then show ?thesis by (simp add: append_row_def audit_row_def)
qed

lemma audit_row_verifies:
  "verify_chain (w_crypto w) (sd_audit (en_store s)) = Inr () \<Longrightarrow>
   verify_chain (w_crypto w) (sd_audit (en_store s) @ [audit_row w ev sub det out s]) = Inr ()"
  using verify_append_row [of "w_crypto w" "sd_audit (en_store s)"] by (simp add: append_row_def audit_row_def)

lemma read_row_chain:
  assumes "verify_chain (w_crypto w) (sd_audit (en_store s)) = Inr ()"
  shows "ar_seq (read_row w name row s) = word_of_nat (Suc (length (sd_audit (en_store s))))"
    "verify_chain (w_crypto w) (sd_audit (en_store s) @ [read_row w name row s]) = Inr ()"
  using audit_row_seq [of w "s\<lparr>en_tick := Suc (en_tick s)\<rparr>"] audit_row_verifies [of w "s\<lparr>en_tick := Suc (en_tick s)\<rparr>"] assms
  by (simp_all add: read_row_def)

lemma max_of_nat:
  assumes "sint hw \<le> int k" "k < 2 ^ 63"
  shows "i64_max_of hw (word_of_nat k) = word_of_nat k"
  using assms by (simp add: i64_max_of_def sint_of_nat_i64)

lemma max_of_less: "a < b \<Longrightarrow> b < 2 ^ 63 \<Longrightarrow> i64_max_of (word_of_nat b) (word_of_nat a) = word_of_nat b"
  by (simp add: i64_max_of_def sint_of_nat_i64)

lemma mid_read_fields [simp]:
  "sd_audit (en_store (mid_read w name row s)) = sd_audit (en_store s) @ [read_row w name row s]"
  "en_vault (mid_read w name row s) = en_vault s" "high_water (en_store (mid_read w name row s)) = high_water (en_store s)"
  "sd_secrets (en_store (mid_read w name row s)) = sd_secrets (en_store s)"
  by (simp_all add: mid_read_def)

end
