(* ===== verification/EngineRace.thy ===== *)
theory EngineRace
  imports Anchor
begin

text \<open>
  Two reads that overlap, and the audit anchor. The mark and the MAC are read, compared and written by
  separate store calls under a vault lock that is only shared (\<open>advance_audit_anchor_if_unlocked\<close>,
  \<open>write_audit_anchor\<close> in \<open>crates/secrets-engine/src/lib.rs\<close>), so the second read can come between any two
  of the steps of the first.
\<close>

section \<open>Two reads that overlap\<close>

text \<open>The log a vault may be opened on, or not, after it was closed.\<close>

lemma lock_run:
  assumes "reliable w"
  obtains rec u where "lock w t = (Inr (), u)" "en_vault u = VLocked"
    "en_store u = (en_store t)\<lparr>sd_audit := append_row (w_crypto w) (sd_audit (en_store t)) rec\<rparr>"
proof -
  let ?v = "t\<lparr>en_vault := VLocked, en_ca := None\<rparr>"
  have shut: "en_vault ?v = VLocked" by simp
  obtain rec u where "audit w ''vault_locked'' None (JObj []) Ok ?v = (Inr (), u)" "en_vault u = VLocked"
    "en_store u = (en_store ?v)\<lparr>sd_audit := append_row (w_crypto w) (sd_audit (en_store ?v)) rec\<rparr>"
    by (rule audit_locked_run [OF assms shut])
  then show thesis
    by (intro that [of "u\<lparr>en_events := en_events u @ [EvVaultLocked]\<rparr>" rec])
      (simp_all add: lock_def run_simps audit_ok_def)
qed

lemma broken_stays_shut:
  assumes "reliable w" "verify_chain (w_crypto w) (sd_audit (en_store t)) = Inr ()" "length (sd_audit (en_store t)) = k"
    and "0 < k" "Suc k < 2 ^ 63"
    and "sd_meta (en_store t) META_AUDIT_HIGH_WATER = Some (i64_to_string (word_of_nat k))"
    and "sd_meta (en_store t) META_AUDIT_HEAD = Some (hex_encode mac)"
    and "mac \<noteq> audit_head_mac (w_crypto w) dek (word_of_nat k) (word_of_nat k) (ar_row_hash (last (sd_audit (en_store t))))"
  shows "en_vault (snd (unlock w u (snd (lock w t)))) \<noteq> VUnlocked dek"
proof
  assume opened: "en_vault (snd (unlock w u (snd (lock w t)))) = VUnlocked dek"
  obtain rec v where lock: "lock w t = (Inr (), v)" "en_vault v = VLocked"
    "en_store v = (en_store t)\<lparr>sd_audit := append_row (w_crypto w) (sd_audit (en_store t)) rec\<rparr>"
    by (rule lock_run [OF assms(1)])
  obtain r v' where "unlock w u v = (r, v')" "en_vault v' = VUnlocked dek"
    using opened lock(1) by (cases "unlock w u v") simp
  then have "log_authentic (w_crypto w) dek (en_store v)"
    using opened_on_evidence [of w u v r v' dek] lock(2) by (simp add: unlock_evidence_def)
  moreover have "sd_audit (en_store v) ! (k - 1) = last (sd_audit (en_store t))"
    using assms(3,4) lock(3) by (auto simp: append_row_def nth_append last_conv_nth)
  ultimately show False
    using log_authentic_iff [of "w_crypto w" "en_store v" k mac dek] assms lock(3) verify_append_row [OF assms(2), of rec]
    by simp
qed

text \<open>
  C15: two reads that overlap can leave an anchor that no longer fits the log, with nobody having touched
  the store: the second read appends its row and raises the mark between the moment the first reads the
  tail and the moment it signs; the first then signs its own row under the mark of the second. Both reads
  succeed and the chain verifies, but the check of the anchor reports a broken chain; and once the vault
  is locked, no unlock brings its key back. (In a debug build the assertion in \<open>write_audit_anchor\<close> stops
  the first read instead.)
\<close>

theorem racing_reads_break_anchor:
  assumes w: "reliable w" and v: "en_vault s = VUnlocked dek"
    and reads: "readable w dek s name row" "readable w dek s name' row'"
    and chain: "verify_chain (w_crypto w) (sd_audit (en_store s)) = Inr ()"
    and n: "length (sd_audit (en_store s)) = n" "n + 3 < 2 ^ 63"
    and mark: "sint (high_water (en_store s)) \<le> int n"
    and macs: "audit_head_mac (w_crypto w) dek (word_of_nat (n + 2)) (word_of_nat (n + 2)) (ar_row_hash (read_row w name row s))
      \<noteq> audit_head_mac (w_crypto w) dek (word_of_nat (n + 2)) (word_of_nat (n + 2))
          (ar_row_hash (read_row w name' row' (mid_read w name row s)))"
  shows "\<exists>t. interleave (s, [secret_get_thread w name False False, secret_get_thread w name' False False])
        (t, [Finished (Inr []), Finished (Inr [])])
    \<and> verify_chain (w_crypto w) (sd_audit (en_store t)) = Inr ()
    \<and> fst (verify_audit_anchor w t) = Inl (Engine (AuditChainBroken (word_of_nat (n + 2))))
    \<and> (\<forall>u. en_vault (snd (unlock w u (snd (lock w t)))) \<noteq> VUnlocked dek)"
proof -
  let ?r1 = "read_row w name row s" and ?s1 = "mid_read w name row s"
  let ?r2 = "read_row w name' row' ?s1"
  let ?mac = "audit_head_mac (w_crypto w) dek (word_of_nat (n + 2)) (word_of_nat (n + 2)) (ar_row_hash ?r1)"
  have c1: "verify_chain (w_crypto w) (sd_audit (en_store ?s1)) = Inr ()"
    using read_row_chain(2) [OF chain] by simp
  have q: "ar_seq ?r1 = word_of_nat (n + 1)" "ar_seq ?r2 = word_of_nat (n + 2)"
    using read_row_chain(1) [OF chain] read_row_chain(1) [OF c1] n(1) by simp_all
  have v1: "en_vault ?s1 = VUnlocked dek" and readable1: "readable w dek ?s1 name' row'"
    using v reads(2) by (simp_all add: readable_store [of ?s1 s])
  obtain event where front: "alone (secret_get_thread w name False False) s
       (seq (seq (write_audit_anchor_thread w dek (ar_seq ?r1) (ar_row_hash ?r1)) (\<lambda>_. announce event))
         (\<lambda>_. seq (look en_owner_uid) (\<lambda>by_uid. seq (announce (EvSecretRead name by_uid)) (\<lambda>_. okay [])))) ?s1"
    (is "alone _ _ ?rest _") by (rule read_front [OF w v reads(1)])
  obtain s2 where second: "secret_get w name' False False ?s1 = (Inr [], s2)"
    "en_store s2 = put_anchor (w_crypto w) dek (i64_max_of (high_water (en_store s)) (word_of_nat (n + 2))) (ar_row_hash ?r2)
       (en_store (with_row ?r2 ?s1))" "en_vault s2 = VUnlocked dek"
    by (rule read_run [OF w v1 readable1, where ap = False]) (simp add: q)
  obtain t where rest: "run ?rest s2 = (Inr [], t)" "en_vault t = VUnlocked dek"
    "en_store t = put_anchor (w_crypto w) dek (word_of_nat (n + 2)) (ar_row_hash ?r1) (en_store s2)"
    using mark n max_of_less [of "n + 1" "n + 2"] max_of_nat [of "high_water (en_store s)" "n + 2"] second(2,3)
    by (simp add: solo run_simps anchor_run [OF w] q)
  have "interleave (s, [secret_get_thread w name False False, secret_get_thread w name' False False])
        (t, [Finished (Inr []), Finished (Inr [])])"
    using interrupted [OF front _ rest(1), of "secret_get_thread w name' False False" "Inr []"] second(1)
    by (simp add: solo)
  moreover have rows: "sd_audit (en_store t) = sd_audit (en_store s) @ [?r1, ?r2]"
    using rest(3) second(2) by simp
  moreover have ct: "verify_chain (w_crypto w) (sd_audit (en_store t)) = Inr ()"
    using read_row_chain(2) [OF c1, of name' row'] rows by simp
  moreover have meta: "sd_meta (en_store t) META_AUDIT_HIGH_WATER = Some (i64_to_string (word_of_nat (n + 2)))"
    "sd_meta (en_store t) META_AUDIT_HEAD = Some (hex_encode ?mac)"
    using rest(3) by simp_all
  moreover have len: "length (sd_audit (en_store t)) = n + 2" "sd_audit (en_store t) ! (n + 1) = ?r2" "last (sd_audit (en_store t)) = ?r2"
    using rows n(1) by (simp_all add: nth_append)
  moreover have "fst (verify_audit_anchor w t) = Inl (Engine (AuditChainBroken (word_of_nat (n + 2))))"
    using anchor_verdict [OF w ct, of "n + 2" ?mac dek] meta len rest(2) macs n(2) by simp
  moreover have "en_vault (snd (unlock w u (snd (lock w t)))) \<noteq> VUnlocked dek" for u
    using broken_stays_shut [OF w ct len(1), of ?mac dek u] meta len macs n(2) by simp
  ultimately show ?thesis by blast
qed

section \<open>The mark\<close>

text \<open>The end of an advance, once the mark was read and the greater of the two numbers chosen.\<close>

definition put_anchor_thread :: "world \<Rightarrow> dek \<Rightarrow> i64 \<Rightarrow> bytes \<Rightarrow> unit job" where
  "put_anchor_thread w dek hw h =
     seq (call w (put_meta META_AUDIT_HIGH_WATER (i64_to_string hw))) (\<lambda>_.
       call w (put_meta META_AUDIT_HEAD (hex_encode (audit_head_mac (w_crypto w) dek hw hw h))))"

lemma put_anchor_run:
  assumes "reliable w"
  shows "run (put_anchor_thread w dek hw h) s = (Inr (), s\<lparr>en_tick := Suc (Suc (en_tick s)),
    en_store := put_anchor (w_crypto w) dek hw h (en_store s)\<rparr>)"
  using assms by (simp add: put_anchor_thread_def put_anchor_def run_simps store_ops)

lemma anchor_reads_mark:
  assumes "reliable w"
  shows "alone (write_audit_anchor_thread w dek q h) s
    (put_anchor_thread w dek (i64_max_of (high_water (en_store s)) q) h) (s\<lparr>en_tick := Suc (en_tick s)\<rparr>)"
  unfolding write_audit_anchor_thread_def put_anchor_thread_def call_def Let_def
  by (rule alone_step, simp add: assms run_simps store_ops) (simp add: high_water_def alone.stop)

text \<open>The first read, up to the moment it has read the mark.\<close>

lemma read_front_mark:
  assumes w: "reliable w" and v: "en_vault s = VUnlocked dek" and reads: "readable w dek s name row"
    and chain: "verify_chain (w_crypto w) (sd_audit (en_store s)) = Inr ()"
    and n: "length (sd_audit (en_store s)) = n" "n + 1 < 2 ^ 63" and mark: "sint (high_water (en_store s)) \<le> int n"
  obtains event where "alone (secret_get_thread w name False False) s
      (seq (seq (put_anchor_thread w dek (word_of_nat (n + 1)) (ar_row_hash (read_row w name row s))) (\<lambda>_. announce event))
        (\<lambda>_. seq (look en_owner_uid) (\<lambda>by_uid. seq (announce (EvSecretRead name by_uid)) (\<lambda>_. okay []))))
      ((mid_read w name row s)\<lparr>en_tick := Suc (en_tick (mid_read w name row s))\<rparr>)"
proof -
  let ?r1 = "read_row w name row s" and ?m = "mid_read w name row s"
  obtain event where front: "alone (secret_get_thread w name False False) s
       (seq (seq (write_audit_anchor_thread w dek (ar_seq ?r1) (ar_row_hash ?r1)) (\<lambda>_. announce event))
         (\<lambda>_. seq (look en_owner_uid) (\<lambda>by_uid. seq (announce (EvSecretRead name by_uid)) (\<lambda>_. okay [])))) ?m"
    by (rule read_front [OF w v reads])
  have "i64_max_of (high_water (en_store ?m)) (ar_seq ?r1) = word_of_nat (n + 1)"
    using mark n max_of_nat [of "high_water (en_store s)" "n + 1"] read_row_chain(1) [OF chain] by simp
  then have "alone (write_audit_anchor_thread w dek (ar_seq ?r1) (ar_row_hash ?r1)) ?m
      (put_anchor_thread w dek (word_of_nat (n + 1)) (ar_row_hash ?r1)) (?m\<lparr>en_tick := Suc (en_tick ?m)\<rparr>)"
    using anchor_reads_mark [OF w, of dek "ar_seq ?r1" "ar_row_hash ?r1" ?m] by simp
  from alone_trans [OF front alone_seq [OF alone_seq [OF this]]] show thesis by (rule that)
qed

text \<open>An anchor on the row before the last fits the log, and the log without its last row.\<close>

lemma anchor_below_tail:
  assumes "verify_chain cr (rows @ [r]) = Inr ()" "verify_chain cr (rows @ [r, r']) = Inr ()"
    and "length rows + 2 < 2 ^ 63"
    and "sd_audit g = rows @ [r, r']"
    and "g = put_anchor cr dek (word_of_nat (length rows + 1)) (ar_row_hash r) h"
  shows "log_authentic cr dek g" "log_authentic cr dek (g\<lparr>sd_audit := butlast (sd_audit g)\<rparr>)"
proof -
  have "log_authentic cr dek (g\<lparr>sd_audit := rows @ rs\<rparr>)"
    if "verify_chain cr (rows @ rs) = Inr ()" "rs \<in> {[r], [r, r']}" for rs
    using log_authentic_iff [of cr "g\<lparr>sd_audit := rows @ rs\<rparr>" "length rows + 1"] that assms(3,5)
    by (auto simp: nth_append)
  note both = this [OF assms(1), simplified] this [OF assms(2), simplified]
  have "g\<lparr>sd_audit := rows @ [r, r']\<rparr> = g" by (simp flip: assms(4))
  with both(2) show "log_authentic cr dek g" by metis
  show "log_authentic cr dek (g\<lparr>sd_audit := butlast (sd_audit g)\<rparr>)"
    using both(1) by (simp add: assms(4) butlast_append)
qed

text \<open>
  C16: the mark is not the fence its comment says: two reads that overlap can lower it. The first read
  has read the mark when the second raises it over its own row; the first then writes the smaller number
  back, with a signature that fits. The log agrees with this anchor, and it still does when the row of the
  second read is cut off.
\<close>

theorem racing_reads_lower_mark:
  assumes w: "reliable w" and v: "en_vault s = VUnlocked dek"
    and reads: "readable w dek s name row" "readable w dek s name' row'"
    and chain: "verify_chain (w_crypto w) (sd_audit (en_store s)) = Inr ()"
    and n: "length (sd_audit (en_store s)) = n" "n + 2 < 2 ^ 63"
    and mark: "sint (high_water (en_store s)) \<le> int n"
  shows "\<exists>u ts t r2. interleave (s, [secret_get_thread w name False False, secret_get_thread w name' False False]) (u, ts)
    \<and> interleave (u, ts) (t, [Finished (Inr []), Finished (Inr [])])
    \<and> high_water (en_store u) = word_of_nat (n + 2) \<and> high_water (en_store t) = word_of_nat (n + 1)
    \<and> last (sd_audit (en_store t)) = r2 \<and> ar_subject r2 = Some name'
    \<and> log_authentic (w_crypto w) dek (en_store t)
    \<and> log_authentic (w_crypto w) dek ((en_store t)\<lparr>sd_audit := butlast (sd_audit (en_store t))\<rparr>)"
proof -
  let ?r1 = "read_row w name row s" and ?m = "mid_read w name row s"
  let ?s1 = "?m\<lparr>en_tick := Suc (en_tick ?m)\<rparr>"
  let ?r2 = "read_row w name' row' ?s1"
  have c1: "verify_chain (w_crypto w) (sd_audit (en_store ?s1)) = Inr ()"
    using read_row_chain(2) [OF chain] by simp
  have q: "ar_seq ?r1 = word_of_nat (n + 1)" "ar_seq ?r2 = word_of_nat (n + 2)"
    using read_row_chain(1) [OF chain] read_row_chain(1) [OF c1] n(1) by simp_all
  have v1: "en_vault ?s1 = VUnlocked dek" and readable1: "readable w dek ?s1 name' row'"
    using v reads(2) by (simp_all add: readable_store [of ?s1 s])
  obtain event where late: "alone (secret_get_thread w name False False) s
      (seq (seq (put_anchor_thread w dek (word_of_nat (n + 1)) (ar_row_hash ?r1)) (\<lambda>_. announce event))
        (\<lambda>_. seq (look en_owner_uid) (\<lambda>by_uid. seq (announce (EvSecretRead name by_uid)) (\<lambda>_. okay [])))) ?s1"
    (is "alone _ _ ?rest _") using n mark by (auto intro: read_front_mark [OF w v reads(1) chain])
  obtain u where second: "secret_get w name' False False ?s1 = (Inr [], u)"
    "en_store u = put_anchor (w_crypto w) dek (i64_max_of (high_water (en_store s)) (word_of_nat (n + 2))) (ar_row_hash ?r2)
       (en_store (with_row ?r2 ?s1))" "en_vault u = VUnlocked dek"
    by (rule read_run [OF w v1 readable1, where ap = False]) (simp add: q)
  obtain t where rest: "run ?rest u = (Inr [], t)"
    "en_store t = put_anchor (w_crypto w) dek (word_of_nat (n + 1)) (ar_row_hash ?r1) (en_store u)"
    by (simp add: run_simps put_anchor_run [OF w])
  have rows: "sd_audit (en_store t) = sd_audit (en_store s) @ [?r1, ?r2]"
    using rest(2) second(2) by simp
  have ct: "verify_chain (w_crypto w) (sd_audit (en_store s) @ [?r1, ?r2]) = Inr ()"
    "verify_chain (w_crypto w) (sd_audit (en_store s) @ [?r1]) = Inr ()"
    using read_row_chain(2) [OF c1, of name' row'] read_row_chain(2) [OF chain] by simp_all
  have "log_authentic (w_crypto w) dek (en_store t)"
      "log_authentic (w_crypto w) dek ((en_store t)\<lparr>sd_audit := butlast (sd_audit (en_store t))\<rparr>)"
    using anchor_below_tail [OF ct(2,1) _ rows] rest(2) n by simp_all
  moreover have "ar_subject ?r2 = Some name'"
    by (simp add: read_row_def audit_row_def link_row_fields new_row_def)
  moreover have "high_water (en_store u) = word_of_nat (n + 2)"
    using second(2) mark n(2) max_of_nat [of "high_water (en_store s)" "n + 2"] by simp
  moreover have "interleave (s, [secret_get_thread w name False False, secret_get_thread w name' False False])
      (u, [?rest, Finished (Inr [])])"
    using until_interrupted [OF late, of "secret_get_thread w name' False False" "Inr []" u] second(1) by (simp add: solo)
  moreover have "interleave (u, [?rest, Finished (Inr [])]) (t, [Finished (Inr []), Finished (Inr [])])"
    by (rule after_interruption [OF rest(1)])
  ultimately show ?thesis using rows rest(2) by fastforce
qed

section \<open>Examples\<close>

text \<open>A world whose hash and MAC tell any two inputs apart: the input itself.\<close>

definition plain_world :: world where
  "plain_world = toy_world\<lparr>w_crypto := toy_crypto\<lparr>blake3_hash := (\<lambda>m. m), blake3_keyed_hash := (\<lambda>k m. m)\<rparr>\<rparr>"

lemma plain_world_simps [simp]:
  "reliable plain_world" "blake3_hash (w_crypto plain_world) m = m" "blake3_keyed_hash (w_crypto plain_world) k m = m"
  by (simp_all add: plain_world_def reliable_def toy_world_def)

lemma plain_readable [simp]: "readable plain_world toy_dek toy_engine ''anthropic_key'' toy_secret"
proof -
  have "open_sealed (w_crypto plain_world) toy_dek (record_aad_of toy_secret) (sr_nonce toy_secret) (sr_ct_tag toy_secret)
      = open_sealed toy_crypto toy_dek (record_aad_of toy_secret) (sr_nonce toy_secret) (sr_ct_tag toy_secret)"
    by (simp add: plain_world_def open_sealed_def)
  then show ?thesis
    using toy_secret_opens by (simp add: readable_def store_ops toy_store_def) (simp add: toy_secret_def)
qed

lemma toy_log [simp]: "sd_audit toy_store = []" "high_water toy_store = 0"
  by (simp_all add: toy_store_def empty_store_def high_water_def META_ISSUANCE_FLOOR_MS_def META_AUDIT_HIGH_WATER_def)

text \<open>The hash of the second row holds the hash of the first and more.\<close>

lemma plain_macs:
  "audit_head_mac (w_crypto plain_world) toy_dek q q (ar_row_hash (read_row plain_world name row toy_engine))
   \<noteq> audit_head_mac (w_crypto plain_world) toy_dek q q
       (ar_row_hash (read_row plain_world name' row' (mid_read plain_world name row toy_engine)))"
proof -
  let ?r1 = "read_row plain_world name row toy_engine"
  let ?r2 = "read_row plain_world name' row' (mid_read plain_world name row toy_engine)"
  have "ar_row_hash ?r2 = ar_row_hash ?r1 @ canonical_row (w_crypto plain_world) ?r2"
    by (simp add: read_row_def [of _ name'] audit_row_def link_row_fields(2,3) row_hash_def last_row_def)
  moreover have "canonical_row (w_crypto plain_world) ?r2 \<noteq> []" by (simp add: canonical_row_def)
  ultimately show ?thesis by (simp add: audit_head_mac_def)
qed

theorem racing_reads_break_anchor_witness:
  "\<exists>t. interleave (toy_engine, [secret_get_thread plain_world ''anthropic_key'' False False,
        secret_get_thread plain_world ''anthropic_key'' False False]) (t, [Finished (Inr []), Finished (Inr [])])
    \<and> verify_chain (w_crypto plain_world) (sd_audit (en_store t)) = Inr ()
    \<and> fst (verify_audit_anchor plain_world t) = Inl (Engine (AuditChainBroken (word_of_nat (0 + 2))))
    \<and> (\<forall>u. en_vault (snd (unlock plain_world u (snd (lock plain_world t)))) \<noteq> VUnlocked toy_dek)"
  by (rule racing_reads_break_anchor [OF _ _ plain_readable plain_readable _ _ _ _ plain_macs]) simp_all

theorem racing_reads_lower_mark_witness:
  "\<exists>u ts t r2. interleave (toy_engine, [secret_get_thread plain_world ''anthropic_key'' False False,
        secret_get_thread plain_world ''anthropic_key'' False False]) (u, ts)
    \<and> interleave (u, ts) (t, [Finished (Inr []), Finished (Inr [])])
    \<and> high_water (en_store u) = word_of_nat (0 + 2) \<and> high_water (en_store t) = word_of_nat (0 + 1)
    \<and> last (sd_audit (en_store t)) = r2 \<and> ar_subject r2 = Some ''anthropic_key''
    \<and> log_authentic (w_crypto plain_world) toy_dek (en_store t)
    \<and> log_authentic (w_crypto plain_world) toy_dek ((en_store t)\<lparr>sd_audit := butlast (sd_audit (en_store t))\<rparr>)"
  by (rule racing_reads_lower_mark [OF _ _ plain_readable plain_readable]) simp_all

end
