(* ===== verification/EngineMark.thy ===== *)
theory EngineMark
  imports EngineRace
begin

text \<open>
  What every interleaving of requests leaves of the high-water mark: it never runs ahead of the log. So
  the next audited operation that runs alone while the vault is open mends an anchor that overlapping
  requests broke.
\<close>

section \<open>The mark under every interleaving\<close>

definition mark_ok :: "crypto \<Rightarrow> in_mem_data \<Rightarrow> bool" where
  "mark_ok cr g \<longleftrightarrow> verify_chain cr (sd_audit g) = Inr () \<and> sint (high_water g) \<le> int (length (sd_audit g))"

definition mark_kept :: "crypto \<Rightarrow> in_mem_data \<Rightarrow> in_mem_data \<Rightarrow> bool" where
  "mark_kept cr g h \<longleftrightarrow> (mark_ok cr g \<longrightarrow> mark_ok cr h) \<and> log_append g h"

interpretation mark: frame_relation "mark_kept cr" for cr
proof
  show "mark_kept cr g g" for g by (auto simp: mark_kept_def log_append_def)
  show "mark_kept cr g i" if "mark_kept cr g h" "mark_kept cr h i" for g h i
    using that unfolding mark_kept_def log_append_def by (metis append_assoc)
qed

lemma mark_kept_same: "sd_audit h = sd_audit g \<Longrightarrow> high_water h = high_water g \<Longrightarrow> mark_kept cr g h"
  by (auto simp: mark_kept_def mark_ok_def log_append_def)

lemma high_water_kept [simp]:
  "high_water (snd (put_secret row g)) = high_water g" "high_water (snd (save_relay_policy pol g)) = high_water g"
  "high_water (snd (reserve_secret_row_id g)) = high_water g"
  by (simp_all add: high_water_def put_secret_def save_relay_policy_def reserve_secret_row_id_def Let_def)

lemma store_call_mark:
  assumes "\<And>g. P g \<Longrightarrow> mark_kept cr g (snd (m g))" "P (en_store s)"
  shows "mark_kept cr (en_store s) (en_store (snd (store_call w m s)))"
  using assms mark.refl_R by (auto simp: store_call_def Let_def split: option.split)

text \<open>An advance writes a mark of a row that is there.\<close>

definition seen :: "world \<Rightarrow> i64 \<Rightarrow> engine \<Rightarrow> bool" where
  "seen w q s \<longleftrightarrow> mark_ok (w_crypto w) (en_store s) \<and> sint q \<le> int (length (sd_audit (en_store s)))"

lemma seen_stable: "stable (\<lambda>s t. mark_kept (w_crypto w) (en_store s) (en_store t)) (seen w q)"
  by (auto simp: stable_def seen_def mark_kept_def log_append_def)

lemma tail_seen:
  assumes "mark_ok cr g" shows "sint (fst (tail_of (last_row (sd_audit g)))) \<le> int (length (sd_audit g))"
proof (cases "sd_audit g" rule: rev_cases)
  case (snoc rows r)
  then have "ar_seq r = word_of_nat (Suc (length rows))"
    using assms verified_nth [of cr "sd_audit g" "length rows"] by (simp add: mark_ok_def)
  moreover have "sint (word_of_nat k :: i64) \<le> int k" for k
    using sint_of_nat_i64 [of k] sint_less [of "word_of_nat k :: i64"] by (cases "k < 2 ^ 63") simp_all
  ultimately show ?thesis using snoc by (metis fst_conv last_row_snoc length_append_singleton tail_of.simps(1))
qed simp

lemma write_anchor_seen:
  "upholds (\<lambda>s t. mark_kept (w_crypto w) (en_store s) (en_store t))
     (\<lambda>s t. mark_kept (w_crypto w) (en_store s) (en_store t)) (\<lambda>_. seen w q) (seen w q)
     (write_audit_anchor_thread w dek q h)"
  (is "upholds ?R ?R _ _ _")
proof -
  have get: "upholds ?R ?R (\<lambda>stored s. seen w q s
      \<and> seen w (case stored of None \<Rightarrow> 0 | Some t \<Rightarrow> (case parse_i64 t of None \<Rightarrow> 0 | Some v \<Rightarrow> v)) s) (seen w q)
      (call w (get_meta META_AUDIT_HIGH_WATER))"
    unfolding call_def
  proof (rule upholds_step)
    fix s show "?R s (snd (store_call w (get_meta META_AUDIT_HIGH_WATER) s))"
      by (rule store_call_mark [where P = "\<lambda>_. True"]) (simp_all add: store_ops mark.refl_R)
  next
    fix s x t assume "seen w q s" "store_call w (get_meta META_AUDIT_HIGH_WATER) s = (Inr x, t)"
    moreover from this(2) have "en_store t = en_store s" "x = sd_meta (en_store s) META_AUDIT_HIGH_WATER"
      using store_call_InrD [of w "get_meta META_AUDIT_HIGH_WATER" s x t]
        store_call_ticks [OF reads_ops(1)] by (simp_all add: store_ops)
    ultimately show "seen w q t \<and> seen w (case x of None \<Rightarrow> 0 | Some t \<Rightarrow> (case parse_i64 t of None \<Rightarrow> 0 | Some v \<Rightarrow> v)) t"
      by (simp add: seen_def mark_ok_def high_water_def)
  next
    show "stable ?R (\<lambda>s. seen w q s
      \<and> seen w (case x of None \<Rightarrow> 0 | Some t \<Rightarrow> (case parse_i64 t of None \<Rightarrow> 0 | Some v \<Rightarrow> v)) s)" for x
      using seen_stable unfolding stable_def by blast
  qed
  have mark: "upholds ?R ?R (\<lambda>_. seen w q) (\<lambda>s. seen w q s \<and> seen w hw s)
      (call w (put_meta META_AUDIT_HIGH_WATER (i64_to_string hw)))" for hw
    unfolding call_def
  proof (rule upholds_step)
    fix s assume "seen w q s \<and> seen w hw s"
    then show R: "?R s (snd (store_call w (put_meta META_AUDIT_HIGH_WATER (i64_to_string hw)) s))"
      by (intro store_call_mark [where P = "\<lambda>g. sint hw \<le> int (length (sd_audit g))"])
        (auto simp: store_ops mark_kept_def mark_ok_def log_append_def high_water_def parse_i64_to_string seen_def)
    fix x t assume "store_call w (put_meta META_AUDIT_HIGH_WATER (i64_to_string hw)) s = (Inr x, t)"
    with R \<open>seen w q s \<and> _\<close> seen_stable show "seen w q t" unfolding stable_def by (metis snd_conv)
  qed (rule seen_stable)
  have head: "upholds ?R ?R (\<lambda>_. seen w q) (seen w q) (call w (put_meta META_AUDIT_HEAD v))" for v
    unfolding call_def
  proof (rule upholds_step)
    fix s assume "seen w q s"
    show R: "?R s (snd (store_call w (put_meta META_AUDIT_HEAD v) s))"
      by (rule store_call_mark [where P = "\<lambda>_. True"]) (auto simp: store_ops high_water_def intro: mark_kept_same)
    fix x t assume "store_call w (put_meta META_AUDIT_HEAD v) s = (Inr x, t)"
    with R \<open>seen w q s\<close> seen_stable show "seen w q t" unfolding stable_def by (metis snd_conv)
  qed (rule seen_stable)
  have larger: "seen w hw s \<Longrightarrow> seen w q s \<Longrightarrow> seen w q s \<and> seen w (i64_max_of hw q) s" for hw s
    by (simp add: seen_def i64_max_of_def)
  show ?thesis
    unfolding write_audit_anchor_thread_def Let_def
    by (rule upholds_seq [OF get], rule upholds_seq [OF _ head], rule upholds_weaken [OF mark]) (use larger in blast)
qed

lemma advance_obeys:
  "obeys (\<lambda>s t. mark_kept (w_crypto w) (en_store s) (en_store t))
     (\<lambda>s t. mark_kept (w_crypto w) (en_store s) (en_store t)) (\<lambda>s. mark_ok (w_crypto w) (en_store s))
     (seq (call w last_audit) (\<lambda>r. write_audit_anchor_thread w dek (fst (tail_of r)) (snd (tail_of r))))"
  (is "obeys ?R ?R ?I _")
proof -
  have "upholds ?R ?R (\<lambda>r. seen w (fst (tail_of r))) ?I (call w last_audit)"
    unfolding call_def
  proof (rule upholds_step)
    fix s show "?R s (snd (store_call w last_audit s))"
      by (rule store_call_mark [where P = "\<lambda>_. True"]) (simp_all add: store_ops mark.refl_R)
  next
    fix s x t assume "?I s" "store_call w last_audit s = (Inr x, t)"
    moreover from this(2) have "en_store t = en_store s" "x = last_row (sd_audit (en_store s))"
      using store_call_InrD [of w last_audit s x t] store_call_ticks [OF reads_ops(6)] by (simp_all add: store_ops)
    ultimately show "seen w (fst (tail_of x)) t" using tail_seen by (simp add: seen_def)
  qed (rule seen_stable)
  then have "upholds ?R ?R (\<lambda>_. ?I) ?I
      (seq (call w last_audit) (\<lambda>r. write_audit_anchor_thread w dek (fst (tail_of r)) (snd (tail_of r))))"
    by (rule upholds_seq) (rule upholds_weaken_post [OF write_anchor_seen], simp add: seen_def)
  then show ?thesis by (auto simp: obeys_def stable_def mark_kept_def)
qed

interpretation marks: thread_send_relation "\<lambda>s t. mark_kept (w_crypto w) (en_store s) (en_store t)" w "mark_kept (w_crypto w)"
  "\<lambda>s t. mark_kept (w_crypto w) (en_store s) (en_store t)" "\<lambda>s. mark_ok (w_crypto w) (en_store s)" "\<lambda>_. True" "\<lambda>_. True" for w
proof
  show "mark_kept (w_crypto w) g (snd (append_audit (w_crypto w) rec g))" for rec g
    using verify_append_row [of "w_crypto w" "sd_audit g" rec]
    by (auto simp: mark_kept_def mark_ok_def log_append_def audit_appended append_row_def append_audit_def Let_def)
  show "stable (\<lambda>s t. mark_kept (w_crypto w) (en_store s) (en_store t)) (\<lambda>s. mark_ok (w_crypto w) (en_store s))"
    by (auto simp: stable_def mark_kept_def)
  show "obeys (\<lambda>s t. mark_kept (w_crypto w) (en_store s) (en_store t))
     (\<lambda>s t. mark_kept (w_crypto w) (en_store s) (en_store t)) (\<lambda>s. mark_ok (w_crypto w) (en_store s))
     (seq (call w last_audit) (\<lambda>r. write_audit_anchor_thread w dek (fst (tail_of r)) (snd (tail_of r))))" for dek
    by (rule advance_obeys)
  show "mark_kept (w_crypto w) g (snd (reserve_secret_row_id g))" "mark_kept (w_crypto w) g (snd (put_secret row g))"
    "mark_kept (w_crypto w) g (snd (save_relay_policy pol g))" for g row pol
    by (rule mark_kept_same; simp add: audit_kept)+
qed (auto intro: mark.refl_R mark.trans_R mark_kept_same simp: audit_kept store_ops high_water_def)

text \<open>
  C17: what the damage is worth: whatever requests overlapped, as long as the vault is still open, the next
  audited operation that runs alone signs the tail again. The log then agrees with its anchor, and the
  vault can be opened after it is closed.
\<close>

theorem lone_audit_mends_anchor:
  assumes "reliable w" "mark_ok (w_crypto w) (en_store s)" "concurrently w rs s t" "en_vault t = VUnlocked dek"
    and "length (sd_audit (en_store t)) + 1 < 2 ^ 63" "audit w ev sub det out t = (r, u)"
  shows "log_authentic (w_crypto w) dek (en_store u)"
proof -
  let ?n = "length (sd_audit (en_store t))" and ?row = "audit_row w ev sub det out t"
  have ok: "mark_ok (w_crypto w) (en_store t)"
    using marks.concurrently [OF refl assms(3) _ assms(2)] assms(2) by (simp add: mark_kept_def)
  then have seq: "ar_seq ?row = word_of_nat (?n + 1)" using audit_row_seq [of w t] by (simp add: mark_ok_def)
  obtain v where "audit w ev sub det out t = (Inr (), v)"
    "en_store v = put_anchor (w_crypto w) dek (i64_max_of (high_water (en_store t)) (ar_seq ?row)) (ar_row_hash ?row)
       (en_store (with_row ?row t))"
    by (rule audit_unlocked_run [OF assms(1,4)])
  moreover have "i64_max_of (high_water (en_store t)) (ar_seq ?row) = word_of_nat (?n + 1)"
    unfolding seq using ok assms(5) by (intro max_of_nat) (simp_all add: mark_ok_def)
  ultimately show ?thesis
    using log_authentic_iff [of "w_crypto w" "en_store u" "?n + 1"] audit_row_verifies [of w t] ok assms(5,6)
    by (simp add: mark_ok_def)
qed

section \<open>Examples\<close>

theorem interleaved_audit_chain_witness:
  "fst (verify_audit_chain (w_crypto toy_world)
     (en_store (fold (perform toy_world) [Lock, RelayRevoke ''r'' True] toy_engine))) = Inr ()"
  by (rule interleaved_audit_chain [OF in_order, THEN conjunct1]) (simp add: verify_audit_chain_def)

theorem lone_audit_mends_anchor_witness:
  "log_authentic (w_crypto plain_world) toy_dek (en_store (snd (audit plain_world ''vault_locked'' None (JObj []) Ok
     (fold (perform plain_world) [SecretGet ''anthropic_key'' False False] toy_engine))))"
proof (rule lone_audit_mends_anchor [OF _ _ in_order [of plain_world "[SecretGet ''anthropic_key'' False False]" toy_engine]
      _ _ surjective_pairing])
  obtain t where t: "secret_get plain_world ''anthropic_key'' False False toy_engine = (Inr [], t)"
    "en_store t = put_anchor (w_crypto plain_world) toy_dek
       (i64_max_of (high_water (en_store toy_engine)) (ar_seq (read_row plain_world ''anthropic_key'' toy_secret toy_engine)))
       (ar_row_hash (read_row plain_world ''anthropic_key'' toy_secret toy_engine))
       (en_store (with_row (read_row plain_world ''anthropic_key'' toy_secret toy_engine) toy_engine))"
    "en_vault t = VUnlocked toy_dek"
    by (rule read_run [OF _ _ plain_readable]) simp_all
  then show "en_vault (fold (perform plain_world) [SecretGet ''anthropic_key'' False False] toy_engine) = VUnlocked toy_dek"
    and "length (sd_audit (en_store (fold (perform plain_world) [SecretGet ''anthropic_key'' False False] toy_engine))) + 1 < 2 ^ 63"
    by simp_all
qed (simp_all add: mark_ok_def)

end
