(* ===== verification/Histories.thy ===== *)
theory Histories
  imports Threads "HOL-Library.Sublist"
begin

text \<open>
  What threads do in the light of what they have seen: the history of an interleaving is the list of the
  states it passes through; a thread is justified when each of its steps is licensed by the history up to
  it, whatever the other threads did in between.
\<close>

section \<open>Histories\<close>

inductive passes :: "('s, 'e, 'a) threads \<Rightarrow> 's list \<Rightarrow> ('s, 'e, 'a) threads \<Rightarrow> bool" for x where
  start: "passes x [fst x] x"
| move: "passes x K (s, ts) \<Longrightarrow> thread_step (s, ts) (s', ts') \<Longrightarrow> passes x (K @ [s']) (s', ts')"

lemma passes_ends: "passes x K y \<Longrightarrow> K \<noteq> [] \<and> hd K = fst x \<and> last K = fst y"
  by (induction rule: passes.induct) auto

text \<open>Every interleaving has a history, and nothing else has.\<close>

lemma passes_interleaves: "(\<exists>K. passes x K y) \<longleftrightarrow> interleave x y"
proof
  assume "\<exists>K. passes x K y"
  then obtain K where "passes x K y" ..
  then show "interleave x y"
    by (induction rule: passes.induct) (auto intro: rtranclp.rtrancl_into_rtrancl)
next
  assume "interleave x y"
  then show "\<exists>K. passes x K y"
  proof (induction rule: rtranclp_induct)
    case base
    show ?case using passes.start by blast
  next
    case (step y z)
    then show ?case by (cases y; cases z) (auto intro: passes.move)
  qed
qed

section \<open>Having seen\<close>

text \<open>The history passes, in this order, through states of the assertions; one state may serve for several.\<close>

primrec saw :: "('s \<Rightarrow> bool) list \<Rightarrow> 's list \<Rightarrow> bool" where
  "saw [] K \<longleftrightarrow> True"
| "saw (P # Ps) K \<longleftrightarrow> (\<exists>A u B. K = A @ u # B \<and> P u \<and> saw Ps (u # B))"

lemma saw_append: "saw Ps K \<Longrightarrow> saw Ps (K @ L)"
proof (induction Ps arbitrary: K)
  case (Cons P Ps)
  then obtain A u B where "K = A @ u # B" "P u" "saw Ps (u # B)" by auto
  with Cons.IH [of "u # B"] show ?case
    by (intro saw.simps(2) [THEN iffD2] exI [of _ A] exI [of _ u] exI [of _ "B @ L"]) simp
qed simp

lemma saw_prefix: "prefix K L \<Longrightarrow> saw Ps K \<Longrightarrow> saw Ps L"
  by (auto simp: prefix_def saw_append)

lemma saw_snoc: "saw Ps K \<Longrightarrow> K \<noteq> [] \<Longrightarrow> P (last K) \<Longrightarrow> saw (Ps @ [P]) K"
proof (induction Ps arbitrary: K)
  case Nil
  then obtain A u where "K = A @ [u]" by (cases K rule: rev_cases) auto
  with Nil show ?case by auto
next
  case (Cons Q Ps)
  then obtain A u B where K: "K = A @ u # B" "Q u" "saw Ps (u # B)" by auto
  with Cons.IH [of "u # B"] Cons.prems(3) have "saw (Ps @ [P]) (u # B)" by simp
  with K show ?case by auto
qed

text \<open>What was seen last may be told in other words.\<close>

lemma saw_reword: "saw (Ps @ [P]) K \<Longrightarrow> (\<And>u. P u \<Longrightarrow> Q u) \<Longrightarrow> saw (Ps @ [Q]) K"
proof (induction Ps arbitrary: K)
  case (Cons P' Ps)
  then obtain A u B where "K = A @ u # B" "P' u" "saw (Ps @ [P]) (u # B)" by auto
  with Cons show ?case by (auto intro: exI [of _ A])
qed auto

lemma saw_nonempty: "saw (Ps @ [P]) K \<Longrightarrow> K \<noteq> []"
  by (cases Ps) auto

lemma saw_member: "saw Ps K \<Longrightarrow> P \<in> set Ps \<Longrightarrow> \<exists>u\<in>set K. P u"
proof (induction Ps arbitrary: K)
  case (Cons Q Ps)
  then obtain A u B where "K = A @ u # B" "Q u" "saw Ps (u # B)" by auto
  with Cons show ?case by fastforce
qed simp

section \<open>Justified threads\<close>

text \<open>
  \<open>G L s\<close>: after the history \<open>L\<close> a step to \<open>s\<close> is licensed. The history a thread continues from may have
  grown since its last step. A value \<open>x\<close> is returned after a history of \<open>Q x\<close>.
\<close>

inductive justified :: "('s list \<Rightarrow> 's \<Rightarrow> bool) \<Rightarrow> ('a \<Rightarrow> 's list \<Rightarrow> bool) \<Rightarrow> 's list \<Rightarrow> ('s, 'e, 'a) thread \<Rightarrow> bool"
  for G Q where
  finished: "(\<And>x. r = Inr x \<Longrightarrow> Q x K) \<Longrightarrow> justified G Q K (Finished r)"
| atomic: "(\<And>L. prefix K L \<Longrightarrow> L \<noteq> [] \<Longrightarrow> G L (snd (f (last L))))
    \<Longrightarrow> (\<And>L. prefix K L \<Longrightarrow> L \<noteq> [] \<Longrightarrow> justified G Q (L @ [snd (f (last L))]) (fst (f (last L))))
    \<Longrightarrow> justified G Q K (Atomic f)"

inductive_cases justified_AtomicE: "justified G Q K (Atomic f)"

named_theorems justified_rules "what licenses a thread, piece by piece"

lemma justified_later:
  "justified G (\<lambda>_ _. True) K t \<Longrightarrow> prefix K L \<Longrightarrow> justified G (\<lambda>_ _. True) L t"
  by (erule justified.cases) (auto intro!: justified.intros dest: prefix_order.trans)

lemma prefix_step: "prefix K L \<Longrightarrow> prefix (L @ [x]) M \<Longrightarrow> prefix K M"
  by (auto simp: prefix_def)

lemma justified_weaken:
  assumes "justified G Q K t" "\<And>x L. prefix K L \<Longrightarrow> Q x L \<Longrightarrow> Q' x L"
  shows "justified G Q' K t"
  using assms
proof (induction rule: justified.induct)
  case (atomic K f)
  show ?case
    by (rule justified.atomic, rule atomic.hyps(1), assumption+, rule atomic.IH, assumption+,
      rule atomic.prems, rule prefix_step) simp_all
qed (auto intro!: justified.finished)

lemma justified_seq:
  assumes "justified G Q K t" "\<And>x L. prefix K L \<Longrightarrow> Q x L \<Longrightarrow> justified G Q' L (k x)"
  shows "justified G Q' K (seq t k)"
  using assms
proof (induction rule: justified.induct)
  case (finished r K)
  then show ?case by (cases r) (auto intro!: justified.finished)
next
  case (atomic K f)
  have "justified G Q' (L @ [snd (f (last L))]) (seq (fst (f (last L))) k)" if "prefix K L" "L \<noteq> []" for L
    by (rule atomic.IH [OF that], rule atomic.prems, rule prefix_step [OF that(1)])
  with atomic.hyps(1) show ?case
    by (auto intro!: justified.atomic simp: map_prod_def split_beta)
qed

lemma justified_catch:
  assumes "justified G Q K t" "\<And>e L. prefix K L \<Longrightarrow> justified G Q' L (f e)"
    and "\<And>x L. prefix K L \<Longrightarrow> Q x L \<Longrightarrow> justified G Q' L (g x)"
  shows "justified G Q' K (catch t f g)"
  using assms
proof (induction rule: justified.induct)
  case (finished r K)
  then show ?case by (cases r) (auto intro!: justified.finished)
next
  case (atomic K m)
  have "justified G Q' (L @ [snd (m (last L))]) (catch (fst (m (last L))) f g)" if "prefix K L" "L \<noteq> []" for L
    by (rule atomic.IH [OF that], rule atomic.prems(1), rule prefix_step [OF that(1)], assumption,
      rule atomic.prems(2), rule prefix_step [OF that(1)])
  with atomic.hyps(1) show ?case
    by (auto intro!: justified.atomic simp: map_prod_def split_beta)
qed

lemma justified_step:
  assumes "\<And>L. prefix K L \<Longrightarrow> L \<noteq> [] \<Longrightarrow> G L (snd (m (last L)))"
    and "\<And>L x s. prefix K L \<Longrightarrow> L \<noteq> [] \<Longrightarrow> m (last L) = (Inr x, s) \<Longrightarrow> Q x (L @ [s])"
  shows "justified G Q K (step_of m)"
  unfolding step_of_def
proof (rule justified.atomic)
  fix L assume L: "prefix K L" "L \<noteq> []"
  show "G L (snd (Finished (fst (m (last L))), snd (m (last L))))"
    using assms(1) [OF L] by simp
  show "justified G Q (L @ [snd (Finished (fst (m (last L))), snd (m (last L)))])
      (fst (Finished (fst (m (last L))), snd (m (last L))))"
    using assms(2) [OF L] by (auto intro!: justified.finished) (metis prod.collapse)
qed

text \<open>A thread whose steps are in \<open>R\<close> whatever the others do, when steps in \<open>R\<close> need no license.\<close>

lemma justified_upholds:
  assumes "upholds (\<lambda>_ _. True) R Q' P t" "\<And>s. P s" "\<And>L s. L \<noteq> [] \<Longrightarrow> R (last L) s \<Longrightarrow> G L s"
  shows "justified G (\<lambda>_ _. True) K t"
  using assms
proof (induction arbitrary: K rule: upholds.induct)
  case (finished r P)
  show ?case by (rule justified.finished) simp
next
  case (atomic P f N)
  have "N s u" for s u
    using atomic.hyps(2) [OF atomic.prems(1), of s] unfolding stable_def by blast
  with atomic show ?case by (auto intro!: justified.atomic)
qed

lemma justified_obeys:
  "obeys (\<lambda>_ _. True) R (\<lambda>_. True) t \<Longrightarrow> (\<And>L s. L \<noteq> [] \<Longrightarrow> R (last L) s \<Longrightarrow> G L s) \<Longrightarrow>
   justified G (\<lambda>_ _. True) K t"
  unfolding obeys_def by (rule justified_upholds [of R "\<lambda>_ _. True" "\<lambda>_. True"]) auto

text \<open>
  Justified threads side by side: what holds at the start, and is carried on by every licensed step, holds
  of every history.
\<close>

lemma justified_move:
  assumes "thread_step (s, ts) (s', ts')" "\<forall>t\<in>set ts. justified G (\<lambda>_ _. True) K t" "K \<noteq> []" "last K = s"
  shows "G K s' \<and> (\<forall>t\<in>set ts'. justified G (\<lambda>_ _. True) (K @ [s']) t)"
  using assms(1)
proof cases
  case (move i f t)
  then have "justified G (\<lambda>_ _. True) K (Atomic f)"
    using assms(2) nth_mem by metis
  then have "G K s'" "justified G (\<lambda>_ _. True) (K @ [s']) t"
    using assms(3,4) move by (auto elim!: justified_AtomicE)
  moreover have "justified G (\<lambda>_ _. True) (K @ [s']) u" if "u \<in> set ts" for u
    using assms(2) that justified_later by (metis prefixI)
  ultimately show ?thesis
    using set_update_subset_insert [of ts i t] by (auto simp: move(1))
qed

lemma justified_passes:
  assumes "passes (s, ts) K y" "\<forall>t\<in>set ts. justified G (\<lambda>_ _. True) [s] t"
    and "J [s]" "\<And>L u. L \<noteq> [] \<Longrightarrow> J L \<Longrightarrow> G L u \<Longrightarrow> J (L @ [u])"
  shows "J K"
proof -
  have "J K \<and> (\<forall>t\<in>set (snd y). justified G (\<lambda>_ _. True) K t)"
    using assms(1)
  proof (induction rule: passes.induct)
    case start
    then show ?case using assms(2,3) by simp
  next
    case (move K u us u' us')
    then show ?case
      using justified_move [OF move.hyps(2)] passes_ends [OF move.hyps(1)] assms(4) by fastforce
  qed
  then show ?thesis ..
qed

end
