(* ===== verification/EngineEvidence.thy ===== *)
theory EngineEvidence
  imports Histories EngineInterleave EngineLive
begin

text \<open>
  The evidence behind a send when requests overlap: between the steps of a swap the vault may be locked,
  bearers revoked, policies and secrets replaced. Still, nothing is sent but by a swap that has seen all of
  its evidence on the way, in the order in which the code looks for it.
\<close>

section \<open>Evidence along a history\<close>

text \<open>The proof of possession: no USB slot is enrolled, or the keyfile of one is there.\<close>

definition usb_slots_of :: "keyslot list \<Rightarrow> keyslot list" where
  "usb_slots_of slots = filter (\<lambda>s. ks_enabled s \<and> ks_factor s = Usb) slots"

definition keyfile_there :: "world \<Rightarrow> keyslot list \<Rightarrow> engine \<Rightarrow> bool" where
  "keyfile_there w slots u \<longleftrightarrow>
     (\<exists>slot\<in>set slots. \<exists>uuid. ks_usb_partition_uuid slot = Some uuid \<and> w_keyfile_for w (en_tick u) uuid \<noteq> None)"

text \<open>
  The states a swap has passed through: the open vault, the two clocks, the issuance floor, the row of the
  bearer, its policy, the keyslots and a keyfile, the counters, and the latest version of the secret.
\<close>

definition sights :: "world \<Rightarrow> dek \<Rightarrow> i64 \<Rightarrow> i64 \<Rightarrow> i64 \<Rightarrow> string \<Rightarrow> bearer_row \<Rightarrow> relay_policy_row \<Rightarrow> keyslot list \<Rightarrow>
    egress_req \<Rightarrow> u64 \<times> u64 \<times> u32 \<Rightarrow> secret_row \<Rightarrow> (engine \<Rightarrow> bool) list" where
  "sights w dek now boot floor token_id row pr slots req tallies srow =
     [\<lambda>u. vault_dek (en_vault u) = Some dek,
      \<lambda>u. w_now_ms w (en_tick u) = now,
      \<lambda>u. w_boottime_ms w (en_tick u) = boot,
      \<lambda>u. \<exists>t. sd_meta (en_store u) META_ISSUANCE_FLOOR_MS = Some t \<and> parse_i64 t = Some floor,
      \<lambda>u. found (load_bearer token_id) (en_store u) = Some row,
      \<lambda>u. pr \<in> set (sd_relays (en_store u)),
      \<lambda>u. fst (load_keyslots (en_store u)) = Inr slots,
      \<lambda>u. usb_slots_of slots = [] \<or> keyfile_there w (usb_slots_of slots) u,
      \<lambda>u. fst (bump (br_token_id row) now (eq_bytes_out req) (en_broker u)) = tallies,
      \<lambda>u. found (get_secret_latest (rp_secret_name (rr_policy pr))) (en_store u) = Some srow]"

definition overlapped_evidence :: "world \<Rightarrow> string \<Rightarrow> egress_req \<Rightarrow> engine list \<Rightarrow> allow_prepared \<Rightarrow> bool" where
  "overlapped_evidence w bearer_text req K a \<longleftrightarrow>
     (\<exists>dek token_id raw row pr slots srow now boot floor tallies.
        parse_bearer bearer_text = Some (token_id, raw)
        \<and> saw (sights w dek now boot floor token_id row pr slots req tallies srow) K
        \<and> row_authentic (w_crypto w) dek raw row \<and> rr_id pr = br_policy_id row
        \<and> decide (rr_policy pr) (verified_of row) (canon_of (rp_swap (rr_policy pr)) req tallies)
            now boot None floor = Allow
        \<and> open_sealed (w_crypto w) dek (record_aad_of srow) (sr_nonce srow) (sr_ct_tag srow)
            = Some (al_real_key a)
        \<and> al_provider a = rp_provider (rr_policy pr) \<and> al_host a = eq_host req
        \<and> al_relay_id a = rp_relay_id (rr_policy pr))"

text \<open>The step after the history \<open>L\<close> sends nothing, or one request of a swap with all its evidence.\<close>

definition licensed :: "world \<Rightarrow> request list \<Rightarrow> engine list \<Rightarrow> engine \<Rightarrow> bool" where
  "licensed w rs L u \<longleftrightarrow>
     en_sent u = en_sent (last L)
     \<or> (\<exists>bearer_text req a. RelaySwap bearer_text req \<in> set rs
          \<and> en_sent u = en_sent (last L) @ [(req, al_real_key a)]
          \<and> overlapped_evidence w bearer_text req L a
          \<and> host_in (eq_host req) (canonical_upstreams (al_provider a)))"

lemma evidence_later: "overlapped_evidence w b req K a \<Longrightarrow> prefix K L \<Longrightarrow> overlapped_evidence w b req L a"
  unfolding overlapped_evidence_def using saw_prefix by blast

section \<open>Threads that only look\<close>

interpretation calm: thread_relation "\<lambda>s t. en_sent t = en_sent s" w "\<lambda>_ _. True" "\<lambda>_ _. True" "\<lambda>_. True" "\<lambda>_. True" "\<lambda>_. True" for w
proof
  show "stable (\<lambda>_ _. True) (\<lambda>_::engine. True)" "stable (\<lambda>s t. en_sent t = en_sent s) (\<lambda>_. True)"
    by (simp_all add: stable_def)
  then show "obeys (\<lambda>_ _. True) (\<lambda>s t. en_sent t = en_sent s) (\<lambda>_. True) (seq (call w last_audit) (\<lambda>r.
      write_audit_anchor_thread w dek (fst (tail_of r)) (snd (tail_of r))))" for dek
    unfolding write_audit_anchor_thread_def call_def Let_def by (intro thread_rules quiet.base)
qed simp_all

lemma calm_thread:
  assumes "obeys (\<lambda>_ _. True) (\<lambda>s t. en_sent t = en_sent s) (\<lambda>_. True) t" "saw Ps K"
  shows "justified (licensed w rs) (\<lambda>_. saw Ps) K t"
  by (rule justified_weaken [OF justified_obeys [OF assms(1)]])
    (auto simp: licensed_def intro: saw_prefix [OF _ assms(2)])

lemma calm_step:
  assumes "frames (\<lambda>s t. en_sent t = en_sent s) m" "saw Ps K" "\<And>s x t. m s = (Inr x, t) \<Longrightarrow> P x s"
  shows "justified (licensed w rs) (\<lambda>x. saw (Ps @ [P x])) K (step_of m)"
proof (rule justified_step)
  show "licensed w rs L (snd (m (last L)))" for L
    using assms(1) by (simp add: licensed_def frames_def)
  show "saw (Ps @ [P x]) (L @ [s])" if "prefix K L" "L \<noteq> []" "m (last L) = (Inr x, s)" for L x s
    using saw_append [OF saw_snoc [OF saw_prefix [OF that(1) assms(2)] that(2), of "P x"]] assms(3) [OF that(3)]
    by simp
qed

lemma calm_call:
  assumes "saw Ps K"
  shows "justified (licensed w rs) (\<lambda>x. saw (Ps @ [\<lambda>u. fst (m (en_store u)) = Inr x])) K (call w m)"
  unfolding call_def
proof (rule calm_step [OF _ assms])
  show "frames (\<lambda>s t. en_sent t = en_sent s) (store_call w m)"
    by (rule framesI) (auto simp: store_call_def Let_def split: option.split)
  show "fst (m (en_store s)) = Inr x" if "store_call w m s = (Inr x, t)" for s x t
    using that by (rule store_call_InrD)
qed

lemma floor_seen:
  assumes "saw Ps K"
  shows "justified (licensed w rs)
    (\<lambda>v. saw (Ps @ [\<lambda>u. \<exists>t. sd_meta (en_store u) META_ISSUANCE_FLOOR_MS = Some t \<and> parse_i64 t = Some v])) K
    (load_issuance_floor_thread w)"
  unfolding load_issuance_floor_thread_def
proof (rule justified_seq [OF calm_call [OF assms]])
  fix x L
  assume L: "saw (Ps @ [\<lambda>u. fst (get_meta META_ISSUANCE_FLOOR_MS (en_store u)) = Inr x]) L"
  show "justified (licensed w rs)
    (\<lambda>v. saw (Ps @ [\<lambda>u. \<exists>t. sd_meta (en_store u) META_ISSUANCE_FLOOR_MS = Some t \<and> parse_i64 t = Some v])) L
    (case x of None \<Rightarrow> failing (Engine UnlockFailed)
     | Some t \<Rightarrow> (case parse_i64 t of None \<Rightarrow> failing (Engine UnlockFailed) | Some v \<Rightarrow> okay v))"
    by (auto intro!: justified.finished saw_reword [OF L] simp: store_ops split: option.split)
qed

lemma policy_seen:
  assumes "saw Ps K"
  shows "justified (licensed w rs)
    (\<lambda>p L. \<forall>pr. p = Some pr \<longrightarrow> rr_id pr = i \<and> saw (Ps @ [\<lambda>u. pr \<in> set (sd_relays (en_store u))]) L) K
    (find_policy_by_id_thread w i)"
  unfolding find_policy_by_id_thread_def
proof (rule justified_seq [OF calm_call [OF assms]])
  fix x L
  assume L: "saw (Ps @ [\<lambda>u. fst (list_relay_policies (en_store u)) = Inr x]) L"
  show "justified (licensed w rs)
    (\<lambda>p L. \<forall>pr. p = Some pr \<longrightarrow> rr_id pr = i \<and> saw (Ps @ [\<lambda>u. pr \<in> set (sd_relays (en_store u))]) L) L
    (okay (find (\<lambda>r. rr_id r = i) x))"
    by (auto intro!: justified.finished saw_reword [OF L] simp: store_ops find_Some_iff)
qed

lemma keyfile_seen:
  assumes "saw Ps K" "set slots \<subseteq> set all"
  shows "justified (licensed w rs) (\<lambda>proven L. if proven then saw (Ps @ [keyfile_there w all]) L else saw Ps L) K
    (any_keyfile_thread w slots)"
  using assms
proof (induction slots arbitrary: K)
  case Nil
  then show ?case by (auto intro: justified.finished)
next
  case (Cons slot slots)
  show ?case
  proof (cases "ks_usb_partition_uuid slot")
    case None
    then show ?thesis using Cons by simp
  next
    case (Some uuid)
    have look: "justified (licensed w rs) (\<lambda>k. saw (Ps @ [\<lambda>u. w_keyfile_for w (en_tick u) uuid = k])) K
        (step_of (keyfile_for w uuid))"
      by (rule calm_step [OF _ Cons.prems(1)]) (auto simp: keyfile_for_def outside_def frames_def)
    show ?thesis
      unfolding any_keyfile_thread.simps Some option.case
    proof (rule justified_seq [OF look])
      fix k L
      assume L: "prefix K L" "saw (Ps @ [\<lambda>u. w_keyfile_for w (en_tick u) uuid = k]) L"
      show "justified (licensed w rs) (\<lambda>proven L. if proven then saw (Ps @ [keyfile_there w all]) L else saw Ps L) L
          (if k \<noteq> None then okay True else any_keyfile_thread w slots)"
      proof (cases k)
        case None
        then show ?thesis using Cons.IH [OF saw_prefix [OF L(1) Cons.prems(1)]] Cons.prems(2) by simp
      next
        case (Some body)
        have "keyfile_there w all u" if "w_keyfile_for w (en_tick u) uuid = k" for u
          unfolding keyfile_there_def
          using Cons.prems(2) \<open>ks_usb_partition_uuid slot = Some uuid\<close> that Some
          by (intro bexI [of _ slot] exI [of _ uuid]) simp_all
        with Some show ?thesis
          by (auto intro!: justified.finished saw_reword [OF L(2)])
      qed
    qed
  qed
qed

lemma possession_seen:
  assumes "saw Ps K"
  shows "justified (licensed w rs) (\<lambda>proven L. proven \<longrightarrow> (\<exists>slots. saw (Ps @ [\<lambda>u. fst (load_keyslots (en_store u)) = Inr slots,
      \<lambda>u. usb_slots_of slots = [] \<or> keyfile_there w (usb_slots_of slots) u]) L)) K
    (usb_possession_proven_thread w)"
  (is "justified _ (\<lambda>proven L. proven \<longrightarrow> (\<exists>slots. saw (?Qs slots) L)) _ _")
  unfolding usb_possession_proven_thread_def Let_def
proof (rule justified_seq [OF calm_call [OF assms]])
  fix slots L
  assume L: "saw (Ps @ [\<lambda>u. fst (load_keyslots (en_store u)) = Inr slots]) L"
  let ?loaded = "Ps @ [\<lambda>u. fst (load_keyslots (en_store u)) = Inr slots]"
  show "justified (licensed w rs) (\<lambda>proven L. proven \<longrightarrow> (\<exists>slots. saw (?Qs slots) L)) L
      (if filter (\<lambda>s. ks_enabled s \<and> ks_factor s = Usb) slots = [] then okay True
       else any_keyfile_thread w (filter (\<lambda>s. ks_enabled s \<and> ks_factor s = Usb) slots))"
    unfolding usb_slots_of_def [symmetric]
  proof (cases "usb_slots_of slots = []")
    case True
    then have "saw (?Qs slots) L"
      using saw_snoc [OF L saw_nonempty [OF L], of "\<lambda>u. usb_slots_of slots = [] \<or> keyfile_there w (usb_slots_of slots) u"]
      by simp
    then show "justified (licensed w rs) (\<lambda>proven L. proven \<longrightarrow> (\<exists>slots. saw (?Qs slots) L)) L
        (if usb_slots_of slots = [] then okay True else any_keyfile_thread w (usb_slots_of slots))"
      unfolding if_P [OF True] by (intro justified.finished impI) (rule exI)
  next
    case False
    have "saw (?Qs slots) M" if "saw (?loaded @ [keyfile_there w (usb_slots_of slots)]) M" for M
      using saw_reword [OF that, of "\<lambda>u. usb_slots_of slots = [] \<or> keyfile_there w (usb_slots_of slots) u"] by simp
    then show "justified (licensed w rs) (\<lambda>proven L. proven \<longrightarrow> (\<exists>slots. saw (?Qs slots) L)) L
        (if usb_slots_of slots = [] then okay True else any_keyfile_thread w (usb_slots_of slots))"
      unfolding if_not_P [OF False]
      by (intro justified_weaken [OF keyfile_seen [OF L subset_refl]] impI) (rule exI, simp)
  qed
qed

lemma key_seen:
  assumes "saw Ps K"
  shows "justified (licensed w rs) (\<lambda>key L. \<exists>srow. saw (Ps @ [\<lambda>u. found (get_secret_latest name) (en_store u) = Some srow]) L
      \<and> open_sealed (w_crypto w) dek (record_aad_of srow) (sr_nonce srow) (sr_ct_tag srow) = Some key) K
    (open_real_key_thread w dek name)"
  unfolding open_real_key_thread_def
proof (rule justified_seq [OF calm_call [OF assms]])
  fix r L
  assume L: "saw (Ps @ [\<lambda>u. fst (get_secret_latest name (en_store u)) = Inr r]) L"
  show "justified (licensed w rs) (\<lambda>key L. \<exists>srow. saw (Ps @ [\<lambda>u. found (get_secret_latest name) (en_store u) = Some srow]) L
      \<and> open_sealed (w_crypto w) dek (record_aad_of srow) (sr_nonce srow) (sr_ct_tag srow) = Some key) L
    (case r of
       None \<Rightarrow> failing (Bail (''relay secret '' @ [CHR 0x27] @ name @ [CHR 0x27] @ '' not found''))
     | Some row \<Rightarrow>
       (case open_sealed (w_crypto w) dek (record_aad_of row) (sr_nonce row) (sr_ct_tag row) of
          None \<Rightarrow> failing (Bail (''relay secret '' @ [CHR 0x27] @ name @ [CHR 0x27] @ '' failed authentication''))
        | Some key \<Rightarrow> okay key))"
    by (auto intro!: justified.finished saw_reword [OF L] simp: found_def split: option.split)
qed

lemma deny_seen: "justified (licensed w rs) (\<lambda>p _. \<exists>why. p = PDeny why) K (deny_swap_thread w rid tid why)"
  unfolding deny_swap_thread_def
  by (rule justified_seq [OF calm_thread [OF calm.audit_thread, of "[]"]], simp,
      rule justified_seq [OF calm_thread [OF calm.look, of "[]"]], simp,
      rule justified_seq [OF calm_thread [OF calm.announce, of "[]"]], simp,
      rule justified.finished, auto)

section \<open>A swap sees its evidence\<close>

lemma counted:
  assumes "saw Ps K"
  shows "justified (licensed w rs) (\<lambda>tallies. saw (Ps @ [\<lambda>u. fst (bump tok now n (en_broker u)) = tallies])) K
    (step_of (bump_counters tok now n))"
  by (rule calm_step [OF calm.counters assms]) (auto simp: bump_counters_def split: prod.splits)

lemma gate_needed: "decide policy b r now boot (if proven then None else Some now) floor = Allow \<Longrightarrow> proven"
  by (auto simp: decide_Allow_raw split: if_splits)

lemma decide_seen:
  assumes "saw Ps K"
  shows "justified (licensed w rs) (\<lambda>p L. \<forall>a. p = PAllow a \<longrightarrow> (\<exists>slots tallies srow.
      saw (Ps @ [\<lambda>u. fst (load_keyslots (en_store u)) = Inr slots,
        \<lambda>u. usb_slots_of slots = [] \<or> keyfile_there w (usb_slots_of slots) u,
        \<lambda>u. fst (bump (br_token_id row) now (eq_bytes_out req) (en_broker u)) = tallies,
        \<lambda>u. found (get_secret_latest (rp_secret_name policy)) (en_store u) = Some srow]) L
      \<and> decide policy (verified_of row) (canon_of (rp_swap policy) req tallies) now boot None floor = Allow
      \<and> open_sealed (w_crypto w) dek (record_aad_of srow) (sr_nonce srow) (sr_ct_tag srow) = Some (al_real_key a)
      \<and> al_provider a = rp_provider policy \<and> al_host a = eq_host req \<and> al_relay_id a = rp_relay_id policy)) K
    (decide_swap_thread w dek token_id row policy req now boot floor)"
  (is "justified _ (\<lambda>p L. \<forall>a. p = PAllow a \<longrightarrow> ?E a L) _ _")
  unfolding decide_swap_thread_def Let_def
proof (rule justified_seq [OF possession_seen [OF assms]])
  fix proven L
  assume seen: "proven \<longrightarrow> (\<exists>slots. saw (Ps @ [\<lambda>u. fst (load_keyslots (en_store u)) = Inr slots,
      \<lambda>u. usb_slots_of slots = [] \<or> keyfile_there w (usb_slots_of slots) u]) L)"
  define gate where "gate slots = (if proven then Ps @ [\<lambda>u. fst (load_keyslots (en_store u)) = Inr slots,
      \<lambda>u. usb_slots_of slots = [] \<or> keyfile_there w (usb_slots_of slots) u] else [])" for slots
  obtain slots where L: "saw (gate slots) L"
    using seen by (cases proven) (auto simp: gate_def)
  show "justified (licensed w rs) (\<lambda>p L. \<forall>a. p = PAllow a \<longrightarrow> ?E a L) L
     (seq (step_of (bump_counters (br_token_id row) now (eq_bytes_out req))) (\<lambda>tallies.
       case decide policy (verified_of row) (canon_of (rp_swap policy) req tallies) now boot
           (if proven then None else Some now) floor of
         Allow \<Rightarrow> seq (open_real_key_thread w dek (rp_secret_name policy)) (\<lambda>key.
             okay (PAllow \<lparr>al_relay_id = rp_relay_id policy, al_token_id = br_token_id row,
               al_provider = rp_provider policy, al_host = eq_host req, al_real_key = key\<rparr>))
       | Deny why \<Rightarrow> deny_swap_thread w (Some (rp_relay_id policy)) (Some token_id) why))"
  proof (rule justified_seq [OF counted [OF L]])
    fix tallies M
    assume M: "saw (gate slots @ [\<lambda>u. fst (bump (br_token_id row) now (eq_bytes_out req) (en_broker u)) = tallies]) M"
    let ?d = "decide policy (verified_of row) (canon_of (rp_swap policy) req tallies) now boot
        (if proven then None else Some now) floor"
    show "justified (licensed w rs) (\<lambda>p L. \<forall>a. p = PAllow a \<longrightarrow> ?E a L) M
     (case ?d of
         Allow \<Rightarrow> seq (open_real_key_thread w dek (rp_secret_name policy)) (\<lambda>key.
             okay (PAllow \<lparr>al_relay_id = rp_relay_id policy, al_token_id = br_token_id row,
               al_provider = rp_provider policy, al_host = eq_host req, al_real_key = key\<rparr>))
       | Deny why \<Rightarrow> deny_swap_thread w (Some (rp_relay_id policy)) (Some token_id) why)"
    proof (cases ?d)
      case (Deny why)
      then show ?thesis by (auto intro: justified_weaken [OF deny_seen])
    next
      case Allow
      then have proven: proven by (rule gate_needed)
      have "?E (\<lparr>al_relay_id = rp_relay_id policy, al_token_id = br_token_id row,
               al_provider = rp_provider policy, al_host = eq_host req, al_real_key = key\<rparr>) N"
        if "saw ((gate slots @ [\<lambda>u. fst (bump (br_token_id row) now (eq_bytes_out req) (en_broker u)) = tallies])
              @ [\<lambda>u. found (get_secret_latest (rp_secret_name policy)) (en_store u) = Some srow]) N"
          "open_sealed (w_crypto w) dek (record_aad_of srow) (sr_nonce srow) (sr_ct_tag srow) = Some key" for key srow N
        using that Allow proven by (intro exI [of _ slots] exI [of _ tallies] exI [of _ srow]) (simp add: gate_def)
      then show ?thesis
        unfolding Allow relay_decision.case
        by (intro justified_seq [OF key_seen [OF M]]) (auto intro!: justified.finished)
    qed
  qed
qed

lemma evidenceI:
  assumes "parse_bearer bearer_text = Some (token_id, raw)"
    and "saw (sights w dek now boot floor token_id row pr slots req tallies srow) K"
    and "row_authentic (w_crypto w) dek raw row" "rr_id pr = br_policy_id row"
    and "decide (rr_policy pr) (verified_of row) (canon_of (rp_swap (rr_policy pr)) req tallies) now boot None floor = Allow
      \<and> open_sealed (w_crypto w) dek (record_aad_of srow) (sr_nonce srow) (sr_ct_tag srow) = Some (al_real_key a)
      \<and> al_provider a = rp_provider (rr_policy pr) \<and> al_host a = eq_host req \<and> al_relay_id a = rp_relay_id (rr_policy pr)"
  shows "overlapped_evidence w bearer_text req K a"
  using assms unfolding overlapped_evidence_def by blast

lemma prepare_seen:
  "justified (licensed w rs) (\<lambda>p L. \<forall>a. p = PAllow a \<longrightarrow> overlapped_evidence w bearer_text req L a) K
    (relay_swap_prepare_thread w bearer_text req)"
  (is "justified _ ?Q _ _")
proof (cases "parse_bearer bearer_text")
  case None
  then show ?thesis
    unfolding relay_swap_prepare_thread_def by (auto intro: justified_weaken [OF deny_seen])
next
  case (Some parsed)
  obtain token_id raw where parse: "parse_bearer bearer_text = Some (token_id, raw)"
    using Some by (cases parsed) simp
  have deny: "justified (licensed w rs) ?Q L (deny_swap_thread w rid tid why)" for L rid tid why
    by (auto intro: justified_weaken [OF deny_seen])
  let ?open = "\<lambda>dek (u::engine). vault_dek (en_vault u) = Some dek" and ?now = "\<lambda>now (u::engine). w_now_ms w (en_tick u) = now"
    and ?boot = "\<lambda>boot (u::engine). w_boottime_ms w (en_tick u) = boot"
    and ?floor = "\<lambda>floor (u::engine). \<exists>t. sd_meta (en_store u) META_ISSUANCE_FLOOR_MS = Some t \<and> parse_i64 t = Some floor"
    and ?row = "\<lambda>row (u::engine). found (load_bearer token_id) (en_store u) = Some row"
    and ?pol = "\<lambda>pr (u::engine). pr \<in> set (sd_relays (en_store u))"
  let ?decide = "\<lambda>dek now boot floor row p. case p of None \<Rightarrow> deny_swap_thread w None (Some token_id) UnknownBearer
      | Some pr \<Rightarrow> decide_swap_thread w dek token_id row (rr_policy pr) req now boot floor"
  let ?check = "\<lambda>dek now boot floor r. case r of None \<Rightarrow> deny_swap_thread w None (Some token_id) UnknownBearer
      | Some row \<Rightarrow> if \<not> row_authentic (w_crypto w) dek raw row then deny_swap_thread w None (Some token_id) UnknownBearer
          else seq (find_policy_by_id_thread w (br_policy_id row)) (?decide dek now boot floor row)"
  have decided: "justified (licensed w rs) ?Q L (?decide dek now boot floor row p)"
    if "row_authentic (w_crypto w) dek raw row" "\<And>pr. p = Some pr \<Longrightarrow> rr_id pr = br_policy_id row
      \<and> saw [?open dek, ?now now, ?boot boot, ?floor floor, ?row row, ?pol pr] L" for dek now boot floor row p L
  proof (cases p)
    case (Some pr)
    have saw: "saw [?open dek, ?now now, ?boot boot, ?floor floor, ?row row, ?pol pr] L" and "rr_id pr = br_policy_id row"
      using that(2) [OF Some] by simp_all
    then show ?thesis
      unfolding Some option.case
      by (intro justified_weaken [OF decide_seen [OF saw]] allI impI)
        (elim allE impE exE conjE, assumption, rule evidenceI [OF parse _ that(1)], simp_all add: sights_def del: saw.simps)
  qed (use deny in simp)
  have checked: "justified (licensed w rs) ?Q L (?check dek now boot floor r)"
    if "saw ([?open dek, ?now now, ?boot boot, ?floor floor] @ [\<lambda>u. fst (load_bearer token_id (en_store u)) = Inr r]) L"
    for dek now boot floor r L
  proof (cases r)
    case (Some row)
    have "saw ([?open dek, ?now now, ?boot boot, ?floor floor] @ [?row row]) L"
      by (rule saw_reword [OF that]) (simp add: found_def Some)
    from policy_seen [OF this] show ?thesis
      unfolding Some option.case using deny decided by (auto intro!: justified_seq simp del: saw.simps)
  qed (use deny in simp)
  have loaded: "justified (licensed w rs) ?Q L (seq (step_of (now_ms w)) (\<lambda>now. seq (step_of (boottime_ms w)) (\<lambda>boot.
      seq (load_issuance_floor_thread w) (\<lambda>floor. seq (call w (load_bearer token_id)) (?check dek now boot floor)))))"
    if "saw [?open dek] L" for dek L
  proof (rule justified_seq [OF calm_step [where P = ?now, OF _ that]])
    show "frames (\<lambda>s t. en_sent t = en_sent s) (now_ms w)" by (simp add: now_ms_def outside_def frames_def)
    fix now M assume M: "saw ([?open dek] @ [?now now]) M"
    show "justified (licensed w rs) ?Q M (seq (step_of (boottime_ms w)) (\<lambda>boot.
      seq (load_issuance_floor_thread w) (\<lambda>floor. seq (call w (load_bearer token_id)) (?check dek now boot floor))))"
    proof (rule justified_seq [OF calm_step [where P = ?boot, OF _ M]])
      fix boot N assume N: "saw (([?open dek] @ [?now now]) @ [?boot boot]) N"
      show "justified (licensed w rs) ?Q N (seq (load_issuance_floor_thread w) (\<lambda>floor.
          seq (call w (load_bearer token_id)) (?check dek now boot floor)))"
        by (rule justified_seq [OF floor_seen [OF N]], rule justified_seq [OF calm_call], assumption,
            rule checked) simp
    qed (auto simp: boottime_ms_def outside_def frames_def)
  qed (auto simp: now_ms_def outside_def)
  have look: "justified (licensed w rs) (\<lambda>d. saw ([] @ [\<lambda>u. vault_dek (en_vault u) = d])) K
      (look (\<lambda>s. vault_dek (en_vault s)))"
    unfolding look_def by (rule calm_step) (auto simp: run_simps frames_def)
  show ?thesis
    unfolding relay_swap_prepare_thread_def parse option.case prod.case
  proof (rule justified_seq [OF look])
    fix d L assume "saw ([] @ [\<lambda>u::engine. vault_dek (en_vault u) = d]) L"
    then show "justified (licensed w rs) ?Q L (case d of None \<Rightarrow> failing (Bail ''vault is locked'')
      | Some dek \<Rightarrow> seq (step_of (now_ms w)) (\<lambda>now. seq (step_of (boottime_ms w)) (\<lambda>boot.
          seq (load_issuance_floor_thread w) (\<lambda>floor. seq (call w (load_bearer token_id)) (?check dek now boot floor)))))"
      using loaded by (cases d) (auto intro: justified.finished simp del: saw.simps)
  qed
qed

section \<open>Nothing is sent without it\<close>

lemma send_justified:
  assumes "RelaySwap bearer_text req \<in> set rs" "overlapped_evidence w bearer_text req K a"
  shows "justified (licensed w rs) (\<lambda>_ _. True) K (send_and_audit_thread w req a)"
proof (cases "host_fenced (al_provider a) (eq_host req) (al_host a)")
  case True
  let ?report = "\<lambda>answer. case answer of
      Inr resp \<Rightarrow>
        seq (ignored (audit_ok_thread w ''relay_swapped'' (Some (al_relay_id a))
          (JObj [(''token_id'', JStr (al_token_id a)), (''host'', JStr (eq_host req)),
                 (''method'', JStr (method_str (eq_method req))), (''allowed'', JBool True)]))) (\<lambda>_.
        seq (look en_owner_uid) (\<lambda>uid.
        seq (announce (EvRelaySwapped (al_relay_id a) (eq_host req) (method_str (eq_method req)) True
          (al_token_id a) (case eq_peer_uid req of Some u \<Rightarrow> u | None \<Rightarrow> uid) [])) (\<lambda>_. okay (Allowed resp))))
    | Inl ue \<Rightarrow>
        seq (ignored (audit_failed_thread w ''relay_swapped'' (Some (al_relay_id a))
          (JObj [(''token_id'', JStr (al_token_id a)), (''reason'', JStr ''upstream''),
                 (''kind'', JStr (upstream_error_kind ue))]))) (\<lambda>_.
          okay (InternalRefused (''upstream send failed ('' @ upstream_error_kind ue @ '')'')))"
  have "obeys (\<lambda>_ _. True) (\<lambda>s t. en_sent t = en_sent s) (\<lambda>_. True) (?report answer)" for answer
    by (intro calm.rules calm.parts)
  then have report: "justified (licensed w rs) (\<lambda>_ _. True) L (?report answer)" for L answer
    by (rule justified_obeys) (simp add: licensed_def)
  have "licensed w rs L (snd (upstream_send w req (al_real_key a) (last L)))" if "prefix K L" for L
    using assms(1) evidence_later [OF assms(2) that] host_fenced_host_in [OF True]
    by (auto simp: licensed_def upstream_send_def)
  then have "justified (licensed w rs) (\<lambda>_ _. True) K (step_of (upstream_send w req (al_real_key a)))"
    by (auto intro: justified_step)
  then have "justified (licensed w rs) (\<lambda>_ _. True) K (seq (step_of (upstream_send w req (al_real_key a))) ?report)"
    by (rule justified_seq) (rule report)
  with True show ?thesis
    by (simp only: send_and_audit_thread_def Let_def not_True_eq_False if_False)
next
  case False
  have "obeys (\<lambda>_ _. True) (\<lambda>s t. en_sent t = en_sent s) (\<lambda>_. True) (send_and_audit_thread w req a)"
    unfolding send_and_audit_thread_def if_P [OF False] by (intro calm.rules calm.parts)
  then show ?thesis by (rule justified_obeys) (simp add: licensed_def)
qed

lemma swap_justified:
  assumes "RelaySwap bearer_text req \<in> set rs"
  shows "justified (licensed w rs) (\<lambda>_ _. True) K (relay_swap_thread w bearer_text req)"
  unfolding relay_swap_thread_def Let_def
proof (rule justified_catch [OF prepare_seen])
  fix e L
  have "obeys (\<lambda>_ _. True) (\<lambda>s t. en_sent t = en_sent s) (\<lambda>_. True)
      (seq (ignored (audit_failed_thread w ''relay_swapped'' None
         (JObj [(''reason'', JStr ''internal''), (''detail'', JStr (error_text e))]))) (\<lambda>_.
       okay (InternalRefused (error_text e))))"
    by (intro calm.rules calm.parts)
  then show "justified (licensed w rs) (\<lambda>_ _. True) L
      (seq (ignored (audit_failed_thread w ''relay_swapped'' None
         (JObj [(''reason'', JStr ''internal''), (''detail'', JStr (error_text e))]))) (\<lambda>_.
       okay (InternalRefused (error_text e))))"
    by (rule justified_obeys) (simp add: licensed_def)
next
  fix p L
  assume "\<forall>a. p = PAllow a \<longrightarrow> overlapped_evidence w bearer_text req L a"
  then show "justified (licensed w rs) (\<lambda>_ _. True) L
      (case p of PDeny why \<Rightarrow> okay (Denied why) | PAllow allow \<Rightarrow> send_and_audit_thread w req allow)"
    using send_justified [OF assms] by (auto intro: justified.finished split: prepared.split)
qed

lemma request_justified:
  assumes "r \<in> set rs" shows "justified (licensed w rs) (\<lambda>_ _. True) K (request_thread w r)"
proof (cases "\<forall>bearer_text req. r \<noteq> RelaySwap bearer_text req")
  case True
  then show ?thesis
    by (intro justified_obeys [OF calm.quiet_request]) (auto simp: licensed_def)
next
  case False
  then show ?thesis
    using assms swap_justified
    by (auto simp: ignored_def intro!: justified_catch justified.finished)
qed

text \<open>Every call made along a history has its evidence in it.\<close>

lemma sent_along:
  assumes "passes (s, map (request_thread w) rs) K (t, ts)"
  shows "\<exists>calls. en_sent t = en_sent s @ calls \<and> (\<forall>(req, key)\<in>set calls. \<exists>bearer_text a.
      RelaySwap bearer_text req \<in> set rs \<and> key = al_real_key a \<and> overlapped_evidence w bearer_text req K a
      \<and> host_in (eq_host req) (canonical_upstreams (al_provider a)))"
proof -
  define good where "good L c \<longleftrightarrow> (\<exists>bearer_text a. RelaySwap bearer_text (fst c) \<in> set rs \<and> snd c = al_real_key a
      \<and> overlapped_evidence w bearer_text (fst c) L a \<and> host_in (eq_host (fst c)) (canonical_upstreams (al_provider a)))"
    for L c
  have later: "good (L @ [u]) c" if "good L c" for L u c
    using that evidence_later [of w _ _ L _ "L @ [u]"] unfolding good_def by fastforce
  have "\<exists>calls. en_sent (last K) = en_sent s @ calls \<and> (\<forall>c\<in>set calls. good K c)"
  proof (rule justified_passes [OF assms, where G = "licensed w rs"])
    show "\<forall>t\<in>set (map (request_thread w) rs). justified (licensed w rs) (\<lambda>_ _. True) [s] t"
      using request_justified by auto
    fix L u
    assume "\<exists>calls. en_sent (last L) = en_sent s @ calls \<and> (\<forall>c\<in>set calls. good L c)" "licensed w rs L u"
    then obtain calls where calls: "en_sent (last L) = en_sent s @ calls" "\<forall>c\<in>set calls. good (L @ [u]) c"
      using later by blast
    from \<open>licensed w rs L u\<close> obtain new where "en_sent u = en_sent (last L) @ new" "\<forall>c\<in>set new. good L c"
      unfolding licensed_def good_def by (elim disjE exE conjE) (force intro: that [of "[]"] that [of "[_]"])+
    with calls later show "\<exists>calls. en_sent (last (L @ [u])) = en_sent s @ calls \<and> (\<forall>c\<in>set calls. good (L @ [u]) c)"
      by (intro exI [of _ "calls @ new"]) auto
  qed simp
  then show ?thesis
    using passes_ends [OF assms] unfolding good_def by (fastforce simp: split_beta)
qed

text \<open>
  C2: whatever requests overlap and however their steps interleave, each request that reaches an upstream
  is that of a swap among them; it carries the key a row decided to be allowed names, and goes to a
  canonical host of the provider. The vault was open, and the row of the bearer with its MACs, its policy,
  the keyslots and a keyfile, the counters and the secret were all seen in the store, in this order, in
  states of the interleaving's history.
\<close>

theorem interleaved_swap_evidence:
  assumes "passes (s, map (request_thread w) rs) K (t, ts)"
  shows "\<exists>calls. en_sent t = en_sent s @ calls \<and> (\<forall>(req, key)\<in>set calls. \<exists>bearer_text a.
      RelaySwap bearer_text req \<in> set rs \<and> key = al_real_key a \<and> overlapped_evidence w bearer_text req K a
      \<and> host_in (eq_host req) (canonical_upstreams (al_provider a)))"
  using assms by (rule sent_along)

theorem interleaved_swap_evidence_witness:
  "\<exists>K a. overlapped_evidence toy_world toy_raw toy_req K a \<and> al_real_key a = str_bytes ''sk-ant-real''
    \<and> host_in ''api.anthropic.com'' (canonical_upstreams (al_provider a))"
proof -
  let ?t = "perform toy_world (RelaySwap toy_raw toy_req) toy_engine"
  obtain K ts where "passes (toy_engine, map (request_thread toy_world) [RelaySwap toy_raw toy_req]) K (?t, ts)"
    using in_order [of toy_world "[RelaySwap toy_raw toy_req]" toy_engine]
    unfolding concurrently_def passes_interleaves [symmetric] by auto
  from interleaved_swap_evidence [OF this] obtain calls where calls: "en_sent ?t = en_sent toy_engine @ calls"
    "\<forall>(req, key)\<in>set calls. \<exists>bearer_text a. RelaySwap bearer_text req \<in> set [RelaySwap toy_raw toy_req]
      \<and> key = al_real_key a \<and> overlapped_evidence toy_world bearer_text req K a
      \<and> host_in (eq_host req) (canonical_upstreams (al_provider a))" by blast
  have "calls = [(toy_req, str_bytes ''sk-ant-real'')]"
    using calls(1) served_run [OF _ toy_serves] by simp
  with calls(2) have "\<exists>a. str_bytes ''sk-ant-real'' = al_real_key a \<and> overlapped_evidence toy_world toy_raw toy_req K a
      \<and> host_in (eq_host toy_req) (canonical_upstreams (al_provider a))" by auto
  moreover have "eq_host toy_req = ''api.anthropic.com''" by (simp add: toy_req_def)
  ultimately show ?thesis by metis
qed

end
