(* ===== verification/EngineFinal.thy ===== *)
theory EngineFinal
  imports EngineEvidence EngineRevoke
begin

text \<open>
  Revocation is final when requests overlap: a dead token stays dead whatever requests follow, in any
  interleaving, so no swap among them is made for it; only a mint that draws its very id afterwards could
  revive it. A revoked relay stays revoked until a mint writes a policy of its name again.
\<close>

section \<open>A dead token stays dead\<close>

definition redrawn :: "world \<Rightarrow> nat \<Rightarrow> string \<Rightarrow> bool" where
  "redrawn w k0 token_id \<longleftrightarrow> (\<exists>k\<ge>k0. hex_encode (w_random w k 16) = token_id)"

definition stays_dead :: "world \<Rightarrow> nat \<Rightarrow> string \<Rightarrow> in_mem_data \<Rightarrow> in_mem_data \<Rightarrow> bool" where
  "stays_dead w k0 token_id g h \<longleftrightarrow> redrawn w k0 token_id \<or> (token_dead token_id g \<longrightarrow> token_dead token_id h)"

definition deadly :: "world \<Rightarrow> nat \<Rightarrow> string \<Rightarrow> bearer_row \<Rightarrow> bool" where
  "deadly w k0 token_id b \<longleftrightarrow> redrawn w k0 token_id \<or> br_revoked b \<or> br_token_id b \<noteq> token_id"

lemma stays_dead_same: "sd_bearers h = sd_bearers g \<Longrightarrow> stays_dead w k0 token_id g h"
  by (simp add: stays_dead_def token_dead_def)

lemma stays_dead_bearer:
  assumes "deadly w k0 token_id b" shows "stays_dead w k0 token_id g (snd (save_bearer b g))"
proof (cases "br_token_id b = token_id")
  case True
  with assms show ?thesis
    by (auto simp: stays_dead_def deadly_def token_dead_def store_ops find_by_upsert_same)
next
  case False
  then show ?thesis
    by (auto simp: stays_dead_def token_dead_def store_ops find_by_upsert_other)
qed

lemma bearers_kept [simp]:
  "sd_bearers (snd (put_secret row g)) = sd_bearers g" "sd_bearers (snd (save_relay_policy pol g)) = sd_bearers g"
  "sd_bearers (snd (reserve_secret_row_id g)) = sd_bearers g" "sd_bearers (snd (append_audit cr rec g)) = sd_bearers g"
  by (simp_all add: put_secret_def save_relay_policy_def reserve_secret_row_id_def append_audit_def Let_def)

text \<open>The interactions are counted up, so an id drawn before \<open>k0\<close> is not drawn by a step after it.\<close>

abbreviation kept_dead :: "world \<Rightarrow> nat \<Rightarrow> string \<Rightarrow> engine \<Rightarrow> engine \<Rightarrow> bool" where
  "kept_dead w k0 token_id s t \<equiv> en_tick s \<le> en_tick t \<and> stays_dead w k0 token_id (en_store s) (en_store t)"

interpretation final_step: step_relation "kept_dead w k0 token_id" w "stays_dead w k0 token_id"
  for w k0 token_id
  by unfold_locales (auto simp: stays_dead_def token_dead_def)

interpretation final: thread_send_relation "kept_dead w k0 token_id" w "stays_dead w k0 token_id"
  "kept_dead w k0 token_id" "\<lambda>s. k0 \<le> en_tick s" "deadly w k0 token_id" "\<lambda>_. True" for w k0 token_id
proof
  show later: "stable (kept_dead w k0 token_id) (\<lambda>s. k0 \<le> en_tick s)"
    by (auto simp: stable_def)
  have meta: "stays_dead w k0 token_id g (snd (put_meta k v g))" for g k v
    by (rule stays_dead_same) (simp add: store_ops)
  show "obeys (kept_dead w k0 token_id) (kept_dead w k0 token_id) (\<lambda>s. k0 \<le> en_tick s)
      (seq (call w last_audit) (\<lambda>r. write_audit_anchor_thread w dek (fst (tail_of r)) (snd (tail_of r))))" for dek
    unfolding write_audit_anchor_thread_def call_def Let_def
    by (intro thread_rules later final_step.step_base meta)
  show "stays_dead w k0 token_id g (snd (save_bearer b g))" if "deadly w k0 token_id b" for b g
    using that by (rule stays_dead_bearer)
qed (auto intro: stays_dead_same simp: store_ops deadly_def redrawn_def)

section \<open>A revoked relay stays revoked\<close>

text \<open>A mint among the requests that may write a policy under the name of the relay.\<close>

definition minted_again :: "world \<Rightarrow> nat \<Rightarrow> request list \<Rightarrow> string \<Rightarrow> bool" where
  "minted_again w k0 rs relay_id \<longleftrightarrow>
     (\<exists>r\<in>set rs. \<exists>spec. mint_spec r = Some spec \<and> (\<exists>k\<ge>k0. rp_relay_id (resolved w k spec) = relay_id))"

abbreviation deadly_policy :: "string \<Rightarrow> relay_policy \<Rightarrow> bool" where
  "deadly_policy relay_id p \<equiv> rp_revoked p \<or> rp_relay_id p \<noteq> relay_id"

lemma relay_dead_same: "sd_relays h = sd_relays g \<Longrightarrow> relay_dead relay_id g \<longrightarrow> relay_dead relay_id h"
  by (simp add: relay_dead_def)

lemma relay_dead_saved:
  assumes "deadly_policy relay_id (rr_policy pol)" "relay_dead relay_id g"
  shows "relay_dead relay_id (snd (save_relay_policy pol g))"
proof -
  have sub: "set (upsert key v vs) \<subseteq> insert v (set vs)" for key :: "relay_policy_row \<Rightarrow> string" and v vs
    by (induction vs) auto
  show ?thesis
    using assms subsetD [OF sub]
    by (fastforce simp: relay_dead_def list_all_iff save_relay_policy_def Let_def relay_key_def)
qed

lemma relays_kept [simp]:
  "sd_relays (snd (put_secret row g)) = sd_relays g" "sd_relays (snd (reserve_secret_row_id g)) = sd_relays g"
  "sd_relays (snd (append_audit cr rec g)) = sd_relays g"
  by (simp_all add: put_secret_def reserve_secret_row_id_def append_audit_def Let_def)

abbreviation kept_revoked :: "string \<Rightarrow> engine \<Rightarrow> engine \<Rightarrow> bool" where
  "kept_revoked relay_id s t \<equiv>
     en_tick s \<le> en_tick t \<and> (relay_dead relay_id (en_store s) \<longrightarrow> relay_dead relay_id (en_store t))"

interpretation ended_step: step_relation "kept_revoked relay_id" w "\<lambda>g h. relay_dead relay_id g \<longrightarrow> relay_dead relay_id h"
  for relay_id w
  by unfold_locales (auto simp: relay_dead_def)

interpretation ended: thread_send_relation "kept_revoked relay_id" w "\<lambda>g h. relay_dead relay_id g \<longrightarrow> relay_dead relay_id h"
  "kept_revoked relay_id" "\<lambda>s. k0 \<le> en_tick s" "\<lambda>_. True" "deadly_policy relay_id" for relay_id w k0
proof
  show later: "stable (kept_revoked relay_id) (\<lambda>s. k0 \<le> en_tick s)"
    by (auto simp: stable_def)
  have meta: "relay_dead relay_id g \<longrightarrow> relay_dead relay_id (snd (put_meta k v g))" for g k v
    by (rule relay_dead_same) (simp add: store_ops)
  show "obeys (kept_revoked relay_id) (kept_revoked relay_id) (\<lambda>s. k0 \<le> en_tick s)
      (seq (call w last_audit) (\<lambda>r. write_audit_anchor_thread w dek (fst (tail_of r)) (snd (tail_of r))))" for dek
    unfolding write_audit_anchor_thread_def call_def Let_def
    by (intro thread_rules later ended_step.step_base meta)
  show "relay_dead relay_id g \<longrightarrow> relay_dead relay_id (snd (save_relay_policy pol g))"
    if "deadly_policy relay_id (rr_policy pol)" for pol g
    using relay_dead_saved [OF that] by blast
qed (auto intro: relay_dead_same [THEN mp] simp: store_ops)

section \<open>So they are never swapped for\<close>

text \<open>Every state of a history is the end of an interleaving.\<close>

lemma passes_through: "passes x K y \<Longrightarrow> u \<in> set K \<Longrightarrow> \<exists>ts. interleave x (u, ts)"
proof (induction rule: passes.induct)
  case start
  then show ?case by (metis empty_iff empty_set prod.collapse rtranclp.rtrancl_refl set_ConsD)
next
  case (move K s ts s' ts')
  then show ?case
    using passes.move [OF move.hyps(1,2)] passes_interleaves [of x "(s', ts')"] by auto
qed

lemma passes_concurrently:
  assumes "passes (u, map (request_thread w) rs) K y" "v \<in> set K" shows "concurrently w rs u v"
  using passes_through [OF assms] by (simp add: concurrently_def)

lemma token_dead_along:
  assumes "passes (u, map (request_thread w) rs) K y" "v \<in> set K"
    and "token_dead token_id (en_store u)" "\<not> redrawn w (en_tick u) token_id"
  shows "token_dead token_id (en_store v)"
  using final.concurrently [OF refl passes_concurrently [OF assms(1,2)], of "en_tick u" token_id] assms(3,4)
  by (simp add: stays_dead_def)

lemma relay_dead_along:
  assumes "passes (u, map (request_thread w) rs) K y" "v \<in> set K"
    and "relay_dead relay_id (en_store u)" "\<not> minted_again w (en_tick u) rs relay_id"
  shows "relay_dead relay_id (en_store v)"
proof -
  have "request_fits w (\<lambda>s. en_tick u \<le> en_tick s) (deadly_policy relay_id) r" if "r \<in> set rs" for r
    using assms(4) that by (fastforce simp: request_fits_def policy_fits_def minted_again_def resolved_def)
  then show ?thesis
    using ended.concurrently [OF refl passes_concurrently [OF assms(1,2)], of "en_tick u" relay_id] assms(3) by simp
qed

text \<open>The row and the policy of a swap were live when it saw them.\<close>

lemma overlapped_live:
  assumes "overlapped_evidence w bearer_text req K a"
  obtains token_id raw row u pr v where "parse_bearer bearer_text = Some (token_id, raw)"
    "u \<in> set K" "found (load_bearer token_id) (en_store u) = Some row" "\<not> br_revoked row"
    "v \<in> set K" "pr \<in> set (sd_relays (en_store v))" "\<not> rp_revoked (rr_policy pr)" "al_relay_id a = rp_relay_id (rr_policy pr)"
proof -
  from assms obtain dek token_id raw row pr slots srow now boot floor tallies where
    parse: "parse_bearer bearer_text = Some (token_id, raw)"
    and sights: "saw (sights w dek now boot floor token_id row pr slots req tallies srow) K"
    and allow: "decide (rr_policy pr) (verified_of row) (canon_of (rp_swap (rr_policy pr)) req tallies)
            now boot None floor = Allow"
    and relay: "al_relay_id a = rp_relay_id (rr_policy pr)"
    unfolding overlapped_evidence_def by blast
  obtain u where "u \<in> set K" "found (load_bearer token_id) (en_store u) = Some row"
    using saw_member [OF sights, of "\<lambda>u. found (load_bearer token_id) (en_store u) = Some row"]
    by (auto simp: sights_def)
  moreover obtain v where "v \<in> set K" "pr \<in> set (sd_relays (en_store v))"
    using saw_member [OF sights, of "\<lambda>u. pr \<in> set (sd_relays (en_store u))"] by (auto simp: sights_def)
  moreover have "\<not> br_revoked row" "\<not> rp_revoked (rr_policy pr)" using allow by (simp_all add: decide_Allow_raw)
  ultimately show thesis using parse relay by (intro that)
qed

lemma dead_token_not_swapped:
  assumes "passes (u, map (request_thread w) rs) K y" "overlapped_evidence w bearer_text req K a"
    and "token_dead token_id (en_store u)" "\<not> redrawn w (en_tick u) token_id"
  shows "parse_bearer bearer_text \<noteq> Some (token_id, raw)"
  using assms(2) by (rule overlapped_live)
    (use token_dead_along [OF assms(1) _ assms(3,4)] in \<open>auto simp: token_dead_def store_ops\<close>)

lemma dead_relay_not_swapped:
  assumes "passes (u, map (request_thread w) rs) K y" "overlapped_evidence w bearer_text req K a"
    and "relay_dead relay_id (en_store u)" "\<not> minted_again w (en_tick u) rs relay_id"
  shows "al_relay_id a \<noteq> relay_id"
  using assms(2) by (rule overlapped_live)
    (use relay_dead_along [OF assms(1) _ assms(3,4)] in \<open>auto simp: relay_dead_def list_all_iff relay_key_def\<close>)

text \<open>
  C6: revocation is final under concurrency: once a token is revoked, no request sent after, in any
  interleaving of any further requests, is that of a swap with a bearer string of the token; unless the
  generator draws the token's id again after the revocation.
\<close>

theorem interleaved_revocation_is_final:
  assumes "relay_revoke_bearer w token_id True s = (Inr n, u)" "concurrently w rs u t"
    and "\<forall>k\<ge>en_tick u. hex_encode (w_random w k 16) \<noteq> token_id"
  shows "\<exists>calls. en_sent t = en_sent u @ calls \<and> (\<forall>(req, key)\<in>set calls. \<exists>bearer_text.
      RelaySwap bearer_text req \<in> set rs \<and> (\<forall>raw. parse_bearer bearer_text \<noteq> Some (token_id, raw)))"
proof -
  from assms(2) obtain K ts where K: "passes (u, map (request_thread w) rs) K (t, ts)"
    unfolding concurrently_def passes_interleaves [symmetric] by blast
  have "\<not> redrawn w (en_tick u) token_id" using assms(3) by (auto simp: redrawn_def)
  from dead_token_not_swapped [OF K _ relay_revoke_bearer_dead [OF assms(1)] this] show ?thesis
    using sent_along [OF K] by fastforce
qed

text \<open>
  C5: the same of a whole relay. Once it is revoked, whatever requests follow in any interleaving, each
  request sent is that of a swap with the evidence for its policy and its key; as long as no mint among
  them is for the relay's name, that policy is not the relay's; and even with such a mint the swap's bearer
  string is none of a bearer that the relay had when it was revoked, unless its token id is drawn again.
\<close>

theorem revoked_relay_never_swapped:
  assumes "relay_revoke w relay_id True s = (Inr n, u)" "tables_ok (en_store s)"
    and "passes (u, map (request_thread w) rs) K (t, ts)"
  shows "\<exists>calls. en_sent t = en_sent u @ calls \<and> (\<forall>(req, key)\<in>set calls. \<exists>bearer_text a.
      RelaySwap bearer_text req \<in> set rs \<and> key = al_real_key a \<and> overlapped_evidence w bearer_text req K a
      \<and> (\<not> minted_again w (en_tick u) rs relay_id \<longrightarrow> al_relay_id a \<noteq> relay_id)
      \<and> (\<forall>rows row raw. fst (list_bearers_for_relay relay_id (en_store s)) = Inr rows \<longrightarrow> row \<in> set rows
          \<longrightarrow> (\<forall>k\<ge>en_tick u. hex_encode (w_random w k 16) \<noteq> br_token_id row)
          \<longrightarrow> parse_bearer bearer_text \<noteq> Some (br_token_id row, raw)))"
proof -
  note policy = dead_relay_not_swapped [OF assms(3) _ relay_revoke_dead [OF assms(1,2)]]
  have bearer: "parse_bearer bearer_text \<noteq> Some (br_token_id row, raw)"
    if "fst (list_bearers_for_relay relay_id (en_store s)) = Inr rows" "row \<in> set rows"
      "\<forall>k\<ge>en_tick u. hex_encode (w_random w k 16) \<noteq> br_token_id row"
      "overlapped_evidence w bearer_text req K a" for rows row raw bearer_text req a
    using that(3) dead_token_not_swapped [OF assms(3) that(4) relay_revoke_bearers_dead [OF assms(1,2) that(1,2)]]
    by (auto simp: redrawn_def)
  obtain calls where "en_sent t = en_sent u @ calls" "\<forall>(req, key)\<in>set calls. \<exists>bearer_text a.
      RelaySwap bearer_text req \<in> set rs \<and> key = al_real_key a \<and> overlapped_evidence w bearer_text req K a"
    using sent_along [OF assms(3)] by fastforce
  then show ?thesis using policy bearer by (intro exI [of _ calls]) (fastforce simp: split_beta)
qed

section \<open>An example\<close>

text \<open>The requests that follow a revocation: twice the swap that was served before it.\<close>

abbreviation toy_swaps :: "request list" where
  "toy_swaps \<equiv> [RelaySwap toy_raw toy_req, RelaySwap toy_raw toy_req]"

lemma toy_token_not_constant: "hex_encode (replicate 16 b) \<noteq> toy_token"
proof
  assume "hex_encode (replicate 16 b) = toy_token"
  then have "hex_decode toy_token = Some (replicate 16 b)" by (metis hex_decode_encode)
  moreover have "hex_decode toy_token = Some (concat (replicate 4 [0xDE, 0xAD, 0xBE, 0xEF]))" by code_simp
  ultimately have eq: "concat (replicate 4 [0xDE, 0xAD, 0xBE, 0xEF]) = replicate 16 b" by simp
  have four: "replicate 4 bs = [bs, bs, bs, bs]" for bs :: bytes by (simp add: eval_nat_numeral)
  from arg_cong [OF eq, of "\<lambda>bs. bs ! 0"] arg_cong [OF eq, of "\<lambda>bs. bs ! 1"] show False
    by (simp add: four)
qed

text \<open>A world in which the token is the one drawn at the first interaction, before the revocation.\<close>

definition minting_world :: world where
  "minting_world = toy_world\<lparr>w_random :=
     (\<lambda>k n. if k = 0 \<and> n = 16 then concat (replicate 4 [0xDE, 0xAD, 0xBE, 0xEF]) else replicate n (word_of_nat k))\<rparr>"

lemma minting_world_simps [simp]:
  "w_crypto minting_world = toy_crypto" "reliable minting_world"
  "w_now_ms minting_world = w_now_ms toy_world" "w_boottime_ms minting_world = w_boottime_ms toy_world"
  "w_keyfile_for minting_world = w_keyfile_for toy_world"
  "0 < k \<Longrightarrow> w_random minting_world k n = replicate n (word_of_nat k)"
  using toy_world_simps(6) by (simp_all add: minting_world_def reliable_def)

lemma drawn_at_first: "hex_encode (w_random minting_world 0 16) = toy_token"
  by (simp add: minting_world_def) code_simp

abbreviation toy_later :: engine where "toy_later \<equiv> toy_engine\<lparr>en_tick := 1\<rparr>"

lemma served_later: "serves minting_world toy_raw toy_req toy_later (str_bytes ''sk-ant-real'')"
  using toy_serves by (simp add: serves_def possession_def)

theorem interleaved_revocation_is_final_witness:
  "\<exists>n u. relay_revoke_bearer minting_world toy_token True toy_later = (Inr n, u)
     \<and> hex_encode (w_random minting_world 0 16) = toy_token
     \<and> en_sent (perform minting_world (RelaySwap toy_raw toy_req) toy_later) \<noteq> en_sent toy_later
     \<and> en_sent (fold (perform minting_world) toy_swaps u) = en_sent u"
proof -
  obtain n u where run: "relay_revoke_bearer minting_world toy_token True toy_later = (Inr n, u)"
    using relay_revoke_bearer_run [of minting_world toy_later toy_dek toy_token] by auto
  have "concurrently minting_world [RelayRevokeBearer toy_token True] toy_later u"
    using in_order [of minting_world "[RelayRevokeBearer toy_token True]" toy_later] run by simp
  then have later: "1 \<le> en_tick u"
    using final.concurrently [OF refl, of minting_world "[RelayRevokeBearer toy_token True]" toy_later u 1 toy_token] by simp
  have "\<forall>k\<ge>en_tick u. hex_encode (w_random minting_world k 16) \<noteq> toy_token"
    using later toy_token_not_constant by simp
  from interleaved_revocation_is_final [OF run in_order [of minting_world toy_swaps] this]
  obtain calls where calls: "en_sent (fold (perform minting_world) toy_swaps u) = en_sent u @ calls"
    and all: "\<forall>(req, key)\<in>set calls. \<exists>bearer_text. RelaySwap bearer_text req \<in> set toy_swaps
      \<and> (\<forall>raw. parse_bearer bearer_text \<noteq> Some (toy_token, raw))"
    by blast
  have "calls = []"
    using all toy_parse by (cases calls) fastforce+
  with calls run drawn_at_first served_run [OF minting_world_simps(2) served_later] show ?thesis by simp
qed

theorem revoked_relay_never_swapped_witness:
  "\<exists>n u. relay_revoke toy_world ''claude-main'' True toy_engine = (Inr n, u)
     \<and> en_sent (perform toy_world (RelaySwap toy_raw toy_req) toy_engine) \<noteq> en_sent toy_engine
     \<and> en_sent (fold (perform toy_world) toy_swaps u) = en_sent u"
proof -
  obtain n u where run: "relay_revoke toy_world ''claude-main'' True toy_engine = (Inr n, u)"
    using relay_revoke_run [of toy_world toy_engine toy_dek "''claude-main''"] by auto
  have ok: "tables_ok (en_store toy_engine)"
    by (simp add: tables_ok_def toy_store_def empty_store_def)
  have listed: "fst (list_bearers_for_relay ''claude-main'' (en_store toy_engine)) = Inr [toy_row]"
    by (simp add: store_ops toy_store_def empty_store_def relay_key_def base_policy_def)
  obtain K ts where K: "passes (u, map (request_thread toy_world) toy_swaps) K (fold (perform toy_world) toy_swaps u, ts)"
    using in_order [of toy_world toy_swaps u] unfolding concurrently_def passes_interleaves [symmetric] by auto
  obtain calls where calls: "en_sent (fold (perform toy_world) toy_swaps u) = en_sent u @ calls"
    and all: "\<forall>(req, key)\<in>set calls. \<exists>bearer_text. RelaySwap bearer_text req \<in> set toy_swaps
      \<and> (\<forall>raw. parse_bearer bearer_text \<noteq> Some (toy_token, raw))"
    using revoked_relay_never_swapped [OF run ok K] listed toy_token_not_constant by fastforce
  have "calls = []"
    using all toy_parse by (cases calls) fastforce+
  with calls run served_run [OF toy_world_simps(6) toy_serves] show ?thesis by simp
qed

end
