(* ===== verification/SqlTables.thy ===== *)
theory SqlTables
  imports Store
begin

text \<open>
  The tables and statements of the durable store
  (\<open>crates/secrets-store-libsql/src/schema.rs\<close>). The statements are SQL text under \<open>src/\<close>; what they
  mean is SQL as SQLite documents it: a table is the sequence of its rows, a row the list of its
  column values, and a statement is a function on tables. No column holds a REAL: the code binds none.
\<close>

section \<open>Values\<close>

datatype sql_value = SqlNull | SqlInteger i64 | SqlText string | SqlBlob bytes

type_synonym sql_row = "sql_value list"
type_synonym sql_table = "sql_row list"

text \<open>The order of \<open>ORDER BY\<close>: NULL, integers by value, text and blobs by their bytes.\<close>

fun value_le :: "sql_value \<Rightarrow> sql_value \<Rightarrow> bool" where
  "value_le SqlNull v = True"
| "value_le (SqlInteger i) SqlNull = False"
| "value_le (SqlInteger i) (SqlInteger j) = (sint i \<le> sint j)"
| "value_le (SqlInteger i) v = True"
| "value_le (SqlText s) (SqlText t) = (s \<le> t)"
| "value_le (SqlText s) (SqlBlob b) = True"
| "value_le (SqlText s) v = False"
| "value_le (SqlBlob a) (SqlBlob b) = (a \<le> b)"
| "value_le (SqlBlob a) v = False"

instantiation sql_value :: linorder
begin

definition less_eq_sql_value :: "sql_value \<Rightarrow> sql_value \<Rightarrow> bool" where
  "less_eq_sql_value v u = value_le v u"

definition less_sql_value :: "sql_value \<Rightarrow> sql_value \<Rightarrow> bool" where
  "less_sql_value v u = (value_le v u \<and> \<not> value_le u v)"

instance
proof
  fix v u t :: sql_value
  show "v < u \<longleftrightarrow> v \<le> u \<and> \<not> u \<le> v"
    by (simp add: less_eq_sql_value_def less_sql_value_def)
  show "v \<le> v"
    by (cases v) (simp_all add: less_eq_sql_value_def)
  show "v \<le> t" if "v \<le> u" "u \<le> t"
    using that by (cases v; cases u; cases t) (simp_all add: less_eq_sql_value_def)
  show "v = u" if "v \<le> u" "u \<le> v"
    using that by (cases v; cases u) (auto simp: less_eq_sql_value_def intro: signed_word_eqI sym)
  show "v \<le> u \<or> u \<le> v"
    by (cases v; cases u) (auto simp: less_eq_sql_value_def)
qed

end

lemma sql_order [simp]:
  "SqlInteger i \<le> SqlInteger j \<longleftrightarrow> sint i \<le> sint j"
  "SqlText s \<le> SqlText t \<longleftrightarrow> s \<le> t"
  by (simp_all add: less_eq_sql_value_def)

section \<open>Statements on one table\<close>

text \<open>
  What the DDL declares of a table: the column sets that are unique (PRIMARY KEY and UNIQUE), the
  columns that are NOT NULL, and the CHECK constraint.
\<close>

record table_def =
  td_uniques :: "nat list list"
  td_not_null :: "nat list"
  td_check :: "sql_row \<Rightarrow> bool"

definition columns :: "nat list \<Rightarrow> sql_row \<Rightarrow> sql_row" where
  "columns cs r = map (\<lambda>c. r ! c) cs"

definition clashes :: "table_def \<Rightarrow> sql_row \<Rightarrow> sql_row \<Rightarrow> bool" where
  "clashes d r r' \<longleftrightarrow> list_ex (\<lambda>cs. columns cs r = columns cs r') (td_uniques d)"

definition well_typed_row :: "table_def \<Rightarrow> sql_row \<Rightarrow> bool" where
  "well_typed_row d r \<longleftrightarrow> list_all (\<lambda>c. r ! c \<noteq> SqlNull) (td_not_null d) \<and> td_check d r"

text \<open>\<open>INSERT\<close>: a violated constraint aborts the statement.\<close>

definition sql_insert :: "table_def \<Rightarrow> sql_row \<Rightarrow> sql_table \<Rightarrow> sql_table option" where
  "sql_insert d r t =
     (if \<not> well_typed_row d r \<or> list_ex (clashes d r) t then None else Some (t @ [r]))"

text \<open>\<open>INSERT OR REPLACE\<close>: the rows it clashes with are deleted first; NULL and CHECK still abort.\<close>

definition sql_replace :: "table_def \<Rightarrow> sql_row \<Rightarrow> sql_table \<Rightarrow> sql_table option" where
  "sql_replace d r t =
     (if \<not> well_typed_row d r then None else Some (filter (\<lambda>r'. \<not> clashes d r r') t @ [r]))"

text \<open>
  \<open>INSERT .. ON CONFLICT(key) DO UPDATE SET cs = excluded.cs\<close>: a clash on the conflict target is
  looked for first and updates that row; any other clash aborts.
\<close>

definition overwrite :: "nat list \<Rightarrow> sql_row \<Rightarrow> sql_row \<Rightarrow> sql_row" where
  "overwrite cs new old = map (\<lambda>c. if c \<in> set cs then new ! c else old ! c) [0..<length old]"

definition sql_upsert :: "table_def \<Rightarrow> nat \<Rightarrow> nat list \<Rightarrow> sql_row \<Rightarrow> sql_table \<Rightarrow> sql_table option" where
  "sql_upsert d key cs r t =
     (if \<not> well_typed_row d r then None
      else if list_ex (\<lambda>r'. r' ! key = r ! key) t then
        Some (map (\<lambda>r'. if r' ! key = r ! key then overwrite cs r r' else r') t)
      else sql_insert d r t)"

text \<open>\<open>UPDATE .. SET .. WHERE\<close>, with the number of rows it changed.\<close>

definition sql_update :: "(sql_row \<Rightarrow> bool) \<Rightarrow> (sql_row \<Rightarrow> sql_row) \<Rightarrow> sql_table \<Rightarrow> u64 \<times> sql_table" where
  "sql_update p f t = (word_of_nat (length (filter p t)), map (\<lambda>r. if p r then f r else r) t)"

text \<open>\<open>SELECT cs FROM t WHERE p [ORDER BY k [DESC]] [LIMIT n]\<close>; a negative limit is none.\<close>

definition sql_select :: "nat list \<Rightarrow> (sql_row \<Rightarrow> bool) \<Rightarrow> sql_table \<Rightarrow> sql_table" where
  "sql_select cs p t = map (columns cs) (filter p t)"

definition order_by :: "nat \<Rightarrow> sql_table \<Rightarrow> sql_table" where
  "order_by k t = sort_key (\<lambda>r. r ! k) t"

definition order_by_desc :: "nat \<Rightarrow> sql_table \<Rightarrow> sql_table" where
  "order_by_desc k t = rev (order_by k t)"

definition sql_limit :: "i64 \<Rightarrow> sql_table \<Rightarrow> sql_table" where
  "sql_limit n t = (if sint n < 0 then t else take (unat n) t)"

text \<open>\<open>COALESCE(MAX(c), 0)\<close> of an integer column.\<close>

fun max_integer :: "sql_value list \<Rightarrow> sql_value" where
  "max_integer [] = SqlInteger 0"
| "max_integer (v # vs) = (if vs = [] then v else max v (max_integer vs))"

section \<open>The tables of the schema\<close>

definition meta_def :: table_def where
  "meta_def = \<lparr>td_uniques = [[0]], td_not_null = [1], td_check = (\<lambda>_. True)\<rparr>"

definition secrets_def :: table_def where
  "secrets_def = \<lparr>td_uniques = [[0], [1, 2]], td_not_null = [1 ..< 10], td_check = (\<lambda>_. True)\<rparr>"

definition keyslots_def :: table_def where
  "keyslots_def = \<lparr>td_uniques = [[0]], td_not_null = [1, 2, 3, 4, 6, 7, 8, 9], td_check = (\<lambda>_. True)\<rparr>"

definition audit_log_def :: table_def where
  "audit_log_def = \<lparr>td_uniques = [[0]], td_not_null = [1, 3, 5, 6, 7, 8], td_check = (\<lambda>_. True)\<rparr>"

definition relay_policies_def :: table_def where
  "relay_policies_def = \<lparr>td_uniques = [[0], [1]], td_not_null = [1, 2, 3], td_check = (\<lambda>_. True)\<rparr>"

definition relay_bearers_def :: table_def where
  "relay_bearers_def = \<lparr>td_uniques = [[0]], td_not_null = [1, 2, 3, 4, 5, 8, 9],
     td_check = (\<lambda>r. r ! 6 \<noteq> SqlNull \<or> r ! 10 \<noteq> SqlNull)\<rparr>"

definition remote_clients_def :: table_def where
  "remote_clients_def = \<lparr>td_uniques = [[0]], td_not_null = [1, 2, 3, 4], td_check = (\<lambda>_. True)\<rparr>"

definition certs_def :: table_def where
  "certs_def = \<lparr>td_uniques = [[0]], td_not_null = [1, 2, 3], td_check = (\<lambda>_. True)\<rparr>"

record sql_db =
  t_meta :: sql_table
  t_row_id_counter :: sql_table
  t_secrets :: sql_table
  t_keyslots :: sql_table
  t_audit_log :: sql_table
  t_relay_policies :: sql_table
  t_relay_bearers :: sql_table
  t_remote_clients :: sql_table
  t_certs :: sql_table

text \<open>The database the DDL leaves on a first start.\<close>

definition provisioned :: sql_db where
  "provisioned =
     \<lparr>t_meta = [], t_row_id_counter = [[SqlInteger 1, SqlInteger 0]], t_secrets = [], t_keyslots = [],
      t_audit_log = [], t_relay_policies = [], t_relay_bearers = [], t_remote_clients = [], t_certs = []\<rparr>"

text \<open>
  The whole batch on any database: \<open>CREATE TABLE IF NOT EXISTS\<close> leaves a table that exists alone, and
  the counter row is inserted unless it is there.
\<close>

definition execute_ddl :: "sql_db \<Rightarrow> sql_db" where
  "execute_ddl db =
     (if list_ex (\<lambda>r. r ! 0 = SqlInteger 1) (t_row_id_counter db) then db
      else db\<lparr>t_row_id_counter := t_row_id_counter db @ [[SqlInteger 1, SqlInteger 0]]\<rparr>)"

end
