(* ===== verification/LibSqlRows.thy ===== *)
theory LibSqlRows
  imports SqlTables Codec
begin

text \<open>
  Rows of the durable store (\<open>crates/secrets-store-libsql/src/serial.rs\<close> and \<open>error.rs\<close>): domain
  values as lists of column values, and back. Reading a column of the wrong type is an error, never
  a default. What the driver and \<open>serde_json\<close> do is the parameter record \<open>driver\<close>.
\<close>

section \<open>Errors\<close>

datatype store_error =
    RuntimeCreation string
  | ConnectFailed string
  | QueryFailed string
  | ExecuteFailed string
  | TransactionFailed string
  | SerializationError string
  | StoreAuditChainBroken i64
  | Contract string

fun store_error_text :: "store_error \<Rightarrow> string" where
  "store_error_text (RuntimeCreation e) = ''tokio runtime creation failed: '' @ e"
| "store_error_text (ConnectFailed e) = ''libSQL remote connect failed: '' @ e"
| "store_error_text (QueryFailed e) = ''libSQL query failed: '' @ e"
| "store_error_text (ExecuteFailed e) = ''libSQL execute failed: '' @ e"
| "store_error_text (TransactionFailed e) = ''libSQL transaction failed: '' @ e"
| "store_error_text (SerializationError e) = ''row deserialization failed: '' @ e"
| "store_error_text (StoreAuditChainBroken seq) = ''audit chain broken at seq '' @ i64_to_string seq"
| "store_error_text (Contract e) = ''store contract violation: '' @ e"

definition ser :: "string \<Rightarrow> string \<Rightarrow> store_error" where
  "ser ctx e = SerializationError (ctx @ '': '' @ e)"

section \<open>The driver\<close>

text \<open>
  What the \<open>libsql\<close> and \<open>serde_json\<close> crates contribute: the text of a failed column read, the debug
  text of a value, and the JSON text of the values stored as JSON, with its parser.
\<close>

record driver =
  dr_bad_column :: "string \<Rightarrow> sql_value option \<Rightarrow> string"
  dr_debug :: "sql_value \<Rightarrow> string"
  dr_kdf_text :: "kdf \<Rightarrow> string"
  dr_kdf_parse :: "string \<Rightarrow> string + kdf"
  dr_policy_text :: "relay_policy \<Rightarrow> string"
  dr_policy_parse :: "string \<Rightarrow> string + relay_policy"
  dr_detail_text :: "json \<Rightarrow> string"
  dr_detail_parse :: "string \<Rightarrow> string + json"

text \<open>Documented: \<open>serde_json\<close> reads back what it wrote.\<close>

definition json_faithful :: "driver \<Rightarrow> bool" where
  "json_faithful dr \<longleftrightarrow>
     (\<forall>k. dr_kdf_parse dr (dr_kdf_text dr k) = Inr k)
     \<and> (\<forall>p. dr_policy_parse dr (dr_policy_text dr p) = Inr p)"

text \<open>
  An object of \<open>serde_json\<close> iterates in key order; a detail whose entries are listed so is read back
  as it is.
\<close>

definition detail_faithful :: "driver \<Rightarrow> json \<Rightarrow> bool" where
  "detail_faithful dr j \<longleftrightarrow> dr_detail_parse dr (dr_detail_text dr j) = Inr j"

section \<open>Reading columns\<close>

definition get_value :: "sql_row \<Rightarrow> nat \<Rightarrow> sql_value option" where
  "get_value row idx = (if idx < length row then Some (row ! idx) else None)"

definition get_i64 :: "driver \<Rightarrow> sql_row \<Rightarrow> nat \<Rightarrow> string \<Rightarrow> store_error + i64" where
  "get_i64 dr row idx ctx =
     (case get_value row idx of
        Some (SqlInteger i) \<Rightarrow> Inr i
      | v \<Rightarrow> Inl (ser ctx (dr_bad_column dr ''i64'' v)))"

definition get_string :: "driver \<Rightarrow> sql_row \<Rightarrow> nat \<Rightarrow> string \<Rightarrow> store_error + string" where
  "get_string dr row idx ctx =
     (case get_value row idx of
        Some (SqlText s) \<Rightarrow> Inr s
      | v \<Rightarrow> Inl (ser ctx (dr_bad_column dr ''String'' v)))"

definition get_blob :: "driver \<Rightarrow> sql_row \<Rightarrow> nat \<Rightarrow> string \<Rightarrow> store_error + bytes" where
  "get_blob dr row idx ctx =
     (case get_value row idx of
        Some (SqlBlob b) \<Rightarrow> Inr b
      | v \<Rightarrow> Inl (ser ctx (dr_bad_column dr ''Vec<u8>'' v)))"

definition get_opt_i64 :: "driver \<Rightarrow> sql_row \<Rightarrow> nat \<Rightarrow> string \<Rightarrow> store_error + i64 option" where
  "get_opt_i64 dr row idx ctx =
     (case get_value row idx of
        None \<Rightarrow> Inl (ser ctx (dr_bad_column dr ''Value'' None))
      | Some SqlNull \<Rightarrow> Inr None
      | Some (SqlInteger i) \<Rightarrow> Inr (Some i)
      | Some other \<Rightarrow> Inl (ser ctx (''expected INTEGER/NULL, got '' @ dr_debug dr other)))"

definition get_opt_string :: "driver \<Rightarrow> sql_row \<Rightarrow> nat \<Rightarrow> string \<Rightarrow> store_error + string option" where
  "get_opt_string dr row idx ctx =
     (case get_value row idx of
        None \<Rightarrow> Inl (ser ctx (dr_bad_column dr ''Value'' None))
      | Some SqlNull \<Rightarrow> Inr None
      | Some (SqlText s) \<Rightarrow> Inr (Some s)
      | Some other \<Rightarrow> Inl (ser ctx (''expected TEXT/NULL, got '' @ dr_debug dr other)))"

definition get_opt_blob :: "driver \<Rightarrow> sql_row \<Rightarrow> nat \<Rightarrow> string \<Rightarrow> store_error + bytes option" where
  "get_opt_blob dr row idx ctx =
     (case get_value row idx of
        None \<Rightarrow> Inl (ser ctx (dr_bad_column dr ''Value'' None))
      | Some SqlNull \<Rightarrow> Inr None
      | Some (SqlBlob b) \<Rightarrow> Inr (Some b)
      | Some other \<Rightarrow> Inl (ser ctx (''expected BLOB/NULL, got '' @ dr_debug dr other)))"

definition jkt_from_vec :: "bytes \<Rightarrow> string \<Rightarrow> store_error + bytes" where
  "jkt_from_vec v ctx =
     (if length v = 32 then Inr v
      else Inl (ser ctx (''expected 32-byte jkt, got '' @ dec_nat (length v) @ '' bytes'')))"

text \<open>\<open>Option::map(..).transpose()?\<close>.\<close>

definition opt_jkt :: "bytes option \<Rightarrow> string \<Rightarrow> store_error + bytes option" where
  "opt_jkt v ctx =
     (case v of None \<Rightarrow> Inr None | Some b \<Rightarrow> and_ok (jkt_from_vec b ctx) (\<lambda>j. Inr (Some j)))"

section \<open>Enumerations as text\<close>

fun provider_to_str :: "provider \<Rightarrow> string" where
  "provider_to_str Anthropic = ''anthropic''"
| "provider_to_str Openai = ''openai''"
| "provider_to_str Github = ''github''"
| "provider_to_str Generic = ''generic''"

definition provider_from_str :: "string \<Rightarrow> store_error + provider" where
  "provider_from_str s =
     (if s = ''anthropic'' then Inr Anthropic
      else if s = ''openai'' then Inr Openai
      else if s = ''github'' then Inr Github
      else if s = ''generic'' then Inr Generic
      else Inl (ser ''provider'' (''unknown provider '' @ debug_str s)))"

fun factor_to_str :: "factor \<Rightarrow> string" where
  "factor_to_str Usb = ''usb''"
| "factor_to_str Passphrase = ''passphrase''"

definition factor_from_str :: "string \<Rightarrow> store_error + factor" where
  "factor_from_str s =
     (if s = ''usb'' then Inr Usb
      else if s = ''passphrase'' then Inr Passphrase
      else Inl (ser ''factor'' (''unknown factor '' @ debug_str s)))"

fun outcome_to_str :: "audit_outcome \<Rightarrow> string" where
  "outcome_to_str Ok = ''ok''"
| "outcome_to_str Refused = ''refused''"
| "outcome_to_str Failed = ''failed''"

definition outcome_from_str :: "string \<Rightarrow> store_error + audit_outcome" where
  "outcome_from_str s =
     (if s = ''ok'' then Inr Ok
      else if s = ''refused'' then Inr Refused
      else if s = ''failed'' then Inr Failed
      else Inl (ser ''outcome'' (''unknown outcome '' @ debug_str s)))"

text \<open>\<open>b as i64\<close>, \<open>Some(v)\<close> as a value and \<open>None\<close> as NULL.\<close>

definition sql_bool :: "bool \<Rightarrow> sql_value" where
  "sql_bool b = SqlInteger (if b then 1 else 0)"

definition sql_opt :: "('a \<Rightarrow> sql_value) \<Rightarrow> 'a option \<Rightarrow> sql_value" where
  "sql_opt f x = (case x of Some v \<Rightarrow> f v | None \<Rightarrow> SqlNull)"

section \<open>Secrets\<close>

definition bind_secret_row :: "secret_row \<Rightarrow> sql_row" where
  "bind_secret_row row =
     [SqlInteger (sr_row_id row), SqlText (sr_name row), SqlInteger (ucast (sr_version row)),
      SqlText (provider_to_str (sr_provider row)), SqlText (sr_note row), sql_bool (sr_broker_only row),
      SqlInteger (sr_dek_generation row), SqlBlob (sr_nonce row), SqlBlob (sr_ct_tag row),
      SqlText (sr_created_ts row)]"

definition deserialize_secret_row :: "driver \<Rightarrow> sql_row \<Rightarrow> store_error + secret_row" where
  "deserialize_secret_row dr row =
     and_ok (get_i64 dr row 0 ''secret.row_id'') (\<lambda>row_id.
     and_ok (get_string dr row 1 ''secret.name'') (\<lambda>name.
     and_ok (get_i64 dr row 2 ''secret.version'') (\<lambda>version.
     and_ok (get_string dr row 3 ''secret.provider'') (\<lambda>p.
     and_ok (provider_from_str p) (\<lambda>provider.
     and_ok (get_string dr row 4 ''secret.note'') (\<lambda>note.
     and_ok (get_i64 dr row 5 ''secret.broker_only'') (\<lambda>broker_only.
     and_ok (get_i64 dr row 6 ''secret.dek_generation'') (\<lambda>dek_generation.
     and_ok (get_blob dr row 7 ''secret.nonce'') (\<lambda>nonce.
     and_ok (get_blob dr row 8 ''secret.ct_tag'') (\<lambda>ct_tag.
     and_ok (get_string dr row 9 ''secret.created_ts'') (\<lambda>created_ts.
       Inr \<lparr>sr_row_id = row_id, sr_name = name, sr_version = ucast version, sr_provider = provider,
            sr_note = note, sr_broker_only = broker_only \<noteq> 0, sr_dek_generation = dek_generation,
            sr_nonce = nonce, sr_ct_tag = ct_tag, sr_created_ts = created_ts\<rparr>)))))))))))"

section \<open>Keyslots\<close>

definition bind_keyslot :: "driver \<Rightarrow> keyslot \<Rightarrow> sql_row" where
  "bind_keyslot dr slot =
     [SqlInteger (ks_id slot), SqlText (factor_to_str (ks_factor slot)), SqlText (ks_label slot),
      SqlText (dr_kdf_text dr (ks_kdf slot)), SqlBlob (ks_salt slot),
      sql_opt SqlText (ks_usb_partition_uuid slot), SqlBlob (ks_wrap_nonce slot),
      SqlBlob (ks_wrapped_dek slot), SqlInteger (ks_dek_generation slot), sql_bool (ks_enabled slot)]"

text \<open>The result is marked enabled, whatever column 9 of the table holds: it is not selected.\<close>

definition deserialize_keyslot :: "driver \<Rightarrow> sql_row \<Rightarrow> store_error + keyslot" where
  "deserialize_keyslot dr row =
     and_ok (get_string dr row 3 ''keyslot.kdf_json'') (\<lambda>text.
     and_ok (case dr_kdf_parse dr text of Inl e \<Rightarrow> Inl (ser ''keyslot.kdf'' e) | Inr k \<Rightarrow> Inr k) (\<lambda>k.
     and_ok (get_i64 dr row 0 ''keyslot.id'') (\<lambda>slot_id.
     and_ok (get_string dr row 1 ''keyslot.factor'') (\<lambda>f.
     and_ok (factor_from_str f) (\<lambda>factor.
     and_ok (get_string dr row 2 ''keyslot.label'') (\<lambda>label.
     and_ok (get_blob dr row 4 ''keyslot.salt'') (\<lambda>salt.
     and_ok (get_opt_string dr row 5 ''keyslot.usb_partition_uuid'') (\<lambda>uuid.
     and_ok (get_blob dr row 6 ''keyslot.wrap_nonce'') (\<lambda>wrap_nonce.
     and_ok (get_blob dr row 7 ''keyslot.wrapped_dek'') (\<lambda>wrapped_dek.
     and_ok (get_i64 dr row 8 ''keyslot.dek_generation'') (\<lambda>dek_generation.
       Inr \<lparr>ks_id = slot_id, ks_factor = factor, ks_label = label, ks_kdf = k, ks_salt = salt,
            ks_usb_partition_uuid = uuid, ks_wrap_nonce = wrap_nonce, ks_wrapped_dek = wrapped_dek,
            ks_dek_generation = dek_generation, ks_enabled = True\<rparr>)))))))))))"

section \<open>Audit records\<close>

definition bind_audit_record :: "driver \<Rightarrow> audit_record \<Rightarrow> sql_row" where
  "bind_audit_record dr rec =
     [SqlInteger (ar_seq rec), SqlText (ar_ts rec),
      sql_opt (\<lambda>u. SqlInteger (ucast u)) (ar_actor_uid rec), SqlText (ar_event_type rec),
      sql_opt SqlText (ar_subject rec), SqlText (dr_detail_text dr (ar_detail rec)),
      SqlText (outcome_to_str (ar_outcome rec)), SqlBlob (ar_prev_hash rec), SqlBlob (ar_row_hash rec)]"

definition deserialize_audit_record :: "driver \<Rightarrow> sql_row \<Rightarrow> store_error + audit_record" where
  "deserialize_audit_record dr row =
     and_ok (get_string dr row 5 ''audit.detail'') (\<lambda>text.
     and_ok (case dr_detail_parse dr text of Inl e \<Rightarrow> Inl (ser ''audit.detail'' e) | Inr j \<Rightarrow> Inr j) (\<lambda>detail.
     and_ok (get_i64 dr row 0 ''audit.seq'') (\<lambda>seq.
     and_ok (get_string dr row 1 ''audit.ts'') (\<lambda>ts.
     and_ok (get_opt_i64 dr row 2 ''audit.actor_uid'') (\<lambda>uid.
     and_ok (get_string dr row 3 ''audit.event_type'') (\<lambda>event_type.
     and_ok (get_opt_string dr row 4 ''audit.subject'') (\<lambda>subject.
     and_ok (get_string dr row 6 ''audit.outcome'') (\<lambda>o_text.
     and_ok (outcome_from_str o_text) (\<lambda>outcome.
     and_ok (get_blob dr row 7 ''audit.prev_hash'') (\<lambda>prev_hash.
     and_ok (get_blob dr row 8 ''audit.row_hash'') (\<lambda>row_hash.
       Inr \<lparr>ar_seq = seq, ar_ts = ts, ar_actor_uid = map_option ucast uid, ar_event_type = event_type,
            ar_subject = subject, ar_detail = detail, ar_outcome = outcome, ar_prev_hash = prev_hash,
            ar_row_hash = row_hash\<rparr>)))))))))))"

section \<open>Relay policies\<close>

definition bind_relay_policy :: "driver \<Rightarrow> i64 \<Rightarrow> relay_policy_row \<Rightarrow> sql_row" where
  "bind_relay_policy dr policy_id row =
     [SqlInteger policy_id, SqlText (rp_relay_id (rr_policy row)),
      SqlText (dr_policy_text dr (rr_policy row)), sql_bool (rp_enabled (rr_policy row))]"

definition deserialize_relay_policy :: "driver \<Rightarrow> sql_row \<Rightarrow> store_error + relay_policy_row" where
  "deserialize_relay_policy dr row =
     and_ok (get_string dr row 1 ''relay.policy_json'') (\<lambda>text.
     and_ok (case dr_policy_parse dr text of Inl e \<Rightarrow> Inl (ser ''relay.policy'' e) | Inr p \<Rightarrow> Inr p) (\<lambda>policy.
     and_ok (get_i64 dr row 0 ''relay.id'') (\<lambda>i. Inr \<lparr>rr_id = i, rr_policy = policy\<rparr>)))"

section \<open>Bearers\<close>

definition bind_bearer_row :: "bearer_row \<Rightarrow> sql_row" where
  "bind_bearer_row row =
     [SqlText (br_token_id row), SqlInteger (br_policy_id row), SqlBlob (br_mac row),
      SqlInteger (br_expires_at_ms row), SqlInteger (br_issued_at_ms row),
      SqlInteger (br_issued_boottime_ms row), sql_opt (\<lambda>u. SqlInteger (ucast u)) (br_client_uid row),
      sql_opt (\<lambda>p. SqlInteger (ucast p)) (br_client_pid row), sql_bool (br_revoked row),
      SqlBlob (br_row_mac row), sql_opt SqlText (br_client_id row), sql_opt SqlBlob (br_dpop_jkt row)]"

definition deserialize_bearer_row :: "driver \<Rightarrow> sql_row \<Rightarrow> store_error + bearer_row" where
  "deserialize_bearer_row dr row =
     and_ok (get_string dr row 0 ''bearer.token_id'') (\<lambda>token_id.
     and_ok (get_i64 dr row 1 ''bearer.policy_id'') (\<lambda>policy_id.
     and_ok (get_blob dr row 2 ''bearer.mac'') (\<lambda>mac.
     and_ok (get_i64 dr row 3 ''bearer.expires_at_ms'') (\<lambda>expires_at_ms.
     and_ok (get_i64 dr row 4 ''bearer.issued_at_ms'') (\<lambda>issued_at_ms.
     and_ok (get_i64 dr row 5 ''bearer.issued_boottime_ms'') (\<lambda>issued_boottime_ms.
     and_ok (get_opt_i64 dr row 6 ''bearer.client_uid'') (\<lambda>client_uid.
     and_ok (get_opt_i64 dr row 7 ''bearer.client_pid'') (\<lambda>client_pid.
     and_ok (get_i64 dr row 8 ''bearer.revoked'') (\<lambda>revoked.
     and_ok (get_blob dr row 9 ''bearer.row_mac'') (\<lambda>row_mac.
     and_ok (get_opt_string dr row 10 ''bearer.client_id'') (\<lambda>client_id.
     and_ok (get_opt_blob dr row 11 ''bearer.dpop_jkt'') (\<lambda>jkt_blob.
     and_ok (opt_jkt jkt_blob ''bearer.dpop_jkt'') (\<lambda>dpop_jkt.
       Inr \<lparr>br_token_id = token_id, br_policy_id = policy_id, br_mac = mac,
            br_expires_at_ms = expires_at_ms, br_issued_at_ms = issued_at_ms,
            br_issued_boottime_ms = issued_boottime_ms, br_client_uid = map_option ucast client_uid,
            br_client_pid = map_option ucast client_pid, br_client_id = client_id,
            br_dpop_jkt = dpop_jkt, br_revoked = revoked \<noteq> 0, br_row_mac = row_mac\<rparr>)))))))))))))"

section \<open>Remote clients and certificates\<close>

definition bind_remote_client :: "remote_client \<Rightarrow> sql_row" where
  "bind_remote_client row =
     [SqlText (rc_client_id row), SqlBlob (rc_dpop_jkt row), sql_bool (rc_enabled row),
      sql_bool (rc_hardware_bound row), SqlInteger (rc_created_at_ms row),
      sql_opt SqlInteger (rc_revoked_at_ms row)]"

definition deserialize_remote_client :: "driver \<Rightarrow> sql_row \<Rightarrow> store_error + remote_client" where
  "deserialize_remote_client dr row =
     and_ok (get_string dr row 0 ''remote_client.client_id'') (\<lambda>client_id.
     and_ok (get_blob dr row 1 ''remote_client.dpop_jkt'') (\<lambda>jkt_blob.
     and_ok (jkt_from_vec jkt_blob ''remote_client.dpop_jkt'') (\<lambda>dpop_jkt.
     and_ok (get_i64 dr row 2 ''remote_client.enabled'') (\<lambda>enabled.
     and_ok (get_i64 dr row 3 ''remote_client.hardware_bound'') (\<lambda>hardware_bound.
     and_ok (get_i64 dr row 4 ''remote_client.created_at_ms'') (\<lambda>created_at_ms.
     and_ok (get_opt_i64 dr row 5 ''remote_client.revoked_at_ms'') (\<lambda>revoked_at_ms.
       Inr \<lparr>rc_client_id = client_id, rc_dpop_jkt = dpop_jkt, rc_enabled = enabled \<noteq> 0,
            rc_hardware_bound = hardware_bound \<noteq> 0, rc_created_at_ms = created_at_ms,
            rc_revoked_at_ms = revoked_at_ms\<rparr>)))))))"

definition bind_cert_row :: "cert_row \<Rightarrow> sql_row" where
  "bind_cert_row row =
     [SqlText (cw_serial row), SqlText (cw_cn row), SqlText (cw_not_after row), SqlBlob (cw_der row)]"

definition deserialize_cert_row :: "driver \<Rightarrow> sql_row \<Rightarrow> store_error + cert_row" where
  "deserialize_cert_row dr row =
     and_ok (get_string dr row 0 ''cert.serial'') (\<lambda>serial.
     and_ok (get_string dr row 1 ''cert.cn'') (\<lambda>cn.
     and_ok (get_string dr row 2 ''cert.not_after'') (\<lambda>not_after.
     and_ok (get_blob dr row 3 ''cert.der'') (\<lambda>der.
       Inr \<lparr>cw_serial = serial, cw_cn = cn, cw_not_after = not_after, cw_der = der\<rparr>))))"

section \<open>Binding and reading back\<close>

text \<open>
  The contract of a pair of binders: what a row binds to is read back as the same row, in the columns
  the statements select.
\<close>

locale row_codec =
  fixes ok :: "'r \<Rightarrow> bool"
    and bind :: "'r \<Rightarrow> sql_row"
    and unbind :: "sql_row \<Rightarrow> store_error + 'r"
  assumes unbind_bind: "ok r \<Longrightarrow> unbind (bind r) = Inr r"
begin

lemma bind_inj: "ok r \<Longrightarrow> ok r' \<Longrightarrow> bind r = bind r' \<longleftrightarrow> r = r'"
  by (metis unbind_bind sum.inject(2))

end

lemma ucast_u32_i64 [simp]: "(ucast (ucast (x :: u32) :: i64) :: u32) = x"
  by (rule word_uint_eqI) (simp add: unsigned_ucast_eq take_bit_word_eq_self)

lemma sql_bool_simps [simp]: "sql_bool b = SqlInteger i \<longleftrightarrow> i = (if b then 1 else 0)" "sql_bool b \<noteq> SqlNull"
  by (auto simp: sql_bool_def)

lemmas reading = get_i64_def get_string_def get_blob_def get_opt_i64_def get_opt_string_def
  get_opt_blob_def get_value_def sql_opt_def sql_bool_def

lemma enum_texts [simp]:
  "provider_from_str (provider_to_str p) = Inr p"
  "factor_from_str (factor_to_str f) = Inr f"
  "outcome_from_str (outcome_to_str out) = Inr out"
    apply (cases p; simp add: provider_from_str_def)
   apply (cases f; simp add: factor_from_str_def)
  apply (cases out; simp add: outcome_from_str_def)
  done

interpretation secret_codec: row_codec "\<lambda>_. True" bind_secret_row "deserialize_secret_row dr" for dr
  by unfold_locales (simp add: bind_secret_row_def deserialize_secret_row_def reading)

interpretation cert_codec: row_codec "\<lambda>_. True" bind_cert_row "deserialize_cert_row dr" for dr
  by unfold_locales (simp add: bind_cert_row_def deserialize_cert_row_def reading)

interpretation client_codec: row_codec "\<lambda>c. length (rc_dpop_jkt c) = 32" bind_remote_client
  "deserialize_remote_client dr" for dr
  by unfold_locales (simp add: bind_remote_client_def deserialize_remote_client_def reading
      jkt_from_vec_def split: option.split)

interpretation bearer_codec: row_codec "\<lambda>b. \<forall>j\<in>set_option (br_dpop_jkt b). length j = 32" bind_bearer_row
  "deserialize_bearer_row dr" for dr
  by unfold_locales (auto simp: bind_bearer_row_def deserialize_bearer_row_def reading opt_jkt_def
      jkt_from_vec_def split: option.split)

interpretation keyslot_codec: row_codec "\<lambda>s. json_faithful dr \<and> ks_enabled s" "bind_keyslot dr"
  "deserialize_keyslot dr" for dr
  by unfold_locales (auto simp: bind_keyslot_def deserialize_keyslot_def reading json_faithful_def
      split: option.split)

interpretation audit_codec: row_codec "\<lambda>r. detail_faithful dr (ar_detail r)" "bind_audit_record dr"
  "deserialize_audit_record dr" for dr
  by unfold_locales (auto simp: bind_audit_record_def deserialize_audit_record_def reading
      detail_faithful_def split: option.split)

text \<open>A policy row is bound with its id and read back from columns 0 and 2 of the table.\<close>

interpretation policy_codec: row_codec "\<lambda>_. json_faithful dr" "\<lambda>r. columns [0, 2] (bind_relay_policy dr (rr_id r) r)"
  "deserialize_relay_policy dr" for dr
  by unfold_locales (simp add: bind_relay_policy_def deserialize_relay_policy_def reading columns_def
      json_faithful_def)

end
