(* ===== verification/LibSqlStore.thy ===== *)
theory LibSqlStore
  imports LibSqlRows Decide
begin

text \<open>
  The durable store (\<open>crates/secrets-store-libsql/src/store.rs\<close>, \<open>sync.rs\<close>, \<open>health.rs\<close>): every
  method of the \<open>Store\<close> trait as the requests it sends to the database server, one connection, one
  request after the other. The record \<open>link\<close> is the network and the server seen from the client:
  whether the \<open>n\<close>-th request is answered, and if it is not, the error text and whether the server had
  executed it; and which wiring is compiled in. The daemon is the only client of its database.
\<close>

section \<open>The connection\<close>

record link =
  lk_fault :: "nat \<Rightarrow> (bool \<times> string) option"
  lk_connect :: "nat \<Rightarrow> string option"
  lk_constraint :: "nat \<Rightarrow> string"
  lk_embedded :: bool

record remote =
  rm_db :: sql_db
  rm_tick :: nat

type_synonym 'a rop = "(remote, store_error, 'a) act"

definition sent :: "remote \<Rightarrow> remote" where
  "sent s = s\<lparr>rm_tick := Suc (rm_tick s)\<rparr>"

text \<open>One request: a statement on the database, \<open>None\<close> where a constraint aborts it.\<close>

definition request ::
  "link \<Rightarrow> (string \<Rightarrow> store_error) \<Rightarrow> (sql_db \<Rightarrow> ('a \<times> sql_db) option) \<Rightarrow> 'a rop" where
  "request l wrap f =
     (\<lambda>s. case lk_fault l (rm_tick s) of
        None \<Rightarrow>
          (case f (rm_db s) of
             None \<Rightarrow> (Inl (wrap (lk_constraint l (rm_tick s))), sent s)
           | Some (x, db) \<Rightarrow> (Inr x, (sent s)\<lparr>rm_db := db\<rparr>))
      | Some (executed, msg) \<Rightarrow>
          (Inl (wrap msg),
           if executed then (case f (rm_db s) of None \<Rightarrow> sent s | Some (x, db) \<Rightarrow> (sent s)\<lparr>rm_db := db\<rparr>)
           else sent s))"

fun contains :: "string \<Rightarrow> string \<Rightarrow> bool" where
  "contains s [] = True"
| "contains [] (p # ps) = False"
| "contains (c # cs) p = (starts_with (c # cs) p \<or> contains cs p)"

definition is_stream_expired :: "store_error \<Rightarrow> bool" where
  "is_stream_expired e =
     (let s = map ascii_lower (store_error_text e) in
      contains s ''stream_expired'' \<or> contains s ''stream has expired'' \<or> contains s ''stream expired'')"

definition reconnect :: "link \<Rightarrow> unit rop" where
  "reconnect l =
     (\<lambda>s. case lk_connect l (rm_tick s) of
        None \<Rightarrow> (Inr (), sent s)
      | Some msg \<Rightarrow> (Inl (ConnectFailed msg), sent s))"

definition run_retry :: "link \<Rightarrow> 'a rop \<Rightarrow> 'a rop" where
  "run_retry l f =
     match_result f
       (\<lambda>e. if is_stream_expired e then and_then (reconnect l) (\<lambda>_. f) else fail_act e)
       ok_act"

text \<open>A \<open>SELECT\<close>, as the rows it yields.\<close>

definition query :: "link \<Rightarrow> (sql_db \<Rightarrow> sql_table) \<Rightarrow> sql_table rop" where
  "query l q = request l QueryFailed (\<lambda>db. Some (q db, db))"

definition query_all :: "link \<Rightarrow> (sql_db \<Rightarrow> sql_table) \<Rightarrow> sql_table rop" where
  "query_all l q = run_retry l (query l q)"

definition query_one :: "link \<Rightarrow> (sql_db \<Rightarrow> sql_table) \<Rightarrow> sql_row option rop" where
  "query_one l q =
     run_retry l (and_then (query l q) (\<lambda>rows. ok_act (case rows of [] \<Rightarrow> None | r # rs \<Rightarrow> Some r)))"

definition execute :: "link \<Rightarrow> (sql_db \<Rightarrow> ('a \<times> sql_db) option) \<Rightarrow> 'a rop" where
  "execute l f = run_retry l (request l ExecuteFailed f)"

text \<open>
  A transaction: the statements work on a copy of the database, which \<open>commit\<close> publishes; a failure
  before the commit drops the copy.
\<close>

definition transaction :: "link \<Rightarrow> 'a rop \<Rightarrow> 'a rop" where
  "transaction l body =
     and_then (request l TransactionFailed (\<lambda>db. Some ((), db))) (\<lambda>_.
       (\<lambda>s. case body s of
          (Inl e, t) \<Rightarrow> (Inl e, t\<lparr>rm_db := rm_db s\<rparr>)
        | (Inr x, t) \<Rightarrow>
            and_then (request l TransactionFailed (\<lambda>_. Some ((), rm_db t))) (\<lambda>_. ok_act x)
              (t\<lparr>rm_db := rm_db s\<rparr>)))"

definition lift_read :: "store_error + 'a \<Rightarrow> 'a rop" where
  "lift_read r = (\<lambda>s. (r, s))"

text \<open>A statement that writes one table, with no value of interest.\<close>

definition on_table ::
  "(sql_db \<Rightarrow> sql_table) \<Rightarrow> (sql_table \<Rightarrow> sql_db \<Rightarrow> sql_db) \<Rightarrow> (sql_table \<Rightarrow> sql_table option)
   \<Rightarrow> sql_db \<Rightarrow> (unit \<times> sql_db) option" where
  "on_table get put f db = map_option (\<lambda>t. ((), put t db)) (f (get db))"

definition fsync_barrier :: "link \<Rightarrow> unit rop" where
  "fsync_barrier l = and_then (query_one l (\<lambda>_. [[SqlInteger 1]])) (\<lambda>_. ok_act ())"

text \<open>Every write is followed by the barrier.\<close>

definition durable :: "link \<Rightarrow> 'a rop \<Rightarrow> 'a rop" where
  "durable l m = and_then m (\<lambda>x. and_then (fsync_barrier l) (\<lambda>_. ok_act x))"

text \<open>The first row read by \<open>f\<close>, and all rows read by \<open>f\<close>, stopping at the first error.\<close>

definition read_row :: "(sql_row \<Rightarrow> store_error + 'a) \<Rightarrow> sql_row option \<Rightarrow> 'a option rop" where
  "read_row f r =
     (case r of None \<Rightarrow> ok_act None | Some row \<Rightarrow> lift_read (and_ok (f row) (\<lambda>x. Inr (Some x))))"

fun read_rows :: "(sql_row \<Rightarrow> store_error + 'a) \<Rightarrow> sql_row list \<Rightarrow> store_error + 'a list" where
  "read_rows f [] = Inr []"
| "read_rows f (r # rs) = and_ok (f r) (\<lambda>x. and_ok (read_rows f rs) (\<lambda>xs. Inr (x # xs)))"

section \<open>Meta values\<close>

definition sql_get_meta :: "link \<Rightarrow> driver \<Rightarrow> string \<Rightarrow> string option rop" where
  "sql_get_meta l dr k =
     and_then (query_one l (\<lambda>db. sql_select [1] (\<lambda>r. r ! 0 = SqlText k) (t_meta db)))
       (read_row (\<lambda>r. get_string dr r 0 ''meta.v''))"

definition sql_put_meta :: "link \<Rightarrow> string \<Rightarrow> string \<Rightarrow> unit rop" where
  "sql_put_meta l k v =
     durable l (execute l (on_table t_meta (\<lambda>t db. db\<lparr>t_meta := t\<rparr>)
       (sql_replace meta_def [SqlText k, SqlText v])))"

section \<open>Secrets\<close>

text \<open>The counter of reserved row ids.\<close>

definition bump_counter :: "sql_db \<Rightarrow> sql_db" where
  "bump_counter db =
     db\<lparr>t_row_id_counter := snd (sql_update (\<lambda>r. r ! 0 = SqlInteger 1)
       (\<lambda>r. case r ! 1 of SqlInteger n \<Rightarrow> r[1 := SqlInteger (n + 1)] | _ \<Rightarrow> r) (t_row_id_counter db))\<rparr>"

definition next_row_id :: "link \<Rightarrow> driver \<Rightarrow> i64 rop" where
  "next_row_id l dr =
     and_then (query l (\<lambda>db. sql_select [1] (\<lambda>r. r ! 0 = SqlInteger 1) (t_row_id_counter db))) (\<lambda>rows.
       case rows of
         [] \<Rightarrow> fail_act (QueryFailed ''row_id_counter row missing'')
       | r # rs \<Rightarrow> lift_read (get_i64 dr r 0 ''next_id''))"

definition sql_reserve_secret_row_id :: "link \<Rightarrow> driver \<Rightarrow> i64 rop" where
  "sql_reserve_secret_row_id l dr =
     run_retry l (transaction l
       (and_then (request l ExecuteFailed (\<lambda>db. Some ((), bump_counter db))) (\<lambda>_. next_row_id l dr)))"

definition max_version_query :: "string \<Rightarrow> sql_db \<Rightarrow> sql_table" where
  "max_version_query name db =
     [[max_integer (map (\<lambda>r. r ! 2) (filter (\<lambda>r. r ! 1 = SqlText name) (t_secrets db)))]]"

definition row_id_taken :: "link \<Rightarrow> i64 \<Rightarrow> bool rop" where
  "row_id_taken l row_id =
     and_then (query l (\<lambda>db. map (\<lambda>_. [SqlInteger 1]) (filter (\<lambda>r. r ! 0 = SqlInteger row_id) (t_secrets db))))
       (\<lambda>rows. ok_act (rows \<noteq> []))"

definition highest_version :: "link \<Rightarrow> driver \<Rightarrow> string \<Rightarrow> i64 rop" where
  "highest_version l dr name =
     and_then (query l (max_version_query name)) (\<lambda>rows.
       case rows of
         [] \<Rightarrow> fail_act (QueryFailed ''MAX(version) returned no row'')
       | r # rs \<Rightarrow> lift_read (get_i64 dr r 0 ''max_version''))"

definition insert_secret :: "secret_row \<Rightarrow> sql_db \<Rightarrow> (unit \<times> sql_db) option" where
  "insert_secret row =
     on_table t_secrets (\<lambda>t db. db\<lparr>t_secrets := t\<rparr>) (sql_insert secrets_def (bind_secret_row row))"

text \<open>The checks of \<open>put_secret\<close> in their order: version, collision, reservation.\<close>

definition insert_next_version :: "link \<Rightarrow> driver \<Rightarrow> secret_row \<Rightarrow> i64 rop" where
  "insert_next_version l dr row =
     and_then (highest_version l dr (sr_name row)) (\<lambda>top.
       let expected = ucast top + (1 :: u32) in
       if sr_version row \<noteq> expected then
         fail_act (Contract (''put_secret version '' @ dec_nat (unat (sr_version row)) @ '' for ''
           @ debug_str (sr_name row) @ '' violates monotonicity (expected ''
           @ dec_nat (unat expected) @ '')''))
       else and_then (request l ExecuteFailed (insert_secret row)) (\<lambda>_. ok_act (sr_row_id row)))"

definition insert_unless_taken :: "link \<Rightarrow> driver \<Rightarrow> secret_row \<Rightarrow> i64 rop" where
  "insert_unless_taken l dr row =
     and_then (row_id_taken l (sr_row_id row)) (\<lambda>collides.
       if collides then
         fail_act (Contract (''put_secret row_id '' @ i64_to_string (sr_row_id row)
           @ '' collides with an existing row''))
       else insert_next_version l dr row)"

definition put_secret_body :: "link \<Rightarrow> driver \<Rightarrow> secret_row \<Rightarrow> i64 rop" where
  "put_secret_body l dr row =
     and_then (next_row_id l dr) (\<lambda>next_id.
       if i64_le (sr_row_id row) 0 \<or> i64_lt next_id (sr_row_id row) then
         fail_act (Contract (''put_secret row_id '' @ i64_to_string (sr_row_id row)
           @ '' was not reserved (max reserved '' @ i64_to_string next_id @ '')''))
       else insert_unless_taken l dr row)"

definition sql_put_secret :: "link \<Rightarrow> driver \<Rightarrow> secret_row \<Rightarrow> i64 rop" where
  "sql_put_secret l dr row = durable l (run_retry l (transaction l (put_secret_body l dr row)))"

definition sql_get_secret_latest :: "link \<Rightarrow> driver \<Rightarrow> string \<Rightarrow> secret_row option rop" where
  "sql_get_secret_latest l dr name =
     and_then (query_one l (\<lambda>db. sql_limit 1 (order_by_desc 2
       (sql_select [0 ..< 10] (\<lambda>r. r ! 1 = SqlText name) (t_secrets db)))))
       (read_row (deserialize_secret_row dr))"

definition sql_get_secret_version :: "link \<Rightarrow> driver \<Rightarrow> string \<Rightarrow> u32 \<Rightarrow> secret_row option rop" where
  "sql_get_secret_version l dr name version =
     and_then (query_one l (\<lambda>db.
       sql_select [0 ..< 10] (\<lambda>r. r ! 1 = SqlText name \<and> r ! 2 = SqlInteger (ucast version)) (t_secrets db)))
       (read_row (deserialize_secret_row dr))"

definition sql_max_secret_version :: "link \<Rightarrow> driver \<Rightarrow> string \<Rightarrow> u32 rop" where
  "sql_max_secret_version l dr name =
     and_then (query_one l (max_version_query name)) (\<lambda>r.
       case r of
         Some row \<Rightarrow> lift_read (and_ok (get_i64 dr row 0 ''max_version'') (\<lambda>m. Inr (ucast m)))
       | None \<Rightarrow> ok_act 0)"

definition sql_list_secret_names :: "link \<Rightarrow> driver \<Rightarrow> string list rop" where
  "sql_list_secret_names l dr =
     and_then (query_all l (\<lambda>db. remdups (order_by 0 (sql_select [1] (\<lambda>_. True) (t_secrets db))))) (\<lambda>rows.
       lift_read (read_rows (\<lambda>r. get_string dr r 0 ''secret.name'') rows))"

definition sql_list_secret_versions :: "link \<Rightarrow> driver \<Rightarrow> string \<Rightarrow> u32 list rop" where
  "sql_list_secret_versions l dr name =
     and_then (query_all l (\<lambda>db. order_by 0 (sql_select [2] (\<lambda>r. r ! 1 = SqlText name) (t_secrets db)))) (\<lambda>rows.
       lift_read (read_rows (\<lambda>r. and_ok (get_i64 dr r 0 ''secret.version'') (\<lambda>v. Inr (ucast v))) rows))"

section \<open>Keyslots\<close>

definition sql_save_keyslot :: "link \<Rightarrow> driver \<Rightarrow> keyslot \<Rightarrow> unit rop" where
  "sql_save_keyslot l dr slot =
     durable l (execute l (on_table t_keyslots (\<lambda>t db. db\<lparr>t_keyslots := t\<rparr>)
       (sql_replace keyslots_def (bind_keyslot dr slot))))"

definition sql_load_keyslots :: "link \<Rightarrow> driver \<Rightarrow> keyslot list rop" where
  "sql_load_keyslots l dr =
     and_then (query_all l (\<lambda>db. order_by 0
       (sql_select [0 ..< 9] (\<lambda>r. r ! 9 = SqlInteger 1) (t_keyslots db)))) (\<lambda>rows.
       lift_read (read_rows (deserialize_keyslot dr) rows))"

definition sql_load_keyslot :: "link \<Rightarrow> driver \<Rightarrow> i64 \<Rightarrow> keyslot option rop" where
  "sql_load_keyslot l dr slot_id =
     and_then (query_one l (\<lambda>db. sql_select [0 ..< 9] (\<lambda>r. r ! 0 = SqlInteger slot_id) (t_keyslots db)))
       (read_row (deserialize_keyslot dr))"

section \<open>Audit\<close>

definition sql_last_audit :: "link \<Rightarrow> driver \<Rightarrow> audit_record option rop" where
  "sql_last_audit l dr =
     and_then (query_one l (\<lambda>db. sql_limit 1 (order_by_desc 0
       (sql_select [0 ..< 9] (\<lambda>_. True) (t_audit_log db)))))
       (read_row (deserialize_audit_record dr))"

text \<open>The append lock is held from reading the tail to the barrier.\<close>

definition sql_append_audit :: "link \<Rightarrow> driver \<Rightarrow> crypto \<Rightarrow> audit_record \<Rightarrow> i64 rop" where
  "sql_append_audit l dr cr rec =
     and_then (sql_last_audit l dr) (\<lambda>tail.
       let sealed = link_row cr tail rec in
       durable l (and_then (execute l (on_table t_audit_log (\<lambda>t db. db\<lparr>t_audit_log := t\<rparr>)
         (sql_insert audit_log_def (bind_audit_record dr sealed)))) (\<lambda>_. ok_act (ar_seq sealed))))"

definition all_audit_asc :: "sql_db \<Rightarrow> sql_table" where
  "all_audit_asc db = order_by 0 (sql_select [0 ..< 9] (\<lambda>_. True) (t_audit_log db))"

definition sql_verify_audit_chain :: "link \<Rightarrow> driver \<Rightarrow> crypto \<Rightarrow> unit rop" where
  "sql_verify_audit_chain l dr cr =
     and_then (query_all l all_audit_asc) (\<lambda>rows.
     and_then (lift_read (read_rows (deserialize_audit_record dr) rows)) (\<lambda>chain.
       case verify_chain cr chain of
         Inl seq \<Rightarrow> fail_act (StoreAuditChainBroken seq)
       | Inr _ \<Rightarrow> ok_act ()))"

definition after_seq :: "i64 \<Rightarrow> sql_row \<Rightarrow> bool" where
  "after_seq since_seq r = (SqlInteger since_seq < r ! 0)"

definition sql_query_audit :: "link \<Rightarrow> driver \<Rightarrow> i64 \<Rightarrow> nat \<Rightarrow> audit_record list rop" where
  "sql_query_audit l dr since_seq limit =
     and_then (query_all l (\<lambda>db. sql_limit (word_of_nat limit) (order_by 0
       (sql_select [0 ..< 9] (after_seq since_seq) (t_audit_log db))))) (\<lambda>rows.
       lift_read (read_rows (deserialize_audit_record dr) rows))"

section \<open>Relay policies\<close>

definition upsert_policy :: "driver \<Rightarrow> i64 \<Rightarrow> relay_policy_row \<Rightarrow> sql_db \<Rightarrow> (unit \<times> sql_db) option" where
  "upsert_policy dr policy_id row =
     on_table t_relay_policies (\<lambda>t db. db\<lparr>t_relay_policies := t\<rparr>)
       (sql_upsert relay_policies_def 1 [2, 3] (bind_relay_policy dr policy_id row))"

definition policy_id_by_name :: "string \<Rightarrow> sql_db \<Rightarrow> sql_table" where
  "policy_id_by_name relay_id db = sql_select [0] (\<lambda>r. r ! 1 = SqlText relay_id) (t_relay_policies db)"

text \<open>\<open>unwrap_or(0)\<close> twice: a missing row and an unreadable one count as 0.\<close>

definition max_policy_id :: "link \<Rightarrow> driver \<Rightarrow> i64 rop" where
  "max_policy_id l dr =
     and_then (query_one l (\<lambda>db. [[max_integer (map (\<lambda>r. r ! 0) (t_relay_policies db))]])) (\<lambda>r.
       ok_act (case r of
           None \<Rightarrow> 0
         | Some row \<Rightarrow> (case get_i64 dr row 0 [] of Inr m \<Rightarrow> m | Inl _ \<Rightarrow> 0)))"

definition sql_save_relay_policy :: "link \<Rightarrow> driver \<Rightarrow> relay_policy_row \<Rightarrow> i64 rop" where
  "sql_save_relay_policy l dr row =
     and_then (query_one l (policy_id_by_name (rp_relay_id (rr_policy row)))) (\<lambda>existing.
     and_then (read_row (\<lambda>r. get_i64 dr r 0 ''relay.id'') existing) (\<lambda>existing_id.
     and_then (if rr_id row \<noteq> 0 then ok_act (rr_id row)
               else case existing_id of
                 Some eid \<Rightarrow> ok_act eid
               | None \<Rightarrow> and_then (max_policy_id l dr) (\<lambda>m. ok_act (m + 1))) (\<lambda>policy_id.
       durable l (and_then (execute l (upsert_policy dr policy_id row)) (\<lambda>_. ok_act policy_id)))))"

definition sql_load_relay_policy :: "link \<Rightarrow> driver \<Rightarrow> string \<Rightarrow> relay_policy_row option rop" where
  "sql_load_relay_policy l dr relay_id =
     and_then (query_one l (\<lambda>db. sql_select [0, 2] (\<lambda>r. r ! 1 = SqlText relay_id) (t_relay_policies db)))
       (read_row (deserialize_relay_policy dr))"

text \<open>Only enabled policies are listed.\<close>

definition sql_list_relay_policies :: "link \<Rightarrow> driver \<Rightarrow> relay_policy_row list rop" where
  "sql_list_relay_policies l dr =
     and_then (query_all l (\<lambda>db. order_by 0
       (sql_select [0, 2] (\<lambda>r. r ! 3 = SqlInteger 1) (t_relay_policies db)))) (\<lambda>rows.
       lift_read (read_rows (deserialize_relay_policy dr) rows))"

section \<open>Bearers\<close>

definition sql_save_bearer :: "link \<Rightarrow> bearer_row \<Rightarrow> unit rop" where
  "sql_save_bearer l row =
     durable l (execute l (on_table t_relay_bearers (\<lambda>t db. db\<lparr>t_relay_bearers := t\<rparr>)
       (sql_replace relay_bearers_def (bind_bearer_row row))))"

definition sql_load_bearer :: "link \<Rightarrow> driver \<Rightarrow> string \<Rightarrow> bearer_row option rop" where
  "sql_load_bearer l dr token_id =
     and_then (query_one l (\<lambda>db. sql_select [0 ..< 12] (\<lambda>r. r ! 0 = SqlText token_id) (t_relay_bearers db)))
       (read_row (deserialize_bearer_row dr))"

text \<open>\<open>policy_id = (SELECT id ..)\<close>: no row of that name makes the comparison NULL, which selects nothing.\<close>

definition of_policy_named :: "string \<Rightarrow> sql_db \<Rightarrow> sql_row \<Rightarrow> bool" where
  "of_policy_named relay_id db r =
     (case policy_id_by_name relay_id db of [] \<Rightarrow> False | p # ps \<Rightarrow> r ! 1 = p ! 0)"

definition sql_list_bearers_for_relay :: "link \<Rightarrow> driver \<Rightarrow> string \<Rightarrow> bearer_row list rop" where
  "sql_list_bearers_for_relay l dr relay_id =
     and_then (query_all l (\<lambda>db. sql_select [0 ..< 12] (of_policy_named relay_id db) (t_relay_bearers db))) (\<lambda>rows.
       lift_read (read_rows (deserialize_bearer_row dr) rows))"

definition revoke_statement :: "string \<Rightarrow> sql_db \<Rightarrow> (u64 \<times> sql_db) option" where
  "revoke_statement relay_id db =
     (let (n, t) = sql_update (\<lambda>r. r ! 8 = SqlInteger 0 \<and> of_policy_named relay_id db r)
        (\<lambda>r. r[8 := SqlInteger 1]) (t_relay_bearers db) in
      Some (n, db\<lparr>t_relay_bearers := t\<rparr>))"

definition sql_revoke_bearers_for_relay :: "link \<Rightarrow> string \<Rightarrow> u32 rop" where
  "sql_revoke_bearers_for_relay l relay_id =
     and_then (durable l (execute l (revoke_statement relay_id))) (\<lambda>n. ok_act (ucast n))"

section \<open>Remote clients and certificates\<close>

definition sql_save_remote_client :: "link \<Rightarrow> remote_client \<Rightarrow> unit rop" where
  "sql_save_remote_client l row =
     durable l (execute l (on_table t_remote_clients (\<lambda>t db. db\<lparr>t_remote_clients := t\<rparr>)
       (sql_replace remote_clients_def (bind_remote_client row))))"

definition sql_load_remote_client :: "link \<Rightarrow> driver \<Rightarrow> string \<Rightarrow> remote_client option rop" where
  "sql_load_remote_client l dr client_id =
     and_then (query_one l (\<lambda>db. sql_select [0 ..< 6] (\<lambda>r. r ! 0 = SqlText client_id) (t_remote_clients db)))
       (read_row (deserialize_remote_client dr))"

definition sql_list_remote_clients :: "link \<Rightarrow> driver \<Rightarrow> remote_client list rop" where
  "sql_list_remote_clients l dr =
     and_then (query_all l (\<lambda>db. order_by 0 (sql_select [0 ..< 6] (\<lambda>_. True) (t_remote_clients db)))) (\<lambda>rows.
       lift_read (read_rows (deserialize_remote_client dr) rows))"

definition revoke_client_statement :: "string \<Rightarrow> i64 \<Rightarrow> sql_db \<Rightarrow> (u64 \<times> sql_db) option" where
  "revoke_client_statement client_id now_ms db =
     (let (n, t) = sql_update (\<lambda>r. r ! 0 = SqlText client_id)
        (\<lambda>r. r[2 := SqlInteger 0, 5 := SqlInteger now_ms]) (t_remote_clients db) in
      Some (n, db\<lparr>t_remote_clients := t\<rparr>))"

definition sql_revoke_remote_client :: "link \<Rightarrow> string \<Rightarrow> i64 \<Rightarrow> bool rop" where
  "sql_revoke_remote_client l client_id now_ms =
     and_then (durable l (execute l (revoke_client_statement client_id now_ms))) (\<lambda>n. ok_act (0 < n))"

definition sql_save_cert :: "link \<Rightarrow> cert_row \<Rightarrow> unit rop" where
  "sql_save_cert l row =
     durable l (execute l (on_table t_certs (\<lambda>t db. db\<lparr>t_certs := t\<rparr>)
       (sql_replace certs_def (bind_cert_row row))))"

definition sql_load_cert :: "link \<Rightarrow> driver \<Rightarrow> string \<Rightarrow> cert_row option rop" where
  "sql_load_cert l dr serial =
     and_then (query_one l (\<lambda>db. sql_select [0 ..< 4] (\<lambda>r. r ! 0 = SqlText serial) (t_certs db)))
       (read_row (deserialize_cert_row dr))"

definition sql_list_certs :: "link \<Rightarrow> driver \<Rightarrow> cert_row list rop" where
  "sql_list_certs l dr =
     and_then (query_all l (\<lambda>db. order_by 2 (sql_select [0 ..< 4] (\<lambda>_. True) (t_certs db)))) (\<lambda>rows.
       lift_read (read_rows (deserialize_cert_row dr) rows))"

section \<open>Opening the store and its health\<close>

text \<open>\<open>build\<close> after the connection is made: the DDL batch, without a retry.\<close>

definition provision :: "link \<Rightarrow> unit rop" where
  "provision l = request l ExecuteFailed (\<lambda>db. Some ((), execute_ddl db))"

record store_health =
  sh_durable :: bool
  sh_schema_version :: u32
  sh_profile :: string

definition is_healthy :: "store_health \<Rightarrow> bool" where
  "is_healthy h \<longleftrightarrow> sh_durable h \<and> 0 < sh_schema_version h"

text \<open>\<open>str::parse::<u32>\<close>.\<close>

definition parse_u32 :: "string \<Rightarrow> u32 option" where
  "parse_u32 s =
     (case s of
        [] \<Rightarrow> None
      | c # cs \<Rightarrow>
        (let digits = (if c = CHR ''+'' then cs else c # cs) in
         if digits = [] then None
         else case dec_value 0 digits of
           None \<Rightarrow> None
         | Some n \<Rightarrow> if n < 4294967296 then Some (word_of_nat n) else None))"

definition health :: "link \<Rightarrow> driver \<Rightarrow> store_health rop" where
  "health l dr =
     and_then (match_result (fsync_barrier l) (\<lambda>_. ok_act False) (\<lambda>_. ok_act True)) (\<lambda>is_durable.
     and_then (sql_get_meta l dr ''schema_version'') (\<lambda>v.
       ok_act \<lparr>sh_durable = is_durable,
         sh_schema_version = (case v of None \<Rightarrow> 0 | Some t \<Rightarrow> (case parse_u32 t of None \<Rightarrow> 0 | Some n \<Rightarrow> n)),
         sh_profile = (if lk_embedded l then ''embedded'' else ''remote'')\<rparr>))"

end
