(* ===== verification/LibSqlLink.thy ===== *)
theory LibSqlLink
  imports LibSqlStore
begin

text \<open>
  What the network may do to a method of the durable store. Every method has an effect on the
  database, as a function; over any link it either has that effect and returns its result, or it
  fails and the database is as before or as after the effect. The rules below carry this from the
  requests to the methods; the retry on an expired stream rests on the server not having executed
  the statement it reports as expired.
\<close>

section \<open>Effects\<close>

type_synonym 'a effect = "sql_db \<Rightarrow> (store_error + 'a) \<times> sql_db"

definition behaves :: "'a rop \<Rightarrow> 'a effect \<Rightarrow> bool" where
  "behaves m f \<longleftrightarrow>
     (\<forall>s. case m s of
        (Inr x, t) \<Rightarrow> f (rm_db s) = (Inr x, rm_db t)
      | (Inl e, t) \<Rightarrow> rm_db t = rm_db s \<or> rm_db t = snd (f (rm_db s)))"

lemma behavesI:
  assumes "\<And>s x t. m s = (Inr x, t) \<Longrightarrow> f (rm_db s) = (Inr x, rm_db t)"
    and "\<And>s e t. m s = (Inl e, t) \<Longrightarrow> rm_db t = rm_db s \<or> rm_db t = snd (f (rm_db s))"
  shows "behaves m f"
  using assms by (auto simp: behaves_def split: prod.split sum.split)

lemma behaves_okD: "behaves m f \<Longrightarrow> m s = (Inr x, t) \<Longrightarrow> f (rm_db s) = (Inr x, rm_db t)"
  by (auto simp: behaves_def dest: spec [of _ s])

lemma behaves_errD:
  "behaves m f \<Longrightarrow> m s = (Inl e, t) \<Longrightarrow> rm_db t = rm_db s \<or> rm_db t = snd (f (rm_db s))"
  by (auto simp: behaves_def dest: spec [of _ s])

named_theorems behaves_rules "the effect of a method from those of its requests"

text \<open>The server executes nothing it reports as expired.\<close>

definition expiry_clean :: "link \<Rightarrow> bool" where
  "expiry_clean l \<longleftrightarrow>
     (\<forall>n msg. lk_fault l n = Some (True, msg) \<longrightarrow>
        \<not> is_stream_expired (ExecuteFailed msg) \<and> \<not> is_stream_expired (TransactionFailed msg))"

section \<open>Requests\<close>

lemma rm_db_sent [simp]: "rm_db (sent s) = rm_db s"
  by (simp add: sent_def)

text \<open>The effect of a statement; the text of a constraint error is not part of it.\<close>

definition statement :: "(sql_db \<Rightarrow> ('a \<times> sql_db) option) \<Rightarrow> 'a effect" where
  "statement f db = (case f db of None \<Rightarrow> (Inl (ExecuteFailed []), db) | Some (x, db') \<Rightarrow> (Inr x, db'))"

lemma request_behaves: "behaves (request l wrap f) (statement f)"
  by (rule behavesI) (auto simp: request_def statement_def split: option.splits if_splits)

text \<open>A request that reports an expired stream left the database alone.\<close>

lemma request_expired:
  assumes "expiry_clean l" "wrap = ExecuteFailed \<or> wrap = TransactionFailed"
    and "request l wrap f s = (Inl e, t)" "is_stream_expired e"
  shows "rm_db t = rm_db s"
  using assms by (auto simp: request_def expiry_clean_def split: option.splits if_splits)

lemma reconnect_db: "rm_db (snd (reconnect l s)) = rm_db s"
  by (simp add: reconnect_def split: option.split)

lemma run_retry_behaves:
  assumes "behaves m f"
    and clean: "\<And>s e t. m s = (Inl e, t) \<Longrightarrow> is_stream_expired e \<Longrightarrow> rm_db t = rm_db s"
  shows "behaves (run_retry l m) f"
proof (rule behavesI)
  fix s :: remote and x :: 'a and t
  assume run: "run_retry l m s = (Inr x, t)"
  show "f (rm_db s) = (Inr x, rm_db t)"
  proof (cases "m s")
    case (Pair r u)
    show ?thesis
    proof (cases r)
      case (Inr y)
      then show ?thesis
        using run Pair behaves_okD [OF assms(1)] by (simp add: run_retry_def run_simps)
    next
      case (Inl e)
      then have exp: "is_stream_expired e"
        using run Pair by (auto simp: run_retry_def run_simps split: if_splits)
      then have "and_then (reconnect l) (\<lambda>_. m) u = (Inr x, t)"
        using run Pair Inl by (simp add: run_retry_def run_simps)
      then obtain v where "reconnect l u = (Inr (), v)" "m v = (Inr x, t)"
        by (elim and_then_InrE) auto
      moreover from this(1) have "rm_db v = rm_db u" by (metis reconnect_db snd_conv)
      moreover have "rm_db u = rm_db s" using clean Pair Inl exp by simp
      ultimately show ?thesis using behaves_okD [OF assms(1)] by metis
    qed
  qed
next
  fix s :: remote and e t
  assume run: "run_retry l m s = (Inl e, t)"
  obtain e0 u where m: "m s = (Inl e0, u)"
    using run by (cases "m s"; cases "fst (m s)") (auto simp: run_retry_def match_result_def run_simps)
  show "rm_db t = rm_db s \<or> rm_db t = snd (f (rm_db s))"
  proof (cases "is_stream_expired e0")
    case False
    then show ?thesis
      using run m behaves_errD [OF assms(1) m] by (simp add: run_retry_def run_simps)
  next
    case True
    then have u: "rm_db u = rm_db s" using clean m by simp
    have "and_then (reconnect l) (\<lambda>_. m) u = (Inl e, t)"
      using run m True by (simp add: run_retry_def run_simps)
    then consider e1 where "reconnect l u = (Inl e1, t)" | v where "reconnect l u = (Inr (), v)" "m v = (Inl e, t)"
      by (auto simp: and_then_def split: prod.splits sum.splits)
    then show ?thesis
    proof cases
      case 1
      then show ?thesis using u by (metis reconnect_db snd_conv)
    next
      case 2
      then have "rm_db v = rm_db s" using u by (metis reconnect_db snd_conv)
      then show ?thesis using behaves_errD [OF assms(1) 2(2)] by simp
    qed
  qed
qed

lemma execute_behaves [behaves_rules]:
  "expiry_clean l \<Longrightarrow> behaves (execute l f) (statement f)"
  unfolding execute_def
  by (rule run_retry_behaves [OF request_behaves]) (blast intro: request_expired)

text \<open>A method that only reads: its effect is a function of the database that leaves it alone.\<close>

definition reading_effect :: "(sql_db \<Rightarrow> store_error + 'a) \<Rightarrow> 'a effect" where
  "reading_effect q db = (q db, db)"

lemma query_db: "query l q s = (r, t) \<Longrightarrow> rm_db t = rm_db s \<and> (\<forall>rows. r = Inr rows \<longrightarrow> rows = q (rm_db s))"
  by (auto simp: query_def request_def split: option.splits if_splits)

lemma query_all_behaves [behaves_rules]: "behaves (query_all l q) (reading_effect (\<lambda>db. Inr (q db)))"
  unfolding query_all_def
  by (rule run_retry_behaves) (auto intro!: behavesI simp: reading_effect_def dest: query_db)

definition first_row :: "sql_table \<Rightarrow> sql_row option" where
  "first_row rows = (case rows of [] \<Rightarrow> None | r # rs \<Rightarrow> Some r)"

lemma query_one_behaves [behaves_rules]:
  "behaves (query_one l q) (reading_effect (\<lambda>db. Inr (first_row (q db))))"
proof -
  let ?m = "and_then (query l q) (\<lambda>rows. ok_act (case rows of [] \<Rightarrow> None | r # rs \<Rightarrow> Some r))"
  have run: "rm_db t = rm_db s \<and> (\<forall>x. r = Inr x \<longrightarrow> x = first_row (q (rm_db s)))" if "?m s = (r, t)" for s r t
    using that query_db [of l q s]
    by (auto simp: and_then_def run_simps first_row_def split: prod.splits sum.splits list.split)
  show ?thesis
    unfolding query_one_def
    by (rule run_retry_behaves) (auto intro!: behavesI simp: reading_effect_def dest: run)
qed

section \<open>Composition\<close>

lemma lift_read_behaves [behaves_rules]: "behaves (lift_read r) (reading_effect (\<lambda>_. r))"
  by (rule behavesI) (auto simp: lift_read_def reading_effect_def)

lemma ok_behaves [behaves_rules]: "behaves (ok_act x) (reading_effect (\<lambda>_. Inr x))"
  by (rule behavesI) (auto simp: run_simps reading_effect_def)

lemma fail_behaves [behaves_rules]: "behaves (fail_act e) (reading_effect (\<lambda>_. Inl e))"
  by (rule behavesI) (auto simp: run_simps reading_effect_def)

definition then_effect :: "(sql_db \<Rightarrow> store_error + 'a) \<Rightarrow> ('a \<Rightarrow> 'b effect) \<Rightarrow> 'b effect" where
  "then_effect q k db = (case q db of Inl e \<Rightarrow> (Inl e, db) | Inr x \<Rightarrow> k x db)"

lemma and_then_behaves [behaves_rules]:
  assumes "behaves m (reading_effect q)" "\<And>x. behaves (k x) (h x)"
  shows "behaves (and_then m k) (then_effect q h)"
proof (rule behavesI)
  fix s x t
  assume "and_then m k s = (Inr x, t)"
  then obtain y u where "m s = (Inr y, u)" "k y u = (Inr x, t)" by (elim and_then_InrE)
  with behaves_okD [OF assms(1)] behaves_okD [OF assms(2)] show "then_effect q h (rm_db s) = (Inr x, rm_db t)"
    by (fastforce simp: then_effect_def reading_effect_def)
next
  fix s e t
  assume run: "and_then m k s = (Inl e, t)"
  then consider "m s = (Inl e, t)" | y u where "m s = (Inr y, u)" "k y u = (Inl e, t)"
    by (auto simp: and_then_def split: prod.splits sum.splits)
  then show "rm_db t = rm_db s \<or> rm_db t = snd (then_effect q h (rm_db s))"
  proof cases
    case 1
    with behaves_errD [OF assms(1)] show ?thesis by (fastforce simp: reading_effect_def)
  next
    case 2
    from behaves_okD [OF assms(1) 2(1)] behaves_errD [OF assms(2) 2(2)] show ?thesis
      by (auto simp: then_effect_def reading_effect_def)
  qed
qed

definition read_option :: "(sql_row \<Rightarrow> store_error + 'a) \<Rightarrow> sql_row option \<Rightarrow> store_error + 'a option" where
  "read_option f r = (case r of None \<Rightarrow> Inr None | Some row \<Rightarrow> and_ok (f row) (\<lambda>x. Inr (Some x)))"

lemma read_row_behaves [behaves_rules]: "behaves (read_row f r) (reading_effect (\<lambda>_. read_option f r))"
  by (rule behavesI)
    (auto simp: read_row_def read_option_def lift_read_def reading_effect_def run_simps split: option.splits)

definition map_effect :: "('a \<Rightarrow> 'b) \<Rightarrow> 'a effect \<Rightarrow> 'b effect" where
  "map_effect h f db = (case f db of (Inl e, db') \<Rightarrow> (Inl e, db') | (Inr x, db') \<Rightarrow> (Inr (h x), db'))"

lemma map_behaves [behaves_rules]:
  assumes "behaves m f"
  shows "behaves (and_then m (\<lambda>x. ok_act (h x))) (map_effect h f)"
proof (rule behavesI)
  fix s x t
  assume "and_then m (\<lambda>x. ok_act (h x)) s = (Inr x, t)"
  then obtain y where "m s = (Inr y, t)" "x = h y" by (auto simp: run_simps elim: and_then_InrE)
  with behaves_okD [OF assms] show "map_effect h f (rm_db s) = (Inr x, rm_db t)"
    by (auto simp: map_effect_def)
next
  fix s e t
  assume "and_then m (\<lambda>x. ok_act (h x)) s = (Inl e, t)"
  then have "m s = (Inl e, t)"
    by (auto simp: and_then_def run_simps split: prod.splits sum.splits)
  with behaves_errD [OF assms] show "rm_db t = rm_db s \<or> rm_db t = snd (map_effect h f (rm_db s))"
    by (fastforce simp: map_effect_def split: prod.split sum.split)
qed

lemma fsync_barrier_db: "fsync_barrier l s = (r, t) \<Longrightarrow> rm_db t = rm_db s"
proof (cases r)
  case (Inl e)
  assume run: "fsync_barrier l s = (r, t)"
  have "behaves (fsync_barrier l) (then_effect (\<lambda>db. Inr (first_row [[SqlInteger 1]])) (\<lambda>_. reading_effect (\<lambda>_. Inr ())))"
    unfolding fsync_barrier_def by (intro behaves_rules)
  from behaves_errD [OF this] run Inl show ?thesis by (simp add: then_effect_def reading_effect_def)
next
  case (Inr x)
  assume run: "fsync_barrier l s = (r, t)"
  have "behaves (fsync_barrier l) (then_effect (\<lambda>db. Inr (first_row [[SqlInteger 1]])) (\<lambda>_. reading_effect (\<lambda>_. Inr ())))"
    unfolding fsync_barrier_def by (intro behaves_rules)
  from behaves_okD [OF this] run Inr show ?thesis by (simp add: then_effect_def reading_effect_def)
qed

lemma durable_behaves [behaves_rules]:
  assumes "behaves m f"
  shows "behaves (durable l m) f"
proof (rule behavesI)
  fix s x t
  assume "durable l m s = (Inr x, t)"
  then obtain u where "m s = (Inr x, u)" "fsync_barrier l u = (Inr (), t)"
    by (auto simp: durable_def run_simps elim!: and_then_InrE)
  then show "f (rm_db s) = (Inr x, rm_db t)"
    using behaves_okD [OF assms] fsync_barrier_db by metis
next
  fix s e t
  assume "durable l m s = (Inl e, t)"
  then consider "m s = (Inl e, t)" | x u where "m s = (Inr x, u)" "fsync_barrier l u = (Inl e, t)"
    by (auto simp: durable_def and_then_def run_simps split: prod.splits sum.splits)
  then show "rm_db t = rm_db s \<or> rm_db t = snd (f (rm_db s))"
  proof cases
    case 1
    then show ?thesis using behaves_errD [OF assms] by blast
  next
    case 2
    then show ?thesis using behaves_okD [OF assms 2(1)] fsync_barrier_db [OF 2(2)] by simp
  qed
qed

section \<open>Transactions\<close>

text \<open>Inside a transaction only the successful runs matter: a failure drops the copy.\<close>

definition succeeds_as :: "'a rop \<Rightarrow> 'a effect \<Rightarrow> bool" where
  "succeeds_as m f \<longleftrightarrow> (\<forall>s x t. m s = (Inr x, t) \<longrightarrow> f (rm_db s) = (Inr x, rm_db t))"

lemma behaves_succeeds: "behaves m f \<Longrightarrow> succeeds_as m f"
  by (simp add: succeeds_as_def behaves_okD)

definition bind_effect :: "'a effect \<Rightarrow> ('a \<Rightarrow> 'b effect) \<Rightarrow> 'b effect" where
  "bind_effect f k db = (case f db of (Inl e, db') \<Rightarrow> (Inl e, db') | (Inr x, db') \<Rightarrow> k x db')"

lemma and_then_succeeds:
  assumes "succeeds_as m f" "\<And>x. succeeds_as (k x) (h x)"
  shows "succeeds_as (and_then m k) (bind_effect f h)"
  using assms by (auto simp: succeeds_as_def bind_effect_def elim!: and_then_InrE)

lemma transaction_runs:
  assumes "succeeds_as body f" "transaction l body s = (r, t)"
  shows "case r of Inr x \<Rightarrow> f (rm_db s) = (Inr x, rm_db t)
     | Inl e \<Rightarrow> rm_db t = rm_db s
         \<or> (rm_db t = snd (f (rm_db s)) \<and> (expiry_clean l \<longrightarrow> \<not> is_stream_expired e))"
proof -
  obtain r0 u where start: "request l TransactionFailed (\<lambda>db. Some ((), db)) s = (r0, u)"
    by (metis surj_pair)
  then have u: "rm_db u = rm_db s" by (auto simp: request_def split: option.splits if_splits)
  obtain r1 v where body: "body u = (r1, v)" by (metis surj_pair)
  show ?thesis
  proof (cases "\<exists>e. r0 = Inl e \<or> r1 = Inl e")
    case True
    then show ?thesis
      using assms(2) start body u
      by (cases r0) (auto simp: transaction_def run_simps split: sum.split)
  next
    case False
    then obtain x where r1: "r1 = Inr x" and r0: "r0 = Inr ()"
      by (cases r0; cases r1) auto
    have f: "f (rm_db s) = (Inr x, rm_db v)"
      using assms(1) body r1 u unfolding succeeds_as_def by metis
    obtain r2 c where commit: "request l TransactionFailed (\<lambda>_. Some ((), rm_db v)) (v\<lparr>rm_db := rm_db u\<rparr>) = (r2, c)"
      by (metis surj_pair)
    have t: "t = c" and r: "r = (case r2 of Inl e \<Rightarrow> Inl e | Inr _ \<Rightarrow> Inr x)"
      using assms(2) start body r0 r1 commit
      by (auto simp: transaction_def run_simps run_and_then split: sum.splits)
    show ?thesis
    proof (cases r2)
      case (Inr y)
      then have "rm_db c = rm_db v"
        using commit by (auto simp: request_def split: option.splits if_splits)
      then show ?thesis using Inr f t r by simp
    next
      case (Inl e)
      then have "rm_db c = rm_db s \<or> (rm_db c = rm_db v \<and> (expiry_clean l \<longrightarrow> \<not> is_stream_expired e))"
        using commit u by (auto simp: request_def expiry_clean_def split: option.splits if_splits)
      then show ?thesis using Inl f t r by simp
    qed
  qed
qed

lemma transaction_behaves [behaves_rules]:
  assumes "expiry_clean l" "succeeds_as body f"
  shows "behaves (run_retry l (transaction l body)) f"
proof (rule run_retry_behaves)
  show "behaves (transaction l body) f"
    by (rule behavesI) (use transaction_runs [OF assms(2)] in fastforce)+
  show "rm_db t = rm_db s" if "transaction l body s = (Inl e, t)" "is_stream_expired e" for s e t
    using transaction_runs [OF assms(2) that(1)] that(2) assms(1) by auto
qed

end
