(* ===== verification/LibSqlRefine.thy ===== *)
theory LibSqlRefine
  imports LibSqlLink
begin

text \<open>
  The durable store implements the in-memory store. A database represents the data of the in-memory
  store when its tables hold the bound rows; every method the engine calls then returns what the
  in-memory method returns and leaves a database that represents its result, or fails with the
  database before or after the call, which is a fault of the medium as the engine's model has it.
\<close>

section \<open>The abstraction\<close>

definition meta_rows :: "(string \<times> string) list \<Rightarrow> sql_table" where
  "meta_rows kvs = map (\<lambda>(k, v). [SqlText k, SqlText v]) kvs"

definition bearer_storable :: "bearer_row \<Rightarrow> bool" where
  "bearer_storable b \<longleftrightarrow>
     (br_client_uid b \<noteq> None \<or> br_client_id b \<noteq> None) \<and> (\<forall>j\<in>set_option (br_dpop_jkt b). length j = 32)"

text \<open>One predicate per table, from its rows to the field of the in-memory store.\<close>

definition rep_meta :: "sql_table \<Rightarrow> (string \<rightharpoonup> string) \<Rightarrow> bool" where
  "rep_meta t m \<longleftrightarrow> (\<exists>kvs. t = meta_rows kvs \<and> m = map_of kvs)"

definition rep_counter :: "sql_table \<Rightarrow> i64 \<Rightarrow> bool" where
  "rep_counter t n \<longleftrightarrow> t = [[SqlInteger 1, SqlInteger n]]"

definition rep_secrets :: "sql_table \<Rightarrow> secret_row list \<Rightarrow> bool" where
  "rep_secrets t rows \<longleftrightarrow> t = map bind_secret_row rows"

definition rep_keyslots :: "driver \<Rightarrow> sql_table \<Rightarrow> keyslot list \<Rightarrow> bool" where
  "rep_keyslots dr t slots \<longleftrightarrow>
     (\<exists>ss. t = map (bind_keyslot dr) ss \<and> set ss = set slots \<and> distinct (map keyslot_key ss)
        \<and> list_all ks_enabled ss)
     \<and> sorted_wrt (\<lambda>a b. keyslot_key a < keyslot_key b) slots"

definition rep_audit :: "driver \<Rightarrow> sql_table \<Rightarrow> audit_record list \<Rightarrow> bool" where
  "rep_audit dr t rows \<longleftrightarrow>
     t = map (bind_audit_record dr) rows \<and> list_all (\<lambda>r. detail_faithful dr (ar_detail r)) rows
     \<and> map (\<lambda>r. sint (ar_seq r)) rows = map int [1 ..< Suc (length rows)]"

definition rep_policies :: "driver \<Rightarrow> sql_table \<Rightarrow> relay_policy_row list \<Rightarrow> bool" where
  "rep_policies dr t ps \<longleftrightarrow>
     t = map (\<lambda>r. bind_relay_policy dr (rr_id r) r) ps
     \<and> sorted_wrt (\<lambda>a b. sint (rr_id a) < sint (rr_id b)) ps \<and> list_all (\<lambda>r. 0 < sint (rr_id r)) ps
     \<and> distinct (map relay_key ps) \<and> list_all (\<lambda>r. rp_enabled (rr_policy r)) ps"

text \<open>The tables written by \<open>INSERT OR REPLACE\<close> hold the rows in another order.\<close>

definition rep_keyed :: "('v \<Rightarrow> sql_row) \<Rightarrow> ('v \<Rightarrow> 'k) \<Rightarrow> ('v \<Rightarrow> bool) \<Rightarrow> sql_table \<Rightarrow> 'v list \<Rightarrow> bool" where
  "rep_keyed b key good t vs \<longleftrightarrow>
     (\<exists>us. t = map b us \<and> set us = set vs \<and> distinct (map key us))
     \<and> distinct (map key vs) \<and> list_all good vs"

definition client_storable :: "remote_client \<Rightarrow> bool" where
  "client_storable c \<longleftrightarrow> length (rc_dpop_jkt c) = 32"

definition represents :: "driver \<Rightarrow> sql_db \<Rightarrow> in_mem_data \<Rightarrow> bool" where
  "represents dr db g \<longleftrightarrow>
     rep_meta (t_meta db) (sd_meta g)
     \<and> rep_counter (t_row_id_counter db) (sd_next_secret_row_id g)
     \<and> rep_secrets (t_secrets db) (sd_secrets g)
     \<and> rep_keyslots dr (t_keyslots db) (sd_keyslots g)
     \<and> rep_audit dr (t_audit_log db) (sd_audit g)
     \<and> rep_policies dr (t_relay_policies db) (sd_relays g)
     \<and> rep_keyed bind_bearer_row br_token_id bearer_storable (t_relay_bearers db) (sd_bearers g)
     \<and> rep_keyed bind_remote_client rc_client_id client_storable (t_remote_clients db) (sd_remote_clients g)
     \<and> rep_keyed bind_cert_row cw_serial (\<lambda>_. True) (t_certs db) (sd_certs g)"

definition simulates ::
  "driver \<Rightarrow> (in_mem_data \<Rightarrow> bool) \<Rightarrow> ('a \<Rightarrow> 'a \<Rightarrow> bool) \<Rightarrow> 'a rop \<Rightarrow> 'a store_op \<Rightarrow> bool" where
  "simulates dr pre same m n \<longleftrightarrow>
     (\<forall>s g. represents dr (rm_db s) g \<and> pre g \<longrightarrow>
        (case m s of
           (Inr x, t) \<Rightarrow> (\<exists>y. fst (n g) = Inr y \<and> same x y) \<and> represents dr (rm_db t) (snd (n g))
         | (Inl e, t) \<Rightarrow> represents dr (rm_db t) g \<or> represents dr (rm_db t) (snd (n g))))"

text \<open>A method simulates when its effect does: on every represented state, result and new state agree.\<close>

lemma simulatesI:
  assumes "behaves m f"
    and "\<And>db g. represents dr db g \<Longrightarrow> pre g \<Longrightarrow>
      represents dr (snd (f db)) (snd (n g)) \<and> (\<forall>x. fst (f db) = Inr x \<longrightarrow> (\<exists>y. fst (n g) = Inr y \<and> same x y))"
  shows "simulates dr pre same m n"
  unfolding simulates_def
proof (intro allI impI)
  fix s :: remote and g
  assume rep: "represents dr (rm_db s) g \<and> pre g"
  show "case m s of
      (Inr x, t) \<Rightarrow> (\<exists>y. fst (n g) = Inr y \<and> same x y) \<and> represents dr (rm_db t) (snd (n g))
    | (Inl e, t) \<Rightarrow> represents dr (rm_db t) g \<or> represents dr (rm_db t) (snd (n g))"
  proof (cases "m s")
    case (Pair r t)
    show ?thesis
    proof (cases r)
      case (Inr x)
      with behaves_okD [OF assms(1)] Pair have "f (rm_db s) = (Inr x, rm_db t)" by simp
      with assms(2) [of "rm_db s" g] rep Pair Inr show ?thesis by simp
    next
      case (Inl e)
      with behaves_errD [OF assms(1)] Pair have "rm_db t = rm_db s \<or> rm_db t = snd (f (rm_db s))" by simp
      with assms(2) [of "rm_db s" g] rep Pair Inl show ?thesis by auto
    qed
  qed
qed

text \<open>A read simulates when it finds what the in-memory read finds.\<close>

lemma simulates_readI:
  assumes "behaves m (then_effect (\<lambda>db. Inr (q db)) (\<lambda>x. reading_effect (\<lambda>_. f x)))"
    and "\<And>g. snd (n g) = g"
    and "\<And>db g x. represents dr db g \<Longrightarrow> pre g \<Longrightarrow> f (q db) = Inr x \<Longrightarrow> \<exists>y. fst (n g) = Inr y \<and> same x y"
  shows "simulates dr pre same m n"
  by (rule simulatesI [OF assms(1)]) (use assms(2,3) in \<open>auto simp: then_effect_def reading_effect_def\<close>)

section \<open>Tables of bound rows\<close>

lemma filter_map_bind: "filter p (map b vs) = map b (filter (\<lambda>v. p (b v)) vs)"
  by (simp add: filter_map comp_def)

lemma columns_all: "length r = n \<Longrightarrow> columns [0 ..< n] r = r"
  by (auto simp: columns_def map_nth)

lemma read_rows_map:
  "(\<And>v. v \<in> set vs \<Longrightarrow> f (b v) = Inr v) \<Longrightarrow> read_rows f (map b vs) = Inr vs"
  by (induction vs) auto

lemma first_row_map: "first_row (map b vs) = map_option b (case vs of [] \<Rightarrow> None | v # _ \<Rightarrow> Some v)"
  by (simp add: first_row_def split: list.split)

lemma filter_key:
  assumes "distinct (map key vs)" "distinct (map key ws)" "set vs = set ws"
  shows "filter (\<lambda>v. key v = k) vs = (case find_by key k ws of None \<Rightarrow> [] | Some v \<Rightarrow> [v])"
proof (cases "find_by key k ws")
  case None
  then have "k \<notin> key ` set vs" using assms(3) by (simp add: find_by_None_iff)
  then show ?thesis using None by (auto simp: filter_empty_conv)
next
  case (Some v)
  then have v: "key v = k" "v \<in> set vs" using assms(3) by (auto dest: find_by_SomeD)
  have "filter (\<lambda>w. key w = key v) vs = [v]"
    using assms(1) v(2) by (induction vs) (auto simp: filter_empty_conv image_iff)
  then show ?thesis using Some v(1) by simp
qed

lemma set_upsert:
  "distinct (map key ws) \<Longrightarrow> set (upsert key v ws) = insert v {w \<in> set ws. key w \<noteq> key v}"
  by (induction ws) (auto simp: image_iff)

lemma set_insert_by:
  "sorted_wrt (\<lambda>a b. key a < key b) ws \<Longrightarrow> set (insert_by key v ws) = insert v {w \<in> set ws. key w \<noteq> key v}"
  by (induction ws) auto

text \<open>\<open>INSERT OR REPLACE\<close> by key, against an upsert of the same rows in another order.\<close>

lemma replace_bound:
  assumes "\<And>u w. clashes d (b u) (b w) \<longleftrightarrow> key u = key w" "well_typed_row d (b v)"
  shows "sql_replace d (b v) (map b vs) = Some (map b (filter (\<lambda>w. key w \<noteq> key v) vs @ [v]))"
  using assms by (simp add: sql_replace_def filter_map_bind eq_commute [of "key v"])

lemma distinct_replace:
  "distinct (map key vs) \<Longrightarrow> distinct (map key (filter (\<lambda>w. key w \<noteq> key v) vs @ [v]))"
  by (auto simp: distinct_map_filter)

lemma sort_key_strict:
  fixes key :: "'v \<Rightarrow> int"
  assumes "set xs = set ys" "distinct (map key xs)" "sorted_wrt (\<lambda>a b. key a < key b) ys"
  shows "sort_key key xs = ys"
proof -
  have strict: "sorted_wrt (<) (map key ys)" using assms(3) by (simp add: sorted_wrt_map)
  then have ys: "distinct (map key ys)" "sorted (map key ys)"
    by (simp_all add: strict_sorted_iff)
  have "map key (sort_key key xs) = map key ys"
    by (rule sorted_distinct_set_unique) (use assms ys in \<open>simp_all add: distinct_map\<close>)
  moreover have "inj_on key (set (sort_key key xs) \<union> set ys)"
    using assms(1,2) by (simp add: distinct_map)
  ultimately show ?thesis by (rule map_inj_on)
qed

section \<open>Reading the abstraction\<close>

lemma bind_lengths [simp]:
  "length (bind_secret_row r) = 10" "length (bind_bearer_row b) = 12" "length (bind_audit_record dr a) = 9"
  "length (bind_remote_client c) = 6" "length (bind_cert_row x) = 4" "length (bind_keyslot dr s) = 10"
  by (simp_all add: bind_secret_row_def bind_bearer_row_def bind_audit_record_def bind_remote_client_def
      bind_cert_row_def bind_keyslot_def)

lemma bind_keys [simp]:
  "bind_secret_row r ! 0 = SqlInteger (sr_row_id r)" "bind_secret_row r ! Suc 0 = SqlText (sr_name r)"
  "bind_secret_row r ! 2 = SqlInteger (ucast (sr_version r))"
  "bind_bearer_row b ! 0 = SqlText (br_token_id b)" "bind_bearer_row b ! Suc 0 = SqlInteger (br_policy_id b)"
  "bind_audit_record dr a ! 0 = SqlInteger (ar_seq a)"
  "bind_remote_client c ! 0 = SqlText (rc_client_id c)" "bind_cert_row x ! 0 = SqlText (cw_serial x)"
  "bind_keyslot dr s ! 0 = SqlInteger (ks_id s)" "bind_keyslot dr s ! 9 = sql_bool (ks_enabled s)"
  "bind_relay_policy dr i p ! 0 = SqlInteger i" "bind_relay_policy dr i p ! Suc 0 = SqlText (relay_key p)"
  "bind_relay_policy dr i p ! 3 = sql_bool (rp_enabled (rr_policy p))"
  by (simp_all add: bind_secret_row_def bind_bearer_row_def bind_audit_record_def bind_remote_client_def
      bind_cert_row_def bind_keyslot_def bind_relay_policy_def relay_key_def)

section \<open>Meta values\<close>

lemma select_meta:
  "rep_meta t m \<Longrightarrow>
   first_row (sql_select [1] (\<lambda>r. r ! 0 = SqlText k) t) = map_option (\<lambda>v. [SqlText v]) (m k)"
proof -
  have "first_row (sql_select [1] (\<lambda>r. r ! 0 = SqlText k) (meta_rows kvs)) = map_option (\<lambda>v. [SqlText v]) (map_of kvs k)"
    for kvs by (induction kvs) (auto simp: sql_select_def meta_rows_def first_row_def columns_def)
  then show "rep_meta t m \<Longrightarrow> ?thesis" by (auto simp: rep_meta_def)
qed

lemma get_meta_simulates: "simulates dr (\<lambda>_. True) (=) (sql_get_meta l dr k) (get_meta k)"
proof (rule simulates_readI)
  show "behaves (sql_get_meta l dr k) (then_effect
      (\<lambda>db. Inr (first_row (sql_select [1] (\<lambda>r. r ! 0 = SqlText k) (t_meta db))))
      (\<lambda>x. reading_effect (\<lambda>_. read_option (\<lambda>r. get_string dr r 0 ''meta.v'') x)))"
    unfolding sql_get_meta_def by (intro behaves_rules)
  show "\<exists>y. fst (get_meta k g) = Inr y \<and> x = y"
    if "represents dr db g"
      "read_option (\<lambda>r. get_string dr r 0 ''meta.v'')
         (first_row (sql_select [1] (\<lambda>r. r ! 0 = SqlText k) (t_meta db))) = Inr x" for db g x
  proof -
    have m: "rep_meta (t_meta db) (sd_meta g)" using that(1) by (simp add: represents_def)
    show ?thesis
      using that(2) unfolding select_meta [OF m]
      by (cases "sd_meta g k") (auto simp: store_ops reading read_option_def)
  qed
qed (simp add: store_ops)

text \<open>A single durable write simulates when its statement takes effect on every represented database.\<close>

lemma simulates_writeI:
  assumes "expiry_clean l"
    and "\<And>db g. represents dr db g \<Longrightarrow> pre g \<Longrightarrow>
      \<exists>x db'. f db = Some (x, db') \<and> represents dr db' (snd (n g)) \<and> fst (n g) = Inr x"
  shows "simulates dr pre (=) (durable l (execute l f)) n"
proof (rule simulatesI)
  show "behaves (durable l (execute l f)) (statement f)"
    using assms(1) by (intro behaves_rules)
qed (use assms(2) in \<open>force simp: statement_def\<close>)

lemma put_meta_simulates:
  "expiry_clean l \<Longrightarrow> simulates dr (\<lambda>_. True) (=) (sql_put_meta l k v) (put_meta k v)"
  unfolding sql_put_meta_def
proof (rule simulates_writeI)
  fix db g
  assume rep: "represents dr db g"
  then obtain kvs where kvs: "t_meta db = meta_rows kvs" "sd_meta g = map_of kvs"
    by (auto simp: represents_def rep_meta_def)
  let ?kvs = "filter (\<lambda>(k', _). k' \<noteq> k) kvs @ [(k, v)]"
  have "filter (\<lambda>r'. \<not> clashes meta_def [SqlText k, SqlText v] r') (meta_rows kvs) = meta_rows (filter (\<lambda>(k', _). k' \<noteq> k) kvs)"
    by (induction kvs) (auto simp: meta_rows_def clashes_def meta_def_def columns_def)
  then have "sql_replace meta_def [SqlText k, SqlText v] (t_meta db) = Some (meta_rows ?kvs)"
    by (simp add: sql_replace_def well_typed_row_def meta_def_def kvs meta_rows_def)
  moreover have "map_of ?kvs = (map_of kvs)(k \<mapsto> v)"
    by (rule ext) (induction kvs, auto)
  ultimately show "\<exists>x db'. on_table t_meta (\<lambda>t db. db\<lparr>t_meta := t\<rparr>)
        (sql_replace meta_def [SqlText k, SqlText v]) db = Some (x, db')
      \<and> represents dr db' (snd (put_meta k v g)) \<and> fst (put_meta k v g) = Inr x"
    using rep by (auto simp: on_table_def represents_def store_ops rep_meta_def kvs)
qed

section \<open>Secrets\<close>

text \<open>The statements of \<open>put_secret\<close> on the secrets table.\<close>

lemma sint_ucast_u32: "sint (ucast (a :: u32) :: i64) = uint a"
proof -
  have "signed_take_bit 63 (uint a) = uint a"
    by (rule signed_take_bit_int_eq_self)
      (use uint_lt2p [of a] in \<open>simp_all add: order_trans [OF _ unsigned_greater_eq]\<close>)
  then show ?thesis by (simp add: signed_ucast_eq)
qed

lemma max_integer_versions:
  "max_integer (map (\<lambda>v. SqlInteger (ucast (v :: u32))) vs)
     = SqlInteger (ucast (case max_version vs of None \<Rightarrow> 0 | Some m \<Rightarrow> m))"
proof (induction vs)
  case (Cons v vs)
  have le: "SqlInteger (ucast a) \<le> SqlInteger (ucast b) \<longleftrightarrow> a \<le> b" for a b :: u32
    by (simp add: sint_ucast_u32 word_le_def)
  show ?case
  proof (cases "max_version vs")
    case None
    then have "vs = []" by (cases vs) (auto split: option.splits)
    then show ?thesis by simp
  next
    case (Some m)
    then have "vs \<noteq> []" by auto
    then show ?thesis using Cons.IH Some le by (auto simp: max_def)
  qed
qed simp

lemma max_version_query_rep:
  "rep_secrets (t_secrets db) (sd_secrets g) \<Longrightarrow>
   max_version_query name db
     = [[SqlInteger (ucast (case max_version (versions_of name g) of None \<Rightarrow> 0 | Some m \<Rightarrow> m))]]"
  using max_integer_versions [of "versions_of name g"]
  by (simp add: max_version_query_def rep_secrets_def versions_of_def filter_map_bind comp_def)

lemma max_secret_version_simulates:
  "simulates dr (\<lambda>_. True) (=) (sql_max_secret_version l dr name) (max_secret_version name)"
proof (rule simulates_readI)
  show "behaves (sql_max_secret_version l dr name) (then_effect
      (\<lambda>db. Inr (first_row (max_version_query name db)))
      (\<lambda>r. reading_effect (\<lambda>_. case r of
           Some row \<Rightarrow> and_ok (get_i64 dr row 0 ''max_version'') (\<lambda>m. Inr (ucast m))
         | None \<Rightarrow> Inr 0)))"
    unfolding sql_max_secret_version_def
    by (intro and_then_behaves query_one_behaves) (auto split: option.split intro: behaves_rules)
qed (auto simp: store_ops represents_def max_version_query_rep first_row_def reading)

lemma expected_version_top:
  "ucast (ucast (case max_version (versions_of name g) of None \<Rightarrow> 0 | Some m \<Rightarrow> m) :: i64) + (1 :: u32)
     = expected_version name g"
  "(case max_version (versions_of name g) of None \<Rightarrow> 0 | Some m \<Rightarrow> m) + 1 = expected_version name g"
  by (simp_all add: expected_version_def split: option.split)

lemma expected_version_fresh:
  assumes "secrets_ok g" "r \<in> set (sd_secrets g)" "sr_name r = name"
  shows "sr_version r \<noteq> expected_version name g"
proof -
  let ?h = "history name g"
  have c: "counted ?h" using assms(1) by (rule secrets_ok_counted)
  from assms(2,3) have "r \<in> set ?h" by (simp add: history_def)
  then obtain i where i: "i < length ?h" "r = ?h ! i" by (auto simp: in_set_conv_nth)
  have "unat (sr_version r) = Suc i" using counted_nth [OF c i(1)] i(2) by simp
  moreover have "unat (expected_version name g) = (length ?h + 1) mod 4294967296"
    by (simp add: expected_version_counted [OF c] unat_word_ariths unat_of_nat take_bit_eq_mod mod_simps)
  moreover have "(length ?h + 1) mod 4294967296 \<noteq> Suc i"
  proof (cases "length ?h = 4294967295")
    case False
    then show ?thesis using i(1) counted_length [OF c] by simp
  qed simp
  ultimately show ?thesis by metis
qed

lemma insert_secret_rep:
  assumes "represents dr db g" "secrets_ok g" "put_secret row g = (Inr i, g')"
  shows "\<exists>db'. insert_secret row db = Some ((), db') \<and> represents dr db' g'"
proof -
  have t: "t_secrets db = map bind_secret_row (sd_secrets g)"
    using assms(1) by (simp add: represents_def rep_secrets_def)
  have fresh: "\<forall>r\<in>set (sd_secrets g). sr_row_id r \<noteq> sr_row_id row"
    and ver: "sr_version row = expected_version (sr_name row) g"
    and g': "g' = g\<lparr>sd_secrets := sd_secrets g @ [row]\<rparr>"
    using assms(3) by (auto simp: put_secret_def split: if_splits)
  have inj: "(ucast a :: i64) = ucast b \<longleftrightarrow> a = b" for a b :: u32
    by (metis ucast_u32_i64)
  have "\<not> clashes secrets_def (bind_secret_row row) (bind_secret_row r)" if "r \<in> set (sd_secrets g)" for r
    using fresh ver expected_version_fresh [OF assms(2) that] that
    by (auto simp: clashes_def secrets_def_def columns_def inj)
  then have "\<not> list_ex (clashes secrets_def (bind_secret_row row)) (t_secrets db)"
    by (auto simp: t list_ex_iff)
  moreover have "well_typed_row secrets_def (bind_secret_row row)"
    by (simp add: well_typed_row_def secrets_def_def bind_secret_row_def sql_bool_def upt_rec [of _ 10])
  ultimately show ?thesis
    using assms(1) by (simp add: insert_secret_def on_table_def sql_insert_def g' represents_def rep_secrets_def)
qed

text \<open>
  The effect of \<open>put_secret\<close>: its three checks read the database, then the row goes in. Which error a
  failed check returns is not part of the effect.
\<close>

definition next_id_of :: "driver \<Rightarrow> sql_db \<Rightarrow> store_error + i64" where
  "next_id_of dr db =
     (case sql_select [1] (\<lambda>r. r ! 0 = SqlInteger 1) (t_row_id_counter db) of
        [] \<Rightarrow> Inl (QueryFailed ''row_id_counter row missing'')
      | r # rs \<Rightarrow> get_i64 dr r 0 ''next_id'')"

definition id_taken :: "i64 \<Rightarrow> sql_db \<Rightarrow> bool" where
  "id_taken i db \<longleftrightarrow> list_ex (\<lambda>r. r ! 0 = SqlInteger i) (t_secrets db)"

definition top_version :: "driver \<Rightarrow> string \<Rightarrow> sql_db \<Rightarrow> store_error + i64" where
  "top_version dr name db =
     (case max_version_query name db of
        [] \<Rightarrow> Inl (QueryFailed ''MAX(version) returned no row'')
      | r # rs \<Rightarrow> get_i64 dr r 0 ''max_version'')"

definition check_failed :: "'a effect" where
  "check_failed = reading_effect (\<lambda>_. Inl (Contract []))"

definition put_effect :: "driver \<Rightarrow> secret_row \<Rightarrow> i64 effect" where
  "put_effect dr row =
     then_effect (next_id_of dr) (\<lambda>next_id.
       if i64_le (sr_row_id row) 0 \<or> i64_lt next_id (sr_row_id row) then check_failed
       else then_effect (\<lambda>db. Inr (id_taken (sr_row_id row) db)) (\<lambda>collides.
         if collides then check_failed
         else then_effect (top_version dr (sr_name row)) (\<lambda>top.
           if sr_version row \<noteq> ucast top + 1 then check_failed
           else map_effect (\<lambda>_. sr_row_id row) (statement (insert_secret row)))))"

lemma check_fails: "behaves (fail_act e) check_failed"
  by (rule behavesI) (auto simp: run_simps)

lemma if_behaves: "behaves m f \<Longrightarrow> behaves m' f' \<Longrightarrow> behaves (if c then m else m') (if c then f else f')"
  by simp

lemma query_then:
  assumes "\<And>rows. k rows = lift_read (h rows)"
  shows "behaves (and_then (query l q) k) (reading_effect (\<lambda>db. h (q db)))"
proof (rule behavesI)
  fix s x t
  assume "and_then (query l q) k s = (Inr x, t)"
  then show "reading_effect (\<lambda>db. h (q db)) (rm_db s) = (Inr x, rm_db t)"
    using query_db [of l q s] by (auto simp: assms lift_read_def reading_effect_def elim!: and_then_InrE)
next
  fix s e t
  assume run: "and_then (query l q) k s = (Inl e, t)"
  then show "rm_db t = rm_db s \<or> rm_db t = snd (reading_effect (\<lambda>db. h (q db)) (rm_db s))"
    using query_db [of l q s]
    by (auto simp: assms lift_read_def and_then_def split: prod.splits sum.splits)
qed

lemma lift_read_simps: "fail_act e = lift_read (Inl e)" "ok_act x = lift_read (Inr x)"
  by (simp_all add: fail_act_def ok_act_def lift_read_def)

lemma checks_behave:
  "behaves (next_row_id l dr) (reading_effect (next_id_of dr))"
  "behaves (row_id_taken l i) (reading_effect (\<lambda>db. Inr (id_taken i db)))"
  "behaves (highest_version l dr name) (reading_effect (top_version dr name))"
proof -
  show "behaves (next_row_id l dr) (reading_effect (next_id_of dr))"
    unfolding next_row_id_def next_id_of_def
    by (rule query_then) (auto simp: lift_read_simps split: list.split)
  have taken: "map (\<lambda>_. [SqlInteger 1]) (filter (\<lambda>r. r ! 0 = SqlInteger i) (t_secrets db)) \<noteq> []
      \<longleftrightarrow> id_taken i db" for db
    by (auto simp: id_taken_def list_ex_iff filter_empty_conv)
  have "behaves (row_id_taken l i) (reading_effect (\<lambda>db.
      Inr (map (\<lambda>_. [SqlInteger 1]) (filter (\<lambda>r. r ! 0 = SqlInteger i) (t_secrets db)) \<noteq> [])))"
    unfolding row_id_taken_def by (rule query_then) (simp add: lift_read_simps)
  then show "behaves (row_id_taken l i) (reading_effect (\<lambda>db. Inr (id_taken i db)))"
    by (simp only: taken)
  show "behaves (highest_version l dr name) (reading_effect (top_version dr name))"
    unfolding highest_version_def top_version_def
    by (rule query_then) (auto simp: lift_read_simps split: list.split)
qed

lemma put_secret_body_behaves: "behaves (put_secret_body l dr row) (put_effect dr row)"
  unfolding put_secret_body_def insert_unless_taken_def insert_next_version_def put_effect_def Let_def
  by (intro and_then_behaves map_behaves if_behaves checks_behave check_fails request_behaves)

lemma counter_rep: "rep_counter (t_row_id_counter db) n \<Longrightarrow> next_id_of dr db = Inr n"
  by (simp add: rep_counter_def next_id_of_def sql_select_def columns_def reading)

lemma put_secret_simulates:
  assumes "expiry_clean l"
  shows "simulates dr secrets_ok (=) (sql_put_secret l dr row) (put_secret row)"
proof (rule simulatesI)
  show "behaves (sql_put_secret l dr row) (put_effect dr row)"
    unfolding sql_put_secret_def
    by (intro durable_behaves transaction_behaves assms behaves_succeeds put_secret_body_behaves)
  fix db g
  assume rep: "represents dr db g" and ok: "secrets_ok g"
  have sec: "rep_secrets (t_secrets db) (sd_secrets g)" and nid: "next_id_of dr db = Inr (sd_next_secret_row_id g)"
    using rep by (simp_all add: represents_def counter_rep)
  have taken: "id_taken (sr_row_id row) db \<longleftrightarrow> (\<exists>r\<in>set (sd_secrets g). sr_row_id r = sr_row_id row)"
    using sec by (auto simp: id_taken_def rep_secrets_def list_ex_iff)
  have top: "top_version dr (sr_name row) db
      = Inr (ucast (case max_version (versions_of (sr_name row) g) of None \<Rightarrow> 0 | Some m \<Rightarrow> m))"
    using sec by (simp add: top_version_def max_version_query_rep reading)
  show "represents dr (snd (put_effect dr row db)) (snd (put_secret row g))
    \<and> (\<forall>x. fst (put_effect dr row db) = Inr x \<longrightarrow> (\<exists>y. fst (put_secret row g) = Inr y \<and> x = y))"
  proof (cases "fst (put_secret row g)")
    case (Inl e)
    then have "snd (put_secret row g) = g" by (auto simp: put_secret_def split: if_splits)
    moreover have "put_effect dr row db = (Inl (Contract []), db)"
      using Inl by (auto simp: put_effect_def then_effect_def nid taken top expected_version_top
          check_failed_def reading_effect_def put_secret_def split: if_splits)
    ultimately show ?thesis using rep by simp
  next
    case (Inr i)
    then have i: "put_secret row g = (Inr i, snd (put_secret row g))" by (simp add: prod_eq_iff)
    from insert_secret_rep [OF rep ok i] obtain db' where
      ins: "insert_secret row db = Some ((), db')" "represents dr db' (snd (put_secret row g))" by blast
    have "put_effect dr row db = (Inr (sr_row_id row), db')"
      using Inr by (auto simp: put_effect_def then_effect_def nid taken top expected_version_top
          map_effect_def statement_def ins(1) put_secret_def split: if_splits)
    then show ?thesis using ins(2) Inr by (auto simp: put_secret_def split: if_splits)
  qed
qed

lemma reserve_simulates:
  assumes "expiry_clean l"
  shows "simulates dr (\<lambda>_. True) (=) (sql_reserve_secret_row_id l dr) reserve_secret_row_id"
proof (rule simulatesI)
  let ?f = "bind_effect (statement (\<lambda>db. Some ((), bump_counter db))) (\<lambda>_. reading_effect (next_id_of dr))"
  show "behaves (sql_reserve_secret_row_id l dr) ?f"
    unfolding sql_reserve_secret_row_id_def
    by (intro transaction_behaves assms and_then_succeeds behaves_succeeds request_behaves checks_behave)
  fix db g
  assume rep: "represents dr db g"
  have "bump_counter db = db\<lparr>t_row_id_counter := [[SqlInteger 1, SqlInteger (sd_next_secret_row_id g + 1)]]\<rparr>"
    using rep by (simp add: represents_def rep_counter_def bump_counter_def sql_update_def)
  with rep show "represents dr (snd (?f db)) (snd (reserve_secret_row_id g))
    \<and> (\<forall>x. fst (?f db) = Inr x \<longrightarrow> (\<exists>y. fst (reserve_secret_row_id g) = Inr y \<and> x = y))"
    by (simp add: bind_effect_def statement_def reading_effect_def next_id_of_def sql_select_def
        columns_def reading reserve_secret_row_id_def Let_def represents_def rep_counter_def)
qed

lemma limit_last: "first_row (sql_limit 1 (rev t)) = (if t = [] then None else Some (last t))"
  by (cases t rule: rev_cases) (simp_all add: sql_limit_def first_row_def)

lemma get_secret_latest_simulates:
  "simulates dr secrets_ok (=) (sql_get_secret_latest l dr name) (get_secret_latest name)"
proof (rule simulates_readI)
  show "behaves (sql_get_secret_latest l dr name) (then_effect
      (\<lambda>db. Inr (first_row (sql_limit 1 (order_by_desc 2
         (sql_select [0 ..< 10] (\<lambda>r. r ! 1 = SqlText name) (t_secrets db))))))
      (\<lambda>x. reading_effect (\<lambda>_. read_option (deserialize_secret_row dr) x)))"
    unfolding sql_get_secret_latest_def by (intro behaves_rules)
  fix db g x
  assume rep: "represents dr db g" and ok: "secrets_ok g"
    and read: "read_option (deserialize_secret_row dr) (first_row (sql_limit 1 (order_by_desc 2
         (sql_select [0 ..< 10] (\<lambda>r. r ! 1 = SqlText name) (t_secrets db))))) = Inr x"
  let ?h = "history name g"
  have c: "counted ?h" using ok by (rule secrets_ok_counted)
  have sel: "sql_select [0 ..< 10] (\<lambda>r. r ! 1 = SqlText name) (t_secrets db) = map bind_secret_row ?h"
    using rep by (simp add: represents_def rep_secrets_def sql_select_def filter_map_bind comp_def
        columns_all history_def)
  have "map (\<lambda>r. uint (sr_version r)) ?h = map int (map (\<lambda>r. unat (sr_version r)) ?h)" by simp
  also have "\<dots> = map int [1 ..< Suc (length ?h)]" using c by (simp only: counted_def)
  finally have v: "map (\<lambda>r. uint (sr_version r)) ?h = map int [1 ..< Suc (length ?h)]" .
  have "sorted (map (\<lambda>r. r ! 2) (map bind_secret_row ?h))"
    using arg_cong [OF v, of sorted]
    by (simp add: sorted_map sint_ucast_u32 comp_def sorted_wrt_map del: upt_Suc)
  then have "order_by_desc 2 (map bind_secret_row ?h) = rev (map bind_secret_row ?h)"
    by (simp add: order_by_desc_def order_by_def sorted_sort_id sort_key_id_if_sorted)
  then have "first_row (sql_limit 1 (order_by_desc 2 (map bind_secret_row ?h)))
      = (if ?h = [] then None else Some (bind_secret_row (last ?h)))"
    by (simp add: limit_last last_map)
  with read [unfolded sel] have "x = (if ?h = [] then None else Some (last ?h))"
    by (auto simp: read_option_def secret_codec.unbind_bind split: if_splits)
  then show "\<exists>y. fst (get_secret_latest name g) = Inr y \<and> x = y"
    using last_max_counted [OF c] by (simp add: store_ops history_def)
qed (simp add: store_ops)

end
