(* ===== verification/LibSqlTables.thy ===== *)
theory LibSqlTables
  imports LibSqlRefine "HOL-Library.Multiset"
begin

text \<open>
  The durable store implements the in-memory store, table by table: keyslots, the audit chain, relay
  policies, bearers and remote clients.
\<close>

section \<open>Tables keyed by their first column\<close>

text \<open>Saving a row by \<open>INSERT OR REPLACE\<close> against an upsert.\<close>

lemma keyed_replace:
  assumes "rep_keyed b key good t vs" "good v"
    and "\<And>u w. clashes d (b u) (b w) \<longleftrightarrow> key u = key w" "well_typed_row d (b v)"
  shows "\<exists>t'. sql_replace d (b v) t = Some t' \<and> rep_keyed b key good t' (upsert key v vs)"
proof -
  obtain us where us: "t = map b us" "set us = set vs" "distinct (map key us)"
    using assms(1) by (auto simp: rep_keyed_def)
  have vs: "distinct (map key vs)" "list_all good vs" using assms(1) by (auto simp: rep_keyed_def)
  let ?us = "filter (\<lambda>w. key w \<noteq> key v) us @ [v]"
  have "sql_replace d (b v) t = Some (map b ?us)"
    unfolding us(1) by (rule replace_bound) (use assms(3,4) in simp_all)
  moreover have "rep_keyed b key good (map b ?us) (upsert key v vs)"
    unfolding rep_keyed_def
  proof (intro conjI exI [of _ ?us])
    show "set ?us = set (upsert key v vs)" using us(2) by (auto simp: set_upsert [OF vs(1)])
    show "distinct (map key ?us)" by (rule distinct_replace [OF us(3)])
    show "distinct (map key (upsert key v vs))" using vs(1) by (rule distinct_upsert)
    show "list_all good (upsert key v vs)"
      using vs(2) assms(2) by (auto simp: list_all_iff set_upsert [OF vs(1)])
  qed simp
  ultimately show ?thesis by blast
qed

text \<open>Looking a row up by its key.\<close>

lemma keyed_select:
  assumes "rep_keyed b key good t vs"
    and "\<And>v. length (b v) = n" "\<And>v. p (b v) \<longleftrightarrow> key v = k"
  shows "first_row (sql_select [0 ..< n] p t) = map_option b (find_by key k vs)"
proof -
  obtain us where us: "t = map b us" "set us = set vs" "distinct (map key us)"
    using assms(1) by (auto simp: rep_keyed_def)
  have vs: "distinct (map key vs)" using assms(1) by (auto simp: rep_keyed_def)
  have "sql_select [0 ..< n] p t = map b (filter (\<lambda>v. key v = k) us)"
    by (simp add: us(1) sql_select_def filter_map_bind comp_def assms(2,3) columns_all)
  also have "filter (\<lambda>v. key v = k) us = (case find_by key k vs of None \<Rightarrow> [] | Some v \<Rightarrow> [v])"
    by (rule filter_key [OF us(3) vs us(2)])
  finally show ?thesis by (simp add: first_row_def split: option.split)
qed

text \<open>What a lookup reads is the row the in-memory lookup finds.\<close>

lemma read_found:
  assumes "read_option f (map_option b x) = Inr y" "\<And>v. x = Some v \<Longrightarrow> f (b v) = Inr v"
  shows "y = x"
  using assms by (cases x) (auto simp: read_option_def)

lemma keyed_good: "rep_keyed b key good t vs \<Longrightarrow> find_by key k vs = Some v \<Longrightarrow> good v"
  by (auto simp: rep_keyed_def list_all_iff dest: find_by_SomeD)

section \<open>Bearers\<close>

lemma bearer_clash: "clashes relay_bearers_def (bind_bearer_row u) (bind_bearer_row w) \<longleftrightarrow> br_token_id u = br_token_id w"
  by (simp add: clashes_def relay_bearers_def_def columns_def)

lemma bearer_typed: "bearer_storable b \<Longrightarrow> well_typed_row relay_bearers_def (bind_bearer_row b)"
  by (auto simp: well_typed_row_def relay_bearers_def_def bind_bearer_row_def bearer_storable_def sql_opt_def
      split: option.splits)

lemma save_bearer_simulates:
  assumes "expiry_clean l" "bearer_storable b"
  shows "simulates dr (\<lambda>_. True) (=) (sql_save_bearer l b) (save_bearer b)"
  unfolding sql_save_bearer_def
proof (rule simulates_writeI [OF assms(1)])
  fix db g
  assume rep: "represents dr db g"
  then have "rep_keyed bind_bearer_row br_token_id bearer_storable (t_relay_bearers db) (sd_bearers g)"
    by (simp add: represents_def)
  from keyed_replace [OF this assms(2) bearer_clash bearer_typed [OF assms(2)]]
  obtain t' where t': "sql_replace relay_bearers_def (bind_bearer_row b) (t_relay_bearers db) = Some t'"
    "rep_keyed bind_bearer_row br_token_id bearer_storable t' (upsert br_token_id b (sd_bearers g))"
    by blast
  then show "\<exists>x db'. on_table t_relay_bearers (\<lambda>t db. db\<lparr>t_relay_bearers := t\<rparr>)
        (sql_replace relay_bearers_def (bind_bearer_row b)) db = Some (x, db')
      \<and> represents dr db' (snd (save_bearer b g)) \<and> fst (save_bearer b g) = Inr x"
    using rep by (simp add: on_table_def store_ops represents_def)
qed

lemma load_bearer_simulates: "simulates dr (\<lambda>_. True) (=) (sql_load_bearer l dr k) (load_bearer k)"
proof (rule simulates_readI)
  show "behaves (sql_load_bearer l dr k) (then_effect
      (\<lambda>db. Inr (first_row (sql_select [0 ..< 12] (\<lambda>r. r ! 0 = SqlText k) (t_relay_bearers db))))
      (\<lambda>x. reading_effect (\<lambda>_. read_option (deserialize_bearer_row dr) x)))"
    unfolding sql_load_bearer_def by (intro behaves_rules)
  fix db g x
  assume "represents dr db g"
    and read: "read_option (deserialize_bearer_row dr)
      (first_row (sql_select [0 ..< 12] (\<lambda>r. r ! 0 = SqlText k) (t_relay_bearers db))) = Inr x"
  then have t: "rep_keyed bind_bearer_row br_token_id bearer_storable (t_relay_bearers db) (sd_bearers g)"
    by (simp add: represents_def)
  have "first_row (sql_select [0 ..< 12] (\<lambda>r. r ! 0 = SqlText k) (t_relay_bearers db))
      = map_option bind_bearer_row (find_by br_token_id k (sd_bearers g))"
    by (rule keyed_select [OF t]) simp_all
  from read_found [OF read [unfolded this]] have "x = find_by br_token_id k (sd_bearers g)"
    using keyed_good [OF t] by (auto simp: bearer_storable_def bearer_codec.unbind_bind)
  then show "\<exists>y. fst (load_bearer k g) = Inr y \<and> x = y" by (simp add: store_ops)
qed (simp add: store_ops)

section \<open>Remote clients\<close>

lemma client_clash: "clashes remote_clients_def (bind_remote_client u) (bind_remote_client w) \<longleftrightarrow> rc_client_id u = rc_client_id w"
  by (simp add: clashes_def remote_clients_def_def columns_def)

lemma client_typed: "well_typed_row remote_clients_def (bind_remote_client c)"
  by (simp add: well_typed_row_def remote_clients_def_def bind_remote_client_def)

lemma save_remote_client_simulates:
  assumes "expiry_clean l" "client_storable c"
  shows "simulates dr (\<lambda>_. True) (=) (sql_save_remote_client l c) (save_remote_client c)"
  unfolding sql_save_remote_client_def
proof (rule simulates_writeI [OF assms(1)])
  fix db g
  assume rep: "represents dr db g"
  then have "rep_keyed bind_remote_client rc_client_id client_storable (t_remote_clients db) (sd_remote_clients g)"
    by (simp add: represents_def)
  from keyed_replace [OF this assms(2) client_clash client_typed]
  obtain t' where t': "sql_replace remote_clients_def (bind_remote_client c) (t_remote_clients db) = Some t'"
    "rep_keyed bind_remote_client rc_client_id client_storable t' (upsert rc_client_id c (sd_remote_clients g))"
    by blast
  then show "\<exists>x db'. on_table t_remote_clients (\<lambda>t db. db\<lparr>t_remote_clients := t\<rparr>)
        (sql_replace remote_clients_def (bind_remote_client c)) db = Some (x, db')
      \<and> represents dr db' (snd (save_remote_client c g)) \<and> fst (save_remote_client c g) = Inr x"
    using rep by (simp add: on_table_def store_ops represents_def)
qed

lemma load_remote_client_simulates:
  "simulates dr (\<lambda>_. True) (=) (sql_load_remote_client l dr k) (load_remote_client k)"
proof (rule simulates_readI)
  show "behaves (sql_load_remote_client l dr k) (then_effect
      (\<lambda>db. Inr (first_row (sql_select [0 ..< 6] (\<lambda>r. r ! 0 = SqlText k) (t_remote_clients db))))
      (\<lambda>x. reading_effect (\<lambda>_. read_option (deserialize_remote_client dr) x)))"
    unfolding sql_load_remote_client_def by (intro behaves_rules)
  fix db g x
  assume "represents dr db g"
    and read: "read_option (deserialize_remote_client dr)
      (first_row (sql_select [0 ..< 6] (\<lambda>r. r ! 0 = SqlText k) (t_remote_clients db))) = Inr x"
  then have t: "rep_keyed bind_remote_client rc_client_id client_storable (t_remote_clients db) (sd_remote_clients g)"
    by (simp add: represents_def)
  have "first_row (sql_select [0 ..< 6] (\<lambda>r. r ! 0 = SqlText k) (t_remote_clients db))
      = map_option bind_remote_client (find_by rc_client_id k (sd_remote_clients g))"
    by (rule keyed_select [OF t]) simp_all
  from read_found [OF read [unfolded this]] have "x = find_by rc_client_id k (sd_remote_clients g)"
    using keyed_good [OF t] by (auto simp: client_storable_def client_codec.unbind_bind)
  then show "\<exists>y. fst (load_remote_client k g) = Inr y \<and> x = y" by (simp add: store_ops)
qed (simp add: store_ops)

section \<open>Keyslots\<close>

lemma keyslot_clash: "clashes keyslots_def (bind_keyslot dr u) (bind_keyslot dr w) \<longleftrightarrow> keyslot_key u = keyslot_key w"
  by (auto simp: clashes_def keyslots_def_def columns_def keyslot_key_def intro: signed_word_eqI)

lemma keyslot_typed: "well_typed_row keyslots_def (bind_keyslot dr s)"
  by (simp add: well_typed_row_def keyslots_def_def bind_keyslot_def)

lemma keyslots_replace:
  assumes "rep_keyslots dr t slots" "ks_enabled s"
  shows "\<exists>t'. sql_replace keyslots_def (bind_keyslot dr s) t = Some t'
    \<and> rep_keyslots dr t' (insert_by keyslot_key s slots)"
proof -
  obtain ss where ss: "t = map (bind_keyslot dr) ss" "set ss = set slots" "distinct (map keyslot_key ss)"
    "list_all ks_enabled ss" and sorted: "sorted_wrt (\<lambda>a b. keyslot_key a < keyslot_key b) slots"
    using assms(1) by (auto simp: rep_keyslots_def)
  let ?ss = "filter (\<lambda>w. keyslot_key w \<noteq> keyslot_key s) ss @ [s]"
  have "sql_replace keyslots_def (bind_keyslot dr s) t = Some (map (bind_keyslot dr) ?ss)"
    unfolding ss(1) by (rule replace_bound [OF keyslot_clash keyslot_typed])
  moreover have "rep_keyslots dr (map (bind_keyslot dr) ?ss) (insert_by keyslot_key s slots)"
    unfolding rep_keyslots_def
  proof (intro conjI exI [of _ ?ss])
    show "set ?ss = set (insert_by keyslot_key s slots)" using ss(2) by (auto simp: set_insert_by [OF sorted])
    show "distinct (map keyslot_key ?ss)" by (rule distinct_replace [OF ss(3)])
    show "list_all ks_enabled ?ss" using ss(4) assms(2) by (auto simp: list_all_iff)
    show "sorted_wrt (\<lambda>a b. keyslot_key a < keyslot_key b) (insert_by keyslot_key s slots)"
      by (rule sorted_insert_by [OF sorted])
  qed simp
  ultimately show ?thesis by blast
qed

lemma save_keyslot_simulates:
  assumes "expiry_clean l" "ks_enabled s"
  shows "simulates dr (\<lambda>_. True) (=) (sql_save_keyslot l dr s) (save_keyslot s)"
  unfolding sql_save_keyslot_def
proof (rule simulates_writeI [OF assms(1)])
  fix db g
  assume rep: "represents dr db g"
  then have "rep_keyslots dr (t_keyslots db) (sd_keyslots g)" by (simp add: represents_def)
  from keyslots_replace [OF this assms(2)]
  obtain t' where "sql_replace keyslots_def (bind_keyslot dr s) (t_keyslots db) = Some t'"
    "rep_keyslots dr t' (insert_by keyslot_key s (sd_keyslots g))"
    by blast
  then show "\<exists>x db'. on_table t_keyslots (\<lambda>t db. db\<lparr>t_keyslots := t\<rparr>)
        (sql_replace keyslots_def (bind_keyslot dr s)) db = Some (x, db')
      \<and> represents dr db' (snd (save_keyslot s g)) \<and> fst (save_keyslot s g) = Inr x"
    using rep by (simp add: on_table_def store_ops represents_def)
qed

text \<open>The first nine columns of a keyslot row are what the deserializer reads.\<close>

lemma keyslot_prefix:
  "json_faithful dr \<Longrightarrow> ks_enabled s \<Longrightarrow> deserialize_keyslot dr (columns [0 ..< 9] (bind_keyslot dr s)) = Inr s"
  by (auto simp: bind_keyslot_def deserialize_keyslot_def reading json_faithful_def columns_def
      upt_rec [of _ 9] split: option.split)

lemma sort_key_map: "sort_key f (map h xs) = map h (sort_key (\<lambda>x. f (h x)) xs)"
proof (induction xs)
  case (Cons x xs)
  have "insort_key f (h x) (map h ys) = map h (insort_key (\<lambda>x. f (h x)) x ys)" for ys by (induction ys) auto
  with Cons show ?case by simp
qed simp

text \<open>Sorting depends on the key only through its order.\<close>

lemma sort_key_cong_le:
  "(\<And>x y. f x \<le> f y \<longleftrightarrow> g x \<le> g y) \<Longrightarrow> sort_key f xs = sort_key g xs"
proof (induction xs)
  case (Cons x xs)
  have "insort_key f x ys = insort_key g x ys" for ys using Cons.prems by (induction ys) auto
  with Cons show ?case by simp
qed simp

lemma load_keyslots_simulates:
  assumes "json_faithful dr"
  shows "simulates dr (\<lambda>_. True) (=) (sql_load_keyslots l dr) load_keyslots"
proof (rule simulates_readI)
  show "behaves (sql_load_keyslots l dr) (then_effect
      (\<lambda>db. Inr (order_by 0 (sql_select [0 ..< 9] (\<lambda>r. r ! 9 = SqlInteger 1) (t_keyslots db))))
      (\<lambda>x. reading_effect (\<lambda>_. read_rows (deserialize_keyslot dr) x)))"
    unfolding sql_load_keyslots_def by (intro behaves_rules)
  fix db g x
  assume rep: "represents dr db g"
    and read: "read_rows (deserialize_keyslot dr)
      (order_by 0 (sql_select [0 ..< 9] (\<lambda>r. r ! 9 = SqlInteger 1) (t_keyslots db))) = Inr x"
  then have "rep_keyslots dr (t_keyslots db) (sd_keyslots g)" by (simp add: represents_def)
  then obtain ss where ss: "t_keyslots db = map (bind_keyslot dr) ss" "set ss = set (sd_keyslots g)"
    "distinct (map keyslot_key ss)" "list_all ks_enabled ss"
    and sorted: "sorted_wrt (\<lambda>a b. keyslot_key a < keyslot_key b) (sd_keyslots g)"
    by (auto simp: rep_keyslots_def)
  let ?b = "\<lambda>s. columns [0 ..< 9] (bind_keyslot dr s)"
  have all: "filter (\<lambda>s. ks_enabled s) ss = ss" using ss(4) by (simp add: list_all_iff)
  have key: "?b s ! 0 = SqlInteger (ks_id s)" for s by (simp add: columns_def nth_append)
  have "sort_key (\<lambda>s. SqlInteger (ks_id s)) ss = sort_key keyslot_key ss"
    by (rule sort_key_cong_le) (simp add: keyslot_key_def)
  also have "\<dots> = sd_keyslots g" by (rule sort_key_strict [OF ss(2,3) sorted])
  finally have sk: "sort_key (\<lambda>s. SqlInteger (ks_id s)) ss = sd_keyslots g" .
  have "sql_select [0 ..< 9] (\<lambda>r. r ! 9 = SqlInteger 1) (t_keyslots db) = map ?b ss"
    by (simp add: ss(1) sql_select_def filter_map_bind all)
  then have "order_by 0 (sql_select [0 ..< 9] (\<lambda>r. r ! 9 = SqlInteger 1) (t_keyslots db)) = map ?b (sd_keyslots g)"
    by (simp add: order_by_def sort_key_map key sk)
  moreover have "read_rows (deserialize_keyslot dr) (map ?b (sd_keyslots g)) = Inr (sd_keyslots g)"
    by (rule read_rows_map) (use keyslot_prefix [OF assms] ss(2,4) in \<open>auto simp: list_all_iff\<close>)
  ultimately show "\<exists>y. fst (load_keyslots g) = Inr y \<and> x = y" using read by (simp add: store_ops)
qed (simp add: store_ops)

section \<open>The audit chain\<close>

lemma audit_rows:
  assumes "rep_audit dr t rows"
  shows "order_by 0 (sql_select [0 ..< 9] p t)
      = map (bind_audit_record dr) (filter (\<lambda>r. p (bind_audit_record dr r)) rows)"
    and "read_rows (deserialize_audit_record dr) (map (bind_audit_record dr) (filter q rows)) = Inr (filter q rows)"
proof -
  have t: "t = map (bind_audit_record dr) rows" and good: "list_all (\<lambda>r. detail_faithful dr (ar_detail r)) rows"
    and seqs: "map (\<lambda>r. sint (ar_seq r)) rows = map int [1 ..< Suc (length rows)]"
    using assms by (simp_all add: rep_audit_def)
  let ?fs = "filter (\<lambda>r. p (bind_audit_record dr r)) rows"
  have "sorted_wrt (\<le>) (map (\<lambda>r. sint (ar_seq r)) rows)"
    by (simp only: seqs) (simp add: sorted_wrt_map del: upt_Suc)
  then have "sorted (map (\<lambda>r. r ! 0) (map (bind_audit_record dr) rows))"
    by (simp add: sorted_wrt_map)
  then have "sorted (map (\<lambda>r. r ! 0) (map (bind_audit_record dr) ?fs))"
    by (simp add: sorted_wrt_map sorted_wrt_filter)
  then show "order_by 0 (sql_select [0 ..< 9] p t) = map (bind_audit_record dr) ?fs"
    by (simp add: t sql_select_def filter_map_bind comp_def columns_all order_by_def sort_key_id_if_sorted)
  show "read_rows (deserialize_audit_record dr) (map (bind_audit_record dr) (filter q rows)) = Inr (filter q rows)"
    by (rule read_rows_map) (use good in \<open>auto simp: list_all_iff audit_codec.unbind_bind\<close>)
qed

lemma audit_rows_all:
  assumes "rep_audit dr t rows"
  shows "order_by 0 (sql_select [0 ..< 9] (\<lambda>_. True) t) = map (bind_audit_record dr) rows"
    and "read_rows (deserialize_audit_record dr) (map (bind_audit_record dr) rows) = Inr rows"
  using audit_rows(1) [OF assms, of "\<lambda>_. True"] audit_rows(2) [OF assms, of "\<lambda>_. True"] by simp_all

lemma query_then_read:
  "then_effect (\<lambda>db. Inr (q db)) (\<lambda>x. reading_effect (\<lambda>_. f x)) = reading_effect (\<lambda>db. f (q db))"
  by (rule ext) (simp add: then_effect_def reading_effect_def)

lemma last_audit_behaves:
  "behaves (sql_last_audit l dr) (then_effect
     (\<lambda>db. Inr (first_row (sql_limit 1 (order_by_desc 0 (sql_select [0 ..< 9] (\<lambda>_. True) (t_audit_log db))))))
     (\<lambda>x. reading_effect (\<lambda>_. read_option (deserialize_audit_record dr) x)))"
  unfolding sql_last_audit_def by (intro behaves_rules)

lemma tail_read:
  assumes "rep_audit dr t rows"
  shows "read_option (deserialize_audit_record dr)
      (first_row (sql_limit 1 (order_by_desc 0 (sql_select [0 ..< 9] (\<lambda>_. True) t)))) = Inr (last_row rows)"
proof -
  have "r \<in> set rows \<Longrightarrow> detail_faithful dr (ar_detail r)" for r
    using assms by (auto simp: rep_audit_def list_all_iff)
  then show ?thesis
    unfolding order_by_desc_def audit_rows_all(1) [OF assms] limit_last
    by (auto simp: last_row_def read_option_def last_map audit_codec.unbind_bind)
qed

lemma last_audit_simulates: "simulates dr (\<lambda>_. True) (=) (sql_last_audit l dr) last_audit"
  by (rule simulates_readI [OF last_audit_behaves])
    (auto simp: store_ops represents_def tail_read)

lemma verify_audit_chain_simulates:
  "simulates dr (\<lambda>_. True) (=) (sql_verify_audit_chain l dr cr) (verify_audit_chain cr)"
proof (rule simulates_readI)
  show "behaves (sql_verify_audit_chain l dr cr) (then_effect
      (\<lambda>db. Inr (all_audit_asc db))
      (\<lambda>x. reading_effect (\<lambda>_. and_ok (read_rows (deserialize_audit_record dr) x)
         (\<lambda>chain. case verify_chain cr chain of Inl seq \<Rightarrow> Inl (StoreAuditChainBroken seq) | Inr _ \<Rightarrow> Inr ()))))"
    unfolding sql_verify_audit_chain_def
    by (intro and_then_behaves query_all_behaves)
      (auto intro!: behavesI simp: and_then_def lift_read_def and_ok_def reading_effect_def run_simps
        split: sum.splits)
  fix db g x
  assume "represents dr db g"
    and read: "and_ok (read_rows (deserialize_audit_record dr) (all_audit_asc db))
      (\<lambda>chain. case verify_chain cr chain of Inl seq \<Rightarrow> Inl (StoreAuditChainBroken seq) | Inr _ \<Rightarrow> Inr ()) = Inr x"
  then have "rep_audit dr (t_audit_log db) (sd_audit g)" by (simp add: represents_def)
  from audit_rows_all [OF this] read show "\<exists>y. fst (verify_audit_chain cr g) = Inr y \<and> x = y"
    by (auto simp: all_audit_asc_def verify_audit_chain_def split: sum.splits)
qed (simp add: verify_audit_chain_def split: sum.split)

lemma after_seq_bound: "after_seq since (bind_audit_record dr r) \<longleftrightarrow> i64_lt since (ar_seq r)"
  by (simp add: after_seq_def i64_lt_def less_le_not_le)

text \<open>A limit is bound as a signed integer: one of 2^63 or more becomes negative and limits nothing.\<close>

lemma limit_take:
  assumes "n < 2 ^ 64" "length t < 2 ^ 63"
  shows "sql_limit (word_of_nat n) t = take n t"
proof (cases "n < 2 ^ 63")
  case True
  then have "unat (word_of_nat n :: i64) = n" by (simp add: unat_of_nat take_bit_nat_eq_self)
  moreover have "\<not> sint (word_of_nat n :: i64) < 0"
    using True by (simp add: signed_of_nat signed_take_bit_int_eq_self)
  ultimately show ?thesis by (simp add: sql_limit_def)
next
  case False
  define k where "k = int n - 9223372036854775808"
  have k: "0 \<le> k" "k < 9223372036854775808" using False assms(1) by (simp_all add: k_def)
  have "int n + 9223372036854775808 = k + 18446744073709551616" by (simp add: k_def)
  then have "(int n + 9223372036854775808) mod 18446744073709551616 = k"
    using k by (simp only: mod_add_self2) simp
  then have "sint (word_of_nat n :: i64) < 0"
    using k by (simp add: signed_of_nat signed_take_bit_eq_take_bit_shift take_bit_eq_mod)
  then show ?thesis using False assms(2) by (simp add: sql_limit_def)
qed

lemma audit_length: "rep_audit dr t rows \<Longrightarrow> length rows < 2 ^ 63"
proof (cases rows rule: rev_cases)
  case (snoc rs r)
  assume "rep_audit dr t rows"
  then have "last (map (\<lambda>r. sint (ar_seq r)) rows) = int (length rows)"
    by (simp add: rep_audit_def snoc)
  then show ?thesis using sint_lt [of "ar_seq r"] by (simp add: snoc)
qed simp

lemma read_rows_take:
  assumes "read_rows f (map b vs) = Inr vs"
  shows "read_rows f (take n (map b vs)) = Inr (take n vs)"
  using assms
proof (induction vs arbitrary: n)
  case (Cons v vs)
  then show ?case by (cases n) (auto simp: and_ok_def split: sum.splits)
qed simp

lemma query_audit_simulates:
  assumes "limit < 2 ^ 64"
  shows "simulates dr (\<lambda>_. True) (=) (sql_query_audit l dr since limit) (query_audit since limit)"
proof (rule simulates_readI)
  show "behaves (sql_query_audit l dr since limit) (then_effect
      (\<lambda>db. Inr (sql_limit (word_of_nat limit) (order_by 0 (sql_select [0 ..< 9] (after_seq since) (t_audit_log db)))))
      (\<lambda>x. reading_effect (\<lambda>_. read_rows (deserialize_audit_record dr) x)))"
    unfolding sql_query_audit_def by (intro behaves_rules)
  fix db g x
  assume "represents dr db g"
    and read: "read_rows (deserialize_audit_record dr) (sql_limit (word_of_nat limit)
      (order_by 0 (sql_select [0 ..< 9] (after_seq since) (t_audit_log db)))) = Inr x"
  then have t: "rep_audit dr (t_audit_log db) (sd_audit g)" by (simp add: represents_def)
  have len: "length (map (bind_audit_record dr) (filter q (sd_audit g))) < 2 ^ 63" for q
    using audit_length [OF t] le_less_trans [OF length_filter_le] by simp
  from read read_rows_take [OF audit_rows(2) [OF t]]
  have "x = take limit (filter (\<lambda>r. i64_lt since (ar_seq r)) (sd_audit g))"
    unfolding audit_rows(1) [OF t] limit_take [OF assms len] after_seq_bound by simp
  then show "\<exists>y. fst (query_audit since limit g) = Inr y \<and> x = y" by (simp add: store_ops)
qed (simp add: store_ops)

lemma sint_add_one: "sint (a :: i64) < 2 ^ 63 - 1 \<Longrightarrow> sint (a + 1) = sint a + 1"
  using sint_ge [of a] by (simp add: sint_word_ariths signed_take_bit_int_eq_self)

lemma append_seq:
  assumes "rep_audit dr t rows" "int (length rows) < 2 ^ 63 - 1"
  shows "sint (ar_seq (link_row cr (last_row rows) rec)) = int (Suc (length rows))"
proof (cases rows rule: rev_cases)
  case (snoc rs r)
  have "sint (ar_seq r) = last (map (\<lambda>r. sint (ar_seq r)) rows)" by (simp add: snoc)
  also have "\<dots> = int (length rows)"
    using assms(1) by (simp add: rep_audit_def snoc)
  finally have r: "sint (ar_seq r) = int (length rows)" .
  then have "sint (ar_seq r + 1) = sint (ar_seq r) + 1" using assms(2) by (intro sint_add_one) simp
  then show ?thesis by (simp add: link_row_fields r snoc)
qed (simp add: link_row_fields)

lemma audit_insert:
  assumes "rep_audit dr t rows" "int (length rows) < 2 ^ 63 - 1" "detail_faithful dr (ar_detail rec)"
  shows "\<exists>t'. sql_insert audit_log_def (bind_audit_record dr (link_row cr (last_row rows) rec)) t = Some t'
      \<and> rep_audit dr t' (append_row cr rows rec)"
proof -
  let ?r = "link_row cr (last_row rows) rec"
  have t: "t = map (bind_audit_record dr) rows"
    and seqs: "map (\<lambda>r. sint (ar_seq r)) rows = map int [1 ..< Suc (length rows)]"
    using assms(1) by (simp_all add: rep_audit_def)
  have new: "sint (ar_seq ?r) = int (Suc (length rows))" by (rule append_seq [OF assms(1,2)])
  have "ar_seq ?r \<noteq> ar_seq r" if "r \<in> set rows" for r
  proof -
    have "sint (ar_seq r) \<in> set (map (\<lambda>r. sint (ar_seq r)) rows)" using that by simp
    then have "sint (ar_seq r) \<noteq> sint (ar_seq ?r)" unfolding new seqs by auto
    then show ?thesis by metis
  qed
  then have "\<not> list_ex (clashes audit_log_def (bind_audit_record dr ?r)) t"
    by (auto simp: t list_ex_iff clashes_def audit_log_def_def columns_def)
  moreover have "well_typed_row audit_log_def (bind_audit_record dr ?r)"
    by (simp add: well_typed_row_def audit_log_def_def bind_audit_record_def)
  moreover have "rep_audit dr (t @ [bind_audit_record dr ?r]) (append_row cr rows rec)"
    using assms(1,3) new by (simp add: rep_audit_def append_row_def link_row_fields)
  ultimately show ?thesis by (simp add: sql_insert_def)
qed

lemma append_audit_simulates:
  assumes "expiry_clean l" "detail_faithful dr (ar_detail rec)"
  shows "simulates dr (\<lambda>g. int (length (sd_audit g)) < 2 ^ 63 - 1) (=)
    (sql_append_audit l dr cr rec) (append_audit cr rec)"
proof (rule simulatesI)
  let ?put = "\<lambda>r. map_effect (\<lambda>_. ar_seq r) (statement (on_table t_audit_log
      (\<lambda>t db. db\<lparr>t_audit_log := t\<rparr>) (sql_insert audit_log_def (bind_audit_record dr r))))"
  let ?tail = "\<lambda>db. read_option (deserialize_audit_record dr)
      (first_row (sql_limit 1 (order_by_desc 0 (sql_select [0 ..< 9] (\<lambda>_. True) (t_audit_log db)))))"
  have tail: "behaves (sql_last_audit l dr) (reading_effect ?tail)"
    using last_audit_behaves [of l dr] by (simp only: query_then_read)
  show "behaves (sql_append_audit l dr cr rec) (then_effect ?tail (\<lambda>p. ?put (link_row cr p rec)))"
    unfolding sql_append_audit_def Let_def
    by (intro and_then_behaves tail durable_behaves map_behaves execute_behaves assms(1))
  fix db g
  assume rep: "represents dr db g" and room: "int (length (sd_audit g)) < 2 ^ 63 - 1"
  then have t: "rep_audit dr (t_audit_log db) (sd_audit g)" by (simp add: represents_def)
  from audit_insert [OF t room assms(2), of cr] obtain t' where
    "sql_insert audit_log_def (bind_audit_record dr (link_row cr (last_row (sd_audit g)) rec)) (t_audit_log db) = Some t'"
    "rep_audit dr t' (append_row cr (sd_audit g) rec)"
    by blast
  then show "represents dr (snd (then_effect ?tail (\<lambda>p. ?put (link_row cr p rec)) db)) (snd (append_audit cr rec g))
    \<and> (\<forall>x. fst (then_effect ?tail (\<lambda>p. ?put (link_row cr p rec)) db) = Inr x
        \<longrightarrow> (\<exists>y. fst (append_audit cr rec g) = Inr y \<and> x = y))"
    using rep by (simp add: then_effect_def tail_read [OF t] map_effect_def statement_def on_table_def
        append_audit_def append_row_def Let_def represents_def)
qed

section \<open>Relay policies\<close>

text \<open>
  The policies the durable store can save as the in-memory store does: enabled, without an id or
  with the id its relay already has, and an id left for a new one.
\<close>

definition policy_storable :: "relay_policy_row \<Rightarrow> in_mem_data \<Rightarrow> bool" where
  "policy_storable row g \<longleftrightarrow>
     rp_enabled (rr_policy row)
     \<and> (rr_id row = 0 \<or> map_option rr_id (find_by relay_key (relay_key row) (sd_relays g)) = Some (rr_id row))
     \<and> (\<forall>r\<in>set (sd_relays g). sint (rr_id r) < i64_max)"

lemma policies_parts:
  assumes "rep_policies dr t ps"
  shows "t = map (\<lambda>r. bind_relay_policy dr (rr_id r) r) ps" "distinct (map relay_key ps)"
    "sorted_wrt (\<lambda>a b. sint (rr_id a) < sint (rr_id b)) ps" "list_all (\<lambda>r. 0 < sint (rr_id r)) ps"
    "list_all (\<lambda>r. rp_enabled (rr_policy r)) ps"
  using assms by (simp_all add: rep_policies_def)

lemma policy_select:
  assumes "rep_policies dr t ps"
  shows "first_row (sql_select cs (\<lambda>r. r ! 1 = SqlText k) t)
      = map_option (\<lambda>r. columns cs (bind_relay_policy dr (rr_id r) r)) (find_by relay_key k ps)"
proof -
  have "sql_select cs (\<lambda>r. r ! 1 = SqlText k) t
      = map (\<lambda>r. columns cs (bind_relay_policy dr (rr_id r) r)) (filter (\<lambda>r. relay_key r = k) ps)"
    unfolding policies_parts(1) [OF assms] by (simp add: sql_select_def filter_map_bind comp_def)
  also have "filter (\<lambda>r. relay_key r = k) ps = (case find_by relay_key k ps of None \<Rightarrow> [] | Some v \<Rightarrow> [v])"
    by (rule filter_key) (use policies_parts(2) [OF assms] in simp_all)
  finally show ?thesis by (simp add: first_row_def split: option.split)
qed

lemma load_relay_policy_simulates:
  assumes "json_faithful dr"
  shows "simulates dr (\<lambda>_. True) (=) (sql_load_relay_policy l dr k) (load_relay_policy k)"
proof (rule simulates_readI)
  show "behaves (sql_load_relay_policy l dr k) (then_effect
      (\<lambda>db. Inr (first_row (sql_select [0, 2] (\<lambda>r. r ! 1 = SqlText k) (t_relay_policies db))))
      (\<lambda>x. reading_effect (\<lambda>_. read_option (deserialize_relay_policy dr) x)))"
    unfolding sql_load_relay_policy_def by (intro behaves_rules)
  fix db g x
  assume "represents dr db g"
    and read: "read_option (deserialize_relay_policy dr)
      (first_row (sql_select [0, 2] (\<lambda>r. r ! 1 = SqlText k) (t_relay_policies db))) = Inr x"
  then have t: "rep_policies dr (t_relay_policies db) (sd_relays g)" by (simp add: represents_def)
  from read_found [OF read [unfolded policy_select [OF t]]] have "x = find_by relay_key k (sd_relays g)"
    using policy_codec.unbind_bind [OF assms] by blast
  then show "\<exists>y. fst (load_relay_policy k g) = Inr y \<and> x = y" by (simp add: store_ops)
qed (simp add: store_ops)

lemma list_relay_policies_simulates:
  assumes "json_faithful dr"
  shows "simulates dr (\<lambda>_. True) (=) (sql_list_relay_policies l dr) list_relay_policies"
proof (rule simulates_readI)
  show "behaves (sql_list_relay_policies l dr) (then_effect
      (\<lambda>db. Inr (order_by 0 (sql_select [0, 2] (\<lambda>r. r ! 3 = SqlInteger 1) (t_relay_policies db))))
      (\<lambda>x. reading_effect (\<lambda>_. read_rows (deserialize_relay_policy dr) x)))"
    unfolding sql_list_relay_policies_def by (intro behaves_rules)
  fix db g x
  assume "represents dr db g"
    and read: "read_rows (deserialize_relay_policy dr)
      (order_by 0 (sql_select [0, 2] (\<lambda>r. r ! 3 = SqlInteger 1) (t_relay_policies db))) = Inr x"
  then have t: "rep_policies dr (t_relay_policies db) (sd_relays g)" by (simp add: represents_def)
  let ?ps = "sd_relays g"
  let ?b = "\<lambda>r. columns [0, 2] (bind_relay_policy dr (rr_id r) r)"
  have all: "filter (\<lambda>r. rp_enabled (rr_policy r)) ?ps = ?ps"
    using policies_parts(5) [OF t] by (simp add: list_all_iff)
  have "sorted (map (\<lambda>r. r ! 0) (map ?b ?ps))"
    using policies_parts(3) [OF t] by (auto simp: sorted_wrt_map columns_def elim: sorted_wrt_mono_rel [rotated])
  then have "order_by 0 (sql_select [0, 2] (\<lambda>r. r ! 3 = SqlInteger 1) (t_relay_policies db)) = map ?b ?ps"
    unfolding policies_parts(1) [OF t]
    by (simp add: sql_select_def filter_map_bind comp_def all order_by_def sort_key_id_if_sorted)
  moreover have "read_rows (deserialize_relay_policy dr) (map ?b ?ps) = Inr ?ps"
    by (rule read_rows_map) (rule policy_codec.unbind_bind [OF assms])
  ultimately show "\<exists>y. fst (list_relay_policies g) = Inr y \<and> x = y" using read by (simp add: store_ops)
qed (simp add: store_ops)

text \<open>The id a save chooses.\<close>

lemma max_integer_ids:
  "list_all (\<lambda>v. 0 < sint v) vs \<Longrightarrow>
   max_integer (map SqlInteger vs) = SqlInteger (case max_i64 vs of None \<Rightarrow> 0 | Some m \<Rightarrow> m)"
proof (induction vs)
  case (Cons v vs)
  then show ?case
    by (cases vs) (auto simp: max_def i64_max_of_def split: option.splits)
qed simp

lemma assigned_relay_id_above:
  assumes "list_all (\<lambda>r. 0 < sint (rr_id r)) relays" "\<forall>r\<in>set relays. sint (rr_id r) < i64_max"
  shows "\<forall>r\<in>set relays. sint (rr_id r)
      < sint ((case max_i64 (map rr_id relays) of None \<Rightarrow> 0 | Some m \<Rightarrow> m) + (1 :: i64))"
proof
  fix r assume r: "r \<in> set relays"
  then obtain m where m: "max_i64 (map rr_id relays) = Some m" "sint (rr_id r) \<le> sint m"
    using max_i64_upper [of "rr_id r" "map rr_id relays"] by auto
  from max_i64_mem [OF m(1)] have "sint m < i64_max" "0 < sint m"
    using assms by (auto simp: list_all_iff)
  then have "sint (m + 1) = sint m + 1" using sint_add_in_range [of m 1] by simp
  with m show "sint (rr_id r) < sint ((case max_i64 (map rr_id relays) of None \<Rightarrow> 0 | Some m \<Rightarrow> m) + (1 :: i64))"
    by simp
qed

lemma map_reading:
  "behaves m (reading_effect (\<lambda>db. Inr (q db))) \<Longrightarrow>
   behaves (and_then m (\<lambda>x. ok_act (h x))) (reading_effect (\<lambda>db. Inr (h (q db))))"
  by (drule map_behaves [where h = h]) (simp add: map_effect_def [abs_def] reading_effect_def [abs_def])

lemma max_policy_id_behaves:
  "behaves (max_policy_id l dr) (reading_effect (\<lambda>db.
     Inr (case get_i64 dr [max_integer (map (\<lambda>r. r ! 0) (t_relay_policies db))] 0 [] of
        Inr m \<Rightarrow> m | Inl _ \<Rightarrow> 0)))"
  using map_reading [OF query_one_behaves [of l "\<lambda>db. [[max_integer (map (\<lambda>r. r ! 0) (t_relay_policies db))]]"],
      of "\<lambda>r. case r of None \<Rightarrow> 0 | Some row \<Rightarrow> (case get_i64 dr row 0 [] of Inr m \<Rightarrow> m | Inl _ \<Rightarrow> 0)"]
  by (simp add: max_policy_id_def first_row_def)

definition chosen_id :: "driver \<Rightarrow> relay_policy_row \<Rightarrow> sql_db \<Rightarrow> store_error + i64" where
  "chosen_id dr row db =
     and_ok (read_option (\<lambda>r. get_i64 dr r 0 ''relay.id'')
         (first_row (policy_id_by_name (rp_relay_id (rr_policy row)) db))) (\<lambda>existing.
       if rr_id row \<noteq> 0 then Inr (rr_id row)
       else case existing of
         Some eid \<Rightarrow> Inr eid
       | None \<Rightarrow>
           Inr ((case get_i64 dr [max_integer (map (\<lambda>r. r ! 0) (t_relay_policies db))] 0 [] of
              Inr m \<Rightarrow> m | Inl _ \<Rightarrow> 0) + 1))"

lemma chosen_id_rep:
  assumes "rep_policies dr (t_relay_policies db) ps"
  shows "chosen_id dr row db = Inr (assigned_relay_id row ps)"
proof -
  have "map (\<lambda>r. r ! 0) (t_relay_policies db) = map SqlInteger (map rr_id ps)"
    by (simp add: policies_parts(1) [OF assms] comp_def)
  moreover have "max_integer (map SqlInteger (map rr_id ps))
      = SqlInteger (case max_i64 (map rr_id ps) of None \<Rightarrow> 0 | Some m \<Rightarrow> m)"
    by (rule max_integer_ids) (use policies_parts(4) [OF assms] in \<open>simp add: list_all_iff\<close>)
  ultimately show ?thesis
    unfolding chosen_id_def policy_id_by_name_def policy_select [OF assms] assigned_relay_id_def
    by (cases "find_by relay_key (relay_key row) ps")
      (auto simp: read_option_def relay_key_def columns_def reading)
qed

text \<open>The row a save leaves in the table.\<close>

lemma upsert_map:
  "distinct (map key ws) \<Longrightarrow> find_by key (key v) ws \<noteq> None \<Longrightarrow>
   upsert key v ws = map (\<lambda>w. if key w = key v then v else w) ws"
proof (induction ws)
  case (Cons w ws)
  have "map (\<lambda>w. if key w = key v then v else w) ws = ws" if "key w = key v"
    using Cons.prems(1) that by (intro map_idI) (auto simp: image_iff)
  with Cons show ?case by auto
qed simp

lemma policy_overwrite:
  "relay_key r = relay_key row \<Longrightarrow>
   overwrite [2, 3] (bind_relay_policy dr (rr_id r) row) (bind_relay_policy dr (rr_id r) r)
     = bind_relay_policy dr (rr_id r) row"
  by (simp add: overwrite_def bind_relay_policy_def relay_key_def upt_rec [of _ 4] nth_Cons')

lemma policies_upsert:
  assumes t: "rep_policies dr t (sd_relays g)" and row: "policy_storable row g"
  defines "new \<equiv> row\<lparr>rr_id := assigned_relay_id row (sd_relays g)\<rparr>"
  shows "\<exists>t'. sql_upsert relay_policies_def 1 [2, 3] (bind_relay_policy dr (rr_id new) row) t = Some t'
    \<and> rep_policies dr t' (upsert relay_key new (sd_relays g))"
proof -
  let ?ps = "sd_relays g"
  let ?b = "\<lambda>r. bind_relay_policy dr (rr_id r) r"
  note t' = policies_parts [OF t]
  have key: "relay_key new = relay_key row" by (simp add: new_def relay_key_def)
  have bind: "bind_relay_policy dr (rr_id new) row = ?b new" by (simp add: new_def bind_relay_policy_def)
  have typed: "well_typed_row relay_policies_def (?b new)"
    by (simp add: well_typed_row_def relay_policies_def_def bind_relay_policy_def)
  have on: "rp_enabled (rr_policy new)" using row by (simp add: policy_storable_def new_def)
  show ?thesis
  proof (cases "find_by relay_key (relay_key row) ?ps")
    case (Some old)
    then have old: "rr_id new = rr_id old" "relay_key old = relay_key row" "old \<in> set ?ps"
      using row by (auto simp: new_def assigned_relay_id_def policy_storable_def dest: find_by_SomeD)
    have only: "r = old" if "r \<in> set ?ps" "relay_key r = relay_key row" for r
      using find_by_distinct [OF t'(2) that(1)] that(2) Some by simp
    have ups: "upsert relay_key new ?ps = map (\<lambda>r. if relay_key r = relay_key new then new else r) ?ps"
      by (rule upsert_map [OF t'(2)]) (simp add: key Some)
    have hit: "list_ex (\<lambda>r'. r' ! 1 = ?b new ! 1) t"
      using old(2,3) by (auto simp: t'(1) list_ex_iff key)
    have rows: "map (\<lambda>r'. if r' ! 1 = ?b new ! 1 then overwrite [2, 3] (?b new) r' else r') t
        = map ?b (upsert relay_key new ?ps)"
      unfolding ups t'(1) map_map
    proof (rule map_cong [OF refl])
      fix r assume r: "r \<in> set ?ps"
      have "overwrite [2, 3] (?b new) (?b r) = ?b new" if "relay_key r = relay_key new"
      proof -
        have "rr_id r = rr_id new" using only [OF r] that key old(1) by simp
        then show ?thesis using policy_overwrite [of r new dr] that by simp
      qed
      then show "((\<lambda>r'. if r' ! 1 = ?b new ! 1 then overwrite [2, 3] (?b new) r' else r') \<circ> ?b) r
          = (?b \<circ> (\<lambda>r. if relay_key r = relay_key new then new else r)) r"
        by simp
    qed
    have ids: "map rr_id (upsert relay_key new ?ps) = map rr_id ?ps"
      by (rule map_upsert_same) (simp_all add: key Some old(1))
    have "sorted_wrt (\<lambda>a b. sint a < sint b) (map rr_id (upsert relay_key new ?ps))"
      "list_all (\<lambda>i. 0 < sint i) (map rr_id (upsert relay_key new ?ps))"
      unfolding ids using t'(3,4) by (simp_all add: sorted_wrt_map list_all_iff)
    moreover have "list_all (\<lambda>r. rp_enabled (rr_policy r)) (upsert relay_key new ?ps)"
      using t'(5) on set_upsert_subset [of relay_key new ?ps] by (auto simp: list_all_iff)
    ultimately have "rep_policies dr (map ?b (upsert relay_key new ?ps)) (upsert relay_key new ?ps)"
      using distinct_upsert [OF t'(2), of new] by (simp add: rep_policies_def sorted_wrt_map list_all_iff)
    then show ?thesis unfolding bind sql_upsert_def using typed hit rows by simp
  next
    case None
    have id0: "rr_id row = 0" using row None by (simp add: policy_storable_def)
    have new_id: "rr_id new = (case max_i64 (map rr_id ?ps) of None \<Rightarrow> 0 | Some m \<Rightarrow> m) + 1"
      by (simp add: new_def assigned_relay_id_def id0 None)
    have room: "\<forall>r\<in>set ?ps. sint (rr_id r) < i64_max" using row by (simp add: policy_storable_def)
    have fresh: "0 < sint (rr_id new)" "\<forall>r\<in>set ?ps. sint (rr_id r) < sint (rr_id new)"
      using fresh_relay_id [OF t'(4) room] assigned_relay_id_above [OF t'(4) room] by (simp_all add: new_id)
    have ups: "upsert relay_key new ?ps = ?ps @ [new]" by (rule upsert_new) (simp add: key None)
    have name: "relay_key r \<noteq> relay_key new" if "r \<in> set ?ps" for r
      using None that key by (metis find_by_None_iff imageI)
    have absent: "relay_key new \<notin> relay_key ` set ?ps" using None key by (metis find_by_None_iff)
    have miss: "\<not> list_ex (\<lambda>r'. r' ! 1 = ?b new ! 1) t"
      using name by (auto simp: t'(1) list_ex_iff)
    have "\<not> list_ex (clashes relay_policies_def (?b new)) t"
      using name fresh(2) by (fastforce simp: t'(1) list_ex_iff clashes_def relay_policies_def_def columns_def)
    then have "sql_insert relay_policies_def (?b new) t = Some (map ?b (?ps @ [new]))"
      using typed by (simp add: sql_insert_def t'(1))
    moreover have "rep_policies dr (map ?b (?ps @ [new])) (?ps @ [new])"
      using t' absent on fresh by (simp add: rep_policies_def sorted_wrt_append)
    ultimately show ?thesis unfolding bind ups sql_upsert_def using typed miss by simp
  qed
qed

lemma save_relay_policy_simulates:
  assumes "expiry_clean l"
  shows "simulates dr (policy_storable row) (=) (sql_save_relay_policy l dr row) (save_relay_policy row)"
proof (rule simulatesI)
  let ?put = "\<lambda>i. map_effect (\<lambda>_. i) (statement (upsert_policy dr i row))"
  have name: "behaves (query_one l (policy_id_by_name (rp_relay_id (rr_policy row))))
      (reading_effect (\<lambda>db. Inr (first_row (policy_id_by_name (rp_relay_id (rr_policy row)) db))))"
    by (rule query_one_behaves)
  have max: "behaves (and_then (max_policy_id l dr) (\<lambda>m. ok_act (m + 1))) (reading_effect (\<lambda>db.
      Inr ((case get_i64 dr [max_integer (map (\<lambda>r. r ! 0) (t_relay_policies db))] 0 [] of
              Inr m \<Rightarrow> m | Inl _ \<Rightarrow> 0) + 1)))"
    using max_policy_id_behaves [of l dr] by (rule map_reading)
  have "behaves (sql_save_relay_policy l dr row)
      (then_effect (\<lambda>db. Inr (first_row (policy_id_by_name (rp_relay_id (rr_policy row)) db))) (\<lambda>existing.
        then_effect (\<lambda>_. read_option (\<lambda>r. get_i64 dr r 0 ''relay.id'') existing) (\<lambda>eid.
        then_effect (\<lambda>db. if rr_id row \<noteq> 0 then Inr (rr_id row)
          else case eid of Some e \<Rightarrow> Inr e
            | None \<Rightarrow> Inr ((case get_i64 dr [max_integer (map (\<lambda>r. r ! 0) (t_relay_policies db))] 0 [] of
              Inr m \<Rightarrow> m | Inl _ \<Rightarrow> 0) + 1)) ?put)))"
    unfolding sql_save_relay_policy_def
    by (intro and_then_behaves name read_row_behaves durable_behaves map_behaves execute_behaves assms)
      (use max ok_behaves [where 'a = i64] in \<open>auto split: option.split\<close>)
  moreover have "\<dots> = then_effect (chosen_id dr row) ?put"
    by (rule ext) (auto simp: then_effect_def chosen_id_def and_ok_def split: sum.split)
  ultimately show "behaves (sql_save_relay_policy l dr row) (then_effect (chosen_id dr row) ?put)" by simp
  fix db g
  assume rep: "represents dr db g" and row: "policy_storable row g"
  then have t: "rep_policies dr (t_relay_policies db) (sd_relays g)" by (simp add: represents_def)
  from policies_upsert [OF t row] obtain t' where
    "sql_upsert relay_policies_def 1 [2, 3]
      (bind_relay_policy dr (assigned_relay_id row (sd_relays g)) row) (t_relay_policies db) = Some t'"
    "rep_policies dr t' (upsert relay_key (row\<lparr>rr_id := assigned_relay_id row (sd_relays g)\<rparr>) (sd_relays g))"
    by auto
  then show "represents dr (snd (then_effect (chosen_id dr row) ?put db)) (snd (save_relay_policy row g))
    \<and> (\<forall>x. fst (then_effect (chosen_id dr row) ?put db) = Inr x
        \<longrightarrow> (\<exists>y. fst (save_relay_policy row g) = Inr y \<and> x = y))"
    using rep by (simp add: then_effect_def chosen_id_rep [OF t] map_effect_def statement_def on_table_def
        upsert_policy_def save_relay_policy_def Let_def represents_def)
qed

section \<open>Listings and revocations of keyed tables\<close>

text \<open>An edit of every row under a condition, in the table and in the vector.\<close>

lemma keyed_edit:
  assumes "rep_keyed b key good t vs"
    and "\<And>v. key (f v) = key v" "\<And>v. good v \<Longrightarrow> good (f v)" "\<And>v. b (f v) = h (b v)" "\<And>v. p (b v) \<longleftrightarrow> q v"
  shows "rep_keyed b key good (snd (sql_update p h t)) (map (\<lambda>v. if q v then f v else v) vs)"
    and "fst (sql_update p h t) = word_of_nat (length (filter q vs))"
proof -
  obtain us where us: "t = map b us" "set us = set vs" "distinct (map key us)"
    using assms(1) by (auto simp: rep_keyed_def)
  have vs: "distinct (map key vs)" "list_all good vs" using assms(1) by (auto simp: rep_keyed_def)
  let ?e = "\<lambda>v. if q v then f v else v"
  have keys: "map key (map ?e xs) = map key xs" for xs using assms(2) by (simp cong: map_cong)
  have "snd (sql_update p h t) = map b (map ?e us)" using assms(4,5) by (simp add: sql_update_def us(1))
  moreover have "set (map ?e us) = set (map ?e vs)" using us(2) by simp
  moreover have "list_all good (map ?e vs)" using vs(2) assms(3) by (auto simp: list_all_iff)
  ultimately show "rep_keyed b key good (snd (sql_update p h t)) (map ?e vs)"
    unfolding rep_keyed_def keys using us(3) vs(1) keys by metis
  have "distinct (filter q us)" "distinct (filter q vs)"
    using us(3) vs(1) by (simp_all add: distinct_map)
  then have "length (filter q us) = length (filter q vs)"
    using us(2) by (simp add: distinct_card [symmetric])
  then show "fst (sql_update p h t) = word_of_nat (length (filter q vs))"
    by (simp add: sql_update_def us(1) filter_map_bind assms(5))
qed

text \<open>A listing reads the same rows, in the order of the table.\<close>

lemma keyed_listing:
  assumes "rep_keyed b key good t vs"
    and "\<And>v. length (b v) = n" "\<And>v. good v \<Longrightarrow> f (b v) = Inr v" "\<And>v. p (b v) \<longleftrightarrow> q v"
    and "read_rows f (sql_select [0 ..< n] p t) = Inr xs"
  shows "set xs = set (filter q vs)" "distinct (map key xs)"
proof -
  obtain us where us: "t = map b us" "set us = set vs" "distinct (map key us)"
    using assms(1) by (auto simp: rep_keyed_def)
  have good: "list_all good us" using assms(1) us(2) by (auto simp: rep_keyed_def list_all_iff)
  have "sql_select [0 ..< n] p t = map b (filter q us)"
    using assms(2,4) by (simp add: us(1) sql_select_def filter_map_bind comp_def columns_all)
  moreover have "read_rows f (map b (filter q us)) = Inr (filter q us)"
    by (rule read_rows_map) (use assms(3) good in \<open>auto simp: list_all_iff\<close>)
  ultimately have xs: "xs = filter q us" using assms(5) by simp
  show "set xs = set (filter q vs)" by (simp add: xs us(2))
  show "distinct (map key xs)" unfolding xs using us(3) by (rule distinct_map_filter)
qed

lemma read_rows_sorted:
  assumes "read_rows f (sort_key k rows) = Inr xs"
  shows "\<exists>ys. read_rows f rows = Inr ys \<and> mset ys = mset xs"
proof -
  have reads: "read_rows f rs = Inr xs \<longleftrightarrow> list_all2 (\<lambda>r x. f r = Inr x) rs xs" for rs xs
  proof (induction rs arbitrary: xs)
    case (Cons r rs)
    then show ?case
      by (cases xs; cases "f r"; cases "read_rows f rs") (auto simp: and_ok_def)
  qed auto
  from assms have "list_all2 (\<lambda>r x. f r = Inr x) (sort_key k rows) xs" by (simp add: reads)
  from list_all2_reorder_left_invariance [OF this, of rows] show ?thesis
    by (auto simp: reads)
qed

lemma named_policy:
  assumes "rep_policies dr (t_relay_policies db) ps"
  shows "of_policy_named k db (bind_bearer_row v)
    \<longleftrightarrow> (case find_by relay_key k ps of None \<Rightarrow> False | Some r \<Rightarrow> br_policy_id v = rr_id r)"
proof -
  have "first_row (policy_id_by_name k db) = map_option (\<lambda>r. [SqlInteger (rr_id r)]) (find_by relay_key k ps)"
    unfolding policy_id_by_name_def policy_select [OF assms] by (simp add: columns_def)
  then show ?thesis
    by (auto simp: of_policy_named_def first_row_def split: list.splits option.splits)
qed

definition same_rows :: "'a list \<Rightarrow> 'a list \<Rightarrow> bool" where
  "same_rows xs ys \<longleftrightarrow> set xs = set ys"

lemma list_bearers_simulates:
  "simulates dr (\<lambda>_. True) same_rows (sql_list_bearers_for_relay l dr k) (list_bearers_for_relay k)"
proof (rule simulates_readI)
  show "behaves (sql_list_bearers_for_relay l dr k) (then_effect
      (\<lambda>db. Inr (sql_select [0 ..< 12] (of_policy_named k db) (t_relay_bearers db)))
      (\<lambda>x. reading_effect (\<lambda>_. read_rows (deserialize_bearer_row dr) x)))"
    unfolding sql_list_bearers_for_relay_def by (intro behaves_rules)
  fix db g x
  assume "represents dr db g"
    and read: "read_rows (deserialize_bearer_row dr)
      (sql_select [0 ..< 12] (of_policy_named k db) (t_relay_bearers db)) = Inr x"
  then have t: "rep_keyed bind_bearer_row br_token_id bearer_storable (t_relay_bearers db) (sd_bearers g)"
    and ps: "rep_policies dr (t_relay_policies db) (sd_relays g)"
    by (simp_all add: represents_def)
  have "set x = set (filter (\<lambda>v. case find_by relay_key k (sd_relays g) of None \<Rightarrow> False
      | Some r \<Rightarrow> br_policy_id v = rr_id r) (sd_bearers g))"
    by (rule keyed_listing(1) [OF t _ _ named_policy [OF ps] read])
      (simp_all add: bearer_storable_def bearer_codec.unbind_bind)
  then show "\<exists>y. fst (list_bearers_for_relay k g) = Inr y \<and> same_rows x y"
    by (cases "find_by relay_key k (sd_relays g)") (simp_all add: store_ops same_rows_def)
qed (simp add: store_ops)

lemma ucast_of_nat_nat: "(ucast (word_of_nat n :: u64) :: u32) = word_of_nat n"
  by (rule word_uint_eqI) (simp add: unsigned_ucast_eq unsigned_of_nat take_bit_take_bit)

lemma bind_revoked: "bind_bearer_row (b\<lparr>br_revoked := True\<rparr>) = (bind_bearer_row b)[8 := SqlInteger 1]"
  by (simp add: bind_bearer_row_def sql_bool_def)

lemma revoke_bearers_simulates:
  assumes "expiry_clean l"
  shows "simulates dr (\<lambda>_. True) (=) (sql_revoke_bearers_for_relay l k) (revoke_bearers_for_relay k)"
proof (rule simulatesI)
  show "behaves (sql_revoke_bearers_for_relay l k) (map_effect ucast (statement (revoke_statement k)))"
    unfolding sql_revoke_bearers_for_relay_def by (intro behaves_rules assms)
  fix db g
  assume rep: "represents dr db g"
  then have t: "rep_keyed bind_bearer_row br_token_id bearer_storable (t_relay_bearers db) (sd_bearers g)"
    and ps: "rep_policies dr (t_relay_policies db) (sd_relays g)"
    by (simp_all add: represents_def)
  let ?q = "\<lambda>b. (case find_by relay_key k (sd_relays g) of None \<Rightarrow> False | Some r \<Rightarrow> br_policy_id b = rr_id r)
      \<and> \<not> br_revoked b"
  let ?p = "\<lambda>r. r ! 8 = SqlInteger 0 \<and> of_policy_named k db r"
  have p: "?p (bind_bearer_row v) \<longleftrightarrow> ?q v" for v
    unfolding named_policy [OF ps] by (auto simp: bind_bearer_row_def sql_bool_def)
  have good: "bearer_storable v \<Longrightarrow> bearer_storable (v\<lparr>br_revoked := True\<rparr>)" for v
    by (simp add: bearer_storable_def)
  note edit = keyed_edit [OF t, where f = "\<lambda>b. b\<lparr>br_revoked := True\<rparr>" and p = ?p and q = ?q
      and h = "\<lambda>r. r[8 := SqlInteger 1]", OF _ good bind_revoked p, simplified]
  have none: "map (\<lambda>v. if ?q v then v\<lparr>br_revoked := True\<rparr> else v) (sd_bearers g) = sd_bearers g"
    if "find_by relay_key k (sd_relays g) = None"
    using that by simp
  show "represents dr (snd (map_effect ucast (statement (revoke_statement k)) db)) (snd (revoke_bearers_for_relay k g))
    \<and> (\<forall>x. fst (map_effect ucast (statement (revoke_statement k)) db) = Inr x
        \<longrightarrow> (\<exists>y. fst (revoke_bearers_for_relay k g) = Inr y \<and> x = y))"
    using rep edit
    by (cases "find_by relay_key k (sd_relays g)")
      (simp_all add: map_effect_def statement_def revoke_statement_def case_prod_beta Let_def
        revoke_bearers_for_relay_def represents_def ucast_of_nat_nat)
qed

section \<open>Remote clients and certificates\<close>

lemma keyed_listing_sorted:
  assumes "rep_keyed b key good t vs"
    and "\<And>v. length (b v) = n" "\<And>v. good v \<Longrightarrow> f (b v) = Inr v"
    and "read_rows f (order_by k (sql_select [0 ..< n] (\<lambda>_. True) t)) = Inr xs"
  shows "set xs = set vs"
proof -
  from read_rows_sorted [OF assms(4) [unfolded order_by_def]] obtain ys where
    ys: "read_rows f (sql_select [0 ..< n] (\<lambda>_. True) t) = Inr ys" "mset ys = mset xs" by blast
  have "set ys = set (filter (\<lambda>_. True) vs)"
    by (rule keyed_listing(1) [OF assms(1,2,3) _ ys(1)]) simp_all
  then show ?thesis using mset_eq_setD [OF ys(2)] by simp
qed

lemma list_remote_clients_simulates:
  "simulates dr (\<lambda>_. True) same_rows (sql_list_remote_clients l dr) list_remote_clients"
proof (rule simulates_readI)
  show "behaves (sql_list_remote_clients l dr) (then_effect
      (\<lambda>db. Inr (order_by 0 (sql_select [0 ..< 6] (\<lambda>_. True) (t_remote_clients db))))
      (\<lambda>x. reading_effect (\<lambda>_. read_rows (deserialize_remote_client dr) x)))"
    unfolding sql_list_remote_clients_def by (intro behaves_rules)
  fix db g x
  assume "represents dr db g"
    and read: "read_rows (deserialize_remote_client dr)
      (order_by 0 (sql_select [0 ..< 6] (\<lambda>_. True) (t_remote_clients db))) = Inr x"
  then have t: "rep_keyed bind_remote_client rc_client_id client_storable (t_remote_clients db) (sd_remote_clients g)"
    by (simp add: represents_def)
  have "set x = set (sd_remote_clients g)"
    by (rule keyed_listing_sorted [OF t _ _ read]) (simp_all add: client_storable_def client_codec.unbind_bind)
  then show "\<exists>y. fst (list_remote_clients g) = Inr y \<and> same_rows x y"
    by (simp add: store_ops same_rows_def)
qed (simp add: store_ops)

lemma edit_first_map:
  "distinct (map key vs) \<Longrightarrow>
   edit_first (\<lambda>v. key v = k) f vs = map (\<lambda>v. if key v = k then f v else v) vs"
proof (induction vs)
  case (Cons v vs)
  have "map (\<lambda>v. if key v = k then f v else v) vs = vs" if "key v = k"
    using Cons.prems that by (intro map_idI) (auto simp: image_iff)
  with Cons show ?case by auto
qed simp

lemma bind_client_revoked:
  "bind_remote_client (c\<lparr>rc_enabled := False, rc_revoked_at_ms := Some now\<rparr>)
     = (bind_remote_client c)[2 := SqlInteger 0, 5 := SqlInteger now]"
  by (simp add: bind_remote_client_def sql_bool_def sql_opt_def)

lemma revoke_remote_client_simulates:
  assumes "expiry_clean l"
  shows "simulates dr (\<lambda>_. True) (=) (sql_revoke_remote_client l k now) (revoke_remote_client k now)"
proof (rule simulatesI)
  show "behaves (sql_revoke_remote_client l k now) (map_effect (\<lambda>n. 0 < n) (statement (revoke_client_statement k now)))"
    unfolding sql_revoke_remote_client_def by (intro behaves_rules assms)
  fix db g
  assume rep: "represents dr db g"
  then have t: "rep_keyed bind_remote_client rc_client_id client_storable (t_remote_clients db) (sd_remote_clients g)"
    by (simp add: represents_def)
  let ?f = "\<lambda>c. c\<lparr>rc_enabled := False, rc_revoked_at_ms := Some now\<rparr>"
  have keys: "distinct (map rc_client_id (sd_remote_clients g))" using t by (simp add: rep_keyed_def)
  have good: "client_storable v \<Longrightarrow> client_storable (?f v)" for v by (simp add: client_storable_def)
  note edit = keyed_edit [OF t, where f = ?f and p = "\<lambda>r. r ! 0 = SqlText k" and q = "\<lambda>c. rc_client_id c = k"
      and h = "\<lambda>r. r[2 := SqlInteger 0, 5 := SqlInteger now]", OF _ good bind_client_revoked, simplified]
  have n: "(0 < (word_of_nat (length (filter (\<lambda>c. rc_client_id c = k) (sd_remote_clients g))) :: u64))
      \<longleftrightarrow> find_by rc_client_id k (sd_remote_clients g) \<noteq> None"
    using filter_key [OF keys keys refl, of k] by (auto split: option.split)
  have map: "edit_first (\<lambda>c. rc_client_id c = k) ?f (sd_remote_clients g)
      = map (\<lambda>c. if rc_client_id c = k then ?f c else c) (sd_remote_clients g)"
    by (rule edit_first_map [OF keys])
  have none: "map (\<lambda>c. if rc_client_id c = k then ?f c else c) (sd_remote_clients g) = sd_remote_clients g"
    if "find_by rc_client_id k (sd_remote_clients g) = None"
    using that by (intro map_idI) (auto simp: find_by_None_iff)
  show "represents dr (snd (map_effect (\<lambda>n. 0 < n) (statement (revoke_client_statement k now)) db))
        (snd (revoke_remote_client k now g))
    \<and> (\<forall>x. fst (map_effect (\<lambda>n. 0 < n) (statement (revoke_client_statement k now)) db) = Inr x
        \<longrightarrow> (\<exists>y. fst (revoke_remote_client k now g) = Inr y \<and> x = y))"
    using rep edit n none
    by (cases "find_by rc_client_id k (sd_remote_clients g)")
      (simp_all add: map_effect_def statement_def revoke_client_statement_def case_prod_beta Let_def
        revoke_remote_client_def represents_def map)
qed

lemma save_cert_simulates:
  assumes "expiry_clean l"
  shows "simulates dr (\<lambda>_. True) (=) (sql_save_cert l c) (save_cert c)"
  unfolding sql_save_cert_def
proof (rule simulates_writeI [OF assms])
  fix db g
  assume rep: "represents dr db g"
  then have t: "rep_keyed bind_cert_row cw_serial (\<lambda>_. True) (t_certs db) (sd_certs g)"
    by (simp add: represents_def)
  have "clashes certs_def (bind_cert_row u) (bind_cert_row w) \<longleftrightarrow> cw_serial u = cw_serial w" for u w
    by (simp add: clashes_def certs_def_def columns_def)
  moreover have "well_typed_row certs_def (bind_cert_row c)"
    by (simp add: well_typed_row_def certs_def_def bind_cert_row_def)
  ultimately obtain t' where "sql_replace certs_def (bind_cert_row c) (t_certs db) = Some t'"
    "rep_keyed bind_cert_row cw_serial (\<lambda>_. True) t' (upsert cw_serial c (sd_certs g))"
    using keyed_replace [OF t TrueI] by blast
  then show "\<exists>x db'. on_table t_certs (\<lambda>t db. db\<lparr>t_certs := t\<rparr>) (sql_replace certs_def (bind_cert_row c)) db
        = Some (x, db') \<and> represents dr db' (snd (save_cert c g)) \<and> fst (save_cert c g) = Inr x"
    using rep by (simp add: on_table_def store_ops represents_def)
qed

lemma load_cert_simulates: "simulates dr (\<lambda>_. True) (=) (sql_load_cert l dr k) (load_cert k)"
proof (rule simulates_readI)
  show "behaves (sql_load_cert l dr k) (then_effect
      (\<lambda>db. Inr (first_row (sql_select [0 ..< 4] (\<lambda>r. r ! 0 = SqlText k) (t_certs db))))
      (\<lambda>x. reading_effect (\<lambda>_. read_option (deserialize_cert_row dr) x)))"
    unfolding sql_load_cert_def by (intro behaves_rules)
  fix db g x
  assume "represents dr db g"
    and read: "read_option (deserialize_cert_row dr)
      (first_row (sql_select [0 ..< 4] (\<lambda>r. r ! 0 = SqlText k) (t_certs db))) = Inr x"
  then have t: "rep_keyed bind_cert_row cw_serial (\<lambda>_. True) (t_certs db) (sd_certs g)"
    by (simp add: represents_def)
  have "first_row (sql_select [0 ..< 4] (\<lambda>r. r ! 0 = SqlText k) (t_certs db))
      = map_option bind_cert_row (find_by cw_serial k (sd_certs g))"
    by (rule keyed_select [OF t]) simp_all
  from read_found [OF read [unfolded this]] have "x = find_by cw_serial k (sd_certs g)"
    by (simp add: cert_codec.unbind_bind)
  then show "\<exists>y. fst (load_cert k g) = Inr y \<and> x = y" by (simp add: store_ops)
qed (simp add: store_ops)

lemma list_certs_simulates: "simulates dr (\<lambda>_. True) same_rows (sql_list_certs l dr) list_certs"
proof (rule simulates_readI)
  show "behaves (sql_list_certs l dr) (then_effect
      (\<lambda>db. Inr (order_by 2 (sql_select [0 ..< 4] (\<lambda>_. True) (t_certs db))))
      (\<lambda>x. reading_effect (\<lambda>_. read_rows (deserialize_cert_row dr) x)))"
    unfolding sql_list_certs_def by (intro behaves_rules)
  fix db g x
  assume "represents dr db g"
    and read: "read_rows (deserialize_cert_row dr)
      (order_by 2 (sql_select [0 ..< 4] (\<lambda>_. True) (t_certs db))) = Inr x"
  then have t: "rep_keyed bind_cert_row cw_serial (\<lambda>_. True) (t_certs db) (sd_certs g)"
    by (simp add: represents_def)
  have "set x = set (sd_certs g)"
    by (rule keyed_listing_sorted [OF t _ _ read]) (simp_all add: cert_codec.unbind_bind)
  then show "\<exists>y. fst (list_certs g) = Inr y \<and> same_rows x y"
    by (simp add: store_ops same_rows_def)
qed (simp add: store_ops)

section \<open>Single secrets and keyslots, and the listings of secrets\<close>

lemma get_secret_version_simulates:
  "simulates dr (\<lambda>_. True) (=) (sql_get_secret_version l dr k v) (get_secret_version k v)"
proof (rule simulates_readI)
  let ?p = "\<lambda>r. r ! 1 = SqlText k \<and> r ! 2 = SqlInteger (ucast v)"
  show "behaves (sql_get_secret_version l dr k v) (then_effect
      (\<lambda>db. Inr (first_row (sql_select [0 ..< 10] ?p (t_secrets db))))
      (\<lambda>x. reading_effect (\<lambda>_. read_option (deserialize_secret_row dr) x)))"
    unfolding sql_get_secret_version_def by (intro behaves_rules)
  fix db g x
  assume "represents dr db g"
    and read: "read_option (deserialize_secret_row dr) (first_row (sql_select [0 ..< 10] ?p (t_secrets db))) = Inr x"
  then have t: "t_secrets db = map bind_secret_row (sd_secrets g)"
    by (simp add: represents_def rep_secrets_def)
  have inj: "(ucast a :: i64) = ucast b \<longleftrightarrow> a = b" for a b :: u32 by (metis ucast_u32_i64)
  have "first_row (sql_select [0 ..< 10] ?p (map bind_secret_row rs))
      = map_option bind_secret_row (find (\<lambda>r. sr_name r = k \<and> sr_version r = v) rs)" for rs
    by (induction rs) (auto simp: sql_select_def first_row_def columns_all inj)
  from read_found [OF read [unfolded t this]] show "\<exists>y. fst (get_secret_version k v g) = Inr y \<and> x = y"
    by (simp add: store_ops secret_codec.unbind_bind)
qed (simp add: store_ops)

lemma load_keyslot_simulates:
  assumes "json_faithful dr"
  shows "simulates dr (\<lambda>_. True) (=) (sql_load_keyslot l dr i) (load_keyslot i)"
proof (rule simulates_readI)
  show "behaves (sql_load_keyslot l dr i) (then_effect
      (\<lambda>db. Inr (first_row (sql_select [0 ..< 9] (\<lambda>r. r ! 0 = SqlInteger i) (t_keyslots db))))
      (\<lambda>x. reading_effect (\<lambda>_. read_option (deserialize_keyslot dr) x)))"
    unfolding sql_load_keyslot_def by (intro behaves_rules)
  fix db g x
  assume "represents dr db g"
    and read: "read_option (deserialize_keyslot dr)
      (first_row (sql_select [0 ..< 9] (\<lambda>r. r ! 0 = SqlInteger i) (t_keyslots db))) = Inr x"
  then have "rep_keyslots dr (t_keyslots db) (sd_keyslots g)" by (simp add: represents_def)
  then obtain ss where ss: "t_keyslots db = map (bind_keyslot dr) ss" "set ss = set (sd_keyslots g)"
    "distinct (map keyslot_key ss)" "list_all ks_enabled ss"
    and sorted: "sorted_wrt (\<lambda>a b. keyslot_key a < keyslot_key b) (sd_keyslots g)"
    by (auto simp: rep_keyslots_def)
  have "distinct (map keyslot_key (sd_keyslots g))"
    using sorted by (simp add: strict_sorted_iff [THEN iffD1] sorted_wrt_map)
  from filter_key [OF ss(3) this ss(2)]
  have hit: "filter (\<lambda>s. keyslot_key s = sint i) ss
      = (case find_by keyslot_key (sint i) (sd_keyslots g) of None \<Rightarrow> [] | Some v \<Rightarrow> [v])" .
  have "(\<lambda>s. ks_id s = i) = (\<lambda>s. keyslot_key s = sint i)"
    by (rule ext) (auto simp: keyslot_key_def intro: signed_word_eqI)
  with hit have "first_row (sql_select [0 ..< 9] (\<lambda>r. r ! 0 = SqlInteger i) (t_keyslots db))
      = map_option (\<lambda>s. columns [0 ..< 9] (bind_keyslot dr s)) (find_by keyslot_key (sint i) (sd_keyslots g))"
    by (simp add: ss(1) sql_select_def filter_map_bind comp_def first_row_def split: option.split)
  from read_found [OF read [unfolded this]] have "x = find_by keyslot_key (sint i) (sd_keyslots g)"
    using keyslot_prefix [OF assms] ss(2,4) by (auto simp: list_all_iff dest: find_by_SomeD)
  then show "\<exists>y. fst (load_keyslot i g) = Inr y \<and> x = y" by (simp add: store_ops)
qed (simp add: store_ops)

lemma list_secret_versions_simulates:
  "simulates dr (\<lambda>_. True) (=) (sql_list_secret_versions l dr k) (list_secret_versions k)"
proof (rule simulates_readI)
  let ?f = "\<lambda>r. and_ok (get_i64 dr r 0 ''secret.version'') (\<lambda>v. Inr (ucast v :: u32))"
  show "behaves (sql_list_secret_versions l dr k) (then_effect
      (\<lambda>db. Inr (order_by 0 (sql_select [2] (\<lambda>r. r ! 1 = SqlText k) (t_secrets db))))
      (\<lambda>x. reading_effect (\<lambda>_. read_rows ?f x)))"
    unfolding sql_list_secret_versions_def by (intro behaves_rules)
  fix db g x
  assume "represents dr db g"
    and read: "read_rows ?f (order_by 0 (sql_select [2] (\<lambda>r. r ! 1 = SqlText k) (t_secrets db))) = Inr x"
  then have t: "t_secrets db = map bind_secret_row (sd_secrets g)"
    by (simp add: represents_def rep_secrets_def)
  let ?b = "\<lambda>v :: u32. [SqlInteger (ucast v)]"
  have sel: "sql_select [2] (\<lambda>r. r ! 1 = SqlText k) (t_secrets db) = map ?b (versions_of k g)"
    by (simp add: t sql_select_def filter_map_bind comp_def columns_def versions_of_def)
  have "sort_key (\<lambda>v. SqlInteger (ucast (v :: u32))) vs = sort vs" for vs
    by (rule sort_key_cong_le) (simp add: sint_ucast_u32 word_le_def)
  then have "order_by 0 (map ?b (versions_of k g)) = map ?b (sort (versions_of k g))"
    by (simp add: order_by_def sort_key_map)
  moreover have "read_rows ?f (map ?b (sort (versions_of k g))) = Inr (sort (versions_of k g))"
    by (rule read_rows_map) (simp add: reading)
  ultimately show "\<exists>y. fst (list_secret_versions k g) = Inr y \<and> x = y"
    using read unfolding sel by (simp add: store_ops)
qed (simp add: store_ops)

lemma remdups_map_inj: "inj_on f (set xs) \<Longrightarrow> remdups (map f xs) = map f (remdups xs)"
  by (induction xs) (auto simp: inj_on_def image_iff)

lemma remdups_sorted: "sorted xs \<Longrightarrow> remdups xs = remdups_adj xs"
  by (induction xs rule: remdups_adj.induct) auto

lemma list_secret_names_simulates:
  "simulates dr (\<lambda>_. True) (=) (sql_list_secret_names l dr) list_secret_names"
proof (rule simulates_readI)
  let ?f = "\<lambda>r. get_string dr r 0 ''secret.name''"
  show "behaves (sql_list_secret_names l dr) (then_effect
      (\<lambda>db. Inr (remdups (order_by 0 (sql_select [1] (\<lambda>_. True) (t_secrets db)))))
      (\<lambda>x. reading_effect (\<lambda>_. read_rows ?f x)))"
    unfolding sql_list_secret_names_def by (intro behaves_rules)
  fix db g x
  assume "represents dr db g"
    and read: "read_rows ?f (remdups (order_by 0 (sql_select [1] (\<lambda>_. True) (t_secrets db)))) = Inr x"
  then have t: "t_secrets db = map bind_secret_row (sd_secrets g)"
    by (simp add: represents_def rep_secrets_def)
  let ?b = "\<lambda>n. [SqlText n]"
  let ?ns = "map sr_name (sd_secrets g)"
  have sel: "sql_select [1] (\<lambda>_. True) (t_secrets db) = map ?b ?ns"
    by (simp add: t sql_select_def columns_def)
  have "sort_key SqlText ns = sort ns" for ns
    by (rule sort_key_cong_le) simp
  then have ord: "order_by 0 (map ?b ns) = map ?b (sort ns)" for ns
    by (simp add: order_by_def sort_key_map)
  have rows: "remdups (order_by 0 (map ?b ?ns)) = map ?b (remdups (sort ?ns))"
    unfolding ord by (rule remdups_map_inj) (simp add: inj_on_def)
  have "remdups (sort ?ns) = remdups_adj (sort ?ns)"
    by (rule remdups_sorted) simp
  moreover have "read_rows ?f (map ?b ms) = Inr ms" for ms
    by (rule read_rows_map) (simp add: reading)
  ultimately show "\<exists>y. fst (list_secret_names g) = Inr y \<and> x = y"
    using read unfolding sel rows by (simp add: store_ops)
qed (simp add: store_ops)

end
