(* ===== verification/LibSqlSpec.thy ===== *)
theory LibSqlSpec
  imports LibSqlTables EngineLive
begin

text \<open>
  What the durable store promises: it implements the in-memory store method by method, every call is
  a bounded number of requests, a secret is never stored twice whatever the connection does, the rows
  it binds fit their tables and are read back unchanged. The last section instantiates the driver
  and the link.
\<close>

section \<open>Bounded requests\<close>

definition requests_within :: "nat \<Rightarrow> 'a rop \<Rightarrow> bool" where
  "requests_within n m \<longleftrightarrow> (\<forall>s. rm_tick (snd (m s)) \<le> rm_tick s + n)"

named_theorems request_bounds "how many requests a method sends at most"

lemma within_mono: "requests_within n m \<Longrightarrow> n \<le> k \<Longrightarrow> requests_within k m"
  unfolding requests_within_def by (meson add_left_mono order_trans)

lemma within_request [request_bounds]: "requests_within 1 (request l wrap f)"
  by (auto simp: requests_within_def request_def sent_def split: option.split)

lemma within_reconnect [request_bounds]: "requests_within 1 (reconnect l)"
  by (auto simp: requests_within_def reconnect_def sent_def split: option.split)

lemma within_none [request_bounds]:
  "requests_within 0 (ok_act x)" "requests_within 0 (fail_act e)" "requests_within 0 (lift_read r)"
  "requests_within 0 (read_row f row)"
  by (auto simp: requests_within_def run_simps lift_read_def read_row_def split: option.split)

lemma within_and_then [request_bounds]:
  assumes "requests_within n m" "\<And>x. requests_within k (f x)"
  shows "requests_within (n + k) (and_then m f)"
  unfolding requests_within_def
proof
  fix s
  obtain r t where m: "m s = (r, t)" by fastforce
  have t: "rm_tick t \<le> rm_tick s + n" using assms(1) m by (auto simp: requests_within_def dest: spec [of _ s])
  show "rm_tick (snd (and_then m f s)) \<le> rm_tick s + (n + k)"
  proof (cases r)
    case (Inl e)
    then show ?thesis using m t by (simp add: and_then_def)
  next
    case (Inr x)
    have "rm_tick (snd (f x t)) \<le> rm_tick t + k" using assms(2) by (simp add: requests_within_def)
    then show ?thesis using m t Inr by (simp add: and_then_def)
  qed
qed

lemma within_retry [request_bounds]:
  assumes "requests_within n m"
  shows "requests_within (2 * n + 1) (run_retry l m)"
  unfolding requests_within_def
proof
  fix s
  have again: "requests_within (1 + n) (and_then (reconnect l) (\<lambda>_. m))"
    by (intro request_bounds assms)
  obtain r t where m: "m s = (r, t)" by fastforce
  have t: "rm_tick t \<le> rm_tick s + n" using assms m by (auto simp: requests_within_def dest: spec [of _ s])
  have "rm_tick (snd (and_then (reconnect l) (\<lambda>_. m) t)) \<le> rm_tick t + (1 + n)"
    using again by (simp add: requests_within_def)
  then show "rm_tick (snd (run_retry l m s)) \<le> rm_tick s + (2 * n + 1)"
    using t by (cases r) (auto simp: run_retry_def match_result_def m run_simps)
qed

lemma within_query [request_bounds]:
  "requests_within 1 (query l q)" "requests_within 3 (query_all l q)"
  "requests_within 3 (query_one l q)" "requests_within 3 (execute l f)"
proof -
  show q: "requests_within 1 (query l q)" unfolding query_def by (rule request_bounds)
  have "requests_within (2 * 1 + 1) (run_retry l (query l q))"
    "requests_within (2 * (1 + 0) + 1) (query_one l q)"
    "requests_within (2 * 1 + 1) (execute l f)"
    unfolding query_one_def execute_def by (intro request_bounds q)+
  then show "requests_within 3 (query_all l q)" "requests_within 3 (query_one l q)" "requests_within 3 (execute l f)"
    by (simp_all add: query_all_def)
qed

lemma within_durable [request_bounds]:
  assumes "requests_within n m"
  shows "requests_within (n + 3) (durable l m)"
proof -
  have "requests_within (3 + 0) (fsync_barrier l)"
    unfolding fsync_barrier_def by (intro request_bounds)
  then have "requests_within (n + (3 + 0)) (durable l m)"
    unfolding durable_def by (intro within_and_then within_none assms) simp_all
  then show ?thesis by simp
qed

lemma within_transaction [request_bounds]:
  assumes "requests_within n m"
  shows "requests_within (n + 2) (transaction l m)"
proof -
  let ?outcome = "\<lambda>s. case m s of
          (Inl e, t) \<Rightarrow> (Inl e, t\<lparr>rm_db := rm_db s\<rparr>)
        | (Inr x, t) \<Rightarrow>
            and_then (request l TransactionFailed (\<lambda>_. Some ((), rm_db t))) (\<lambda>_. ok_act x) (t\<lparr>rm_db := rm_db s\<rparr>)"
  have "requests_within (n + 1) ?outcome"
    unfolding requests_within_def
  proof
    fix s :: remote
    obtain r t where m: "m s = (r, t)" by fastforce
    have t: "rm_tick t \<le> rm_tick s + n" using assms m by (auto simp: requests_within_def dest: spec [of _ s])
    have "requests_within (1 + 0) (and_then (request l TransactionFailed (\<lambda>_. Some ((), rm_db t))) (\<lambda>_. ok_act x))" for x :: 'a
      by (intro request_bounds)
    then have "rm_tick (snd (and_then (request l TransactionFailed (\<lambda>_. Some ((), rm_db t))) (\<lambda>_. ok_act x)
        (t\<lparr>rm_db := rm_db s\<rparr>))) \<le> rm_tick (t\<lparr>rm_db := rm_db s\<rparr>) + 1" for x :: 'a
      unfolding requests_within_def by (metis add_0_right)
    then show "rm_tick (snd (?outcome s)) \<le> rm_tick s + (n + 1)"
      using t by (cases r) (auto simp: m intro: order_trans)
  qed
  then have "requests_within (1 + (n + 1)) (transaction l m)"
    unfolding transaction_def by (intro within_and_then within_request)
  then show ?thesis by simp
qed

lemma within_step: "t \<le> s + n \<Longrightarrow> u \<le> t + k \<Longrightarrow> u \<le> s + (n + (k :: nat))"
  by simp

lemma within_health_probe:
  assumes "requests_within n m" "\<And>e. requests_within k (h e)" "\<And>x. requests_within k (f x)"
  shows "requests_within (n + k) (match_result m h f)"
  unfolding requests_within_def
proof
  fix s
  obtain r t where m: "m s = (r, t)" by fastforce
  have t: "rm_tick t \<le> rm_tick s + n" using assms(1) m by (auto simp: requests_within_def dest: spec [of _ s])
  have "rm_tick (snd (h e t)) \<le> rm_tick t + k" "rm_tick (snd (f x t)) \<le> rm_tick t + k" for e x
    using assms(2,3) by (simp_all add: requests_within_def)
  then show "rm_tick (snd (match_result m h f s)) \<le> rm_tick s + (n + k)"
    using t by (cases r) (auto simp: match_result_def m intro: within_step)
qed

lemma within_read:
  "requests_within n m \<Longrightarrow> (\<And>x. requests_within 0 (f x)) \<Longrightarrow> requests_within n (and_then m f)"
  using within_and_then [of n m 0 f] by simp

lemma within_write:
  "requests_within 6 (durable l (execute l f))"
  "requests_within 6 (durable l (and_then (execute l f) (\<lambda>x. ok_act y)))"
proof -
  show "requests_within 6 (durable l (execute l f))"
    using within_durable [OF within_query(4)] by simp
  have "requests_within (3 + 0) (and_then (execute l f) (\<lambda>x. ok_act y))" by (intro request_bounds)
  from within_durable [OF this] show "requests_within 6 (durable l (and_then (execute l f) (\<lambda>x. ok_act y)))"
    by simp
qed

lemma within_checks:
  "requests_within 1 (next_row_id l dr)" "requests_within 1 (row_id_taken l i)"
  "requests_within 1 (highest_version l dr name)"
  unfolding next_row_id_def row_id_taken_def highest_version_def
  by (rule within_read, rule within_query(1), simp add: within_none split: list.split)+

lemma within_guard: "requests_within n m \<Longrightarrow> requests_within n (if c then fail_act e else m)"
  using within_mono [OF within_none(2)] by auto

lemma within_put_secret: "requests_within 16 (sql_put_secret l dr row)"
proof -
  have "requests_within 1 (and_then (request l ExecuteFailed (insert_secret row)) (\<lambda>_. ok_act (sr_row_id row)))"
    by (intro within_read within_request within_none)
  then have "requests_within (1 + 1) (insert_next_version l dr row)"
    unfolding insert_next_version_def Let_def
    by (intro within_and_then within_checks within_guard)
  then have "requests_within (1 + (1 + 1)) (insert_unless_taken l dr row)"
    unfolding insert_unless_taken_def
    by (intro within_and_then within_checks within_guard)
  then have "requests_within (1 + (1 + (1 + 1))) (put_secret_body l dr row)"
    unfolding put_secret_body_def
    by (intro within_and_then within_checks within_guard)
  from within_durable [OF within_retry [OF within_transaction [OF this]]] show ?thesis
    unfolding sql_put_secret_def by simp
qed

lemma within_reserve: "requests_within 16 (sql_reserve_secret_row_id l dr)"
proof -
  have "requests_within (1 + 1) (and_then (request l ExecuteFailed (\<lambda>db. Some ((), bump_counter db))) (\<lambda>_. next_row_id l dr))"
    by (intro within_and_then within_request within_checks)
  from within_retry [OF within_transaction [OF this]] show ?thesis
    unfolding sql_reserve_secret_row_id_def by (rule within_mono) simp
qed

lemma within_save_relay_policy: "requests_within 16 (sql_save_relay_policy l dr row)"
proof -
  have "requests_within 3 (max_policy_id l dr)"
    unfolding max_policy_id_def by (intro within_read within_query within_none)
  then have "requests_within 3 (and_then (max_policy_id l dr) (\<lambda>m. ok_act (m + 1)))"
    by (intro within_read within_none)
  then have id: "requests_within 3 (if rr_id row \<noteq> 0 then ok_act (rr_id row)
               else case eid of Some e \<Rightarrow> ok_act e | None \<Rightarrow> and_then (max_policy_id l dr) (\<lambda>m. ok_act (m + 1)))" for eid
    by (auto intro: within_mono [OF within_none(1)] split: option.split)
  have "requests_within (3 + (0 + (3 + 6))) (sql_save_relay_policy l dr row)"
    unfolding sql_save_relay_policy_def
    by (intro within_and_then within_query within_none id within_write)
  then show ?thesis by (rule within_mono) simp
qed

lemma within_append_audit: "requests_within 16 (sql_append_audit l dr cr rec)"
proof -
  have "requests_within 3 (sql_last_audit l dr)"
    unfolding sql_last_audit_def by (intro within_read within_query within_none)
  then have "requests_within (3 + 6) (sql_append_audit l dr cr rec)"
    unfolding sql_append_audit_def Let_def by (intro within_and_then within_write)
  then show ?thesis by (rule within_mono) simp
qed

lemma within_health: "requests_within 16 (health l dr)"
proof -
  have "requests_within 3 (fsync_barrier l)" "requests_within 3 (sql_get_meta l dr k)" for k
    unfolding fsync_barrier_def sql_get_meta_def by (intro within_read within_query within_none)+
  then have "requests_within ((3 + 0) + (3 + 0)) (health l dr)"
    unfolding health_def by (intro within_and_then within_health_probe within_none)
  then show ?thesis by (rule within_mono) simp
qed

lemma within_writes:
  "requests_within 16 (sql_put_meta l k v)" "requests_within 16 (sql_save_keyslot l dr slot)"
  "requests_within 16 (sql_save_bearer l b)" "requests_within 16 (sql_revoke_bearers_for_relay l k)"
  "requests_within 16 (sql_save_remote_client l c)" "requests_within 16 (sql_revoke_remote_client l k now)"
  "requests_within 16 (sql_save_cert l x)"
  unfolding sql_put_meta_def sql_save_keyslot_def sql_save_bearer_def sql_revoke_bearers_for_relay_def
    sql_save_remote_client_def sql_revoke_remote_client_def sql_save_cert_def
  by (rule within_mono [of 6], (intro within_read within_write within_none)?, simp)+

lemmas write_bounds = within_put_secret [unfolded requests_within_def, rule_format]
  within_reserve [unfolded requests_within_def, rule_format]
  within_append_audit [unfolded requests_within_def, rule_format]
  within_save_relay_policy [unfolded requests_within_def, rule_format]
  within_writes [unfolded requests_within_def, rule_format]
  within_health [unfolded requests_within_def, rule_format]

text \<open>
  C36: no method of the durable store retries without end: each one that writes, and the health
  probe, returns after at most 16 requests, whatever the connection does.
\<close>

theorem writes_send_boundedly:
  "rm_tick (snd (sql_put_secret l dr row s)) \<le> rm_tick s + 16
   \<and> rm_tick (snd (sql_reserve_secret_row_id l dr s)) \<le> rm_tick s + 16
   \<and> rm_tick (snd (sql_append_audit l dr cr rec s)) \<le> rm_tick s + 16
   \<and> rm_tick (snd (sql_save_relay_policy l dr p s)) \<le> rm_tick s + 16
   \<and> rm_tick (snd (sql_put_meta l k v s)) \<le> rm_tick s + 16
   \<and> rm_tick (snd (sql_save_keyslot l dr slot s)) \<le> rm_tick s + 16
   \<and> rm_tick (snd (sql_save_bearer l b s)) \<le> rm_tick s + 16
   \<and> rm_tick (snd (sql_revoke_bearers_for_relay l k s)) \<le> rm_tick s + 16
   \<and> rm_tick (snd (sql_save_remote_client l c s)) \<le> rm_tick s + 16
   \<and> rm_tick (snd (sql_revoke_remote_client l k now s)) \<le> rm_tick s + 16
   \<and> rm_tick (snd (sql_save_cert l x s)) \<le> rm_tick s + 16
   \<and> rm_tick (snd (health l dr s)) \<le> rm_tick s + 16"
  by (intro conjI write_bounds)

section \<open>A secret is stored once\<close>

text \<open>On a database that holds the row id the effect of \<open>put_secret\<close> is a failed check.\<close>

lemma put_effect_cases:
  "(\<exists>e. put_effect dr row db = (Inl e, db))
   \<or> (put_effect dr row db = (Inr (sr_row_id row), db\<lparr>t_secrets := t_secrets db @ [bind_secret_row row]\<rparr>)
      \<and> \<not> id_taken (sr_row_id row) db)"
  by (auto simp: put_effect_def then_effect_def check_failed_def reading_effect_def map_effect_def
      statement_def insert_secret_def on_table_def sql_insert_def split: sum.split)

lemma put_effect_once:
  assumes "put_effect dr row db = (Inr i, db')"
  shows "\<exists>e. put_effect dr row db' = (Inl e, db')"
proof -
  have "db' = db\<lparr>t_secrets := t_secrets db @ [bind_secret_row row]\<rparr>"
    using put_effect_cases [of dr row db] assms by auto
  then have "id_taken (sr_row_id row) db'" by (simp add: id_taken_def)
  then show ?thesis using put_effect_cases [of dr row db'] by auto
qed

lemma transaction_behaves_as: "succeeds_as body f \<Longrightarrow> behaves (transaction l body) f"
  by (rule behavesI) (use transaction_runs in fastforce)+

text \<open>A run leaves the database or adds the row; it never adds the row twice, even through a retry.\<close>

definition secret_added :: "secret_row \<Rightarrow> sql_db \<Rightarrow> sql_db" where
  "secret_added row db = db\<lparr>t_secrets := t_secrets db @ [bind_secret_row row]\<rparr>"

lemma put_once:
  assumes m: "behaves m (put_effect dr row)" and run: "m s = (r, t)"
  shows "rm_db t = rm_db s \<and> (\<exists>e. r = Inl e)
    \<or> rm_db t = secret_added row (rm_db s) \<and> (\<exists>e. put_effect dr row (rm_db t) = (Inl e, rm_db t))"
proof (cases r)
  case (Inr i)
  then have "put_effect dr row (rm_db s) = (Inr i, rm_db t)" using behaves_okD [OF m] run by simp
  with put_effect_cases [of dr row "rm_db s"] put_effect_once [OF this] show ?thesis
    by (auto simp: secret_added_def)
next
  case (Inl e)
  then have "rm_db t = rm_db s \<or> rm_db t = snd (put_effect dr row (rm_db s))" using behaves_errD [OF m] run by simp
  with put_effect_cases [of dr row "rm_db s"] put_effect_once [of dr row "rm_db s"] show ?thesis
    by (fastforce simp: secret_added_def Inl)
qed

lemma retried_put:
  assumes m: "behaves m (put_effect dr row)" and run: "run_retry l m s = (r, t)"
  shows "rm_db t = rm_db s \<and> (\<exists>e. r = Inl e) \<or> rm_db t = secret_added row (rm_db s)"
proof -
  obtain r0 u where first: "m s = (r0, u)" by fastforce
  show ?thesis
  proof (cases "r = r0 \<and> t = u")
    case True
    then show ?thesis using put_once [OF m first] by auto
  next
    case False
    then obtain e where e: "r0 = Inl e" "and_then (reconnect l) (\<lambda>_. m) u = (r, t)"
      using run first by (cases r0) (auto simp: run_retry_def run_simps split: if_splits)
    obtain r1 v where rec: "reconnect l u = (r1, v)" by fastforce
    then have v: "rm_db v = rm_db u" using reconnect_db [of l u] by simp
    show ?thesis
    proof (cases r1)
      case (Inl e')
      then show ?thesis using e rec v put_once [OF m first] by (auto simp: and_then_def)
    next
      case (Inr x)
      then have again: "m v = (r, t)" using e(2) rec by (simp add: and_then_def)
      from put_once [OF m first] put_once [OF m again] v show ?thesis
        using behaves_errD [OF m, of v] behaves_okD [OF m, of v] again by (cases r) auto
    qed
  qed
qed

text \<open>
  C19: whatever the connection does, requests executed and reported as failed or expired included,
  \<open>put_secret\<close> leaves the database as it was or adds the row once; it reports success only when it
  added it.
\<close>

theorem put_secret_at_most_once:
  assumes "sql_put_secret l dr row s = (r, t)"
  shows "rm_db t = rm_db s \<and> (\<exists>e. r = Inl e)
    \<or> rm_db t = (rm_db s)\<lparr>t_secrets := t_secrets (rm_db s) @ [bind_secret_row row]\<rparr>"
proof -
  let ?m = "transaction l (put_secret_body l dr row)"
  have m: "behaves ?m (put_effect dr row)"
    by (intro transaction_behaves_as behaves_succeeds put_secret_body_behaves)
  obtain r0 u where first: "run_retry l ?m s = (r0, u)" by fastforce
  have "rm_db t = rm_db u \<and> (\<forall>e. r0 = Inl e \<longrightarrow> r = Inl e)"
    using assms first fsync_barrier_db
    by (cases r0) (auto simp: sql_put_secret_def durable_def and_then_def run_simps split: prod.splits sum.splits)
  with retried_put [OF m first] show ?thesis by (auto simp: secret_added_def)
qed

section \<open>Rows and their tables\<close>

text \<open>
  C35: every row the store binds has the columns its table declares NOT NULL and satisfies its CHECK,
  so no write fails on its types; a bearer row passes the CHECK exactly when it names a client uid or
  a client id, so a row bound to a pid alone is refused. A bearer or client row that is read back
  carries thumbprints of 32 bytes only.
\<close>

theorem bound_rows_well_typed:
  "well_typed_row secrets_def (bind_secret_row a) \<and> length (bind_secret_row a) = 10
   \<and> well_typed_row keyslots_def (bind_keyslot dr b) \<and> length (bind_keyslot dr b) = 10
   \<and> well_typed_row audit_log_def (bind_audit_record dr c) \<and> length (bind_audit_record dr c) = 9
   \<and> well_typed_row relay_policies_def (bind_relay_policy dr i d)
   \<and> (well_typed_row relay_bearers_def (bind_bearer_row e) \<longleftrightarrow> br_client_uid e \<noteq> None \<or> br_client_id e \<noteq> None)
   \<and> well_typed_row remote_clients_def (bind_remote_client f)
   \<and> well_typed_row certs_def (bind_cert_row h)
   \<and> (deserialize_bearer_row dr r = Inr e' \<longrightarrow> (\<forall>j\<in>set_option (br_dpop_jkt e'). length j = 32))
   \<and> (deserialize_remote_client dr r = Inr f' \<longrightarrow> length (rc_dpop_jkt f') = 32)"
proof (intro conjI impI)
  show "well_typed_row secrets_def (bind_secret_row a)"
    by (simp add: well_typed_row_def secrets_def_def bind_secret_row_def sql_bool_def upt_rec [of _ 10])
  show "well_typed_row keyslots_def (bind_keyslot dr b)" by (rule keyslot_typed)
  show "well_typed_row audit_log_def (bind_audit_record dr c)"
    by (simp add: well_typed_row_def audit_log_def_def bind_audit_record_def)
  show "well_typed_row relay_policies_def (bind_relay_policy dr i d)"
    by (simp add: well_typed_row_def relay_policies_def_def bind_relay_policy_def)
  show "well_typed_row relay_bearers_def (bind_bearer_row e) \<longleftrightarrow> br_client_uid e \<noteq> None \<or> br_client_id e \<noteq> None"
    by (auto simp: well_typed_row_def relay_bearers_def_def bind_bearer_row_def sql_opt_def split: option.splits)
  show "well_typed_row certs_def (bind_cert_row h)"
    by (simp add: well_typed_row_def certs_def_def bind_cert_row_def)
  show "\<forall>j\<in>set_option (br_dpop_jkt e'). length j = 32" if "deserialize_bearer_row dr r = Inr e'"
    using that by (auto simp: deserialize_bearer_row_def and_ok_def opt_jkt_def jkt_from_vec_def
        split: sum.splits option.splits if_splits)
  show "length (rc_dpop_jkt f') = 32" if "deserialize_remote_client dr r = Inr f'"
    using that by (auto simp: deserialize_remote_client_def and_ok_def jkt_from_vec_def
        split: sum.splits if_splits)
qed (simp_all add: client_typed)

text \<open>
  C34: what a row is bound to is read back as the same row, for every kind of row and on the columns
  the statements select; keyslots and policies as far as the JSON text is read back, keyslots that
  are enabled.
\<close>

theorem bound_rows_read_back:
  assumes "json_faithful dr" "detail_faithful dr (ar_detail c)" "ks_enabled b"
    and "\<forall>j\<in>set_option (br_dpop_jkt e). length j = 32" "length (rc_dpop_jkt f) = 32"
  shows "deserialize_secret_row dr (bind_secret_row a) = Inr a
    \<and> deserialize_keyslot dr (columns [0 ..< 9] (bind_keyslot dr b)) = Inr b
    \<and> deserialize_audit_record dr (bind_audit_record dr c) = Inr c
    \<and> deserialize_relay_policy dr (columns [0, 2] (bind_relay_policy dr (rr_id d) d)) = Inr d
    \<and> deserialize_bearer_row dr (bind_bearer_row e) = Inr e
    \<and> deserialize_remote_client dr (bind_remote_client f) = Inr f
    \<and> deserialize_cert_row dr (bind_cert_row h) = Inr h"
  using keyslot_prefix [OF assms(1,3)] audit_codec.unbind_bind [OF assms(2)] policy_codec.unbind_bind [OF assms(1)]
    bearer_codec.unbind_bind [of e dr, OF assms(4)] client_codec.unbind_bind [of f dr, OF assms(5)]
  by (simp add: secret_codec.unbind_bind cert_codec.unbind_bind)

section \<open>Health\<close>

text \<open>
  A store whose meta table has no \<open>schema_version\<close> is never healthy, reachable or not; no code of
  the repository writes that key, so a store \<open>build\<close> has just provisioned is reported unhealthy.
\<close>

theorem unversioned_store_unhealthy:
  assumes "\<forall>r\<in>set (t_meta (rm_db s)). r ! 0 \<noteq> SqlText ''schema_version''"
    and "health l dr s = (Inr h, t)"
  shows "sh_schema_version h = 0 \<and> \<not> is_healthy h"
proof -
  from assms(2) obtain d u v
    where probe: "match_result (fsync_barrier l) (\<lambda>_. ok_act False) (\<lambda>_. ok_act True) s = (Inr d, u)"
    and get: "sql_get_meta l dr ''schema_version'' u = (Inr v, t)"
    and h: "h = \<lparr>sh_durable = d, sh_schema_version = (case v of None \<Rightarrow> 0 | Some t \<Rightarrow>
        (case parse_u32 t of None \<Rightarrow> 0 | Some n \<Rightarrow> n)), sh_profile = (if lk_embedded l then ''embedded'' else ''remote'')\<rparr>"
    unfolding health_def by (elim and_then_InrE) (simp add: ok_act_def)
  have u: "rm_db u = rm_db s"
  proof -
    obtain r0 u0 where f: "fsync_barrier l s = (r0, u0)" by fastforce
    then have "u = u0" using probe by (cases r0) (simp_all add: match_result_def run_simps)
    then show ?thesis using fsync_barrier_db [OF f] by simp
  qed
  have none: "first_row (sql_select [1] (\<lambda>r. r ! 0 = SqlText ''schema_version'') (t_meta (rm_db u))) = None"
  proof -
    have "filter (\<lambda>r. r ! 0 = SqlText ''schema_version'') (t_meta (rm_db u)) = []"
      using assms(1) by (simp add: filter_empty_conv u)
    then show ?thesis by (simp add: sql_select_def first_row_def)
  qed
  have "behaves (sql_get_meta l dr ''schema_version'') (then_effect
      (\<lambda>db. Inr (first_row (sql_select [1] (\<lambda>r. r ! 0 = SqlText ''schema_version'') (t_meta db))))
      (\<lambda>x. reading_effect (\<lambda>_. read_option (\<lambda>r. get_string dr r 0 ''meta.v'') x)))"
    unfolding sql_get_meta_def by (intro behaves_rules)
  from behaves_okD [OF this get] have "v = None"
    using none by (auto simp: then_effect_def reading_effect_def read_option_def)
  then show ?thesis by (simp add: h is_healthy_def)
qed

section \<open>The durable store implements the in-memory store\<close>

lemma provisioned_represents: "represents dr provisioned empty_store"
  by (simp add: represents_def provisioned_def empty_store_def rep_meta_def rep_counter_def
      rep_secrets_def rep_keyslots_def rep_audit_def rep_policies_def rep_keyed_def meta_rows_def)

text \<open>
  C8: the tables of a database represent the fields of the in-memory store; an empty database
  represents the empty store, and every method of the durable store returns what the in-memory
  method returns (a listing in the order of the table) and leaves a database that represents its
  result; when it fails, the database represents the store before or after the call, never anything
  else. Rows to be saved are the ones the code builds: enabled slots and policies, 32-byte
  thumbprints, a principal for the CHECK, a relay id the store gave.
\<close>

theorem libsql_implements_in_mem:
  assumes "expiry_clean l" "json_faithful dr"
    and "ks_enabled slot" "bearer_storable b" "client_storable c" "detail_faithful dr (ar_detail rec)"
    and "limit < 2 ^ 64"
  shows "represents dr provisioned empty_store
    \<and> simulates dr (\<lambda>_. True) (=) (sql_get_meta l dr k) (get_meta k)
    \<and> simulates dr (\<lambda>_. True) (=) (sql_put_meta l k v) (put_meta k v)
    \<and> simulates dr (\<lambda>_. True) (=) (sql_reserve_secret_row_id l dr) reserve_secret_row_id
    \<and> simulates dr secrets_ok (=) (sql_put_secret l dr row) (put_secret row)
    \<and> simulates dr secrets_ok (=) (sql_get_secret_latest l dr k) (get_secret_latest k)
    \<and> simulates dr (\<lambda>_. True) (=) (sql_get_secret_version l dr k version) (get_secret_version k version)
    \<and> simulates dr (\<lambda>_. True) (=) (sql_max_secret_version l dr k) (max_secret_version k)
    \<and> simulates dr (\<lambda>_. True) (=) (sql_list_secret_names l dr) list_secret_names
    \<and> simulates dr (\<lambda>_. True) (=) (sql_list_secret_versions l dr k) (list_secret_versions k)
    \<and> simulates dr (\<lambda>_. True) (=) (sql_save_keyslot l dr slot) (save_keyslot slot)
    \<and> simulates dr (\<lambda>_. True) (=) (sql_load_keyslots l dr) load_keyslots
    \<and> simulates dr (\<lambda>_. True) (=) (sql_load_keyslot l dr i) (load_keyslot i)
    \<and> simulates dr (\<lambda>g. int (length (sd_audit g)) < 2 ^ 63 - 1) (=) (sql_append_audit l dr cr rec) (append_audit cr rec)
    \<and> simulates dr (\<lambda>_. True) (=) (sql_verify_audit_chain l dr cr) (verify_audit_chain cr)
    \<and> simulates dr (\<lambda>_. True) (=) (sql_last_audit l dr) last_audit
    \<and> simulates dr (\<lambda>_. True) (=) (sql_query_audit l dr since limit) (query_audit since limit)
    \<and> simulates dr (policy_storable p) (=) (sql_save_relay_policy l dr p) (save_relay_policy p)
    \<and> simulates dr (\<lambda>_. True) (=) (sql_load_relay_policy l dr k) (load_relay_policy k)
    \<and> simulates dr (\<lambda>_. True) (=) (sql_list_relay_policies l dr) list_relay_policies
    \<and> simulates dr (\<lambda>_. True) (=) (sql_save_bearer l b) (save_bearer b)
    \<and> simulates dr (\<lambda>_. True) (=) (sql_load_bearer l dr k) (load_bearer k)
    \<and> simulates dr (\<lambda>_. True) same_rows (sql_list_bearers_for_relay l dr k) (list_bearers_for_relay k)
    \<and> simulates dr (\<lambda>_. True) (=) (sql_revoke_bearers_for_relay l k) (revoke_bearers_for_relay k)
    \<and> simulates dr (\<lambda>_. True) (=) (sql_save_remote_client l c) (save_remote_client c)
    \<and> simulates dr (\<lambda>_. True) (=) (sql_load_remote_client l dr k) (load_remote_client k)
    \<and> simulates dr (\<lambda>_. True) same_rows (sql_list_remote_clients l dr) list_remote_clients
    \<and> simulates dr (\<lambda>_. True) (=) (sql_revoke_remote_client l k now) (revoke_remote_client k now)
    \<and> simulates dr (\<lambda>_. True) (=) (sql_save_cert l x) (save_cert x)
    \<and> simulates dr (\<lambda>_. True) (=) (sql_load_cert l dr k) (load_cert k)
    \<and> simulates dr (\<lambda>_. True) same_rows (sql_list_certs l dr) list_certs"
  by (simp only: provisioned_represents get_meta_simulates put_meta_simulates [OF assms(1)]
      reserve_simulates [OF assms(1)] put_secret_simulates [OF assms(1)] get_secret_latest_simulates
      get_secret_version_simulates max_secret_version_simulates list_secret_names_simulates
      list_secret_versions_simulates save_keyslot_simulates [OF assms(1,3)]
      load_keyslots_simulates [OF assms(2)] load_keyslot_simulates [OF assms(2)]
      append_audit_simulates [OF assms(1,6)] verify_audit_chain_simulates last_audit_simulates
      query_audit_simulates [OF assms(7)] save_relay_policy_simulates [OF assms(1)]
      load_relay_policy_simulates [OF assms(2)] list_relay_policies_simulates [OF assms(2)]
      save_bearer_simulates [OF assms(1,4)] load_bearer_simulates list_bearers_simulates
      revoke_bearers_simulates [OF assms(1)] save_remote_client_simulates [OF assms(1,5)]
      load_remote_client_simulates list_remote_clients_simulates revoke_remote_client_simulates [OF assms(1)]
      save_cert_simulates [OF assms(1)] load_cert_simulates list_certs_simulates)

end
