(* ===== verification/LibSqlExample.thy ===== *)
theory LibSqlExample
  imports LibSqlSpec
begin

text \<open>
  An instance of the durable store's parameters: a driver whose JSON texts are read back, built from
  a self-delimiting text format, and a link that answers every request. The properties are applied
  to a small store on it.
\<close>

section \<open>A self-delimiting text format\<close>

text \<open>A printer and a reader that leaves the rest of the text.\<close>

locale text_format =
  fixes enc :: "'a \<Rightarrow> string" and dec :: "string \<Rightarrow> ('a \<times> string) option"
  assumes dec_enc [simp]: "dec (enc x @ r) = Some (x, r)"
begin

lemma dec_all: "dec (enc x) = Some (x, [])"
  using dec_enc [of x "[]"] by simp

end

text \<open>A list of booleans, one character each, with a marker before each element and one at the end.\<close>

fun enc_list :: "('a \<Rightarrow> string) \<Rightarrow> 'a list \<Rightarrow> string" where
  "enc_list e [] = ''.''"
| "enc_list e (x # xs) = '','' @ e x @ enc_list e xs"

fun dec_list :: "nat \<Rightarrow> (string \<Rightarrow> ('a \<times> string) option) \<Rightarrow> string \<Rightarrow> ('a list \<times> string) option" where
  "dec_list 0 d s = None"
| "dec_list (Suc n) d [] = None"
| "dec_list (Suc n) d (c # s) =
     (if c = CHR ''.'' then Some ([], s)
      else case d s of
        None \<Rightarrow> None
      | Some (x, s') \<Rightarrow> (case dec_list n d s' of None \<Rightarrow> None | Some (xs, s'') \<Rightarrow> Some (x # xs, s'')))"

text \<open>The length of the text bounds the number of elements.\<close>

definition dec_all_list :: "(string \<Rightarrow> ('a \<times> string) option) \<Rightarrow> string \<Rightarrow> ('a list \<times> string) option" where
  "dec_all_list d s = dec_list (length s) d s"

lemma list_format: "text_format e d \<Longrightarrow> text_format (enc_list e) (dec_all_list d)"
proof
  fix xs :: "'a list" and r
  assume f: "text_format e d"
  have "length (enc_list e xs) \<le> n \<Longrightarrow> dec_list n d (enc_list e xs @ r) = Some (xs, r)" for n
  proof (induction xs arbitrary: n)
    case Nil
    then show ?case by (cases n) simp_all
  next
    case (Cons x xs)
    then obtain m where "n = Suc m" "length (enc_list e xs) \<le> m" by (cases n) auto
    then show ?case using Cons.IH text_format.dec_enc [OF f] by simp
  qed
  then show "dec_all_list d (enc_list e xs @ r) = Some (xs, r)" by (simp add: dec_all_list_def)
qed

definition enc_char :: "char \<Rightarrow> string" where "enc_char c = [c]"

fun dec_char :: "string \<Rightarrow> (char \<times> string) option" where
  "dec_char [] = None"
| "dec_char (c # s) = Some (c, s)"

lemma char_format: "text_format enc_char dec_char"
  by unfold_locales (simp add: enc_char_def)

definition enc_pair :: "('a \<Rightarrow> string) \<Rightarrow> ('b \<Rightarrow> string) \<Rightarrow> 'a \<times> 'b \<Rightarrow> string" where
  "enc_pair e f = (\<lambda>(x, y). e x @ f y)"

definition dec_pair ::
  "(string \<Rightarrow> ('a \<times> string) option) \<Rightarrow> (string \<Rightarrow> ('b \<times> string) option) \<Rightarrow> string \<Rightarrow> (('a \<times> 'b) \<times> string) option" where
  "dec_pair d g s =
     (case d s of None \<Rightarrow> None
      | Some (x, s') \<Rightarrow> (case g s' of None \<Rightarrow> None | Some (y, s'') \<Rightarrow> Some ((x, y), s'')))"

lemma pair_format: "text_format e d \<Longrightarrow> text_format f g \<Longrightarrow> text_format (enc_pair e f) (dec_pair d g)"
  by unfold_locales (auto simp: enc_pair_def dec_pair_def text_format.dec_enc)

text \<open>Any type with a projection into a type that has a format.\<close>

definition enc_via :: "('a \<Rightarrow> 'b) \<Rightarrow> ('b \<Rightarrow> string) \<Rightarrow> 'a \<Rightarrow> string" where
  "enc_via p e x = e (p x)"

definition dec_via :: "('b \<Rightarrow> 'a) \<Rightarrow> (string \<Rightarrow> ('b \<times> string) option) \<Rightarrow> string \<Rightarrow> ('a \<times> string) option" where
  "dec_via q d s = (case d s of None \<Rightarrow> None | Some (y, s') \<Rightarrow> Some (q y, s'))"

lemma via_format: "text_format e d \<Longrightarrow> (\<And>x. q (p x) = x) \<Longrightarrow> text_format (enc_via p e) (dec_via q d)"
  by unfold_locales (simp add: enc_via_def dec_via_def text_format.dec_enc)

abbreviation enc_string :: "string \<Rightarrow> string" where "enc_string \<equiv> enc_list enc_char"
abbreviation dec_string :: "string \<Rightarrow> (string \<times> string) option" where "dec_string \<equiv> dec_all_list dec_char"

text \<open>Numbers in decimal, options as lists, booleans as numbers.\<close>

definition enc_nat :: "nat \<Rightarrow> string" where
  "enc_nat = enc_via dec_nat enc_string"

definition dec_number :: "string \<Rightarrow> (nat \<times> string) option" where
  "dec_number = dec_via (\<lambda>s. case dec_value 0 s of None \<Rightarrow> 0 | Some n \<Rightarrow> n) dec_string"

lemma nat_format: "text_format enc_nat dec_number"
  unfolding enc_nat_def dec_number_def
  by (intro via_format list_format char_format) (simp add: dec_value_dec_nat)

definition enc_word :: "'a::len word \<Rightarrow> string" where "enc_word = enc_via unat enc_nat"
definition dec_word :: "string \<Rightarrow> ('a::len word \<times> string) option" where "dec_word = dec_via word_of_nat dec_number"

lemma word_format: "text_format enc_word dec_word"
  unfolding enc_word_def dec_word_def by (intro via_format nat_format) simp

definition enc_opt :: "('a \<Rightarrow> string) \<Rightarrow> 'a option \<Rightarrow> string" where
  "enc_opt e = enc_via (\<lambda>x. case x of None \<Rightarrow> [] | Some y \<Rightarrow> [y]) (enc_list e)"

definition dec_opt :: "(string \<Rightarrow> ('a \<times> string) option) \<Rightarrow> string \<Rightarrow> ('a option \<times> string) option" where
  "dec_opt d = dec_via (\<lambda>ys. case ys of [] \<Rightarrow> None | y # _ \<Rightarrow> Some y) (dec_all_list d)"

lemma opt_format: "text_format e d \<Longrightarrow> text_format (enc_opt e) (dec_opt d)"
  unfolding enc_opt_def dec_opt_def by (intro via_format list_format) (auto split: option.split)

section \<open>Key derivations and policies as text\<close>

text \<open>A value of an enumeration is written as its position.\<close>

definition position :: "'a list \<Rightarrow> 'a \<Rightarrow> nat" where
  "position xs x = length (takeWhile (\<lambda>y. y \<noteq> x) xs)"

definition enc_enum :: "'a list \<Rightarrow> 'a \<Rightarrow> string" where "enc_enum xs = enc_via (position xs) enc_nat"
definition dec_enum :: "'a list \<Rightarrow> string \<Rightarrow> ('a \<times> string) option" where
  "dec_enum xs = dec_via (\<lambda>i. xs ! i) dec_number"

lemma enum_format: "set xs = UNIV \<Longrightarrow> text_format (enc_enum xs) (dec_enum xs)"
  unfolding enc_enum_def dec_enum_def
proof (intro via_format nat_format)
  fix x :: 'a
  assume "set xs = UNIV"
  then have "\<exists>y\<in>set xs. \<not> y \<noteq> x" by auto
  then have "length (takeWhile (\<lambda>y. y \<noteq> x) xs) < length xs"
    by (induction xs) auto
  from nth_length_takeWhile [OF this] show "xs ! position xs x = x" by (simp add: position_def)
qed

definition providers :: "provider list" where "providers = [Anthropic, Openai, Github, Generic]"
definition methods :: "http_method list" where
  "methods = [Get, Head, Post, Put, Patch, Delete, Connect, Options]"
definition kinds :: "relay_kind list" where "kinds = [Named, Ephemeral]"
definition truths :: "bool list" where "truths = [False, True]"

lemma enums: "set providers = UNIV" "set methods = UNIV" "set kinds = UNIV" "set truths = UNIV"
proof -
  have "x \<in> set providers" for x by (cases x) (simp_all add: providers_def)
  then show "set providers = UNIV" by auto
  have "x \<in> set methods" for x by (cases x) (simp_all add: methods_def)
  then show "set methods = UNIV" by auto
  have "x \<in> set kinds" for x by (cases x) (simp_all add: kinds_def)
  then show "set kinds = UNIV" by auto
  have "x \<in> set truths" for x by (cases x) (simp_all add: truths_def)
  then show "set truths = UNIV" by auto
qed

fun swap_parts :: "swap_mode \<Rightarrow> nat \<times> string \<times> i64" where
  "swap_parts (BaseUrlRepoint base) = (0, base, 0)"
| "swap_parts ProxyMitm = (1, [], 0)"
| "swap_parts (NativeSubToken ttl) = (2, [], ttl)"

definition swap_of :: "nat \<times> string \<times> i64 \<Rightarrow> swap_mode" where
  "swap_of = (\<lambda>(n, base, ttl).
     if n = 0 then BaseUrlRepoint base else if n = 1 then ProxyMitm else NativeSubToken ttl)"

definition kdf_parts :: "kdf \<Rightarrow> argon2_params option" where
  "kdf_parts k = (case k of Argon2id p \<Rightarrow> Some p | HkdfSha256 \<Rightarrow> None)"

definition kdf_of :: "argon2_params option \<Rightarrow> kdf" where
  "kdf_of p = (case p of Some p \<Rightarrow> Argon2id p | None \<Rightarrow> HkdfSha256)"

definition params_parts :: "argon2_params \<Rightarrow> u32 \<times> u32 \<times> u32" where
  "params_parts p = (ap_m_kib p, ap_t_cost p, ap_p_lanes p)"

definition params_of :: "u32 \<times> u32 \<times> u32 \<Rightarrow> argon2_params" where
  "params_of = (\<lambda>(m, t, p). \<lparr>ap_m_kib = m, ap_t_cost = t, ap_p_lanes = p\<rparr>)"

definition enc_kdf :: "kdf \<Rightarrow> string" where
  "enc_kdf = enc_via kdf_parts (enc_opt (enc_via params_parts (enc_pair enc_word (enc_pair enc_word enc_word))))"

definition dec_kdf :: "string \<Rightarrow> (kdf \<times> string) option" where
  "dec_kdf = dec_via kdf_of (dec_opt (dec_via params_of (dec_pair dec_word (dec_pair dec_word dec_word))))"

lemma kdf_format: "text_format enc_kdf dec_kdf"
  unfolding enc_kdf_def dec_kdf_def
  by (intro via_format opt_format pair_format word_format)
    (simp_all add: params_parts_def params_of_def kdf_parts_def kdf_of_def split: kdf.split)

type_synonym policy_parts =
  "(string \<times> relay_kind \<times> provider \<times> string \<times> swap_mode) \<times>
   (string list \<times> string list \<times> http_method list) \<times>
   (i64 \<times> u32 option \<times> u64 option \<times> u64 option) \<times> bool \<times> bool"

definition policy_parts :: "relay_policy \<Rightarrow> policy_parts" where
  "policy_parts p =
     ((rp_relay_id p, rp_kind p, rp_provider p, rp_secret_name p, rp_swap p),
      (rp_host_allow p, rp_path_allow p, rp_method_allow p),
      (rp_policy_ttl_secs p, rp_rate_per_min p, rp_quota_total_requests p, rp_quota_total_bytes p),
      rp_enabled p, rp_revoked p)"

definition policy_of :: "policy_parts \<Rightarrow> relay_policy" where
  "policy_of = (\<lambda>((i, k, pr, n, sw), (hs, ps, ms), (ttl, r, qr, qb), en, rev).
     \<lparr>rp_relay_id = i, rp_kind = k, rp_provider = pr, rp_secret_name = n, rp_swap = sw,
      rp_host_allow = hs, rp_path_allow = ps, rp_method_allow = ms, rp_policy_ttl_secs = ttl,
      rp_rate_per_min = r, rp_quota_total_requests = qr, rp_quota_total_bytes = qb,
      rp_enabled = en, rp_revoked = rev\<rparr>)"

definition enc_policy :: "relay_policy \<Rightarrow> string" where
  "enc_policy = enc_via policy_parts
     (enc_pair (enc_pair enc_string (enc_pair (enc_enum kinds) (enc_pair (enc_enum providers)
        (enc_pair enc_string (enc_via swap_parts (enc_pair enc_nat (enc_pair enc_string enc_word)))))))
     (enc_pair (enc_pair (enc_list enc_string) (enc_pair (enc_list enc_string) (enc_list (enc_enum methods))))
     (enc_pair (enc_pair enc_word (enc_pair (enc_opt enc_word) (enc_pair (enc_opt enc_word) (enc_opt enc_word))))
     (enc_pair (enc_enum truths) (enc_enum truths)))))"

definition dec_policy :: "string \<Rightarrow> (relay_policy \<times> string) option" where
  "dec_policy = dec_via policy_of
     (dec_pair (dec_pair dec_string (dec_pair (dec_enum kinds) (dec_pair (dec_enum providers)
        (dec_pair dec_string (dec_via swap_of (dec_pair dec_number (dec_pair dec_string dec_word)))))))
     (dec_pair (dec_pair (dec_all_list dec_string) (dec_pair (dec_all_list dec_string) (dec_all_list (dec_enum methods))))
     (dec_pair (dec_pair dec_word (dec_pair (dec_opt dec_word) (dec_pair (dec_opt dec_word) (dec_opt dec_word))))
     (dec_pair (dec_enum truths) (dec_enum truths)))))"

lemma swap_format:
  "text_format (enc_via swap_parts (enc_pair enc_nat (enc_pair enc_string enc_word)))
     (dec_via swap_of (dec_pair dec_number (dec_pair dec_string dec_word)))"
proof (intro via_format pair_format list_format char_format nat_format word_format)
  show "swap_of (swap_parts x) = x" for x by (cases x) (simp_all add: swap_of_def)
qed

lemma policy_format: "text_format enc_policy dec_policy"
  unfolding enc_policy_def dec_policy_def
  by (rule via_format, intro pair_format swap_format list_format char_format word_format opt_format enum_format enums)
    (simp add: policy_parts_def policy_of_def)

section \<open>The driver and the link\<close>

definition parsed :: "(string \<Rightarrow> ('a \<times> string) option) \<Rightarrow> string \<Rightarrow> string + 'a" where
  "parsed d s = (case d s of Some (x, []) \<Rightarrow> Inr x | _ \<Rightarrow> Inl ''syntax'')"

text \<open>Details are read back when they are an empty object, all the examples store.\<close>

definition toy_driver :: driver where
  "toy_driver =
     \<lparr>dr_bad_column = (\<lambda>t v. t), dr_debug = (\<lambda>v. []), dr_kdf_text = enc_kdf, dr_kdf_parse = parsed dec_kdf,
      dr_policy_text = enc_policy, dr_policy_parse = parsed dec_policy,
      dr_detail_text = (\<lambda>j. ''{}''), dr_detail_parse = (\<lambda>s. Inr (JObj []))\<rparr>"

lemma toy_driver_faithful: "json_faithful toy_driver" "detail_faithful toy_driver (JObj [])"
  by (simp_all add: json_faithful_def detail_faithful_def toy_driver_def parsed_def
      text_format.dec_all [OF kdf_format] text_format.dec_all [OF policy_format])

definition toy_link :: link where
  "toy_link = \<lparr>lk_fault = (\<lambda>_. None), lk_connect = (\<lambda>_. None), lk_constraint = (\<lambda>_. []), lk_embedded = False\<rparr>"

lemma toy_link_clean: "expiry_clean toy_link"
  by (simp add: expiry_clean_def toy_link_def)

section \<open>The properties on an example\<close>

text \<open>A database in which one row id has been reserved, and the row for it.\<close>

definition toy_remote :: remote where
  "toy_remote = \<lparr>rm_db = provisioned\<lparr>t_row_id_counter := [[SqlInteger 1, SqlInteger 1]]\<rparr>, rm_tick = 0\<rparr>"

definition toy_slot :: keyslot where
  "toy_slot = \<lparr>ks_id = 1, ks_factor = Usb, ks_label = ''token'', ks_kdf = HkdfSha256, ks_salt = [],
     ks_usb_partition_uuid = Some ''abcd'', ks_wrap_nonce = replicate 24 0, ks_wrapped_dek = replicate 48 0,
     ks_dek_generation = 1, ks_enabled = True\<rparr>"

definition toy_event :: audit_record where
  "toy_event = \<lparr>ar_seq = 1, ar_ts = [], ar_actor_uid = Some 1000, ar_event_type = ''lock'', ar_subject = None,
     ar_detail = JObj [], ar_outcome = Ok, ar_prev_hash = replicate 32 0, ar_row_hash = replicate 32 0\<rparr>"

definition toy_client :: remote_client where
  "toy_client = \<lparr>rc_client_id = ''laptop'', rc_dpop_jkt = replicate 32 5, rc_enabled = True,
     rc_hardware_bound = True, rc_created_at_ms = 0, rc_revoked_at_ms = None\<rparr>"

lemma toy_request:
  "request toy_link wrap f s =
     (case f (rm_db s) of None \<Rightarrow> (Inl (wrap []), sent s) | Some (x, db) \<Rightarrow> (Inr x, (sent s)\<lparr>rm_db := db\<rparr>))"
  by (simp add: request_def toy_link_def split: option.split)

lemma toy_put: "fst (sql_put_secret toy_link toy_driver toy_secret toy_remote) = Inr 1"
  by (simp add: sql_put_secret_def durable_def transaction_def run_retry_def match_result_def put_secret_body_def
      insert_unless_taken_def insert_next_version_def next_row_id_def row_id_taken_def highest_version_def
      max_version_query_def query_def toy_request run_simps and_then_def lift_read_def toy_remote_def
      provisioned_def sql_select_def columns_def reading toy_secret_def i64_le_def i64_lt_def insert_secret_def
      on_table_def sql_insert_def well_typed_row_def secrets_def_def bind_secret_row_def upt_rec [of _ 10]
      sent_def fsync_barrier_def query_one_def)

lemma put_secret_at_most_once_witness:
  "\<exists>t. sql_put_secret toy_link toy_driver toy_secret toy_remote = (Inr 1, t)
     \<and> rm_db t = (rm_db toy_remote)\<lparr>t_secrets := t_secrets (rm_db toy_remote) @ [bind_secret_row toy_secret]\<rparr>"
proof -
  obtain t where run: "sql_put_secret toy_link toy_driver toy_secret toy_remote = (Inr 1, t)"
    using toy_put by (metis prod.collapse)
  from put_secret_at_most_once [OF run] run show ?thesis by auto
qed

lemma libsql_implements_in_mem_witness:
  "simulates toy_driver (\<lambda>_. True) (=) (sql_save_bearer toy_link toy_row) (save_bearer toy_row)
   \<and> simulates toy_driver (policy_storable \<lparr>rr_id = 0, rr_policy = base_policy\<rparr>) (=)
       (sql_save_relay_policy toy_link toy_driver \<lparr>rr_id = 0, rr_policy = base_policy\<rparr>)
       (save_relay_policy \<lparr>rr_id = 0, rr_policy = base_policy\<rparr>)
   \<and> policy_storable \<lparr>rr_id = 0, rr_policy = base_policy\<rparr> empty_store
   \<and> represents toy_driver provisioned empty_store"
proof -
  have "bearer_storable toy_row" "client_storable toy_client" "ks_enabled toy_slot"
    "detail_faithful toy_driver (ar_detail toy_event)"
    using toy_driver_faithful(2)
    by (simp_all add: bearer_storable_def client_storable_def toy_client_def toy_slot_def toy_event_def)
  from libsql_implements_in_mem [OF toy_link_clean toy_driver_faithful(1) this(3,1,2,4), of 5]
  show ?thesis by (simp add: policy_storable_def base_policy_def empty_store_def)
qed

lemma bound_rows_well_typed_witness:
  "well_typed_row relay_bearers_def (bind_bearer_row toy_row)
   \<and> (\<exists>c. deserialize_remote_client toy_driver (bind_remote_client toy_client) = Inr c \<and> length (rc_dpop_jkt c) = 32)"
proof -
  have read: "deserialize_remote_client toy_driver (bind_remote_client toy_client) = Inr toy_client"
    by (rule client_codec.unbind_bind) (simp add: toy_client_def)
  from bound_rows_well_typed [of toy_secret toy_driver toy_slot toy_event 1 "\<lparr>rr_id = 1, rr_policy = base_policy\<rparr>"
      toy_row toy_client _ "bind_remote_client toy_client" toy_row toy_client] read
  show ?thesis by simp
qed

lemma bound_rows_read_back_witness:
  "deserialize_bearer_row toy_driver (bind_bearer_row toy_row) = Inr toy_row
   \<and> deserialize_relay_policy toy_driver
       (columns [0, 2] (bind_relay_policy toy_driver 1 \<lparr>rr_id = 1, rr_policy = base_policy\<rparr>))
     = Inr \<lparr>rr_id = 1, rr_policy = base_policy\<rparr>"
  using bound_rows_read_back [OF toy_driver_faithful(1), of toy_event toy_slot toy_row toy_client toy_secret
      "\<lparr>rr_id = 1, rr_policy = base_policy\<rparr>"] toy_driver_faithful(2)
  by (simp add: toy_event_def toy_slot_def toy_client_def)

lemma unversioned_store_unhealthy_witness:
  "\<exists>h t. health toy_link toy_driver toy_remote = (Inr h, t) \<and> sh_durable h \<and> sh_schema_version h = 0 \<and> \<not> is_healthy h"
proof -
  obtain h t where run: "health toy_link toy_driver toy_remote = (Inr h, t)" "sh_durable h"
    by (auto simp: health_def fsync_barrier_def query_one_def query_def run_retry_def match_result_def toy_request
        run_simps and_then_def toy_remote_def sql_get_meta_def provisioned_def sql_select_def read_row_def sent_def)
  have "\<forall>r\<in>set (t_meta (rm_db toy_remote)). r ! 0 \<noteq> SqlText ''schema_version''"
    by (simp add: toy_remote_def provisioned_def)
  from unversioned_store_unhealthy [OF this run(1)] run show ?thesis by blast
qed

end
