(* ===== verification/NetAddr.thy ===== *)
theory NetAddr
  imports Codec Text
begin

text \<open>
  What the daemon's configuration uses of the standard library on addresses: the parsers of \<open>core::net\<close> behind \<open>str::parse::<Ipv4Addr>\<close> and \<open>str::parse::<Ipv6Addr>\<close>, transcribed with
  their cursor: a reader takes the rest of the text and returns what it read and what is left.
  The main lemma is that the IPv4 parser accepts the canonical dotted quads and nothing else.
\<close>

section \<open>Reading numbers\<close>

definition to_digit :: "nat \<Rightarrow> char \<Rightarrow> nat option" where
  "to_digit radix c =
     (case to_digit16 c of Some d \<Rightarrow> if d < radix then Some d else None | None \<Rightarrow> None)"

text \<open>The digits at the cursor, as many as there are, and the rest.\<close>

fun read_digits :: "nat \<Rightarrow> string \<Rightarrow> nat list \<times> string" where
  "read_digits radix [] = ([], [])"
| "read_digits radix (c # cs) =
     (case to_digit radix c of
        None \<Rightarrow> ([], c # cs)
      | Some d \<Rightarrow> (let (ds, r) = read_digits radix cs in (d # ds, r)))"

definition digits_value :: "nat \<Rightarrow> nat list \<Rightarrow> nat" where
  "digits_value radix ds = foldl (\<lambda>acc d. radix * acc + d) 0 ds"

text \<open>\<open>read_number\<close> with a bound on the digits; \<open>limit\<close> is the first value the type cannot hold.\<close>

definition read_number :: "nat \<Rightarrow> nat \<Rightarrow> bool \<Rightarrow> nat \<Rightarrow> string \<Rightarrow> (nat \<times> string) option" where
  "read_number radix max_digits allow_zero_prefix limit s =
     (let (ds, r) = read_digits radix s; v = digits_value radix ds in
      if length ds > max_digits \<or> \<not> v < limit \<or> ds = [] then None
      else if \<not> allow_zero_prefix \<and> hd ds = 0 \<and> length ds > 1 then None
      else Some (v, r))"

definition read_given_char :: "char \<Rightarrow> string \<Rightarrow> string option" where
  "read_given_char c s = (case s of [] \<Rightarrow> None | d # r \<Rightarrow> if c = d then Some r else None)"

definition read_separator ::
  "char \<Rightarrow> nat \<Rightarrow> (string \<Rightarrow> ('a \<times> string) option) \<Rightarrow> string \<Rightarrow> ('a \<times> string) option" where
  "read_separator sep index inner s =
     (if index > 0
      then (case read_given_char sep s of None \<Rightarrow> None | Some r \<Rightarrow> inner r)
      else inner s)"

section \<open>IPv4\<close>

text \<open>The loop over the four octets, from the \<open>i\<close>-th on.\<close>

fun read_octets :: "nat \<Rightarrow> nat \<Rightarrow> string \<Rightarrow> (nat list \<times> string) option" where
  "read_octets 0 i s = Some ([], s)"
| "read_octets (Suc n) i s =
     (case read_separator (CHR ''.'') i (read_number 10 3 False 256) s of
        None \<Rightarrow> None
      | Some (v, r) \<Rightarrow> (case read_octets n (Suc i) r of None \<Rightarrow> None | Some (vs, q) \<Rightarrow> Some (v # vs, q)))"

definition read_ipv4_addr :: "string \<Rightarrow> (nat list \<times> string) option" where
  "read_ipv4_addr s = read_octets 4 0 s"

definition parse_ipv4 :: "string \<Rightarrow> nat list option" where
  "parse_ipv4 s =
     (if length s > 15 then None
      else case read_ipv4_addr s of Some (octets, []) \<Rightarrow> Some octets | _ \<Rightarrow> None)"

fun ipv4_is_loopback :: "nat list \<Rightarrow> bool" where
  "ipv4_is_loopback octets = (hd octets = 127)"

section \<open>IPv6\<close>

text \<open>
  \<open>read_groups\<close> from the \<open>i\<close>-th group of a slice with \<open>n\<close> groups left: the groups, whether the last
  two came from an embedded IPv4 address, and the rest.
\<close>

fun read_groups :: "nat \<Rightarrow> nat \<Rightarrow> string \<Rightarrow> nat list \<times> bool \<times> string" where
  "read_groups 0 i s = ([], False, s)"
| "read_groups (Suc n) i s =
     (case (if n > 0 then read_separator (CHR '':'') i read_ipv4_addr s else None) of
        Some (o4, r) \<Rightarrow> ([256 * o4 ! 0 + o4 ! 1, 256 * o4 ! 2 + o4 ! 3], True, r)
      | None \<Rightarrow>
          (case read_separator (CHR '':'') i (read_number 16 4 True 65536) s of
             None \<Rightarrow> ([], False, s)
           | Some (g, r) \<Rightarrow> (let (gs, v4, q) = read_groups n (Suc i) r in (g # gs, v4, q))))"

definition read_ipv6_addr :: "string \<Rightarrow> (nat list \<times> string) option" where
  "read_ipv6_addr s =
     (let (head, head_ipv4, r) = read_groups 8 0 s in
      if length head = 8 then Some (head, r)
      else if head_ipv4 then None
      else case read_given_char (CHR '':'') r of
        None \<Rightarrow> None
      | Some r1 \<Rightarrow>
          (case read_given_char (CHR '':'') r1 of
             None \<Rightarrow> None
           | Some r2 \<Rightarrow>
               (let (tail, _, q) = read_groups (8 - (length head + 1)) 0 r2 in
                Some (head @ replicate (8 - length head - length tail) 0 @ tail, q))))"

definition parse_ipv6 :: "string \<Rightarrow> nat list option" where
  "parse_ipv6 s = (case read_ipv6_addr s of Some (groups, []) \<Rightarrow> Some groups | _ \<Rightarrow> None)"

definition ipv6_is_loopback :: "nat list \<Rightarrow> bool" where
  "ipv6_is_loopback groups \<longleftrightarrow> groups = [0, 0, 0, 0, 0, 0, 0, 1]"

section \<open>Canonical dotted quads\<close>

definition digit_char :: "nat \<Rightarrow> char" where
  "digit_char d = char_of (48 + d)"

definition dotted_quad :: "nat \<Rightarrow> nat \<Rightarrow> nat \<Rightarrow> nat \<Rightarrow> string" where
  "dotted_quad a b c d = dec_nat a @ ''.'' @ dec_nat b @ ''.'' @ dec_nat c @ ''.'' @ dec_nat d"

lemma to_digit_10: "to_digit 10 c = Some d \<longleftrightarrow> d < 10 \<and> c = digit_char d"
proof
  assume *: "to_digit 10 c = Some d"
  then have "d < 10" by (simp add: to_digit_def split: option.splits if_splits)
  moreover have "(of_char c :: nat) = 48 + d"
    using * by (auto simp: to_digit_def to_digit16_def Let_def split: if_splits)
  ultimately show "d < 10 \<and> c = digit_char d" by (metis char_of_char digit_char_def)
next
  assume "d < 10 \<and> c = digit_char d"
  then show "to_digit 10 c = Some d"
    by (simp add: to_digit_def to_digit16_def digit_char_def Let_def)
qed

definition stops :: "string \<Rightarrow> bool" where
  "stops r \<longleftrightarrow> (case r of [] \<Rightarrow> True | c # _ \<Rightarrow> to_digit 10 c = None)"

lemma stops_simps [simp]: "stops []" "stops (CHR ''.'' # r)"
  by (simp_all add: stops_def to_digit_def to_digit16_def)

lemma read_digits_iff:
  "read_digits 10 s = (ds, r) \<longleftrightarrow>
     s = map digit_char ds @ r \<and> (\<forall>d\<in>set ds. d < 10) \<and> stops r"
proof (induction s arbitrary: ds)
  case Nil
  show ?case by auto
next
  case (Cons c cs)
  show ?case
  proof (cases "to_digit 10 c")
    case None
    then have "c \<noteq> digit_char d" if "d < 10" for d using that by (metis option.distinct(1) to_digit_10)
    with None show ?thesis by (cases ds) (auto simp: stops_def)
  next
    case (Some d)
    then have d: "d < 10" "c = digit_char d" by (auto simp: to_digit_10)
    have inj: "digit_char d = digit_char e \<longleftrightarrow> d = e" if "e < 10" for e
      using that d by (metis option.inject to_digit_10)
    show ?thesis
    proof (cases ds)
      case Nil
      then show ?thesis using Some by (auto simp: stops_def split: prod.split)
    next
      case (Cons e es)
      have "read_digits 10 (c # cs) = (e # es, r) \<longleftrightarrow> e = d \<and> read_digits 10 cs = (es, r)"
        using Some by (auto split: prod.split)
      also have "\<dots> \<longleftrightarrow> c # cs = map digit_char (e # es) @ r \<and> (\<forall>d\<in>set (e # es). d < 10) \<and> stops r"
        using Cons.IH[of es] d inj[of e] by auto
      finally show ?thesis using Cons by simp
    qed
  qed
qed

lemma digits_value_snoc: "digits_value 10 (ds @ [d]) = 10 * digits_value 10 ds + d"
  by (simp add: digits_value_def)

lemma digits_value_pos: "ds \<noteq> [] \<Longrightarrow> hd ds \<noteq> 0 \<Longrightarrow> digits_value 10 ds > 0"
  by (induction ds rule: rev_induct) (auto simp: digits_value_snoc digits_value_def hd_append split: if_splits)

lemma dec_nat_digits_value:
  assumes "ds \<noteq> []" "\<forall>d\<in>set ds. d < 10" "hd ds = 0 \<longrightarrow> length ds = 1"
  shows "dec_nat (digits_value 10 ds) = map digit_char ds"
  using assms
proof (induction ds rule: rev_induct)
  case Nil
  then show ?case by simp
next
  case (snoc d ds)
  show ?case
  proof (cases "ds = []")
    case True
    then show ?thesis using snoc.prems
      by (subst dec_nat.simps) (simp add: digits_value_def digit_char_def)
  next
    case False
    with snoc.prems have hd: "hd ds \<noteq> 0" by (auto simp: hd_append)
    have pos: "digits_value 10 ds > 0" by (rule digits_value_pos [OF False hd])
    have d: "d < 10" using snoc.prems(2) by simp
    have "dec_nat (digits_value 10 ds) = map digit_char ds"
      using snoc.IH [OF False] snoc.prems(2) hd by simp
    moreover have "dec_nat (digits_value 10 (ds @ [d]))
        = dec_nat (digits_value 10 ds) @ [digit_char d]"
      using pos d by (subst dec_nat.simps) (simp add: digits_value_snoc digit_char_def)
    ultimately show ?thesis by simp
  qed
qed

lemma dec_nat_digits:
  obtains ds where "ds \<noteq> []" "\<forall>d\<in>set ds. d < 10" "hd ds = 0 \<longrightarrow> length ds = 1"
    "digits_value 10 ds = v" "dec_nat v = map digit_char ds" "v < 10 ^ n \<longrightarrow> n > 0 \<longrightarrow> length ds \<le> n"
proof -
  have "\<exists>ds. ds \<noteq> [] \<and> (\<forall>d\<in>set ds. d < 10) \<and> (hd ds = 0 \<longrightarrow> length ds = 1) \<and> digits_value 10 ds = v
      \<and> (v < 10 ^ n \<longrightarrow> n > 0 \<longrightarrow> length ds \<le> n) \<and> (0 < v \<longrightarrow> hd ds \<noteq> 0)" for v n
  proof (induction v arbitrary: n rule: less_induct)
    case (less v)
    show ?case
    proof (cases "v < 10")
      case True
      then show ?thesis by (intro exI[of _ "[v]"]) (auto simp: digits_value_def)
    next
      case False
      then obtain ds where ds: "ds \<noteq> []" "\<forall>d\<in>set ds. d < 10" "digits_value 10 ds = v div 10" "hd ds \<noteq> 0"
          "v div 10 < 10 ^ (n - 1) \<longrightarrow> n - 1 > 0 \<longrightarrow> length ds \<le> n - 1"
        using less.IH [of "v div 10" "n - 1"] by auto
      have "length ds \<le> n - 1 \<and> n > 0" if "v < 10 ^ n"
      proof (cases n)
        case (Suc m)
        with that False have m: "m > 0" by (cases m) auto
        have "v div 10 < 10 ^ m" using that Suc by (simp add: less_mult_imp_div_less mult.commute)
        then show ?thesis using ds(5) m Suc by simp
      qed (use that False in simp)
      then show ?thesis using ds
        by (intro exI[of _ "ds @ [v mod 10]"]) (auto simp: digits_value_snoc hd_append)
    qed
  qed
  from this [of v n] obtain ds where ds: "ds \<noteq> []" "\<forall>d\<in>set ds. d < 10" "hd ds = 0 \<longrightarrow> length ds = 1"
    "digits_value 10 ds = v" "v < 10 ^ n \<longrightarrow> n > 0 \<longrightarrow> length ds \<le> n" by (elim exE conjE)
  have "dec_nat v = map digit_char ds" using dec_nat_digits_value [OF ds(1-3)] ds(4) by simp
  then show ?thesis by (intro that [OF ds(1-4) _ ds(5)])
qed

lemma read_octet_iff:
  "read_number 10 3 False 256 s = Some (v, r) \<longleftrightarrow> v < 256 \<and> s = dec_nat v @ r \<and> stops r"
proof
  assume *: "read_number 10 3 False 256 s = Some (v, r)"
  obtain ds q where q: "read_digits 10 s = (ds, q)" by fastforce
  have "v = digits_value 10 ds" "v < 256" "ds \<noteq> []" "hd ds = 0 \<longrightarrow> \<not> length ds > 1" "q = r"
    using * unfolding read_number_def q Let_def by (auto split: if_splits)
  moreover from this have "hd ds = 0 \<longrightarrow> length ds = 1" by (cases ds) auto
  ultimately have ds: "read_digits 10 s = (ds, r)" "v = digits_value 10 ds" "v < 256" "ds \<noteq> []"
      "hd ds = 0 \<longrightarrow> length ds = 1" using q by auto
  have "s = map digit_char ds @ r" "\<forall>d\<in>set ds. d < 10" "stops r"
    using ds(1) by (auto simp: read_digits_iff)
  then show "v < 256 \<and> s = dec_nat v @ r \<and> stops r"
    using dec_nat_digits_value [of ds] ds by simp
next
  assume *: "v < 256 \<and> s = dec_nat v @ r \<and> stops r"
  obtain ds where ds: "ds \<noteq> []" "\<forall>d\<in>set ds. d < 10" "hd ds = 0 \<longrightarrow> length ds = 1"
    "digits_value 10 ds = v" "dec_nat v = map digit_char ds" "v < 10 ^ 3 \<longrightarrow> (3::nat) > 0 \<longrightarrow> length ds \<le> 3"
    by (rule dec_nat_digits)
  have "read_digits 10 s = (ds, r)" using * ds by (simp add: read_digits_iff)
  then show "read_number 10 3 False 256 s = Some (v, r)"
    using * ds by (auto simp: read_number_def Let_def)
qed

lemma read_separator_iff:
  "read_separator sep i inner s = Some (x, r) \<longleftrightarrow>
     (if i > 0 then \<exists>q. s = sep # q \<and> inner q = Some (x, r) else inner s = Some (x, r))"
  by (auto simp: read_separator_def read_given_char_def split: list.splits)

lemma read_octets_iff:
  "read_octets (Suc n) i s = Some (os, r) \<longleftrightarrow>
     (\<exists>v vs q. os = v # vs \<and> read_separator (CHR ''.'') i (read_number 10 3 False 256) s = Some (v, q)
        \<and> read_octets n (Suc i) q = Some (vs, r))"
  by (auto split: option.splits)

lemma read_ipv4_iff:
  "read_ipv4_addr s = Some (os, r) \<longleftrightarrow>
     (\<exists>a b c d. a < 256 \<and> b < 256 \<and> c < 256 \<and> d < 256 \<and> os = [a, b, c, d]
        \<and> s = dotted_quad a b c d @ r \<and> stops r)"
proof -
  have "read_ipv4_addr s = Some (os, r) \<longleftrightarrow>
      (\<exists>a s1 b s2 c s3 d. os = [a, b, c, d]
        \<and> read_number 10 3 False 256 s = Some (a, CHR ''.'' # s1)
        \<and> read_number 10 3 False 256 s1 = Some (b, CHR ''.'' # s2)
        \<and> read_number 10 3 False 256 s2 = Some (c, CHR ''.'' # s3)
        \<and> read_number 10 3 False 256 s3 = Some (d, r))"
    by (auto simp: read_ipv4_addr_def read_octets_iff read_separator_iff eval_nat_numeral
        simp del: read_octets.simps(2))
  then show ?thesis
    by (simp only: read_octet_iff dotted_quad_def) auto
qed

lemma length_dec_nat_octet: "v < 256 \<Longrightarrow> length (dec_nat v) \<le> 3"
proof -
  assume v: "v < 256"
  obtain ds where "dec_nat v = map digit_char ds" "v < 10 ^ 3 \<longrightarrow> (3::nat) > 0 \<longrightarrow> length ds \<le> 3"
    by (rule dec_nat_digits)
  with v show ?thesis by simp
qed

lemma parse_ipv4_dotted_quad:
  "parse_ipv4 s = Some os \<longleftrightarrow>
     (\<exists>a b c d. a < 256 \<and> b < 256 \<and> c < 256 \<and> d < 256 \<and> os = [a, b, c, d] \<and> s = dotted_quad a b c d)"
proof -
  have "length (dotted_quad a b c d) \<le> 15" if "a < 256" "b < 256" "c < 256" "d < 256" for a b c d
    using that [THEN length_dec_nat_octet] by (simp add: dotted_quad_def)
  moreover have "parse_ipv4 s = Some os \<longleftrightarrow> length s \<le> 15 \<and> read_ipv4_addr s = Some (os, [])"
    by (auto simp: parse_ipv4_def split: option.splits list.splits)
  ultimately show ?thesis by (auto simp: read_ipv4_iff)
qed

text \<open>
  The IPv4 parser accepts the canonical dotted quads of four octets below 256 and nothing else:
  every octet is in decimal without leading zeros, so a text names one address and an address has one
  text.
\<close>

theorem parse_ipv4_iff:
  "parse_ipv4 s = Some os \<longleftrightarrow>
     (\<exists>a b c d. a < 256 \<and> b < 256 \<and> c < 256 \<and> d < 256 \<and> os = [a, b, c, d] \<and> s = dotted_quad a b c d)"
  by (rule parse_ipv4_dotted_quad)

end
