(* ===== verification/DaemonConv.thy ===== *)
theory DaemonConv
  imports NetAddr EngineSwap
begin

text \<open>
  Conversions between the wire messages of \<open>env_ctl.v1\<close> and the engine's types
  (\<open>crates/secretd/src/conv.rs\<close>). The messages are those of \<open>crates/secrets-proto/proto/control.proto\<close>, an
  enumeration being the 32-bit discriminant the wire carries.
\<close>

section \<open>Messages\<close>

type_synonym i32 = "32 word"

datatype status =
    InvalidArgument string | PermissionDenied string | Internal string | Unimplemented string

datatype provider_kind = ProviderUnspecified | AnthropicKind | OpenaiKind | GithubKind | GenericKind

fun provider_kind_try_from :: "i32 \<Rightarrow> provider_kind option" where
  "provider_kind_try_from p =
     (if p = 0 then Some ProviderUnspecified else if p = 1 then Some AnthropicKind
      else if p = 2 then Some OpenaiKind else if p = 3 then Some GithubKind
      else if p = 4 then Some GenericKind else None)"

fun provider_kind_as_i32 :: "provider_kind \<Rightarrow> i32" where
  "provider_kind_as_i32 ProviderUnspecified = 0"
| "provider_kind_as_i32 AnthropicKind = 1"
| "provider_kind_as_i32 OpenaiKind = 2"
| "provider_kind_as_i32 GithubKind = 3"
| "provider_kind_as_i32 GenericKind = 4"

datatype data_plane_mode = ModeUnspecified | BaseUrlRepointMode | HttpsProxyMitm | NativeSubtoken

fun data_plane_mode_try_from :: "i32 \<Rightarrow> data_plane_mode option" where
  "data_plane_mode_try_from m =
     (if m = 0 then Some ModeUnspecified else if m = 1 then Some BaseUrlRepointMode
      else if m = 2 then Some HttpsProxyMitm else if m = 3 then Some NativeSubtoken else None)"

record v1_add_secret_req =
  as_name :: string
  as_provider :: i32
  as_value :: bytes
  as_note :: string
  as_overwrite :: bool
  as_broker_only :: bool

record v1_relay_policy =
  pb_name :: string
  pb_secret_name :: string
  pb_provider :: i32
  pb_mode :: i32
  pb_host_allow :: "string list"
  pb_path_allow :: "string list"
  pb_method_allow :: "string list"
  pb_expires_at :: string
  pb_rate_per_min :: u32
  pb_quota_total :: u64
  pb_enabled :: bool
  pb_ephemeral :: bool
  pb_upstream_base :: string

record v1_mint_req =
  mq_relay :: string
  mq_ephemeral :: bool
  mq_provider :: i32
  mq_ttl_secs :: u64
  mq_client_pid :: u32

datatype v1_event =
    KVaultUnlocked string
  | KVaultLocked
  | KLog string u32 string
  | KSecretWritten string u32
  | KRelayMinted string string string
  | KRelaySwapped string string string bool string u32 string
  | KGuardRefused string string
  | KCaIssued string string string
  | KLeafMinted string string string
  | KChildExited "32 word"
  | KRunFinished "string list" "string list"

record v1_audit_entry =
  ae_at :: string
  ae_actor :: string
  ae_action :: string
  ae_target :: string
  ae_relay :: string
  ae_detail :: string
  ae_prev_hash :: string
  ae_hash :: string
  ae_token_id :: string

section \<open>Providers, methods and modes\<close>

definition provider_from_proto :: "i32 \<Rightarrow> provider" where
  "provider_from_proto p =
     (case (case provider_kind_try_from p of Some k \<Rightarrow> k | None \<Rightarrow> GenericKind) of
        AnthropicKind \<Rightarrow> Anthropic
      | OpenaiKind \<Rightarrow> Openai
      | GithubKind \<Rightarrow> Github
      | GenericKind \<Rightarrow> Generic
      | ProviderUnspecified \<Rightarrow> Generic)"

definition provider_to_proto :: "provider \<Rightarrow> i32" where
  "provider_to_proto p =
     provider_kind_as_i32
       (case p of Anthropic \<Rightarrow> AnthropicKind | Openai \<Rightarrow> OpenaiKind | Github \<Rightarrow> GithubKind | Generic \<Rightarrow> GenericKind)"

definition method_from_str :: "string \<Rightarrow> http_method option" where
  "method_from_str s =
     (let t = map ascii_lower s in
      if t = ''get'' then Some Get else if t = ''head'' then Some Head
      else if t = ''post'' then Some Post else if t = ''put'' then Some Put
      else if t = ''patch'' then Some Patch else if t = ''delete'' then Some Delete
      else if t = ''connect'' then Some Connect else if t = ''options'' then Some Options
      else None)"

fun methods_from_proto :: "string list \<Rightarrow> status + http_method list" where
  "methods_from_proto [] = Inr []"
| "methods_from_proto (m # ms) =
     (case method_from_str m of
        None \<Rightarrow> Inl (InvalidArgument (''unknown method '' @ [CHR 0x27] @ m @ [CHR 0x27]))
      | Some x \<Rightarrow> and_ok (methods_from_proto ms) (\<lambda>xs. Inr (x # xs)))"

definition add_req_to_meta :: "v1_add_secret_req \<Rightarrow> secret_meta" where
  "add_req_to_meta req =
     \<lparr>sm_name = as_name req, sm_provider = provider_from_proto (as_provider req),
      sm_note = as_note req, sm_broker_only = as_broker_only req\<rparr>"

definition swapmode_from_proto :: "i32 \<Rightarrow> string \<Rightarrow> i64 \<Rightarrow> swap_mode" where
  "swapmode_from_proto mode upstream native_ttl =
     (case (case data_plane_mode_try_from mode of Some m \<Rightarrow> m | None \<Rightarrow> BaseUrlRepointMode) of
        HttpsProxyMitm \<Rightarrow> ProxyMitm
      | NativeSubtoken \<Rightarrow> NativeSubToken native_ttl
      | BaseUrlRepointMode \<Rightarrow> BaseUrlRepoint upstream
      | ModeUnspecified \<Rightarrow> BaseUrlRepoint upstream)"

section \<open>Policies\<close>

definition DEFAULT_POLICY_TTL_SECS :: i64 where
  "DEFAULT_POLICY_TTL_SECS = 90 * 24 * 60 * 60"

text \<open>
  The chrono calls are arguments: the timestamp of a parsed RFC 3339 text, and the present timestamp.
  Both are seconds of a representable date, so their difference does not overflow.
\<close>

definition policy_ttl_from_expires :: "(string \<Rightarrow> i64 option) \<Rightarrow> i64 \<Rightarrow> string \<Rightarrow> i64" where
  "policy_ttl_from_expires parse_rfc3339 now expires_at =
     (if blank expires_at then DEFAULT_POLICY_TTL_SECS
      else case parse_rfc3339 expires_at of
        Some ts \<Rightarrow> (let secs = ts - now in if i64_lt 0 secs then secs else DEFAULT_POLICY_TTL_SECS)
      | None \<Rightarrow> DEFAULT_POLICY_TTL_SECS)"

definition policy_from_proto ::
  "(string \<Rightarrow> i64 option) \<Rightarrow> i64 \<Rightarrow> v1_relay_policy \<Rightarrow> status + relay_policy" where
  "policy_from_proto parse_rfc3339 now p =
     and_ok (methods_from_proto (pb_method_allow p)) (\<lambda>methods. Inr
       \<lparr>rp_relay_id = pb_name p,
        rp_kind = (if pb_ephemeral p then Ephemeral else Named),
        rp_provider = provider_from_proto (pb_provider p),
        rp_secret_name = pb_secret_name p,
        rp_swap = swapmode_from_proto (pb_mode p) (pb_upstream_base p) DEFAULT_POLICY_TTL_SECS,
        rp_host_allow = pb_host_allow p, rp_path_allow = pb_path_allow p, rp_method_allow = methods,
        rp_policy_ttl_secs = policy_ttl_from_expires parse_rfc3339 now (pb_expires_at p),
        rp_rate_per_min = (if pb_rate_per_min p \<noteq> 0 then Some (pb_rate_per_min p) else None),
        rp_quota_total_requests = (if pb_quota_total p \<noteq> 0 then Some (pb_quota_total p) else None),
        rp_quota_total_bytes = None, rp_enabled = pb_enabled p, rp_revoked = False\<rparr>)"

definition mint_req_to_policy :: "v1_mint_req \<Rightarrow> relay_policy" where
  "mint_req_to_policy req =
     \<lparr>rp_relay_id = mq_relay req,
      rp_kind = (if mq_ephemeral req then Ephemeral else Named),
      rp_provider = provider_from_proto (mq_provider req),
      rp_secret_name = mq_relay req,
      rp_swap = BaseUrlRepoint [],
      rp_host_allow = [], rp_path_allow = [], rp_method_allow = [],
      rp_policy_ttl_secs = DEFAULT_POLICY_TTL_SECS,
      rp_rate_per_min = None, rp_quota_total_requests = None, rp_quota_total_bytes = None,
      rp_enabled = True, rp_revoked = False\<rparr>"

section \<open>Events and audit entries\<close>

fun stream_number :: "stream \<Rightarrow> u32" where
  "stream_number Stdout = 0"
| "stream_number Stderr = 1"

fun event_to_proto :: "secret_event \<Rightarrow> v1_event option" where
  "event_to_proto (EvVaultUnlocked f) = Some (KVaultUnlocked (factor_str f))"
| "event_to_proto EvVaultLocked = Some KVaultLocked"
| "event_to_proto (EvSecretWritten name version) = Some (KSecretWritten name version)"
| "event_to_proto (EvRelayMinted relay kind expires_at) =
     Some (KRelayMinted relay (relay_kind_str kind) expires_at)"
| "event_to_proto (EvRelaySwapped relay host m allowed token_id client_uid client_label) =
     Some (KRelaySwapped relay host m allowed token_id client_uid client_label)"
| "event_to_proto (EvGuardRefused subject why) = Some (KGuardRefused subject why)"
| "event_to_proto (EvCaIssued serial cn not_after) = Some (KCaIssued serial cn not_after)"
| "event_to_proto (EvLeafMinted sni relay not_after) = Some (KLeafMinted sni relay not_after)"
| "event_to_proto (EvLog source s line) = Some (KLog source (stream_number s) line)"
| "event_to_proto (EvChildExited c) = Some (KChildExited c)"
| "event_to_proto (EvRunFinished summary) = Some (KRunFinished (rs_failed summary) (rs_refused summary))"
| "event_to_proto (EvAudit _) = None"
| "event_to_proto (EvRelayRotated _ _) = None"
| "event_to_proto (EvRelayRevoked _ _) = None"
| "event_to_proto (EvSecretRead _ _) = None"

text \<open>\<open>detail.get(key).and_then(as_str)\<close>, and the debug text of an outcome.\<close>

fun detail_str :: "json \<Rightarrow> string \<Rightarrow> string option" where
  "detail_str (JObj members) key = (case map_of members key of Some (JStr s) \<Rightarrow> Some s | _ \<Rightarrow> None)"
| "detail_str _ key = None"

fun outcome_debug :: "audit_outcome \<Rightarrow> string" where
  "outcome_debug Ok = ''Ok''"
| "outcome_debug Refused = ''Refused''"
| "outcome_debug Failed = ''Failed''"

definition or_default :: "string option \<Rightarrow> string" where
  "or_default s = (case s of Some t \<Rightarrow> t | None \<Rightarrow> [])"

text \<open>The compact text of the detail is the argument \<open>json_display\<close>.\<close>

definition audit_to_entry :: "(json \<Rightarrow> string) \<Rightarrow> audit_record \<Rightarrow> v1_audit_entry" where
  "audit_to_entry json_display rec =
     \<lparr>ae_at = ar_ts rec,
      ae_actor = (case ar_actor_uid rec of Some u \<Rightarrow> dec_nat (unat u) | None \<Rightarrow> []),
      ae_action = ar_event_type rec @ '' ('' @ outcome_debug (ar_outcome rec) @ '')'',
      ae_target = or_default (ar_subject rec),
      ae_relay = (case detail_str (ar_detail rec) ''relay'' of
         Some r \<Rightarrow> r | None \<Rightarrow> or_default (ar_subject rec)),
      ae_detail = json_display (ar_detail rec),
      ae_prev_hash = hex_encode (ar_prev_hash rec),
      ae_hash = hex_encode (ar_row_hash rec),
      ae_token_id = or_default (detail_str (ar_detail rec) ''token_id'')\<rparr>"

section \<open>Round trips\<close>

lemma provider_from_to_proto: "provider_from_proto (provider_to_proto p) = p"
  by (cases p) (simp_all add: provider_from_proto_def provider_to_proto_def)

lemma provider_from_proto_cases:
  "provider_from_proto k =
     (if k = 1 then Anthropic else if k = 2 then Openai else if k = 3 then Github else Generic)"
  by (simp add: provider_from_proto_def)

lemma ascii_lower_method_str:
  "map ascii_lower (method_str m) =
     (case m of Get \<Rightarrow> ''get'' | Head \<Rightarrow> ''head'' | Post \<Rightarrow> ''post'' | Put \<Rightarrow> ''put'' | Patch \<Rightarrow> ''patch''
      | Delete \<Rightarrow> ''delete'' | Connect \<Rightarrow> ''connect'' | Options \<Rightarrow> ''options'')"
  by (cases m) (simp_all, code_simp+)

lemma method_from_str_Some:
  "method_from_str s = Some m \<longleftrightarrow> eq_ignore_ascii_case s (method_str m)"
  unfolding method_from_str_def eq_ignore_ascii_case_def ascii_lower_method_str Let_def
  by (cases m) auto

lemma methods_from_proto_Inr:
  "methods_from_proto ms = Inr xs \<longleftrightarrow> list_all2 (\<lambda>m x. eq_ignore_ascii_case m (method_str x)) ms xs"
proof (induction ms arbitrary: xs)
  case Nil
  show ?case by auto
next
  case (Cons m ms)
  have "methods_from_proto (m # ms) = Inr xs \<longleftrightarrow>
      (\<exists>x ys. xs = x # ys \<and> method_from_str m = Some x \<and> methods_from_proto ms = Inr ys)"
    by (cases "method_from_str m"; cases "methods_from_proto ms") auto
  then show ?case by (auto simp: method_from_str_Some Cons.IH list_all2_Cons1)
qed

lemma factor_str_inj: "factor_str f = factor_str g \<longleftrightarrow> f = g"
  by (cases f; cases g) auto

lemma relay_kind_str_inj: "relay_kind_str k = relay_kind_str l \<longleftrightarrow> k = l"
  by (cases k; cases l) auto

lemma stream_number_inj: "stream_number s = stream_number u \<longleftrightarrow> s = u"
  by (cases s; cases u) auto

text \<open>
  The control stream is a mirror of the engine's events: an event it carries determines the event
  the engine emitted, and the ones it leaves out are exactly the four that have no message.
\<close>

theorem event_to_proto_mirrors:
  "(event_to_proto a = event_to_proto b \<and> event_to_proto a \<noteq> None \<longrightarrow> a = b)
   \<and> (event_to_proto a = None \<longleftrightarrow>
        (\<exists>r. a = EvAudit r) \<or> (\<exists>x y. a = EvRelayRotated x y) \<or> (\<exists>x y. a = EvRelayRevoked x y)
        \<or> (\<exists>n v. a = EvSecretRead n v))"
proof
  show "event_to_proto a = event_to_proto b \<and> event_to_proto a \<noteq> None \<longrightarrow> a = b"
    by (cases a; cases b)
      (auto simp: factor_str_inj relay_kind_str_inj stream_number_inj intro: run_summary.equality)
  show "event_to_proto a = None \<longleftrightarrow>
        (\<exists>r. a = EvAudit r) \<or> (\<exists>x y. a = EvRelayRotated x y) \<or> (\<exists>x y. a = EvRelayRevoked x y)
        \<or> (\<exists>n v. a = EvSecretRead n v)"
    by (cases a) auto
qed

section \<open>What a policy from the wire permits\<close>

lemma policy_ttl_positive: "0 < sint (policy_ttl_from_expires parse_rfc3339 now expires_at)"
proof -
  have "0 < sint DEFAULT_POLICY_TTL_SECS" by (simp add: DEFAULT_POLICY_TTL_SECS_def)
  then show ?thesis by (auto simp: policy_ttl_from_expires_def i64_lt_def Let_def split: option.split)
qed

lemma canonical_upstreams_nonempty:
  "host_in h (canonical_upstreams (provider_from_proto k)) \<Longrightarrow> k = 1 \<or> k = 2 \<or> k = 3"
  by (auto simp: provider_from_proto_cases host_in_def split: if_splits)

text \<open>
  A policy read from the wire permits only what the message names: a request decided \<open>Allow\<close>
  under it goes to a listed host of a provider the message names, by a listed method in whatever
  case, within the listed budgets; an unknown method rejects the whole policy, and an unset
  provider, host list or method list permits nothing.
\<close>

theorem wire_policy_default_deny:
  assumes "policy_from_proto parse_rfc3339 now p = Inr q"
    and "decide q b req wall boot usb floor = Allow"
  shows "pb_enabled p \<and> pb_provider p \<in> {1, 2, 3}
    \<and> (\<exists>m\<in>set (pb_method_allow p). eq_ignore_ascii_case m (method_str (cr_method req)))
    \<and> host_in (cr_host req) (pb_host_allow p) \<and> path_allowed (cr_path req) (pb_path_allow p)
    \<and> (pb_rate_per_min p = 0 \<or> cr_rate_in_window req < pb_rate_per_min p)
    \<and> (pb_quota_total p = 0 \<or> cr_usage_requests req \<le> pb_quota_total p)
    \<and> list_all (\<lambda>m. method_from_str m \<noteq> None) (pb_method_allow p) \<and> 0 < sint (rp_policy_ttl_secs q)"
proof -
  obtain methods where ms: "methods_from_proto (pb_method_allow p) = Inr methods"
    and q: "rp_enabled q = pb_enabled p" "rp_provider q = provider_from_proto (pb_provider p)"
      "rp_host_allow q = pb_host_allow p" "rp_path_allow q = pb_path_allow p" "rp_method_allow q = methods"
      "rp_rate_per_min q = (if pb_rate_per_min p \<noteq> 0 then Some (pb_rate_per_min p) else None)"
      "rp_quota_total_requests q = (if pb_quota_total p \<noteq> 0 then Some (pb_quota_total p) else None)"
      "rp_policy_ttl_secs q = policy_ttl_from_expires parse_rfc3339 now (pb_expires_at p)"
    using assms(1) by (cases "methods_from_proto (pb_method_allow p)") (auto simp: policy_from_proto_def)
  note ms = ms [unfolded methods_from_proto_Inr]
  have scope: "within_scope q req" "within_budget q req" "rp_enabled q"
    using assms(2) by (simp_all add: decide_Allow_raw)
  obtain m where "m \<in> set (pb_method_allow p)" "eq_ignore_ascii_case m (method_str (cr_method req))"
  proof -
    have "cr_method req \<in> set methods" using scope(1) q(5) by (simp add: within_scope_def)
    then obtain i where "i < length methods" "methods ! i = cr_method req" by (auto simp: in_set_conv_nth)
    with ms show thesis by (intro that [of "pb_method_allow p ! i"]) (auto simp: list_all2_conv_all_nth)
  qed
  moreover have "list_all (\<lambda>m. method_from_str m \<noteq> None) (pb_method_allow p)"
    using ms by (auto simp: list_all_length list_all2_conv_all_nth method_from_str_Some)
  moreover have "pb_provider p \<in> {1, 2, 3}"
    using scope(1) q(2) canonical_upstreams_nonempty by (auto simp: within_scope_def)
  moreover have "pb_rate_per_min p = 0 \<or> cr_rate_in_window req < pb_rate_per_min p"
    "pb_quota_total p = 0 \<or> cr_usage_requests req \<le> pb_quota_total p"
    using scope(2) by (auto simp: within_budget_def q split: if_splits)
  ultimately show ?thesis
    using scope policy_ttl_positive by (auto simp: within_scope_def q)
qed

definition sample_policy :: v1_relay_policy where
  "sample_policy =
     \<lparr>pb_name = ''claude-main'', pb_secret_name = ''anthropic_key'', pb_provider = 1, pb_mode = 1,
      pb_host_allow = [''api.anthropic.com''], pb_path_allow = [''/v1/''], pb_method_allow = [''GET'', ''Post''],
      pb_expires_at = [], pb_rate_per_min = 60, pb_quota_total = 1000000, pb_enabled = True,
      pb_ephemeral = False, pb_upstream_base = ''https://api.anthropic.com''\<rparr>"

definition sample_engine_policy :: relay_policy where
  "sample_engine_policy =
     base_policy\<lparr>rp_method_allow := [Get, Post], rp_policy_ttl_secs := DEFAULT_POLICY_TTL_SECS,
       rp_quota_total_bytes := None\<rparr>"

lemma wire_policy_default_deny_witness:
  "pb_enabled sample_policy \<and> pb_provider sample_policy \<in> {1, 2, 3}
    \<and> (\<exists>m\<in>set (pb_method_allow sample_policy). eq_ignore_ascii_case m (method_str (cr_method base_request)))
    \<and> host_in (cr_host base_request) (pb_host_allow sample_policy)
    \<and> path_allowed (cr_path base_request) (pb_path_allow sample_policy)
    \<and> (pb_rate_per_min sample_policy = 0 \<or> cr_rate_in_window base_request < pb_rate_per_min sample_policy)
    \<and> (pb_quota_total sample_policy = 0 \<or> cr_usage_requests base_request \<le> pb_quota_total sample_policy)
    \<and> list_all (\<lambda>m. method_from_str m \<noteq> None) (pb_method_allow sample_policy)
    \<and> 0 < sint (rp_policy_ttl_secs sample_engine_policy)"
proof (rule wire_policy_default_deny)
  have "method_from_str ''GET'' = Some Get" "method_from_str ''Post'' = Some Post" by code_simp+
  then show "policy_from_proto (\<lambda>_. None) 0 sample_policy = Inr sample_engine_policy"
    by (simp add: policy_from_proto_def sample_policy_def sample_engine_policy_def base_policy_def
        provider_from_proto_def swapmode_from_proto_def policy_ttl_from_expires_def blank_def)
  have "swap_permitted sample_engine_policy base_bearer base_request 1700000000000 5000000 None 1699000000000"
    by (simp add: swap_permitted_def within_scope_def presenter_bound_def within_budget_def
        live_on_both_clocks_def base_defs sample_engine_policy_def DEFAULT_POLICY_TTL_SECS_def host_in_iff
        path_allowed_iff pattern_prefix_def strip_suffix_star_def CLOCK_SKEW_MS_def)
  then show "decide sample_engine_policy base_bearer base_request 1700000000000 5000000 None 1699000000000 = Allow"
    by (subst decide_Allow_exact) (simp_all add: base_defs)
qed

end
