(* ===== verification/DaemonServer.thy ===== *)
theory DaemonServer
  imports DaemonConv
begin

text \<open>
  The daemon (\<open>crates/secretd/src/grpc.rs\<close>, \<open>audit.rs\<close>, \<open>peercred.rs\<close>, \<open>server.rs\<close>): the owner guard,
  one handler per RPC over the engine, the event stream of a streaming RPC, and the dispatch. A handler
  is an action on the daemon's state; requests are served one after the other, and a client reads its
  stream to the end. \<open>join_text\<close> is the text of a \<open>JoinError\<close> for a panic.
\<close>

section \<open>State and guard\<close>

record daemon =
  dm_engine :: engine
  dm_unlocked :: bool

text \<open>The state \<open>serve\<close> starts with: \<open>DaemonState::default()\<close> beside the engine.\<close>

definition start_daemon :: "engine \<Rightarrow> daemon" where
  "start_daemon s = \<lparr>dm_engine = s, dm_unlocked = False\<rparr>"

type_synonym 'a handler = "(daemon, status, 'a) act"

text \<open>
  What the transport stamps on a request: no connect info, connect info without credentials, or the
  uid the kernel reported when the peer connected.
\<close>

datatype connect_info = NoConnectInfo | NoPeerCred | PeerCred u32

definition owner_guard :: "u32 \<Rightarrow> connect_info \<Rightarrow> status + unit" where
  "owner_guard owner_uid info =
     (case info of
        NoConnectInfo \<Rightarrow> Inl (PermissionDenied ''no peer credentials'')
      | NoPeerCred \<Rightarrow> Inl (PermissionDenied ''no SO_PEERCRED'')
      | PeerCred uid \<Rightarrow>
          if uid \<noteq> owner_uid then Inl (PermissionDenied ''uid mismatch'') else Inr ())"

section \<open>Running engine calls\<close>

text \<open>\<open>spawn_blocking(..).await.map_err(join_err)?\<close>: a panic is an internal status, an error is a result.\<close>

definition spawn_blocking :: "(string \<Rightarrow> string) \<Rightarrow> 'a op \<Rightarrow> (any_error + 'a) handler" where
  "spawn_blocking join_text m = (\<lambda>d.
     let (r, s) = m (dm_engine d); d' = d\<lparr>dm_engine := s\<rparr> in
     case r of
       Inl (Panicked t) \<Rightarrow> (Inl (Internal (''blocking task failed: '' @ join_text t)), d')
     | _ \<Rightarrow> (Inr r, d'))"

text \<open>The engine call of a streaming RPC, with what the closure does on the daemon's flag.\<close>

definition engine_call :: "'a op \<Rightarrow> (daemon, any_error, 'a) act" where
  "engine_call m = (\<lambda>d. let (r, s) = m (dm_engine d) in (r, d\<lparr>dm_engine := s\<rparr>))"

definition set_flag :: "bool \<Rightarrow> (daemon, any_error, unit) act" where
  "set_flag b = modify_act (\<lambda>d. d\<lparr>dm_unlocked := b\<rparr>)"

type_synonym event_stream = "(status + v1_event) list"

text \<open>
  The stream: the events the call emitted that have a message, then the error of the call. After a
  panic the channel is gone, and the stream is the supervisor's error alone.
\<close>

definition forwarded :: "secret_event list \<Rightarrow> event_stream" where
  "forwarded evs = map Inr (List.map_filter event_to_proto evs)"

definition run_streaming ::
  "(string \<Rightarrow> string) \<Rightarrow> (daemon, any_error, unit) act \<Rightarrow> event_stream handler" where
  "run_streaming join_text f = (\<lambda>d.
     let (result, d') = f d;
         evs = drop (length (en_events (dm_engine d))) (en_events (dm_engine d')) in
     case result of
       Inr _ \<Rightarrow> (Inr (forwarded evs), d')
     | Inl (Panicked t) \<Rightarrow> (Inr [Inl (Internal (''streaming engine task failed: '' @ join_text t))], d')
     | Inl e \<Rightarrow> (Inr (forwarded evs @ [Inl (Internal (error_text e))]), d'))"

text \<open>\<open>map_err\<close> of an engine error into a status, after the join.\<close>

definition or_status :: "(string \<Rightarrow> status) \<Rightarrow> any_error + 'a \<Rightarrow> 'a handler" where
  "or_status f r = (case r of Inl e \<Rightarrow> fail_act (f (error_text e)) | Inr x \<Rightarrow> ok_act x)"

section \<open>Messages\<close>

record v1_secret_meta =
  vm_name :: string
  vm_provider :: i32
  vm_created_at :: string
  vm_version :: u32
  vm_note :: string
  vm_broker_only :: bool

record v1_audit_query_req =
  aq_actor :: "string option"
  aq_relay :: "string option"
  aq_since :: "string option"
  aq_until :: "string option"
  aq_limit :: u32

record get_resp =
  gr_value :: bytes
  gr_revealed :: bool

record revoke_resp =
  vr_count_revoked :: u32
  vr_dry_run :: bool

record mint_resp =
  mr_bearer :: string
  mr_expires_at :: string
  mr_token_id :: string

record status_resp =
  st_unlocked :: bool
  st_usb_possessed :: bool
  st_active_relays :: u32
  st_secret_count :: u32

section \<open>Vault\<close>

definition vault_add :: "world \<Rightarrow> (string \<Rightarrow> string) \<Rightarrow> v1_add_secret_req \<Rightarrow> event_stream handler" where
  "vault_add w join_text req =
     run_streaming join_text (engine_call (secret_put w (add_req_to_meta req) (as_value req)))"

text \<open>The metadata of the response is always \<open>None\<close>.\<close>

definition vault_get ::
  "world \<Rightarrow> (string \<Rightarrow> string) \<Rightarrow> string \<Rightarrow> bool \<Rightarrow> bool \<Rightarrow> bool \<Rightarrow> get_resp handler" where
  "vault_get w join_text name reveal apply_flag confirm =
     (let applied = apply_flag \<and> confirm in
      and_then (spawn_blocking join_text (secret_get w name reveal applied)) (\<lambda>res.
        case res of
          Inr value \<Rightarrow>
            (let revealed = reveal in
             ok_act \<lparr>gr_value = (if revealed then value else []), gr_revealed = revealed\<rparr>)
        | Inl e \<Rightarrow> fail_act (PermissionDenied (error_text e))))"

section \<open>Relay\<close>

definition relay_svc_revoke ::
  "world \<Rightarrow> (string \<Rightarrow> string) \<Rightarrow> string \<Rightarrow> bool \<Rightarrow> bool \<Rightarrow> revoke_resp handler" where
  "relay_svc_revoke w join_text name apply_flag confirm =
     (let applied = apply_flag \<and> confirm in
      and_then (spawn_blocking join_text (relay_revoke w name applied)) (\<lambda>res.
      and_then (or_status Internal res) (\<lambda>n.
        ok_act \<lparr>vr_count_revoked = n, vr_dry_run = (\<not> applied)\<rparr>)))"

definition relay_svc_revoke_bearer ::
  "world \<Rightarrow> (string \<Rightarrow> string) \<Rightarrow> string \<Rightarrow> bool \<Rightarrow> revoke_resp handler" where
  "relay_svc_revoke_bearer w join_text token_id apply_flag =
     and_then (spawn_blocking join_text (relay_revoke_bearer w token_id apply_flag)) (\<lambda>res.
     and_then (or_status Internal res) (\<lambda>n.
       ok_act \<lparr>vr_count_revoked = n, vr_dry_run = (\<not> apply_flag)\<rparr>))"

text \<open>The credentials are read again from the request; \<open>i64::try_from\<close> of the requested TTL.\<close>

definition relay_svc_mint ::
  "world \<Rightarrow> (string \<Rightarrow> string) \<Rightarrow> connect_info \<Rightarrow> v1_mint_req \<Rightarrow> mint_resp handler" where
  "relay_svc_mint w join_text info req =
     (let peer_uid = (case info of PeerCred uid \<Rightarrow> Some uid | _ \<Rightarrow> None) in
      if i64_max < uint (mq_ttl_secs req) then
        fail_act (InvalidArgument ''ttl_secs does not fit i64'')
      else
        let ttl_secs = mq_ttl_secs req;
            peer_pid = (if mq_client_pid req \<noteq> 0 then Some (mq_client_pid req) else None);
            spec = mint_req_to_policy req in
        and_then (spawn_blocking join_text (relay_mint w spec ttl_secs peer_uid peer_pid)) (\<lambda>res.
        and_then (or_status PermissionDenied res) (\<lambda>b.
          ok_act \<lparr>mr_bearer = b_raw b, mr_expires_at = b_expires_at b, mr_token_id = b_token_id b\<rparr>)))"

section \<open>Lock\<close>

definition lock_status :: "status_resp handler" where
  "lock_status =
     and_then (gets_act dm_unlocked) (\<lambda>b.
       ok_act \<lparr>st_unlocked = b, st_usb_possessed = False, st_active_relays = 0, st_secret_count = 0\<rparr>)"

definition lock_unlock :: "world \<Rightarrow> (string \<Rightarrow> string) \<Rightarrow> string option \<Rightarrow> event_stream handler" where
  "lock_unlock w join_text passphrase =
     (let u = (case passphrase of Some pp \<Rightarrow> UnlockPassphrase pp | None \<Rightarrow> UnlockUsb) in
      run_streaming join_text (and_then (engine_call (unlock w u)) (\<lambda>_. set_flag True)))"

definition lock_now :: "world \<Rightarrow> (string \<Rightarrow> string) \<Rightarrow> event_stream handler" where
  "lock_now w join_text =
     run_streaming join_text (and_then (engine_call (lock w)) (\<lambda>_. set_flag False))"

section \<open>Dispatch\<close>

text \<open>
  The five services' methods; the last ones only answer that they are not there, so the three last
  responses are never given.
\<close>

datatype rpc =
    VaultAdd v1_add_secret_req
  | VaultGet (get_name: string) (get_reveal: bool) (get_apply: bool) (get_confirm: bool)
  | RelayRevokeRpc string bool bool
  | RelayRevokeBearerRpc string bool
  | RelayMintRpc v1_mint_req
  | LockStatus
  | LockUnlock "string option"
  | LockNow
  | VaultList "i32 option"
  | VaultRm string bool bool
  | VaultRotate string bytes bool
  | RelayCreate "v1_relay_policy option"
  | RelayList bool
  | AuditQuery v1_audit_query_req
  | CertsCaInit | CertsCaRotate | CertsIssue | CertsRenew | CertsRevoke | CertsTrustApply | CertsList

datatype response =
    EventsResp event_stream
  | GetResp get_resp
  | RevokeResp revoke_resp
  | MintResp mint_resp
  | StatusResp status_resp
  | SecretListResp "v1_secret_meta list"
  | RelayListResp "v1_relay_policy list"
  | AuditResp "v1_audit_entry list"

definition respond :: "('a \<Rightarrow> response) \<Rightarrow> 'a handler \<Rightarrow> response handler" where
  "respond f h = and_then h (\<lambda>x. ok_act (f x))"

fun unimplemented_text :: "rpc \<Rightarrow> string" where
  "unimplemented_text (VaultList _) = ''Vault.List is not available in Phase 6''"
| "unimplemented_text (VaultRm _ _ _) = ''Vault.Rm is not available in Phase 6''"
| "unimplemented_text (VaultRotate _ _ _) = ''Vault.Rotate is not available in Phase 6''"
| "unimplemented_text (RelayCreate _) =
     ''Relay.Create is not available in Phase 6 (policy is persisted by Mint)''"
| "unimplemented_text (RelayList _) = ''Relay.List is not available in Phase 6''"
| "unimplemented_text (AuditQuery _) = ''Audit.Query is not available in Phase 6''"
| "unimplemented_text CertsCaInit = ''Certs.CaInit is Phase 4+''"
| "unimplemented_text CertsCaRotate = ''Certs.CaRotate is Phase 4+''"
| "unimplemented_text CertsIssue = ''Certs.Issue is Phase 4+''"
| "unimplemented_text CertsRenew = ''Certs.Renew is Phase 4+''"
| "unimplemented_text CertsRevoke = ''Certs.Revoke is Phase 4+''"
| "unimplemented_text CertsTrustApply = ''Certs.TrustApply is Phase 4+''"
| "unimplemented_text CertsList = ''Certs.List is Phase 4+''"
| "unimplemented_text _ = []"

fun handle :: "world \<Rightarrow> (string \<Rightarrow> string) \<Rightarrow> connect_info \<Rightarrow> rpc \<Rightarrow> response handler" where
  "handle w jt info (VaultAdd req) = respond EventsResp (vault_add w jt req)"
| "handle w jt info (VaultGet name reveal apply_flag confirm) =
     respond GetResp (vault_get w jt name reveal apply_flag confirm)"
| "handle w jt info (RelayRevokeRpc name apply_flag confirm) =
     respond RevokeResp (relay_svc_revoke w jt name apply_flag confirm)"
| "handle w jt info (RelayRevokeBearerRpc token_id apply_flag) =
     respond RevokeResp (relay_svc_revoke_bearer w jt token_id apply_flag)"
| "handle w jt info (RelayMintRpc req) = respond MintResp (relay_svc_mint w jt info req)"
| "handle w jt info LockStatus = respond StatusResp lock_status"
| "handle w jt info (LockUnlock passphrase) = respond EventsResp (lock_unlock w jt passphrase)"
| "handle w jt info LockNow = respond EventsResp (lock_now w jt)"
| "handle w jt info r = fail_act (Unimplemented (unimplemented_text r))"

text \<open>Every service is behind the guard, which runs before the handler.\<close>

definition serve :: "world \<Rightarrow> (string \<Rightarrow> string) \<Rightarrow> u32 \<Rightarrow> connect_info \<Rightarrow> rpc \<Rightarrow> response handler" where
  "serve w join_text owner_uid info r =
     (case owner_guard owner_uid info of
        Inl st \<Rightarrow> fail_act st
      | Inr _ \<Rightarrow> handle w join_text info r)"

text \<open>A session of requests with the answers, in order.\<close>

fun session :: "world \<Rightarrow> (string \<Rightarrow> string) \<Rightarrow> u32 \<Rightarrow> (connect_info \<times> rpc) list \<Rightarrow> daemon
    \<Rightarrow> (status + response) list \<times> daemon" where
  "session w jt owner [] d = ([], d)"
| "session w jt owner ((info, r) # rs) d =
     (let (a, d1) = serve w jt owner info r d; (as, d2) = session w jt owner rs d1 in (a # as, d2))"

end
