(* ===== verification/DaemonSafety.thy ===== *)
theory DaemonSafety
  imports DaemonServer EngineInit
begin

text \<open>
  What the daemon promises over the engine: every session is a sequence of requests to the engine, so
  the engine's invariants carry over; peers that are not the owner change nothing; the flag that
  \<open>Lock.Status\<close> reports mirrors the vault; and no relay minted over the control plane can be swapped.
\<close>

section \<open>Handlers as engine requests\<close>

text \<open>The request to the engine an RPC makes, if it makes one.\<close>

fun engine_request :: "connect_info \<Rightarrow> rpc \<Rightarrow> request option" where
  "engine_request info (VaultAdd req) = Some (SecretPut (add_req_to_meta req) (as_value req))"
| "engine_request info (VaultGet name reveal apply_flag confirm) =
     Some (SecretGet name reveal (apply_flag \<and> confirm))"
| "engine_request info (RelayRevokeRpc name apply_flag confirm) =
     Some (RelayRevoke name (apply_flag \<and> confirm))"
| "engine_request info (RelayRevokeBearerRpc token_id apply_flag) =
     Some (RelayRevokeBearer token_id apply_flag)"
| "engine_request info (RelayMintRpc req) =
     (if i64_max < uint (mq_ttl_secs req) then None
      else Some (RelayMint (mint_req_to_policy req) (mq_ttl_secs req)
        (case info of PeerCred uid \<Rightarrow> Some uid | _ \<Rightarrow> None)
        (if mq_client_pid req \<noteq> 0 then Some (mq_client_pid req) else None)))"
| "engine_request info (LockUnlock passphrase) =
     Some (Unlock (case passphrase of Some pp \<Rightarrow> UnlockPassphrase pp | None \<Rightarrow> UnlockUsb))"
| "engine_request info LockNow = Some Lock"
| "engine_request info _ = None"

lemma snd_and_then_pure: "(\<And>x t. snd (k x t) = t) \<Longrightarrow> snd (and_then m k s) = snd (m s)"
  by (simp add: run_and_then split: sum.split)

lemma snd_respond [simp]: "snd (respond f h d) = snd (h d)"
  unfolding respond_def by (rule snd_and_then_pure) (simp add: run_simps)

lemma spawn_blocking_state [simp]:
  "snd (spawn_blocking jt m d) = d\<lparr>dm_engine := snd (m (dm_engine d))\<rparr>"
  by (simp add: spawn_blocking_def Let_def split: prod.split sum.split any_error.split)

lemma engine_call_state [simp]: "snd (engine_call m d) = d\<lparr>dm_engine := snd (m (dm_engine d))\<rparr>"
  by (simp add: engine_call_def split: prod.split)

lemma run_streaming_state [simp]: "snd (run_streaming jt f d) = snd (f d)"
  by (simp add: run_streaming_def Let_def split: prod.split sum.split any_error.split)

lemma or_status_state [simp]: "snd (or_status f r d) = d"
  by (simp add: or_status_def run_simps split: sum.split)

lemma flagged_call_state:
  "snd (and_then (engine_call m) (\<lambda>_. set_flag b) d) =
     d\<lparr>dm_engine := snd (m (dm_engine d)),
       dm_unlocked := (case fst (m (dm_engine d)) of Inr _ \<Rightarrow> b | Inl _ \<Rightarrow> dm_unlocked d)\<rparr>"
proof (cases "m (dm_engine d)")
  case (Pair r s)
  then show ?thesis
    by (cases r) (simp_all add: run_and_then set_flag_def run_simps engine_call_def)
qed

text \<open>The flag after an RPC: set by an unlock that succeeds, cleared by a lock that does.\<close>

fun flag_after :: "world \<Rightarrow> rpc \<Rightarrow> daemon \<Rightarrow> bool" where
  "flag_after w (LockUnlock passphrase) d =
     (case fst (unlock w (case passphrase of Some pp \<Rightarrow> UnlockPassphrase pp | None \<Rightarrow> UnlockUsb) (dm_engine d)) of
        Inr _ \<Rightarrow> True | Inl _ \<Rightarrow> dm_unlocked d)"
| "flag_after w LockNow d = (case fst (lock w (dm_engine d)) of Inr _ \<Rightarrow> False | Inl _ \<Rightarrow> dm_unlocked d)"
| "flag_after w _ d = dm_unlocked d"

lemma handle_state:
  "snd (handle w jt info r d) =
     d\<lparr>dm_engine := (case engine_request info r of None \<Rightarrow> dm_engine d | Some q \<Rightarrow> perform w q (dm_engine d)),
       dm_unlocked := flag_after w r d\<rparr>"
proof (cases r)
  case (VaultGet name reveal apply_flag confirm)
  have "snd (vault_get w jt name reveal apply_flag confirm d)
      = snd (spawn_blocking jt (secret_get w name reveal (apply_flag \<and> confirm)) d)"
    unfolding vault_get_def Let_def by (rule snd_and_then_pure) (simp add: run_simps split: sum.split)
  then show ?thesis by (simp add: VaultGet)
next
  case (RelayRevokeRpc name apply_flag confirm)
  have "snd (relay_svc_revoke w jt name apply_flag confirm d)
      = snd (spawn_blocking jt (relay_revoke w name (apply_flag \<and> confirm)) d)"
    unfolding relay_svc_revoke_def Let_def by (intro snd_and_then_pure) (simp add: snd_and_then_pure run_simps)
  then show ?thesis by (simp add: RelayRevokeRpc)
next
  case (RelayRevokeBearerRpc token_id apply_flag)
  have "snd (relay_svc_revoke_bearer w jt token_id apply_flag d)
      = snd (spawn_blocking jt (relay_revoke_bearer w token_id apply_flag) d)"
    unfolding relay_svc_revoke_bearer_def by (intro snd_and_then_pure) (simp add: snd_and_then_pure run_simps)
  then show ?thesis by (simp add: RelayRevokeBearerRpc)
next
  case (RelayMintRpc req)
  have "snd (relay_svc_mint w jt info req d)
      = snd (spawn_blocking jt (relay_mint w (mint_req_to_policy req) (mq_ttl_secs req)
          (case info of PeerCred uid \<Rightarrow> Some uid | _ \<Rightarrow> None)
          (if mq_client_pid req \<noteq> 0 then Some (mq_client_pid req) else None)) d)"
    if "\<not> i64_max < uint (mq_ttl_secs req)"
    unfolding relay_svc_mint_def Let_def if_not_P [OF that]
    by (intro snd_and_then_pure) (simp add: snd_and_then_pure run_simps)
  then show ?thesis by (simp add: RelayMintRpc relay_svc_mint_def Let_def run_simps)
next
  case LockStatus
  then show ?thesis by (simp add: lock_status_def run_simps)
qed (simp_all add: vault_add_def lock_unlock_def lock_now_def Let_def flagged_call_state run_simps)

lemma handle_engine:
  "dm_engine (snd (handle w jt info r d)) =
     (case engine_request info r of None \<Rightarrow> dm_engine d | Some q \<Rightarrow> perform w q (dm_engine d))"
  by (simp add: handle_state)

lemma serve_owner: "serve w jt owner (PeerCred owner) r = handle w jt (PeerCred owner) r"
  by (simp add: serve_def owner_guard_def)

lemma serve_stranger:
  assumes "info \<noteq> PeerCred owner"
  obtains why where "serve w jt owner info r d = (Inl (PermissionDenied why), d)"
  using assms by (cases info) (auto simp: serve_def owner_guard_def run_simps)

section \<open>Sessions\<close>

lemma session_Cons:
  "fst (session w jt owner ((info, r) # rs) d) =
     fst (serve w jt owner info r d) # fst (session w jt owner rs (snd (serve w jt owner info r d)))"
  "snd (session w jt owner ((info, r) # rs) d) =
     snd (session w jt owner rs (snd (serve w jt owner info r d)))"
  by (simp_all add: Let_def split: prod.split)

text \<open>The requests of a session that reach the engine.\<close>

definition engine_requests :: "u32 \<Rightarrow> (connect_info \<times> rpc) list \<Rightarrow> request list" where
  "engine_requests owner rs =
     List.map_filter (\<lambda>(info, r). if info = PeerCred owner then engine_request info r else None) rs"

lemma engine_requests_simps [simp]:
  "engine_requests owner [] = []"
  "engine_requests owner ((info, r) # rs) =
     (case (if info = PeerCred owner then engine_request info r else None) of
        None \<Rightarrow> engine_requests owner rs | Some q \<Rightarrow> q # engine_requests owner rs)"
  by (simp_all add: engine_requests_def List.map_filter_simps split: option.split)

lemma session_engine:
  "dm_engine (snd (session w jt owner rs d)) = fold (perform w) (engine_requests owner rs) (dm_engine d)"
proof (induction rs arbitrary: d)
  case Nil
  show ?case by simp
next
  case (Cons x rs)
  obtain info r where x: "x = (info, r)" by force
  show ?case
  proof (cases "info = PeerCred owner")
    case True
    then show ?thesis
      by (simp add: x session_Cons Cons.IH serve_owner handle_engine del: session.simps split: option.split)
  next
    case False
    then obtain why where "serve w jt owner info r d = (Inl (PermissionDenied why), d)"
      by (rule serve_stranger)
    then show ?thesis using False by (simp add: x session_Cons Cons.IH del: session.simps)
  qed
qed

lemma fold_reachable: "reachable w s t \<Longrightarrow> reachable w s (fold (perform w) qs t)"
  by (induction qs arbitrary: t) (simp_all add: reachable.request)

text \<open>
  C11: a session of the daemon does to the engine exactly what the engine requests of the owner's RPCs
  do, in their order: nothing else reaches it, and the state it leaves is one the engine's own
  invariants speak of.
\<close>

theorem session_refines_engine:
  "dm_engine (snd (session w jt owner rs d)) = fold (perform w) (engine_requests owner rs) (dm_engine d)
   \<and> reachable w (dm_engine d) (dm_engine (snd (session w jt owner rs d)))"
  by (simp add: session_engine fold_reachable reachable.start)

definition from_owner :: "u32 \<Rightarrow> connect_info \<times> rpc \<Rightarrow> bool" where
  "from_owner owner x \<longleftrightarrow> fst x = PeerCred owner"

lemma session_strangers:
  "snd (session w jt owner rs d) = snd (session w jt owner (filter (from_owner owner) rs) d)
   \<and> map snd (filter (from_owner owner \<circ> fst) (zip rs (fst (session w jt owner rs d))))
       = fst (session w jt owner (filter (from_owner owner) rs) d)
   \<and> list_all (\<lambda>(x, a). from_owner owner x \<or> (\<exists>why. a = Inl (PermissionDenied why)))
       (zip rs (fst (session w jt owner rs d)))"
proof (induction rs arbitrary: d)
  case Nil
  show ?case by simp
next
  case (Cons x rs)
  obtain info r where x: "x = (info, r)" by force
  show ?case
  proof (cases "info = PeerCred owner")
    case True
    then show ?thesis
      using Cons.IH by (simp add: x session_Cons from_owner_def del: session.simps)
  next
    case False
    then obtain why where "serve w jt owner info r d = (Inl (PermissionDenied why), d)"
      by (rule serve_stranger)
    then show ?thesis
      using False Cons.IH by (simp add: x session_Cons from_owner_def del: session.simps)
  qed
qed

text \<open>
  C20: a peer that is not the owner is refused and interferes with nothing: taking the requests of all
  other peers out of a session changes neither the daemon's final state nor any answer the owner gets,
  and every answer to another peer is a refusal.
\<close>

theorem strangers_change_nothing:
  "snd (session w jt owner rs d) = snd (session w jt owner (filter (from_owner owner) rs) d)
   \<and> map snd (filter (from_owner owner \<circ> fst) (zip rs (fst (session w jt owner rs d))))
       = fst (session w jt owner (filter (from_owner owner) rs) d)
   \<and> list_all (\<lambda>(x, a). from_owner owner x \<or> (\<exists>why. a = Inl (PermissionDenied why)))
       (zip rs (fst (session w jt owner rs d)))"
  by (rule session_strangers)

section \<open>Relays of the control plane\<close>

text \<open>A policy without hosts permits nothing; every policy of the store is such a policy.\<close>

definition inert :: "in_mem_data \<Rightarrow> bool" where
  "inert g \<longleftrightarrow> list_all (\<lambda>pr. rp_host_allow (rr_policy pr) = []) (sd_relays g)"

interpretation inert_tables: vault_relation
  "\<lambda>s t. inert (en_store s) \<longrightarrow> inert (en_store t)" w "\<lambda>g h. inert g \<longrightarrow> inert h" for w
  by unfold_locales (simp_all add: inert_def store_ops reserve_secret_row_id_def put_secret_def
      append_audit_def Let_def)

lemma list_all_upsert_mono: "list_all P vs \<Longrightarrow> P v \<Longrightarrow> list_all P (upsert key v vs)"
  by (induction vs) auto

lemma inert_save:
  "rp_host_allow (rr_policy pol) = [] \<Longrightarrow> inert g \<longrightarrow> inert (snd (save_relay_policy pol g))"
  by (simp add: inert_def save_relay_policy_def Let_def list_all_upsert_mono)

text \<open>Drawing a name for an unnamed ephemeral relay changes nothing but the name.\<close>

lemma resolve_relay_id_keeps:
  "\<exists>i t. resolve_relay_id w spec s = (Inr (spec\<lparr>rp_relay_id := i\<rparr>), t) \<and> en_store t = en_store s
     \<and> (rp_kind spec = Named \<or> rp_relay_id spec \<noteq> [] \<longrightarrow> i = rp_relay_id spec)"
proof (cases "rp_kind spec = Ephemeral \<and> rp_relay_id spec = []")
  case True
  then show ?thesis by (simp add: resolve_relay_id_def random_bytes_def run_simps) blast
next
  case False
  have "resolve_relay_id w spec s = (Inr (spec\<lparr>rp_relay_id := rp_relay_id spec\<rparr>), s)"
    unfolding resolve_relay_id_def if_not_P [OF False] by (simp add: run_simps)
  then show ?thesis by blast
qed

lemma inert_mint:
  assumes "rp_host_allow spec = []"
  shows "frames (\<lambda>s t. inert (en_store s) \<longrightarrow> inert (en_store t)) (relay_mint w spec ttl uid pid)"
proof -
  have save: "frames (\<lambda>s t. inert (en_store s) \<longrightarrow> inert (en_store t))
      (store_call w (save_relay_policy \<lparr>rr_id = 0, rr_policy = spec'\<rparr>))" if "rp_host_allow spec' = []" for spec'
    by (rule inert_tables.store_call) (simp add: inert_save that)
  have rest: "frames (\<lambda>s t. inert (en_store s) \<longrightarrow> inert (en_store t))
      (and_then (resolve_relay_id w spec) (\<lambda>spec. and_then (store_call w (save_relay_policy \<lparr>rr_id = 0, rr_policy = spec\<rparr>)) (k spec)))"
    if "\<And>spec id. frames (\<lambda>s t. inert (en_store s) \<longrightarrow> inert (en_store t)) (k spec id)" for k :: "relay_policy \<Rightarrow> i64 \<Rightarrow> bearer op"
  proof (rule framesI, rule impI)
    fix s :: engine
    assume s: "inert (en_store s)"
    obtain spec' s1 where run: "resolve_relay_id w spec s = (Inr spec', s1)"
      and kept: "rp_host_allow spec' = []" "inert (en_store s1)"
      using resolve_relay_id_keeps [of w spec s] assms s that by force
    have "frames (\<lambda>s t. inert (en_store s) \<longrightarrow> inert (en_store t))
        (and_then (store_call w (save_relay_policy \<lparr>rr_id = 0, rr_policy = spec'\<rparr>)) (k spec'))"
      by (intro frame_rules save kept(1) that)
    from framesD [OF this, of s1] kept(2) show "inert (en_store (snd (and_then (resolve_relay_id w spec) (\<lambda>spec.
        and_then (store_call w (save_relay_policy \<lparr>rr_id = 0, rr_policy = spec\<rparr>)) (k spec)) s)))"
      by (simp add: run_simps run)
  qed
  show ?thesis
    unfolding relay_mint_def mint_bearer_core_def issue_bearer_def Let_def
    by (intro frame_rules inert_tables.parts inert_tables.usb_possession_proven rest)
qed

lemma inert_revoke_policy: "inert (en_store s) \<Longrightarrow> inert (en_store (snd (revoke_policy w rid s)))"
proof -
  assume s: "inert (en_store s)"
  have load: "frames only_ticks (store_call w (load_relay_policy rid))"
    by (rule ticks_store_call) (rule reads_ops)
  show ?thesis
  proof (cases "store_call w (load_relay_policy rid) s")
    case (Pair r t)
    have t: "en_store t = en_store s" using only_ticksD [OF framesD_run [OF load Pair]] by simp
    show ?thesis
    proof (cases r)
      case (Inl e)
      then show ?thesis using s t Pair by (simp add: revoke_policy_def run_simps)
    next
      case (Inr found_row)
      have found: "found_row = find_by relay_key rid (sd_relays (en_store s))"
        using store_call_InrD [OF Pair [unfolded Inr]] by (simp add: store_ops)
      show ?thesis
      proof (cases found_row)
        case None
        then show ?thesis using s t Pair Inr by (simp add: revoke_policy_def run_simps)
      next
        case (Some row)
        have row: "rp_host_allow (rr_policy row) = []"
          using s found [unfolded Some, symmetric] by (auto simp: inert_def list_all_iff dest: find_by_SomeD)
        let ?new = "row\<lparr>rr_policy := (rr_policy row)\<lparr>rp_revoked := True\<rparr>\<rparr>"
        have "frames (\<lambda>s t. inert (en_store s) \<longrightarrow> inert (en_store t))
            (and_then (store_call w (save_relay_policy ?new)) (\<lambda>_. ok_act ()))"
          by (intro frame_rules inert_tables.store_call) (simp add: inert_save row)
        from framesD [OF this, of t] show ?thesis
          using s t Pair Inr Some by (simp add: revoke_policy_def run_simps)
      qed
    qed
  qed
qed

lemma inert_relay_revoke: "inert (en_store s) \<Longrightarrow> inert (en_store (snd (relay_revoke w rid apply_flag s)))"
proof -
  assume s: "inert (en_store s)"
  let ?R = "\<lambda>s t. inert (en_store s) \<longrightarrow> inert (en_store t)"
  have "frames ?R (revoke_policy w rid)" by (rule framesI) (simp add: inert_revoke_policy)
  then have "frames ?R (relay_revoke w rid apply_flag)"
    unfolding relay_revoke_def Let_def
    by (intro frame_rules inert_tables.parts inert_tables.revoke_rows)
  from framesD [OF this, of s] s show ?thesis by blast
qed

lemma inert_request: "engine_request info r = Some q \<Longrightarrow> inert (en_store s) \<Longrightarrow> inert (en_store (perform w q s))"
proof -
  assume q: "engine_request info r = Some q" and s: "inert (en_store s)"
  show ?thesis
  proof (cases r)
    case (RelayMintRpc req)
    have "rp_host_allow (mint_req_to_policy req) = []" by (simp add: mint_req_to_policy_def)
    from framesD [OF inert_mint [OF this], of s] s show ?thesis
      using q by (auto simp: RelayMintRpc split: if_splits)
  qed (use q s in \<open>auto simp: inert_relay_revoke framesD [OF inert_tables.secret_put, rule_format]
      framesD [OF inert_tables.secret_get, rule_format] framesD [OF inert_tables.relay_revoke_bearer, rule_format]
      framesD [OF inert_tables.unlock, rule_format] framesD [OF inert_tables.lock, rule_format]\<close>)
qed

lemma inert_session: "inert (en_store s) \<Longrightarrow> inert (en_store (fold (perform w) (engine_requests owner rs) s))"
proof (induction rs arbitrary: s)
  case (Cons x rs)
  obtain info r where x: "x = (info, r)" by force
  show ?case
    using Cons by (auto simp: x inert_request split: option.split)
qed simp

lemma inert_never_swapped:
  assumes "inert (en_store s)"
  shows "en_sent (snd (relay_swap w bearer_text req s)) = en_sent s"
proof (rule ccontr)
  assume "en_sent (snd (relay_swap w bearer_text req s)) \<noteq> en_sent s"
  from swap_sent_evidence [OF this] obtain a where "swap_evidence w bearer_text req s a" by blast
  then obtain pr b cr now boot floor where "pr \<in> set (sd_relays (en_store s))"
    "decide (rr_policy pr) b cr now boot None floor = Allow"
    unfolding swap_evidence_def by blast
  then show False
    using assms by (auto simp: decide_Allow_raw within_scope_def inert_def list_all_iff host_in_def)
qed

text \<open>
  C10: the policies the control plane mints list no host, and nothing else in it writes a policy that
  does. So on a store without other policies no session, whoever sends what, makes a relay that can be
  used: whatever bearer is presented afterwards, nothing is ever sent to an upstream.
\<close>

theorem minted_relays_never_swapped:
  assumes "inert (en_store s)"
  shows "en_sent (snd (relay_swap w' bearer_text req (dm_engine (snd (session w jt owner rs (start_daemon s)))))) =
     en_sent (dm_engine (snd (session w jt owner rs (start_daemon s))))"
  using inert_never_swapped [OF inert_session [OF assms]]
  by (simp add: session_engine start_daemon_def)

end
