(* ===== verification/DaemonSpec.thy ===== *)
theory DaemonSpec
  imports DaemonSafety
begin

text \<open>
  What single RPCs of the daemon promise: the flag \<open>Lock.Status\<close> reports, what \<open>Vault.Get\<close> hands out,
  what a revocation does before it is confirmed, and what \<open>Relay.Mint\<close> does to a relay that exists.
\<close>

section \<open>The flag mirrors the vault\<close>

interpretation vault_same: policy_relation "\<lambda>s t. en_vault t = en_vault s" w "\<lambda>_ _. True" for w
  by unfold_locales simp_all

text \<open>An operation that leaves the vault alone when it fails, and one after whose success \<open>Q\<close> holds.\<close>

definition fails_closed :: "'a op \<Rightarrow> bool" where
  "fails_closed m \<longleftrightarrow> (\<forall>s e. fst (m s) = Inl e \<longrightarrow> en_vault (snd (m s)) = en_vault s)"

definition establishes :: "(engine \<Rightarrow> bool) \<Rightarrow> 'a op \<Rightarrow> bool" where
  "establishes Q m \<longleftrightarrow> (\<forall>s x. fst (m s) = Inr x \<longrightarrow> Q (snd (m s)))"

abbreviation succeeds_open :: "'a op \<Rightarrow> bool" where
  "succeeds_open \<equiv> establishes (\<lambda>t. is_unlocked (en_vault t))"

lemma fails_closed_frames: "frames (\<lambda>s t. en_vault t = en_vault s) m \<Longrightarrow> fails_closed m"
  by (simp add: fails_closed_def frames_def)

lemma fails_closed_and_then:
  assumes "frames (\<lambda>s t. en_vault t = en_vault s) m" "\<And>x. fails_closed (k x)"
  shows "fails_closed (and_then m k)"
  using assms by (auto simp: fails_closed_def frames_def run_and_then split: sum.splits)

lemma fails_closed_ok: "fails_closed (ok_act x)"
  by (simp add: fails_closed_def run_simps)

lemma fails_closed_if: "(b \<Longrightarrow> fails_closed m) \<Longrightarrow> (\<not> b \<Longrightarrow> fails_closed n) \<Longrightarrow> fails_closed (if b then m else n)"
  by simp

lemma fails_closed_option:
  "(x = None \<Longrightarrow> fails_closed m) \<Longrightarrow> (\<And>y. x = Some y \<Longrightarrow> fails_closed (n y)) \<Longrightarrow>
   fails_closed (case x of None \<Rightarrow> m | Some y \<Rightarrow> n y)"
  by (cases x) auto

lemma establishes_then: "(\<And>x. establishes Q (k x)) \<Longrightarrow> establishes Q (and_then m k)"
  by (auto simp: establishes_def run_and_then split: sum.splits)

lemma establishes_first:
  assumes "establishes Q m" "\<And>x. frames (\<lambda>s t. Q s \<longrightarrow> Q t) (k x)"
  shows "establishes Q (and_then m k)"
  using assms by (auto simp: establishes_def frames_def run_and_then split: sum.splits)

lemma establishes_known:
  assumes "\<And>s y t. m s = (Inr y, t) \<Longrightarrow> y = x" "establishes Q (k x)"
  shows "establishes Q (and_then m k)"
  using assms by (auto simp: establishes_def and_then_def split: sum.splits prod.splits)

lemma establishes_if: "(b \<Longrightarrow> establishes Q m) \<Longrightarrow> (\<not> b \<Longrightarrow> establishes Q n) \<Longrightarrow> establishes Q (if b then m else n)"
  by simp

lemma establishes_option:
  "(x = None \<Longrightarrow> establishes Q m) \<Longrightarrow> (\<And>y. x = Some y \<Longrightarrow> establishes Q (n y)) \<Longrightarrow>
   establishes Q (case x of None \<Rightarrow> m | Some y \<Rightarrow> n y)"
  by (cases x) auto

lemma establishes_never:
  "establishes Q (fail_act e)" "establishes Q (fail_audited w det e)" "establishes Q (refused w ev sub why e)"
  by (auto simp: establishes_def fail_audited_def refused_def run_and_then run_simps split: sum.splits)

lemma fails_closed_match:
  assumes "frames (\<lambda>s t. en_vault t = en_vault s) m" "\<And>e. fails_closed (f e)" "\<And>x. fails_closed (g x)"
  shows "fails_closed (match_result m f g)"
  unfolding fails_closed_def
proof (intro allI impI)
  fix s e
  assume fail: "fst (match_result m f g s) = Inl e"
  obtain r t where run: "m s = (r, t)" by force
  have "en_vault t = en_vault s" using framesD_run [OF assms(1) run] .
  with fail assms(2,3) show "en_vault (snd (match_result m f g s)) = en_vault s"
    by (cases r) (auto simp: run run_simps fails_closed_def)
qed

lemma establishes_match:
  assumes "\<And>e. establishes Q (f e)" "\<And>x. establishes Q (g x)"
  shows "establishes Q (match_result m f g)"
  using assms by (auto simp: establishes_def match_result_def split: prod.splits sum.splits)

lemma commit_outcome:
  assumes "reliable w"
  shows "fails_closed (commit_unlock w f dek)" "succeeds_open (commit_unlock w f dek)"
proof -
  have "fst (commit_unlock w f dek s) = Inr Unlocked_state \<and> en_vault (snd (commit_unlock w f dek s)) = VUnlocked dek" for s
    using commit_unlock_runs [OF assms, of f dek s] by auto
  then show "fails_closed (commit_unlock w f dek)" "succeeds_open (commit_unlock w f dek)"
    by (simp_all add: fails_closed_def establishes_def is_unlocked_def)
qed

lemma unlock_outcome:
  assumes "reliable w"
  shows "fails_closed (unlock w u)" "succeeds_open (unlock w u)"
proof -
  have keep: "fails_closed (fail_audited w det e :: vault_state op)" for det e
    by (intro fails_closed_frames vault_same.audit_kinds)
  have commit: "fails_closed (check_and_commit w f slots mac floor dek)"
    "succeeds_open (check_and_commit w f slots mac floor dek)" for f slots mac floor dek
    unfolding check_and_commit_def using commit_outcome [OF assms]
    by (auto intro!: fails_closed_and_then fails_closed_match establishes_then establishes_match
        keep establishes_never vault_same.audit_parts)
  show "fails_closed (unlock w u)"
    unfolding unlock_def
    by (intro fails_closed_and_then fails_closed_if fails_closed_option keep commit vault_same.audit_parts
        vault_same.recover frame_rules fails_closed_ok)
  show "succeeds_open (unlock w u)"
    unfolding unlock_def establishes_def
  proof (intro allI impI)
    fix s x
    let ?rest = "and_then (store_call w load_keyslots) (\<lambda>slots.
         and_then (load_header_mac w) (\<lambda>stored_mac.
         and_then (load_issuance_floor w) (\<lambda>issuance_floor_ms.
         and_then (recover w u slots) (\<lambda>recovered.
           case recovered of
             None \<Rightarrow> fail_audited w (JObj []) (Engine UnlockFailed)
           | Some dek \<Rightarrow> check_and_commit w (wanted_factor u) slots stored_mac issuance_floor_ms dek))))"
    assume ok: "fst (and_then (gets_act (\<lambda>s. is_unlocked (en_vault s)))
        (\<lambda>already. if already then ok_act Unlocked_state else ?rest) s) = Inr x"
    have "succeeds_open ?rest"
      using commit(2) by (intro establishes_then) (simp add: establishes_never split: option.split)
    with ok show "is_unlocked (en_vault (snd (and_then (gets_act (\<lambda>s. is_unlocked (en_vault s)))
        (\<lambda>already. if already then ok_act Unlocked_state else ?rest) s)))"
      by (auto simp: run_and_then run_simps establishes_def split: if_splits)
  qed
qed

lemma lock_outcome:
  assumes "reliable w"
  shows "fst (lock w s) = Inr () \<and> en_vault (snd (lock w s)) = VLocked"
proof -
  obtain t where "audit_ok w ''vault_locked'' None (JObj []) (s\<lparr>en_vault := VLocked, en_ca := None\<rparr>) = (Inr (), t)"
    "kept (s\<lparr>en_vault := VLocked, en_ca := None\<rparr>) t"
    by (rule audit_ok_runs [OF assms])
  then show ?thesis by (simp add: lock_def run_simps kept_def)
qed

definition mirrors :: "daemon \<Rightarrow> bool" where
  "mirrors d \<longleftrightarrow> dm_unlocked d = is_unlocked (en_vault (dm_engine d))"

lemma vault_kept_by:
  assumes "engine_request info r = Some q" "\<forall>pp. r \<noteq> LockUnlock pp" "r \<noteq> LockNow"
  shows "en_vault (perform w q s) = en_vault s"
  using assms by (cases r)
    (auto simp: framesD [OF vault_same.secret_put] framesD [OF vault_same.secret_get]
      framesD [OF vault_same.relay_revoke] framesD [OF vault_same.relay_revoke_bearer]
      framesD [OF vault_same.relay_mint] split: if_splits)

lemma handle_mirrors:
  assumes "reliable w" "mirrors d"
  shows "mirrors (snd (handle w jt info r d))"
proof -
  consider pp where "r = LockUnlock pp" | "r = LockNow" | "\<forall>pp. r \<noteq> LockUnlock pp" "r \<noteq> LockNow" by blast
  then show ?thesis
  proof cases
    case 1
    let ?u = "case pp of Some pp \<Rightarrow> UnlockPassphrase pp | None \<Rightarrow> UnlockUsb"
    show ?thesis
      using unlock_outcome [OF assms(1), of ?u] assms(2)
      by (cases "fst (unlock w ?u (dm_engine d))")
        (auto simp: 1 handle_state mirrors_def fails_closed_def establishes_def simp del: handle.simps)
  next
    case 2
    then show ?thesis
      using lock_outcome [OF assms(1), of "dm_engine d"]
      by (simp add: handle_state mirrors_def is_unlocked_def del: handle.simps)
  next
    case 3
    then have "flag_after w r d = dm_unlocked d" by (cases r) auto
    then show ?thesis
      using assms(2) vault_kept_by [OF _ 3] by (auto simp: handle_state mirrors_def split: option.split)
  qed
qed

lemma session_mirrors: "reliable w \<Longrightarrow> mirrors d \<Longrightarrow> mirrors (snd (session w jt owner rs d))"
proof (induction rs arbitrary: d)
  case (Cons x rs)
  obtain info r where x: "x = (info, r)" by force
  have "mirrors (snd (serve w jt owner info r d))"
  proof (cases "info = PeerCred owner")
    case True
    then show ?thesis using Cons.prems by (simp add: serve_owner handle_mirrors)
  next
    case False
    then obtain why where "serve w jt owner info r d = (Inl (PermissionDenied why), d)" by (rule serve_stranger)
    then show ?thesis using Cons.prems by simp
  qed
  then show ?case using Cons by (simp add: x session_Cons del: session.simps)
qed simp

text \<open>
  C29: when the store does not fail, the flag \<open>Lock.Status\<close> reports is the state of the vault after
  every session of a daemon started on a locked engine, whatever was unlocked, locked or refused.
\<close>

theorem flag_mirrors_vault:
  assumes "reliable w" "en_vault s = VLocked"
  shows "\<exists>d. snd (session w jt owner rs (start_daemon s)) = d
    \<and> fst (lock_status d) = Inr \<lparr>st_unlocked = is_unlocked (en_vault (dm_engine d)), st_usb_possessed = False,
                              st_active_relays = 0, st_secret_count = 0\<rparr>"
proof -
  have "mirrors (start_daemon s)" using assms(2) by (simp add: mirrors_def start_daemon_def is_unlocked_def)
  from session_mirrors [OF assms(1) this] show ?thesis
    by (simp add: lock_status_def run_simps mirrors_def)
qed

section \<open>Reading a secret\<close>

text \<open>
  \<open>Vault.Get\<close> answers with a value only when the reveal was asked for, applied and confirmed; then it is the
  authentic plaintext of the latest version of a secret that is not broker-only.
\<close>

lemma get_reveals_confirmed:
  assumes "vault_get w jt name reveal apply_flag confirm d = (Inr resp, d')" "gr_value resp \<noteq> [] \<or> reveal"
  shows "reveal \<and> apply_flag \<and> confirm \<and> gr_revealed resp
    \<and> (\<exists>dek row. en_vault (dm_engine d) = VUnlocked dek
        \<and> found (get_secret_latest name) (en_store (dm_engine d)) = Some row \<and> \<not> sr_broker_only row
        \<and> open_sealed (w_crypto w) dek (record_aad_of row) (sr_nonce row) (sr_ct_tag row) = Some (gr_value resp))"
proof -
  obtain r s' where run: "secret_get w name reveal (apply_flag \<and> confirm) (dm_engine d) = (r, s')" by force
  with assms obtain out where out: "r = Inr out" "reveal" "gr_value resp = out" "gr_revealed resp"
    by (cases r) (auto simp: vault_get_def spawn_blocking_def Let_def run_and_then run_simps
        split: any_error.splits if_splits)
  with secret_get_reveals [OF run [unfolded out(1)]] out assms(2) show ?thesis by auto
qed

section \<open>Unconfirmed revocations\<close>

lemma dry_run_keeps: "frames kept (relay_revoke w rid False)" "frames kept (relay_revoke_bearer w tid False)"
  unfolding relay_revoke_def relay_revoke_bearer_def Let_def
  by (simp_all, (intro frame_rules keep.audit_parts)+)

text \<open>
  Revoking a relay without both \<open>apply\<close> and \<open>confirm\<close>, or a bearer without \<open>apply\<close>, changes no
  policy, bearer, secret or vault state: only an audit row is written, and the answer says so.
\<close>

lemma unconfirmed_revoke_is_dry_run:
  "\<not> (apply_flag \<and> confirm) \<Longrightarrow>
     kept (dm_engine d) (dm_engine (snd (relay_svc_revoke w jt name apply_flag confirm d)))
     \<and> (\<forall>resp. fst (relay_svc_revoke w jt name apply_flag confirm d) = Inr resp \<longrightarrow> vr_dry_run resp)"
  "kept (dm_engine d) (dm_engine (snd (relay_svc_revoke_bearer w jt token_id False d)))"
  using handle_engine [of w jt NoConnectInfo "RelayRevokeRpc name apply_flag confirm" d]
    handle_engine [of w jt NoConnectInfo "RelayRevokeBearerRpc token_id False" d]
    framesD [OF dry_run_keeps(1)] framesD [OF dry_run_keeps(2)]
  by (auto simp: relay_svc_revoke_def run_and_then run_simps Let_def split: sum.splits)

section \<open>Minting for a relay that exists\<close>

interpretation relay_tables: data_relation same_relays w "\<lambda>g h. sd_relays h = sd_relays g" for w
  by unfold_locales (simp_all add: same_relays_def store_ops reserve_secret_row_id_def put_secret_def
      append_audit_def Let_def)

definition policy_stored :: "relay_policy \<Rightarrow> in_mem_data \<Rightarrow> bool" where
  "policy_stored spec g \<longleftrightarrow>
     (\<exists>row. find_by relay_key (rp_relay_id spec) (sd_relays g) = Some row \<and> rr_policy row = spec)"

lemma policy_stored_frames: "frames same_relays m \<Longrightarrow>
    frames (\<lambda>s t. policy_stored spec (en_store s) \<longrightarrow> policy_stored spec (en_store t)) m"
  by (simp add: frames_def same_relays_def policy_stored_def)

lemma save_relay_policy_stores:
  "establishes (\<lambda>t. policy_stored spec (en_store t)) (store_call w (save_relay_policy \<lparr>rr_id = 0, rr_policy = spec\<rparr>))"
proof -
  have "policy_stored spec (snd (save_relay_policy \<lparr>rr_id = 0, rr_policy = spec\<rparr> g))" for g
    using find_by_upsert_same [of relay_key "\<lparr>rr_id = i, rr_policy = spec\<rparr>" for i]
    by (simp add: policy_stored_def save_relay_policy_def Let_def relay_key_def)
  then show ?thesis by (auto simp: establishes_def store_call_def Let_def split: option.splits)
qed

lemma relay_mint_stores:
  assumes "rp_kind spec = Named \<or> rp_relay_id spec \<noteq> []"
  shows "establishes (\<lambda>t. policy_stored spec (en_store t)) (relay_mint w spec ttl uid pid)"
proof -
  have known: "resolve_relay_id w spec s = (Inr y, t) \<Longrightarrow> y = spec" for s y t
    using resolve_relay_id_keeps [of w spec s] assms by auto
  have "establishes (\<lambda>t. policy_stored spec (en_store t)) (issue_bearer w dek spec exp issued boot (Local uid pid))"
    for dek exp issued boot
    unfolding issue_bearer_def binding_columns.simps Let_def prod.case
    by (rule establishes_known, erule known, rule establishes_first [OF save_relay_policy_stores],
        rule policy_stored_frames) (intro frame_rules relay_tables.parts)
  then show ?thesis
    unfolding relay_mint_def mint_bearer_core_def binding_columns.simps Let_def prod.case
    by (intro establishes_then establishes_if establishes_option establishes_never)
qed

text \<open>
  C31: a mint that succeeds replaces the policy stored for its relay by the one made up from the
  request, whatever was stored before: afterwards the relay is enabled and not revoked, and its host,
  path and method lists and its limits are empty.
\<close>

theorem mint_replaces_policy:
  assumes "relay_svc_mint w jt info req d = (Inr resp, d')" "mq_relay req \<noteq> [] \<or> \<not> mq_ephemeral req"
  shows "\<exists>row. found (load_relay_policy (mq_relay req)) (en_store (dm_engine d')) = Some row
    \<and> rr_policy row = mint_req_to_policy req
    \<and> rp_enabled (rr_policy row) \<and> \<not> rp_revoked (rr_policy row)
    \<and> rp_host_allow (rr_policy row) = [] \<and> rp_rate_per_min (rr_policy row) = None"
proof -
  let ?spec = "mint_req_to_policy req"
  let ?uid = "case info of PeerCred uid \<Rightarrow> Some uid | _ \<Rightarrow> None"
  let ?pid = "if mq_client_pid req \<noteq> 0 then Some (mq_client_pid req) else None"
  let ?mint = "relay_mint w ?spec (mq_ttl_secs req) ?uid ?pid"
  obtain b where b: "fst (?mint (dm_engine d)) = Inr b"
    using assms(1) by (cases "?mint (dm_engine d)")
      (auto simp: relay_svc_mint_def spawn_blocking_def or_status_def Let_def run_and_then run_simps
        split: if_splits any_error.splits sum.splits)
  have "dm_engine d' = perform w (RelayMint ?spec (mq_ttl_secs req) ?uid ?pid) (dm_engine d)"
    using handle_engine [of w jt info "RelayMintRpc req" d] assms(1)
    by (auto simp: relay_svc_mint_def run_simps Let_def split: if_splits)
  moreover have "rp_kind ?spec = Named \<or> rp_relay_id ?spec \<noteq> []"
    using assms(2) by (auto simp: mint_req_to_policy_def)
  ultimately have "policy_stored ?spec (en_store (dm_engine d'))"
    using relay_mint_stores [of ?spec w "mq_ttl_secs req" ?uid ?pid] b by (simp add: establishes_def)
  then show ?thesis by (auto simp: policy_stored_def store_ops mint_req_to_policy_def)
qed

end
