(* ===== verification/DaemonConfig.thy ===== *)
theory DaemonConfig
  imports NetAddr
begin

text \<open>
  The daemon's configuration (\<open>crates/secretd/src/config.rs\<close>): which store the engine is built on and
  where it lives. The operating system is the parameter \<open>os\<close>: environment, files and their modes, and
  the TOML parser. An error is its chain of messages, the outermost context first.
\<close>

section \<open>Data\<close>

definition ENV_BACKEND :: string where "ENV_BACKEND = ''SECRETD_STORE_BACKEND''"
definition ENV_URL :: string where "ENV_URL = ''SECRETD_LIBSQL_URL''"
definition ENV_TOKEN :: string where "ENV_TOKEN = ''SECRETD_LIBSQL_AUTH_TOKEN''"
definition ENV_TOKEN_FILE :: string where "ENV_TOKEN_FILE = ''SECRETD_LIBSQL_AUTH_TOKEN_FILE''"
definition ENV_CONFIG :: string where "ENV_CONFIG = ''SECRETD_CONFIG''"

datatype backend = InMem | LibSql

record store_config =
  sc_backend :: backend
  sc_url :: "string option"
  sc_auth_token :: string

text \<open>\<open>Debug\<close>: the token is not shown.\<close>

definition backend_debug :: "backend \<Rightarrow> string" where
  "backend_debug b = (case b of InMem \<Rightarrow> ''InMem'' | LibSql \<Rightarrow> ''LibSql'')"

definition opt_str_debug :: "string option \<Rightarrow> string" where
  "opt_str_debug u = (case u of None \<Rightarrow> ''None'' | Some s \<Rightarrow> ''Some('' @ debug_str s @ '')'')"

definition store_config_debug :: "store_config \<Rightarrow> string" where
  "store_config_debug c = ''StoreConfig { backend: '' @ backend_debug (sc_backend c) @ '', url: '' @ opt_str_debug (sc_url c)
     @ '', auth_token: '' @ debug_str ''<redacted>'' @ '' }''"

theorem debug_text_hides_token:
  "store_config_debug (c\<lparr>sc_auth_token := t\<rparr>) = store_config_debug c"
  by (simp add: store_config_debug_def)

record file_store =
  fs_backend :: "string option"
  fs_url :: "string option"

record file_config =
  fc_store :: "file_store option"

definition default_file_store :: file_store where
  "default_file_store = \<lparr>fs_backend = None, fs_url = None\<rparr>"

definition default_file_config :: file_config where
  "default_file_config = \<lparr>fc_store = None\<rparr>"

datatype io_error = IoNotFound string | IoOther string

fun io_error_text :: "io_error \<Rightarrow> string" where
  "io_error_text (IoNotFound t) = t"
| "io_error_text (IoOther t) = t"

text \<open>
  \<open>env::var\<close> (\<open>None\<close> when unset or not Unicode), \<open>env::var_os\<close>, \<open>Path::display\<close>,
  \<open>fs::read_to_string\<close>, the mode of \<open>fs::metadata\<close>, and \<open>toml::from_str\<close>.
\<close>

record os =
  os_var :: "string \<Rightarrow> string option"
  os_var_os :: "string \<Rightarrow> string option"
  os_display :: "string \<Rightarrow> string"
  os_read :: "string \<Rightarrow> io_error + string"
  os_mode :: "string \<Rightarrow> io_error + u32"
  os_toml :: "string \<Rightarrow> string + file_config"

type_synonym 'a anyhow = "string list + 'a"

definition bail :: "string \<Rightarrow> 'a anyhow" where
  "bail msg = Inl [msg]"

definition context_msg :: "string \<Rightarrow> 'a anyhow \<Rightarrow> 'a anyhow" where
  "context_msg c r = (case r of Inl chain \<Rightarrow> Inl (c # chain) | Inr x \<Rightarrow> Inr x)"

definition io_result :: "io_error + 'a \<Rightarrow> 'a anyhow" where
  "io_result r = (case r of Inl e \<Rightarrow> Inl [io_error_text e] | Inr x \<Rightarrow> Inr x)"

lemma context_msg_simps [simp]: "context_msg c (Inl e) = Inl (c # e)" "context_msg c (Inr x) = Inr x"
  by (simp_all add: context_msg_def)

lemma context_msg_Inr [simp]: "context_msg c r = Inr x \<longleftrightarrow> r = Inr x"
  by (cases r) simp_all

lemma io_result_Inr [simp]: "io_result r = Inr x \<longleftrightarrow> r = Inr x"
  by (cases r) (simp_all add: io_result_def)

lemma and_ok_Inr: "and_ok r f = Inr y \<longleftrightarrow> (\<exists>x. r = Inr x \<and> f x = Inr y)"
  by (cases r) simp_all

lemma bail_not_Inr [simp]: "bail m \<noteq> Inr x"
  by (simp add: bail_def)

section \<open>The transport rule\<close>

text \<open>\<open>str::to_ascii_lowercase\<close>.\<close>

definition ascii_lowercase :: "string \<Rightarrow> string" where
  "ascii_lowercase s = map ascii_lower s"

definition split_scheme_host :: "string \<Rightarrow> (string \<times> string) option" where
  "split_scheme_host url =
     (case split_once_str ''://'' url of
        None \<Rightarrow> None
      | Some (scheme, rest) \<Rightarrow>
          (let authority = first_part (\<lambda>c. c = CHR ''/'' \<or> c = CHR ''?'' \<or> c = CHR ''#'') rest;
               authority = (case rsplit_once (CHR 0x40) authority of Some (_, host) \<Rightarrow> host | None \<Rightarrow> authority);
               host = (case authority of
                   c # after \<Rightarrow>
                     if c = CHR ''['' then first_part (\<lambda>c. c = CHR '']'') after
                     else (case rsplit_once (CHR '':'') authority of Some (h, _) \<Rightarrow> h | None \<Rightarrow> authority)
                 | [] \<Rightarrow> (case rsplit_once (CHR '':'') authority of Some (h, _) \<Rightarrow> h | None \<Rightarrow> authority))
           in Some (ascii_lowercase scheme, ascii_lowercase host)))"

definition host_is_loopback :: "string \<Rightarrow> bool" where
  "host_is_loopback host =
     (if host = ''localhost'' then True
      else case parse_ipv4 host of
        Some v4 \<Rightarrow> ipv4_is_loopback v4
      | None \<Rightarrow> (case parse_ipv6 host of Some v6 \<Rightarrow> ipv6_is_loopback v6 | None \<Rightarrow> False))"

definition url_host_is_loopback :: "string \<Rightarrow> bool" where
  "url_host_is_loopback url =
     (case split_scheme_host url of None \<Rightarrow> False | Some (_, host) \<Rightarrow> host_is_loopback host)"

definition url_is_acceptable :: "string \<Rightarrow> unit anyhow" where
  "url_is_acceptable url =
     (case split_scheme_host url of
        None \<Rightarrow> bail (''libSQL url '' @ debug_str url @ '' has no scheme:// prefix'')
      | Some (scheme, host) \<Rightarrow>
          if (scheme = ''http'' \<or> scheme = ''ws'') \<and> host_is_loopback host then Inr ()
          else if scheme = ''http'' \<or> scheme = ''ws'' then
            bail (''plaintext libSQL url to non-loopback host '' @ debug_str host
              @ '' is refused (FS-S7); point secretd at a LOOPBACK sqld (http://127.0.0.1:<port>)'')
          else if scheme = ''https'' \<or> scheme = ''wss'' \<or> scheme = ''libsql'' then
            bail (''direct TLS to a remote sqld is not supported in this build: libSQL's `tls` feature would ''
              @ ''add a SECOND rustls (rustls 0.22 via hyper-rustls 0.25), breaking the single ring-only ''
              @ ''rustls gate (DESIGN-NOTES OI-1). Run a loopback TLS terminator (stunnel/spiped/cloudflared) ''
              @ ''and set the URL to http://127.0.0.1:<local-port>'')
          else bail (''unsupported libSQL url scheme '' @ debug_str scheme @ '' (use http/ws to a loopback sqld)''))"

section \<open>Resolving\<close>

definition parse_backend :: "string option \<Rightarrow> backend anyhow" where
  "parse_backend s =
     (case map_option (\<lambda>s. ascii_lowercase (trim s)) s of
        None \<Rightarrow> Inr InMem
      | Some t \<Rightarrow>
          if t = [] \<or> t = ''inmem'' \<or> t = ''in-mem'' \<or> t = ''memory'' then Inr InMem
          else if t = ''libsql'' then Inr LibSql
          else bail (''unknown store backend '' @ debug_str t @ '' (expected '' @ debug_str ''inmem''
                 @ '' or '' @ debug_str ''libsql'' @ '')''))"

definition resolve :: "string option \<Rightarrow> string option \<Rightarrow> string option \<Rightarrow> store_config anyhow" where
  "resolve backend url token =
     and_ok (parse_backend backend) (\<lambda>backend.
       case backend of
         InMem \<Rightarrow> Inr \<lparr>sc_backend = backend, sc_url = None, sc_auth_token = []\<rparr>
       | LibSql \<Rightarrow>
           (case url of
              None \<Rightarrow> bail (''store backend = '' @ debug_str ''libsql'' @ '' requires a URL ('' @ ENV_URL @ '' or [store].url)'')
            | Some u \<Rightarrow>
                if blank u then
                  bail (''store backend = '' @ debug_str ''libsql'' @ '' requires a URL ('' @ ENV_URL @ '' or [store].url)'')
                else
                  and_ok (url_is_acceptable u) (\<lambda>_.
                    let auth_token = (case token of Some t \<Rightarrow> t | None \<Rightarrow> []) in
                    if auth_token = [] \<and> \<not> url_host_is_loopback u then
                      bail (''store backend = '' @ debug_str ''libsql''
                        @ '' to a non-loopback URL requires an auth token ('' @ ENV_TOKEN @ '' or '' @ ENV_TOKEN_FILE @ '')'')
                    else Inr \<lparr>sc_backend = backend, sc_url = Some u, sc_auth_token = auth_token\<rparr>)))"

section \<open>Loading\<close>

definition env_nonempty :: "os \<Rightarrow> string \<Rightarrow> string option" where
  "env_nonempty sys key =
     (case os_var sys key of None \<Rightarrow> None | Some v \<Rightarrow> if blank v then None else Some v)"

text \<open>\<open>{:o}\<close>.\<close>

fun oct_nat :: "nat \<Rightarrow> string" where
  "oct_nat n = (if n < 8 then [char_of (48 + n)] else oct_nat (n div 8) @ [char_of (48 + n mod 8)])"

declare oct_nat.simps [simp del]

unbundle bit_operations_syntax

text \<open>The masks are \<open>0o077\<close> and \<open>0o7777\<close>.\<close>

definition check_token_file_mode :: "os \<Rightarrow> string \<Rightarrow> unit anyhow" where
  "check_token_file_mode sys path =
     and_ok (context_msg (''stat token file '' @ os_display sys path) (io_result (os_mode sys path))) (\<lambda>mode.
       if mode AND 0x3F \<noteq> 0 then
         bail (''token file '' @ os_display sys path @ '' is group/other-accessible (mode ''
           @ oct_nat (unat (mode AND 0xFFF)) @ ''); chmod 0600 it'')
       else Inr ())"

definition load_token :: "os \<Rightarrow> string option anyhow" where
  "load_token sys =
     (case env_nonempty sys ENV_TOKEN of
        Some t \<Rightarrow> Inr (Some t)
      | None \<Rightarrow>
          (case env_nonempty sys ENV_TOKEN_FILE of
             Some p \<Rightarrow>
               and_ok (check_token_file_mode sys p) (\<lambda>_.
               and_ok (context_msg (''reading token file '' @ os_display sys p) (io_result (os_read sys p))) (\<lambda>raw.
                 Inr (Some (trim raw))))
           | None \<Rightarrow> Inr None))"

text \<open>The text of the configuration file; a file that does not exist is no file.\<close>

definition read_config :: "os \<Rightarrow> string \<Rightarrow> string option anyhow" where
  "read_config sys path =
     (case os_read sys path of
        Inr t \<Rightarrow> Inr (Some t)
      | Inl (IoNotFound _) \<Rightarrow> Inr None
      | Inl e \<Rightarrow> Inl [''reading '' @ os_display sys path, io_error_text e])"

definition parse_config :: "os \<Rightarrow> string option \<Rightarrow> file_config anyhow" where
  "parse_config sys file_text =
     (case file_text of
        Some t \<Rightarrow>
          (case os_toml sys t of Inl e \<Rightarrow> Inl [''parsing secretd config TOML'', e] | Inr f \<Rightarrow> Inr f)
      | None \<Rightarrow> Inr default_file_config)"

definition or_else :: "'a option \<Rightarrow> 'a option \<Rightarrow> 'a option" where
  "or_else a b = (case a of Some x \<Rightarrow> Some x | None \<Rightarrow> b)"

definition load :: "os \<Rightarrow> string \<Rightarrow> store_config anyhow" where
  "load sys default_config_path =
     (let cfg_path = (case os_var_os sys ENV_CONFIG of Some p \<Rightarrow> p | None \<Rightarrow> default_config_path) in
      and_ok (read_config sys cfg_path) (\<lambda>file_text.
      and_ok (parse_config sys file_text) (\<lambda>file.
        let fstore = (case fc_store file of Some f \<Rightarrow> f | None \<Rightarrow> default_file_store);
            backend = or_else (env_nonempty sys ENV_BACKEND) (fs_backend fstore);
            url = or_else (env_nonempty sys ENV_URL) (fs_url fstore) in
        and_ok (context_msg ''loading the libSQL auth token'' (load_token sys)) (\<lambda>token.
          resolve backend url token))))"

section \<open>What is accepted\<close>

text \<open>
  The transport rule, declaratively: plain HTTP or WebSocket to \<open>localhost\<close>, to an address of
  127.0.0.0/8 in canonical dotted form, or to the IPv6 loopback address.
\<close>

definition loopback_url :: "string \<Rightarrow> bool" where
  "loopback_url url \<longleftrightarrow>
     (\<exists>scheme host. split_scheme_host url = Some (scheme, host) \<and> scheme \<in> {''http'', ''ws''}
        \<and> (host = ''localhost''
           \<or> (\<exists>b c d. b < 256 \<and> c < 256 \<and> d < 256 \<and> host = dotted_quad 127 b c d)
           \<or> parse_ipv6 host = Some [0, 0, 0, 0, 0, 0, 0, 1]))"

lemma dotted_quad_starts: "\<exists>x xs. dotted_quad a b c d = x # xs \<and> 48 \<le> (of_char x :: nat) \<and> (of_char x :: nat) \<le> 57"
  using dec_nat_Cons [of a] by (auto simp: dotted_quad_def)

lemma quad_is_not_ipv6: "parse_ipv4 s = Some os \<Longrightarrow> parse_ipv6 s = None"
proof -
  assume "parse_ipv4 s = Some os"
  then have "read_ipv4_addr s = Some (os, [])"
    by (auto simp: parse_ipv4_def split: if_splits option.splits list.splits)
  then show ?thesis
    by (simp add: parse_ipv6_def read_ipv6_addr_def eval_nat_numeral read_separator_def)
qed

lemma host_is_loopback_iff:
  "host_is_loopback host \<longleftrightarrow>
     host = ''localhost'' \<or> (\<exists>b c d. b < 256 \<and> c < 256 \<and> d < 256 \<and> host = dotted_quad 127 b c d)
     \<or> parse_ipv6 host = Some [0, 0, 0, 0, 0, 0, 0, 1]"
proof (cases "parse_ipv4 host")
  case None
  then have "host \<noteq> dotted_quad 127 b c d" if "b < 256" "c < 256" "d < 256" for b c d
    using that parse_ipv4_dotted_quad [of host "[127, b, c, d]"] by auto
  with None show ?thesis
    by (auto simp: host_is_loopback_def ipv6_is_loopback_def split: option.splits)
next
  case (Some os)
  then obtain a b c d where q: "a < 256" "b < 256" "c < 256" "d < 256" "os = [a, b, c, d]" "host = dotted_quad a b c d"
    by (auto simp: parse_ipv4_dotted_quad)
  have "a' = 127 \<Longrightarrow> dotted_quad a' b' c' d' = host \<Longrightarrow> b' < 256 \<Longrightarrow> c' < 256 \<Longrightarrow> d' < 256 \<Longrightarrow> a = 127" for a' b' c' d'
    using parse_ipv4_dotted_quad [of host "[a', b', c', d']"] Some q(5) by auto
  then show ?thesis using Some q dotted_quad_starts [of a b c d] quad_is_not_ipv6 [OF Some]
    by (auto simp: host_is_loopback_def)
qed

lemma blank_no_colon: "blank s \<Longrightarrow> CHR '':'' \<notin> set s"
proof -
  have "all_white bs \<Longrightarrow> (58::nat) \<notin> set bs" for bs
    by (induction bs rule: all_white.induct)
      (auto simp: white1_def white2_def white3_def split: if_splits)
  then show "blank s \<Longrightarrow> CHR '':'' \<notin> set s"
    by (force simp: blank_def)
qed

lemma split_scheme_not_blank: "split_scheme_host url = Some x \<Longrightarrow> \<not> blank url"
proof -
  assume "split_scheme_host url = Some x"
  then obtain scheme rest where "split_once_str ''://'' url = Some (scheme, rest)"
    by (auto simp: split_scheme_host_def split: option.splits)
  from split_once_str_SomeD [OF this] show ?thesis using blank_no_colon [of url] by auto
qed

lemma url_is_acceptable_iff: "url_is_acceptable url = Inr () \<longleftrightarrow> loopback_url url"
  by (auto simp: url_is_acceptable_def loopback_url_def host_is_loopback_iff split: option.splits prod.splits)

lemma url_is_acceptable_ok: "url_is_acceptable url = Inr x \<Longrightarrow> url_host_is_loopback url"
  by (auto simp: url_is_acceptable_def url_host_is_loopback_def split: option.splits prod.splits if_splits)

lemma resolve_accepts:
  "resolve backend url token = Inr cfg \<longleftrightarrow>
     (parse_backend backend = Inr InMem \<and> cfg = \<lparr>sc_backend = InMem, sc_url = None, sc_auth_token = []\<rparr>)
     \<or> (parse_backend backend = Inr LibSql
        \<and> (\<exists>u. url = Some u \<and> loopback_url u
              \<and> cfg = \<lparr>sc_backend = LibSql, sc_url = Some u,
                       sc_auth_token = (case token of Some t \<Rightarrow> t | None \<Rightarrow> [])\<rparr>))"
proof -
  have "loopback_url u \<Longrightarrow> \<not> blank u" for u
    using split_scheme_not_blank by (auto simp: loopback_url_def)
  moreover have "loopback_url u \<Longrightarrow> url_host_is_loopback u" for u
    using url_is_acceptable_ok by (simp add: url_is_acceptable_iff [symmetric])
  ultimately show ?thesis
    by (cases "parse_backend backend")
      (auto simp: resolve_def and_ok_Inr url_is_acceptable_iff Let_def split: backend.splits option.splits)
qed

text \<open>
  Resolving accepts a configuration exactly when the backend is the in-memory one, and then the
  address and the token are dropped, or when it is libSQL with an address of the machine itself; the
  token is optional there, so the check for a missing token refuses nothing.
\<close>

theorem resolve_iff:
  "resolve backend url token = Inr cfg \<longleftrightarrow>
     (parse_backend backend = Inr InMem \<and> cfg = \<lparr>sc_backend = InMem, sc_url = None, sc_auth_token = []\<rparr>)
     \<or> (parse_backend backend = Inr LibSql
        \<and> (\<exists>u. url = Some u \<and> loopback_url u
              \<and> cfg = \<lparr>sc_backend = LibSql, sc_url = Some u,
                       sc_auth_token = (case token of Some t \<Rightarrow> t | None \<Rightarrow> [])\<rparr>))"
  by (rule resolve_accepts)

section \<open>Where the token comes from\<close>

lemma mode_mask: "mode AND 0x3F = take_bit 6 (mode :: u32)"
  by (simp add: take_bit_eq_mask mask_eq_exp_minus_1)

lemma check_token_file_mode_ok:
  "check_token_file_mode sys path = Inr x \<longleftrightarrow> (\<exists>mode. os_mode sys path = Inr mode \<and> take_bit 6 mode = 0)"
  by (auto simp: check_token_file_mode_def and_ok_Inr mode_mask)

lemma load_token_ok:
  "load_token sys = Inr token \<longleftrightarrow>
     (case env_nonempty sys ENV_TOKEN of
        Some t \<Rightarrow> token = Some t
      | None \<Rightarrow>
          (case env_nonempty sys ENV_TOKEN_FILE of
             None \<Rightarrow> token = None
           | Some f \<Rightarrow> \<exists>mode raw. os_mode sys f = Inr mode \<and> take_bit 6 mode = 0
                         \<and> os_read sys f = Inr raw \<and> token = Some (trim raw)))"
  by (auto simp: load_token_def and_ok_Inr check_token_file_mode_ok split: option.splits)

text \<open>What the daemon may use as its token: the variable, else a file that only its owner may access.\<close>

definition token_source :: "os \<Rightarrow> string \<Rightarrow> bool" where
  "token_source sys token \<longleftrightarrow>
     (case env_nonempty sys ENV_TOKEN of
        Some t \<Rightarrow> token = t
      | None \<Rightarrow>
          (case env_nonempty sys ENV_TOKEN_FILE of
             None \<Rightarrow> token = []
           | Some f \<Rightarrow> \<exists>mode raw. os_mode sys f = Inr mode \<and> take_bit 6 mode = 0
                         \<and> os_read sys f = Inr raw \<and> token = trim raw))"

lemma load_ok:
  assumes "load sys path = Inr cfg"
  obtains f :: file_store and token where
    "load_token sys = Inr token"
    "resolve (or_else (env_nonempty sys ENV_BACKEND) (fs_backend f))
       (or_else (env_nonempty sys ENV_URL) (fs_url f)) token = Inr cfg"
  using assms unfolding load_def Let_def and_ok_Inr context_msg_Inr by blast

text \<open>
  C33: whatever the environment and the files hold, a libSQL configuration that is loaded points at
  the machine itself; an address in the environment wins over the file's; and the token is that of
  the environment or of a file without any permission for the group or for others, never a text of
  the configuration file.
\<close>

theorem loaded_store_is_local:
  assumes "load sys path = Inr cfg" "sc_backend cfg = LibSql"
  shows "\<exists>u. sc_url cfg = Some u \<and> loopback_url u
           \<and> (\<forall>v. env_nonempty sys ENV_URL = Some v \<longrightarrow> u = v)
           \<and> token_source sys (sc_auth_token cfg)"
proof -
  obtain f :: file_store and token where t: "load_token sys = Inr token"
    and r: "resolve (or_else (env_nonempty sys ENV_BACKEND) (fs_backend f))
       (or_else (env_nonempty sys ENV_URL) (fs_url f)) token = Inr cfg"
    using assms(1) by (rule load_ok)
  have "token_source sys (case token of Some t \<Rightarrow> t | None \<Rightarrow> [])"
    using t by (auto simp: token_source_def load_token_ok split: option.splits)
  then show ?thesis
    using r assms(2) by (auto simp: resolve_accepts or_else_def split: option.splits)
qed

section \<open>Which host an address names\<close>

definition authority_text :: "string option \<Rightarrow> string \<Rightarrow> string option \<Rightarrow> string" where
  "authority_text user host port =
     (case user of None \<Rightarrow> [] | Some u \<Rightarrow> u @ [CHR 0x40]) @ host
     @ (case port of None \<Rightarrow> [] | Some p \<Rightarrow> CHR '':'' # p)"

definition url_text :: "string \<Rightarrow> string option \<Rightarrow> string \<Rightarrow> string option \<Rightarrow> string \<Rightarrow> string" where
  "url_text scheme user host port tail = scheme @ ''://'' @ authority_text user host port @ tail"

abbreviation delimiter :: "char \<Rightarrow> bool" where
  "delimiter c \<equiv> c = CHR ''/'' \<or> c = CHR ''?'' \<or> c = CHR ''#''"

text \<open>An address as RFC 3986 writes it; user information may hold any character but a delimiter.\<close>

definition url_parts :: "string \<Rightarrow> string option \<Rightarrow> string \<Rightarrow> string option \<Rightarrow> string \<Rightarrow> bool" where
  "url_parts scheme user host port tail \<longleftrightarrow>
     CHR '':'' \<notin> set scheme
     \<and> list_all (\<lambda>c. \<not> delimiter c) (authority_text user host port)
     \<and> CHR 0x40 \<notin> set host
     \<and> (case port of None \<Rightarrow> True | Some p \<Rightarrow> CHR 0x40 \<notin> set p \<and> CHR '':'' \<notin> set p)
     \<and> (tail = [] \<or> delimiter (hd tail))"

lemma first_part_authority:
  "list_all (\<lambda>c. \<not> f c) a \<Longrightarrow> tail = [] \<or> f (hd tail) \<Longrightarrow> first_part f (a @ tail) = a"
  by (cases tail) (auto simp: list_all_iff first_part_all first_part_stop)

lemma split_scheme: "CHR '':'' \<notin> set scheme \<Longrightarrow> split_once_str ''://'' (scheme @ ''://'' @ r) = Some (scheme, r)"
proof (rule split_once_str_first)
  fix k assume *: "CHR '':'' \<notin> set scheme" "k < length scheme"
  then obtain c cs where "drop k scheme = c # cs" by (metis Cons_nth_drop_Suc)
  moreover from this have "c \<noteq> CHR '':''" using * by (metis in_set_dropD list.set_intros(1))
  ultimately show "\<not> starts_with (drop k scheme @ ''://'' @ r) ''://''" by simp
qed

lemma strip_user:
  assumes "CHR 0x40 \<notin> set r"
  shows "(case rsplit_once (CHR 0x40) ((case user of None \<Rightarrow> [] | Some u \<Rightarrow> u @ [CHR 0x40]) @ r) of
            Some (_, host) \<Rightarrow> host
          | None \<Rightarrow> (case user of None \<Rightarrow> [] | Some u \<Rightarrow> u @ [CHR 0x40]) @ r) = r"
proof (cases user)
  case None
  then show ?thesis using assms by (simp add: rsplit_once_def)
next
  case (Some u)
  then show ?thesis using rsplit_once_append [OF assms, of u] by simp
qed

definition host_of_authority :: "string \<Rightarrow> string" where
  "host_of_authority authority =
     (case authority of
        c # after \<Rightarrow>
          if c = CHR ''['' then first_part (\<lambda>c. c = CHR '']'') after
          else (case rsplit_once (CHR '':'') authority of Some (h, _) \<Rightarrow> h | None \<Rightarrow> authority)
      | [] \<Rightarrow> (case rsplit_once (CHR '':'') authority of Some (h, _) \<Rightarrow> h | None \<Rightarrow> authority))"

lemma split_scheme_host_parts:
  assumes "url_parts scheme user host port tail"
  shows "split_scheme_host (url_text scheme user host port tail) =
    Some (ascii_lowercase scheme,
      ascii_lowercase (host_of_authority (host @ (case port of None \<Rightarrow> [] | Some p \<Rightarrow> CHR '':'' # p))))"
proof -
  have 1: "split_once_str ''://'' (url_text scheme user host port tail) = Some (scheme, authority_text user host port @ tail)"
    using assms unfolding url_text_def by (intro split_scheme) (simp add: url_parts_def)
  have 2: "first_part (\<lambda>c. delimiter c) (authority_text user host port @ tail) = authority_text user host port"
    using assms by (intro first_part_authority) (auto simp: url_parts_def)
  have 3: "(case rsplit_once (CHR 0x40) (authority_text user host port) of Some (_, host) \<Rightarrow> host
      | None \<Rightarrow> authority_text user host port) = host @ (case port of None \<Rightarrow> [] | Some p \<Rightarrow> CHR '':'' # p)"
    unfolding authority_text_def using assms
    by (intro strip_user) (auto simp: url_parts_def split: option.splits)
  show ?thesis
    unfolding split_scheme_host_def 1 by (simp only: option.case prod.case 2 3 Let_def host_of_authority_def)
qed

lemma bracketed_host: "CHR '']'' \<notin> set h \<Longrightarrow> host_of_authority (''['' @ h @ '']'' @ r) = h"
  using first_part_stop [of h "\<lambda>c. c = CHR '']''" "CHR '']''" r] by (auto simp: host_of_authority_def intro!: first_part_stop)

lemma plain_host:
  assumes "CHR '':'' \<notin> set h" "\<not> starts_with h ''[''" "case port of None \<Rightarrow> True | Some p \<Rightarrow> CHR '':'' \<notin> set p"
  shows "host_of_authority (h @ (case port of None \<Rightarrow> [] | Some p \<Rightarrow> CHR '':'' # p)) = h"
proof (cases port)
  case None
  then show ?thesis using assms by (auto simp: host_of_authority_def rsplit_once_def split: list.splits)
next
  case (Some p)
  then have "rsplit_once (CHR '':'') (h @ CHR '':'' # p) = Some (h, p)" using assms(3) by simp
  then show ?thesis using Some assms by (cases h) (auto simp: host_of_authority_def)
qed

text \<open>
  The host the transport rule looks at is the host the address names: user information, even one
  that spells another address, a port, a path, a query and a fragment do not change what is read, and
  the brackets of an IPv6 literal are taken off.
\<close>

theorem split_scheme_host_reads_host:
  assumes "url_parts scheme user host port tail"
  shows "(CHR '':'' \<notin> set host \<and> \<not> starts_with host ''['' \<longrightarrow>
            split_scheme_host (url_text scheme user host port tail) = Some (ascii_lowercase scheme, ascii_lowercase host))
         \<and> (\<forall>h. host = ''['' @ h @ '']'' \<and> CHR '']'' \<notin> set h \<longrightarrow>
            split_scheme_host (url_text scheme user host port tail) = Some (ascii_lowercase scheme, ascii_lowercase h))"
proof -
  have "case port of None \<Rightarrow> True | Some p \<Rightarrow> CHR '':'' \<notin> set p"
    using assms by (auto simp: url_parts_def split: option.splits)
  then have "CHR '':'' \<notin> set host \<and> \<not> starts_with host ''['' \<longrightarrow>
      split_scheme_host (url_text scheme user host port tail) = Some (ascii_lowercase scheme, ascii_lowercase host)"
    by (simp add: split_scheme_host_parts [OF assms] plain_host)
  moreover have "host = ''['' @ h @ '']'' \<and> CHR '']'' \<notin> set h \<longrightarrow>
      split_scheme_host (url_text scheme user host port tail) = Some (ascii_lowercase scheme, ascii_lowercase h)" for h
    using split_scheme_host_parts [OF assms] bracketed_host [of h] by auto
  ultimately show ?thesis by blast
qed

section \<open>Examples\<close>

definition sample_os :: os where
  "sample_os =
     \<lparr>os_var = map_of [(ENV_BACKEND, '' LibSQL ''), (ENV_TOKEN_FILE, ''/run/token'')],
      os_var_os = (\<lambda>_. None), os_display = (\<lambda>p. p),
      os_read = (\<lambda>p. if p = ''/run/token'' then Inr (''tok'' @ [CHR 0x0A]) else Inr ''[store]''),
      os_mode = (\<lambda>_. Inr 0x8180),
      os_toml = (\<lambda>_. Inr \<lparr>fc_store = Some \<lparr>fs_backend = None, fs_url = Some ''http://127.0.0.1:8080''\<rparr>\<rparr>)\<rparr>"

lemma loaded_store_is_local_witness:
  "\<exists>u. sc_url \<lparr>sc_backend = LibSql, sc_url = Some ''http://127.0.0.1:8080'', sc_auth_token = ''tok''\<rparr> = Some u
     \<and> loopback_url u \<and> (\<forall>v. env_nonempty sample_os ENV_URL = Some v \<longrightarrow> u = v)
     \<and> token_source sample_os
         (sc_auth_token \<lparr>sc_backend = LibSql, sc_url = Some ''http://127.0.0.1:8080'', sc_auth_token = ''tok''\<rparr>)"
proof (rule loaded_store_is_local)
  show "load sample_os ''/etc/secretd.toml'' =
      Inr \<lparr>sc_backend = LibSql, sc_url = Some ''http://127.0.0.1:8080'', sc_auth_token = ''tok''\<rparr>"
    by code_simp
qed simp

lemma split_scheme_host_reads_host_witness:
  "split_scheme_host ''https://127.0.0.1:80@Db.Turso.io:443/x?u=@localhost'' = Some (''https'', ''db.turso.io'')
   \<and> split_scheme_host ''ws://[::1]:8080'' = Some (''ws'', ''::1'')"
proof -
  have "url_parts ''https'' (Some ''127.0.0.1:80'') ''Db.Turso.io'' (Some ''443'') ''/x?u=@localhost''"
    "url_parts ''ws'' None ''[::1]'' (Some ''8080'') []"
    by code_simp+
  note split_scheme_host_reads_host [OF this(1)] split_scheme_host_reads_host [OF this(2)]
  moreover have "ascii_lowercase ''Db.Turso.io'' = ''db.turso.io''" "ascii_lowercase ''https'' = ''https''"
    "ascii_lowercase ''::1'' = ''::1''" "ascii_lowercase ''ws'' = ''ws''"
    by code_simp+
  ultimately show ?thesis by (simp add: url_text_def authority_text_def)
qed

end
