(* ===== verification/EngineMint.thy ===== *)
theory EngineMint
  imports EngineLive
begin

text \<open>
  Minting: what the store holds once a bearer was minted, how long that bearer can be used at most, and
  when a mint succeeds.
\<close>

section \<open>The row of a minted bearer\<close>

text \<open>The end of a mint: the row is stored under the id drawn, and what follows keeps the bearers.\<close>

lemma saved_then_audited:
  assumes "store_call w (save_bearer b) s1 = (Inr x, s2)" "audit_ok w ev sub det s2 = (Inr y, s3)"
    and "emit e s3 = (Inr z, s4)"
  shows "found (load_bearer (br_token_id b)) (en_store s4) = Some b"
proof -
  have "sd_bearers (en_store s4) = sd_bearers (en_store s2)"
    using keptD_bearers [OF framesD_run [OF keep.audit_kinds(1) assms(2)]] keptD_bearers [OF kept_emit [OF assms(3)]] by simp
  then show ?thesis using save_bearer_InrD [OF assms(1)] by (simp add: store_ops vec_table.load_save)
qed

lemma issue_bearer_stores:
  assumes "issue_bearer w dek spec expires issued boot binding s = (Inr b, t)"
  obtains row where "found (load_bearer (b_token_id b)) (en_store t) = Some row"
    "br_expires_at_ms row = expires" "br_issued_at_ms row = issued" "br_issued_boottime_ms row = boot"
    "\<not> br_revoked row"
proof -
  obtain uid pid cid jkt where cols: "binding_columns binding = (uid, pid, cid, jkt)" by (metis surj_pair)
  from assms show thesis
    unfolding issue_bearer_def cols Let_def prod.case
    apply (elim and_then_InrE)
    apply (drule (2) saved_then_audited)
    by (rule that) (auto simp: run_simps sealed_row_def)
qed

section \<open>How long a bearer lives\<close>

text \<open>The bound, in seconds: what was asked for, what the policy allows, and 24 hours.\<close>

definition life_secs :: "i64 \<Rightarrow> i64 \<Rightarrow> int" where
  "life_secs requested policy_ttl = min (min (sint requested) (sint policy_ttl)) 86400"

lemma clamped_expiry:
  fixes now :: i64
  assumes "clamp_ttl (word_of_int (sint now div 1000)) policy_ttl requested = Some e"
  shows "0 < life_secs requested policy_ttl"
    and "sint (sat_mul e 1000) = min i64_max (1000 * (sint now div 1000 + life_secs requested policy_ttl))"
proof -
  show life: "0 < life_secs requested policy_ttl"
    using assms by (auto simp: clamp_ttl_exact life_secs_def split: if_splits)
  have "i64_min \<le> sint now div 1000" "sint now div 1000 \<le> i64_max"
    using sint_i64_lower [of now] sint_i64_upper [of now] by linarith+
  then have secs: "sint (word_of_int (sint now div 1000) :: i64) = sint now div 1000"
    using sint_i64_clamp [of "sint now div 1000"] by (simp add: i64_clamp_def)
  have "e = i64_clamp (sint now div 1000 + life_secs requested policy_ttl)"
    using assms by (auto simp: clamp_ttl_exact life_secs_def secs split: if_splits)
  moreover have "life_secs requested policy_ttl \<le> 86400" by (simp add: life_secs_def)
  moreover have "- 9223372036854776 \<le> sint now div 1000" "sint now div 1000 \<le> 9223372036854775"
    using sint_i64_lower [of now] sint_i64_upper [of now] by linarith+
  ultimately show "sint (sat_mul e 1000) = min i64_max (1000 * (sint now div 1000 + life_secs requested policy_ttl))"
    using life by (simp add: sint_sat_mul)
qed

lemma lifetime_bounds:
  fixes now expires :: i64
  assumes "sint expires = min i64_max (1000 * (sint now div 1000 + life))" "0 < life"
  shows "sint expires \<le> sint now + 1000 * life" "sint now < i64_max \<Longrightarrow> sint now < sint expires"
proof -
  define secs where "secs = sint now div 1000"
  have "1000 * secs \<le> sint now" "sint now < 1000 * secs + 1000" unfolding secs_def by presburger+
  moreover have "sint expires = min i64_max (1000 * secs + 1000 * life)" using assms(1) by (simp add: secs_def distrib_left)
  ultimately show "sint expires \<le> sint now + 1000 * life" "sint now < i64_max \<Longrightarrow> sint now < sint expires"
    using assms(2) by (simp_all add: min_def split: if_splits)
qed

lemma expired_never_allowed:
  assumes "sint (br_expires_at_ms row) \<le> sint (br_issued_at_ms row) + life"
    and "sint (br_issued_at_ms row) + life \<le> sint now \<or> sint (br_issued_boottime_ms row) + life \<le> sint boot"
  shows "decide p (verified_of row) req now boot absent floor \<noteq> Allow"
proof
  assume "decide p (verified_of row) req now boot absent floor = Allow"
  then have wall: "sint now < sint (br_expires_at_ms row)"
    and "clock_check (verified_of row) now boot floor = Allow"
    by (auto simp: decide_Allow_raw i64_le_def)
  then have "sint (sat_sub boot (br_issued_boottime_ms row))
      < sint (sat_sub (br_expires_at_ms row) (br_issued_at_ms row))"
    by (auto simp: clock_check_def i64_le_def Let_def split: if_splits)
  then have "sint boot - sint (br_issued_boottime_ms row) < sint (br_expires_at_ms row) - sint (br_issued_at_ms row)"
    unfolding sint_sat_sub by linarith
  with wall assms show False by linarith
qed

lemma mint_core_issues:
  assumes "mint_bearer_core w spec ttl binding s = (Inr b, t)"
  obtains dek e s1 where
    "clamp_ttl (word_of_int (sint (w_now_ms w (en_tick s)) div 1000)) (rp_policy_ttl_secs spec) ttl = Some e"
    "issue_bearer w dek spec (sat_mul e 1000) (w_now_ms w (en_tick s)) (w_boottime_ms w (Suc (en_tick s))) binding s1
      = (Inr b, t)"
proof -
  obtain uid pid cid jkt where cols: "binding_columns binding = (uid, pid, cid, jkt)" by (metis surj_pair)
  have never: "refused w ev sub why z u \<noteq> (Inr x, v)" for ev sub why z u v and x :: bearer
    by (auto simp: refused_def run_simps elim!: and_then_InrE)
  show thesis
    using assms never unfolding mint_bearer_core_def cols
    by (auto simp: Let_def now_ms_def boottime_ms_def run_simps elim!: and_then_InrE
        split: if_splits option.splits) (rule that, assumption+)+
qed

lemmas relay_mint_issues = mint_core_issues [where binding = "Local uid pid" for uid pid, folded relay_mint_def]

text \<open>
  C39: a minted bearer expires: its stored expiry lies after the moment of minting, by at most what was
  asked for, what its policy allows and 24 hours (and saturates at the end of the clock's range), and once
  that much time has passed on the wall clock or on the boot clock, no policy and no request make \<open>decide\<close>
  allow a swap with it.
\<close>

theorem minted_bearer_expires:
  assumes "relay_mint w spec ttl uid pid s = (Inr b, t)"
  shows "\<exists>row. found (load_bearer (b_token_id b)) (en_store t) = Some row
    \<and> (let now = w_now_ms w (en_tick s); boot = w_boottime_ms w (Suc (en_tick s));
           life = min (min (sint ttl) (sint (rp_policy_ttl_secs spec))) 86400 in
        0 < life \<and> sint (br_expires_at_ms row) = min i64_max (1000 * (sint now div 1000 + life))
        \<and> sint (br_expires_at_ms row) \<le> sint now + 1000 * life
        \<and> (sint now < i64_max \<longrightarrow> sint now < sint (br_expires_at_ms row))
        \<and> (\<forall>p req now' boot' absent floor.
             sint now + 1000 * life \<le> sint now' \<or> sint boot + 1000 * life \<le> sint boot'
             \<longrightarrow> decide p (verified_of row) req now' boot' absent floor \<noteq> Allow))"
proof -
  obtain dek e s1 where e: "clamp_ttl (word_of_int (sint (w_now_ms w (en_tick s)) div 1000)) (rp_policy_ttl_secs spec) ttl = Some e"
    and issue: "issue_bearer w dek spec (sat_mul e 1000) (w_now_ms w (en_tick s)) (w_boottime_ms w (Suc (en_tick s))) (Local uid pid) s1
      = (Inr b, t)"
    by (rule relay_mint_issues [OF assms])
  obtain row where row: "found (load_bearer (b_token_id b)) (en_store t) = Some row"
    "br_expires_at_ms row = sat_mul e 1000" "br_issued_at_ms row = w_now_ms w (en_tick s)"
    "br_issued_boottime_ms row = w_boottime_ms w (Suc (en_tick s))"
    by (rule issue_bearer_stores [OF issue])
  note bounds = clamped_expiry [OF e] lifetime_bounds [OF clamped_expiry(2,1) [OF e]]
  have "decide p (verified_of row) req now' boot' absent floor \<noteq> Allow"
    if "sint (w_now_ms w (en_tick s)) + 1000 * life_secs ttl (rp_policy_ttl_secs spec) \<le> sint now'
      \<or> sint (w_boottime_ms w (Suc (en_tick s))) + 1000 * life_secs ttl (rp_policy_ttl_secs spec) \<le> sint boot'"
    for p req now' boot' absent floor
    using expired_never_allowed [of row "1000 * life_secs ttl (rp_policy_ttl_secs spec)"] bounds(3) that row by simp
  then show ?thesis
    unfolding Let_def life_secs_def [symmetric] using bounds row(1)
    by (intro exI [of _ row]) (simp add: row(2))
qed

section \<open>When a mint succeeds\<close>

lemma issue_bearer_succeeds:
  assumes "reliable w"
  shows "\<exists>b. fst (issue_bearer w dek spec exp issued boot (Local uid pid) s) = Inr b"
proof -
  obtain spec' s1 where "resolve_relay_id w spec s = (Inr spec', s1)"
    by (cases "rp_kind spec = Ephemeral \<and> rp_relay_id spec = []")
      (auto simp: resolve_relay_id_def random_bytes_def run_simps)
  then show ?thesis
    using assms
    by (simp add: issue_bearer_def run_simps random_bytes_def Let_def save_relay_policy_def store_ops
        run_and_then audit_kinds_ok)
qed

lemma relay_mint_succeeds:
  assumes w: "reliable w" and open_vault: "en_vault s = VUnlocked dek" and uid: "uid \<noteq> None"
    and usb: "possession w (en_store s)" and ttl: "0 < sint ttl" "0 < sint (rp_policy_ttl_secs spec)"
  shows "\<exists>b. fst (relay_mint w spec ttl uid pid s) = Inr b"
proof -
  let ?s = "s\<lparr>en_tick := Suc (Suc (en_tick s))\<rparr>"
  have gate: "fst (usb_possession_proven w ?s) = Inr True"
    by (rule possession_proven [OF w]) (simp add: usb)
  obtain e where "clamp_ttl (word_of_int (sint (w_now_ms w (en_tick s)) div 1000)) (rp_policy_ttl_secs spec) ttl = Some e"
    using ttl by (auto simp: clamp_ttl_exact)
  then show ?thesis
    using w open_vault uid gate issue_bearer_succeeds [OF w]
    by (auto simp: relay_mint_def mint_bearer_core_def now_ms_def boottime_ms_def run_simps require_dek_def
        run_and_then)
qed

text \<open>A week is asked for, and a day is given.\<close>

theorem minted_bearer_expires_witness:
  "\<exists>b t row. relay_mint toy_world base_policy 604800 (Some 1000) None toy_engine = (Inr b, t)
    \<and> found (load_bearer (b_token_id b)) (en_store t) = Some row
    \<and> sint (br_expires_at_ms row) = 1700086400000
    \<and> decide base_policy (verified_of row) (canon_of (rp_swap base_policy) toy_req (1, 128, 1))
        1700086400000 91400000 None 1699000000000 \<noteq> Allow"
proof -
  have "\<exists>b. fst (relay_mint toy_world base_policy 604800 (Some 1000) None toy_engine) = Inr b"
    by (rule relay_mint_succeeds [where dek = toy_dek])
      (simp_all add: toy_store_def empty_store_def possession_def usb_slots_def base_policy_def)
  then obtain b t where run: "relay_mint toy_world base_policy 604800 (Some 1000) None toy_engine = (Inr b, t)"
    by (metis prod.collapse)
  have life: "min (min (sint (604800 :: i64)) (sint (rp_policy_ttl_secs base_policy))) 86400 = 86400"
    by (simp add: base_policy_def)
  from minted_bearer_expires [OF run, unfolded life Let_def] obtain row where
    "found (load_bearer (b_token_id b)) (en_store t) = Some row" "sint (br_expires_at_ms row) = 1700086400000"
    "\<forall>p req now' boot' absent floor. (1700086400000 :: int) \<le> sint (now' :: i64) \<or> (91400000 :: int) \<le> sint (boot' :: i64)
       \<longrightarrow> decide p (verified_of row) req now' boot' absent floor \<noteq> Allow"
    by auto
  with run show ?thesis by (intro exI conjI) (assumption, assumption, assumption, simp)
qed

end
