(* ===== verification/DaemonExample.thy ===== *)
theory DaemonExample
  imports DaemonSpec DaemonConfig EngineMint
begin

text \<open>
  Runs of the daemon: its properties at concrete sessions over the sample vault.
\<close>

section \<open>Concrete sessions\<close>

definition toy_mint :: v1_mint_req where
  "toy_mint = \<lparr>mq_relay = ''claude-main'', mq_ephemeral = False, mq_provider = 1, mq_ttl_secs = 3600, mq_client_pid = 0\<rparr>"

text \<open>The relay of the sample vault, with its host list and its limits, is replaced by an empty one.\<close>

theorem mint_replaces_policy_witness:
  "(\<exists>row. found (load_relay_policy ''claude-main'') (en_store toy_engine) = Some row
       \<and> rp_host_allow (rr_policy row) = [''api.anthropic.com''])
   \<and> (\<exists>resp d' row. relay_svc_mint toy_world (\<lambda>t. t) (PeerCred 1000) toy_mint (start_daemon toy_engine) = (Inr resp, d')
       \<and> found (load_relay_policy ''claude-main'') (en_store (dm_engine d')) = Some row
       \<and> rp_host_allow (rr_policy row) = [])"
proof
  show "\<exists>row. found (load_relay_policy ''claude-main'') (en_store toy_engine) = Some row
      \<and> rp_host_allow (rr_policy row) = [''api.anthropic.com'']"
    by (simp add: toy_engine_def with_seams_def toy_store_def store_ops base_policy_def relay_key_def)
  have "\<exists>b. fst (relay_mint toy_world (mint_req_to_policy toy_mint) 3600 (Some 1000) None toy_engine) = Inr b"
    by (rule relay_mint_succeeds [where dek = toy_dek])
      (simp_all add: toy_engine_def with_seams_def toy_store_def empty_store_def possession_def usb_slots_def
        mint_req_to_policy_def DEFAULT_POLICY_TTL_SECS_def)
  then obtain b s where "relay_mint toy_world (mint_req_to_policy toy_mint) 3600 (Some 1000) None toy_engine = (Inr b, s)"
    by (metis prod.collapse)
  then obtain resp d' where
    "relay_svc_mint toy_world (\<lambda>t. t) (PeerCred 1000) toy_mint (start_daemon toy_engine) = (Inr resp, d')"
    by (simp add: relay_svc_mint_def toy_mint_def start_daemon_def spawn_blocking_def or_status_def run_simps)
  from this mint_replaces_policy [OF this] show "\<exists>resp d' row.
      relay_svc_mint toy_world (\<lambda>t. t) (PeerCred 1000) toy_mint (start_daemon toy_engine) = (Inr resp, d')
      \<and> found (load_relay_policy ''claude-main'') (en_store (dm_engine d')) = Some row
      \<and> rp_host_allow (rr_policy row) = []"
    by (auto simp: toy_mint_def)
qed

definition fresh_engine :: engine where
  "fresh_engine = with_seams 1000 empty_store"

definition toy_session :: "(connect_info \<times> rpc) list" where
  "toy_session =
     [(PeerCred 1000, LockUnlock (Some ''correct horse'')), (PeerCred 1001, RelayMintRpc toy_mint),
      (PeerCred 1000, RelayMintRpc toy_mint), (PeerCred 1000, LockStatus)]"

theorem minted_relays_never_swapped_witness:
  "en_sent (snd (relay_swap toy_world toy_raw toy_req
       (dm_engine (snd (session toy_world (\<lambda>t. t) 1000 toy_session (start_daemon fresh_engine)))))) =
   en_sent (dm_engine (snd (session toy_world (\<lambda>t. t) 1000 toy_session (start_daemon fresh_engine))))"
  by (rule minted_relays_never_swapped) (simp add: fresh_engine_def with_seams_def empty_store_def inert_def)

theorem flag_mirrors_vault_witness:
  "\<exists>d. snd (session toy_world (\<lambda>t. t) 1000 toy_session (start_daemon fresh_engine)) = d
    \<and> fst (lock_status d) = Inr \<lparr>st_unlocked = is_unlocked (en_vault (dm_engine d)), st_usb_possessed = False,
                              st_active_relays = 0, st_secret_count = 0\<rparr>"
  by (rule flag_mirrors_vault) (simp_all add: fresh_engine_def with_seams_def)

end
