(* ===== verification/DaemonRace.thy ===== *)
theory DaemonRace
  imports DaemonSpec
begin

text \<open>
  Overlapping requests of the Lock service. Each request runs on a thread of its own: the engine call,
  and then, when it succeeded, the store to the flag. Both are taken as atomic; the engine call holds
  the vault's lock only for a part of it, so the code has more interleavings than these, not fewer.
\<close>

section \<open>Tasks\<close>

datatype lock_call = CallUnlock unlock | CallLock

datatype task = Pending lock_call | Storing bool | Settled

fun flag_stored :: "lock_call \<Rightarrow> bool" where
  "flag_stored (CallUnlock u) = True"
| "flag_stored CallLock = False"

fun engine_part :: "world \<Rightarrow> lock_call \<Rightarrow> unit op" where
  "engine_part w (CallUnlock u) = and_then (unlock w u) (\<lambda>_. ok_act ())"
| "engine_part w CallLock = lock w"

definition after_engine :: "lock_call \<Rightarrow> any_error + unit \<Rightarrow> task" where
  "after_engine c r = (case r of Inr _ \<Rightarrow> Storing (flag_stored c) | Inl _ \<Rightarrow> Settled)"

inductive race_step :: "world \<Rightarrow> daemon \<times> task list \<Rightarrow> daemon \<times> task list \<Rightarrow> bool" for w where
  engine_call: "i < length ts \<Longrightarrow> ts ! i = Pending c \<Longrightarrow> engine_part w c (dm_engine d) = (r, s) \<Longrightarrow>
    race_step w (d, ts) (d\<lparr>dm_engine := s\<rparr>, ts[i := after_engine c r])"
| flag_store: "i < length ts \<Longrightarrow> ts ! i = Storing b \<Longrightarrow>
    race_step w (d, ts) (d\<lparr>dm_unlocked := b\<rparr>, ts[i := Settled])"

inductive_cases race_stepE: "race_step w x y"

text \<open>Without an overlap a task does what the handler of its request does.\<close>

fun lock_rpc :: "lock_call \<Rightarrow> rpc" where
  "lock_rpc (CallUnlock (UnlockPassphrase pp)) = LockUnlock (Some pp)"
| "lock_rpc (CallUnlock UnlockUsb) = LockUnlock None"
| "lock_rpc CallLock = LockNow"

lemma task_alone: "(race_step w)\<^sup>*\<^sup>* (d, [Pending c]) (snd (handle w jt info (lock_rpc c) d), [Settled])"
proof -
  obtain r s where run: "engine_part w c (dm_engine d) = (r, s)" by force
  have one: "race_step w (d, [Pending c]) (d\<lparr>dm_engine := s\<rparr>, [after_engine c r])"
    using engine_call [of 0 "[Pending c]" c w d r s] run by simp
  have state: "snd (handle w jt info (lock_rpc c) d) = d\<lparr>dm_engine := s,
      dm_unlocked := (case r of Inr _ \<Rightarrow> flag_stored c | Inl _ \<Rightarrow> dm_unlocked d)\<rparr>"
    using run by (cases c rule: lock_rpc.cases) (auto simp: handle_state run_and_then run_simps simp del: handle.simps
        split: sum.splits)
  show ?thesis
  proof (cases r)
    case (Inl e)
    then show ?thesis using one by (auto simp: state after_engine_def)
  next
    case (Inr x)
    have "race_step w (d\<lparr>dm_engine := s\<rparr>, [after_engine c r])
        (d\<lparr>dm_engine := s, dm_unlocked := flag_stored c\<rparr>, [Settled])"
      using flag_store [of 0 "[Storing (flag_stored c)]" "flag_stored c" w "d\<lparr>dm_engine := s\<rparr>"] Inr
      by (simp add: after_engine_def)
    with one show ?thesis by (simp add: state Inr)
  qed
qed

section \<open>Unlocks that overlap\<close>

text \<open>While only unlocks are under way, the flag lags behind the vault, but never runs ahead of it.\<close>

definition lagging :: "daemon \<times> task list \<Rightarrow> bool" where
  "lagging x \<longleftrightarrow> (case x of (d, ts) \<Rightarrow>
     Pending CallLock \<notin> set ts \<and> Storing False \<notin> set ts
     \<and> (dm_unlocked d \<or> Storing True \<in> set ts \<longleftrightarrow> is_unlocked (en_vault (dm_engine d))))"

lemma unlock_vault:
  assumes "reliable w" "unlock w u s = (r, t)"
  shows "is_unlocked (en_vault t) \<longleftrightarrow> is_unlocked (en_vault s) \<or> (\<exists>x. r = Inr x)"
proof -
  have "is_unlocked (en_vault s) \<Longrightarrow> r = Inr Unlocked_state \<and> t = s"
    using assms(2) by (simp add: unlock_def run_simps)
  then show ?thesis
    using unlock_outcome [OF assms(1), of u] assms(2)
    by (cases r) (auto simp: fails_closed_def establishes_def dest!: spec [of _ s])
qed

lemma lagging_step:
  assumes "reliable w" "race_step w x y" "lagging x" shows "lagging y"
  using assms(2)
proof cases
  case (engine_call i ts c d r s)
  then obtain u where c: "c = CallUnlock u"
    using assms(3) by (cases c) (auto simp: lagging_def in_set_conv_nth)
  then have "is_unlocked (en_vault s) \<longleftrightarrow> is_unlocked (en_vault (dm_engine d)) \<or> (\<exists>x. r = Inr x)"
    using engine_call(5) unlock_vault [OF assms(1)]
    by (cases "unlock w u (dm_engine d)") (force simp: run_and_then run_simps split: sum.splits)
  moreover have "set (ts[i := after_engine c r]) \<subseteq> insert (after_engine c r) (set ts)"
    by (rule set_update_subset_insert)
  moreover have "Storing True \<in> set ts \<Longrightarrow> Storing True \<in> set (ts[i := after_engine c r])"
    using engine_call(3,4) by (auto simp: in_set_conv_nth) (metis length_list_update nth_list_update_neq task.distinct(1))
  moreover have "after_engine c r \<in> set (ts[i := after_engine c r])"
    using engine_call(3) by (rule set_update_memI)
  ultimately show ?thesis
    using assms(3) by (cases r) (auto simp: engine_call lagging_def after_engine_def c)
next
  case (flag_store i ts b d)
  then have "b" using assms(3) by (cases b) (auto simp: lagging_def in_set_conv_nth)
  moreover have "Storing True \<in> set ts" using flag_store(3,4) \<open>b\<close> by (auto simp: in_set_conv_nth)
  moreover have "set (ts[i := Settled]) \<subseteq> insert Settled (set ts)" by (rule set_update_subset_insert)
  ultimately show ?thesis
    using assms(3) by (auto simp: flag_store lagging_def)
qed

lemma lagging_runs: "(race_step w)\<^sup>*\<^sup>* x y \<Longrightarrow> reliable w \<Longrightarrow> lagging x \<Longrightarrow> lagging y"
  by (induction rule: rtranclp_induct) (auto intro: lagging_step)

text \<open>
  However unlocks overlap, when all have settled the flag is the state of the vault again, on a store
  without faults.
\<close>

theorem settled_unlocks_mirror:
  assumes "reliable w" "mirrors d"
    and "(race_step w)\<^sup>*\<^sup>* (d, map (\<lambda>u. Pending (CallUnlock u)) us) (d', ts)" "set ts \<subseteq> {Settled}"
  shows "mirrors d'"
proof -
  have "lagging (d, map (\<lambda>u. Pending (CallUnlock u)) us)"
    using assms(2) by (auto simp: lagging_def mirrors_def)
  from lagging_runs [OF assms(3,1) this] show ?thesis
    using assms(4) by (auto simp: lagging_def mirrors_def)
qed

section \<open>An unlock and a lock that overlap\<close>

lemma lock_runs: "reliable w \<Longrightarrow> \<exists>t. lock w s = (Inr (), t) \<and> en_vault t = VLocked"
  using lock_outcome [of w s] by (cases "lock w s") auto

text \<open>
  C30: an unlock of an open vault that overlaps a lock can leave the flag up over a locked vault: it finds
  the vault open, the lock closes it and clears the flag, and then the unlock sets the flag. So
  \<open>Lock.Status\<close> reports an open vault until the next lock or unlock.
\<close>

theorem racing_lock_leaves_flag_up:
  assumes "reliable w" "is_unlocked (en_vault (dm_engine d))"
  shows "\<exists>d'. (race_step w)\<^sup>*\<^sup>* (d, [Pending (CallUnlock u), Pending CallLock]) (d', [Settled, Settled])
    \<and> dm_unlocked d' \<and> en_vault (dm_engine d') = VLocked"
proof -
  obtain t where lock: "lock w (dm_engine d) = (Inr (), t)" "en_vault t = VLocked"
    using lock_runs [OF assms(1)] by blast
  have "engine_part w (CallUnlock u) (dm_engine d) = (Inr (), dm_engine d)"
    using assms(2) by (simp add: unlock_def run_simps)
  then have 1: "race_step w (d, [Pending (CallUnlock u), Pending CallLock]) (d, [Storing True, Pending CallLock])"
    using engine_call [of 0 "[Pending (CallUnlock u), Pending CallLock]" "CallUnlock u" w d]
    by (simp add: after_engine_def)
  have 2: "race_step w (d, [Storing True, Pending CallLock]) (d\<lparr>dm_engine := t\<rparr>, [Storing True, Storing False])"
    using engine_call [of 1 "[Storing True, Pending CallLock]" CallLock w d "Inr ()" t] lock(1)
    by (simp add: after_engine_def)
  have 3: "race_step w (d\<lparr>dm_engine := t\<rparr>, [Storing True, Storing False])
      (d\<lparr>dm_engine := t, dm_unlocked := False\<rparr>, [Storing True, Settled])"
    using flag_store [of 1 "[Storing True, Storing False]" False w "d\<lparr>dm_engine := t\<rparr>"] by simp
  have 4: "race_step w (d\<lparr>dm_engine := t, dm_unlocked := False\<rparr>, [Storing True, Settled])
      (d\<lparr>dm_engine := t, dm_unlocked := True\<rparr>, [Settled, Settled])"
    using flag_store [of 0 "[Storing True, Settled]" True w "d\<lparr>dm_engine := t, dm_unlocked := False\<rparr>"] by simp
  have "(race_step w)\<^sup>*\<^sup>* (d, [Pending (CallUnlock u), Pending CallLock])
      (d\<lparr>dm_engine := t, dm_unlocked := True\<rparr>, [Settled, Settled])"
    using 1 2 3 4 by (meson converse_rtranclp_into_rtranclp rtranclp.rtrancl_refl)
  then show ?thesis using lock(2) by auto
qed

theorem racing_lock_leaves_flag_up_witness:
  "\<exists>d'. (race_step toy_world)\<^sup>*\<^sup>*
       (start_daemon toy_engine, [Pending (CallUnlock UnlockUsb), Pending CallLock]) (d', [Settled, Settled])
     \<and> dm_unlocked d' \<and> en_vault (dm_engine d') = VLocked"
  by (rule racing_lock_leaves_flag_up) (simp_all add: start_daemon_def toy_engine_def is_unlocked_def)

end
