(* ===== verification/Paths.thy ===== *)
theory Paths
  imports DaemonConfig
begin

text \<open>
  Where the programs keep their files (\<open>crates/secrets-engine/src/paths.rs\<close>), and the client's own
  computation of the socket's path (\<open>socket_path\<close> of \<open>crates/secretctl/src/main.rs\<close>). A path is the text
  of a Unix path; the environment is \<open>os_var_os\<close> of the parameter \<open>os\<close>.
\<close>

section \<open>Joining\<close>

text \<open>
  \<open>PathBuf::join\<close>: an absolute path replaces the base; otherwise a separator is put in when the base is
  not empty and does not end with one.
\<close>

definition join_path :: "string \<Rightarrow> string \<Rightarrow> string" where
  "join_path base p =
     (if starts_with p ''/'' then p
      else if base = [] \<or> last base = CHR ''/'' then base @ p
      else base @ CHR ''/'' # p)"

lemma length_join_path: "\<not> starts_with p ''/'' \<Longrightarrow> length base + length p \<le> length (join_path base p)"
  by (simp add: join_path_def)

lemma join_path_differs: "\<not> starts_with p ''/'' \<Longrightarrow> p \<noteq> [] \<Longrightarrow> join_path base p \<noteq> base"
proof -
  assume p: "\<not> starts_with p ''/''" "p \<noteq> []"
  then have "length base < length (join_path base p)" using length_join_path [OF p(1), of base] by (cases p) simp_all
  then show "join_path base p \<noteq> base" by auto
qed

section \<open>The engine's paths\<close>

record paths =
  pa_config :: string
  pa_data :: string
  pa_state :: string
  pa_runtime :: string

definition paths_resolve :: "os \<Rightarrow> paths anyhow" where
  "paths_resolve sys =
     (case os_var_os sys ''HOME'' of
        None \<Rightarrow> bail ''HOME is not set''
      | Some home \<Rightarrow>
          (let base = (\<lambda>var dflt. case os_var_os sys var of Some p \<Rightarrow> p | None \<Rightarrow> dflt);
               config = join_path (base ''XDG_CONFIG_HOME'' (join_path home ''.config'')) ''env-ctl'';
               data = join_path (base ''XDG_DATA_HOME'' (join_path home ''.local/share'')) ''env-ctl'';
               state = join_path (base ''XDG_STATE_HOME'' (join_path home ''.local/state'')) ''env-ctl'';
               runtime = (case os_var_os sys ''XDG_RUNTIME_DIR'' of
                   Some r \<Rightarrow> join_path r ''env-ctl''
                 | None \<Rightarrow> state)
           in Inr \<lparr>pa_config = config, pa_data = data, pa_state = state, pa_runtime = runtime\<rparr>))"

definition paths_under :: "string \<Rightarrow> paths" where
  "paths_under root =
     \<lparr>pa_config = join_path root ''config'', pa_data = join_path root ''data'',
      pa_state = join_path root ''state'', pa_runtime = join_path root ''run''\<rparr>"

definition vault_db :: "paths \<Rightarrow> string" where
  "vault_db p = join_path (pa_data p) ''vault.db''"

definition control_socket :: "paths \<Rightarrow> string" where
  "control_socket p = join_path (pa_runtime p) ''secretd.sock''"

definition config_file :: "paths \<Rightarrow> string" where
  "config_file p = join_path (pa_config p) ''secretd.toml''"

definition log_file :: "paths \<Rightarrow> string" where
  "log_file p = join_path (pa_state p) ''env-ctl.log''"

section \<open>The client's socket\<close>

definition socket_path :: "os \<Rightarrow> string option \<Rightarrow> string anyhow" where
  "socket_path sys override_path =
     (case override_path of
        Some p \<Rightarrow> Inr p
      | None \<Rightarrow>
          and_ok
            (case os_var_os sys ''XDG_RUNTIME_DIR'' of
               Some r \<Rightarrow> Inr (join_path r ''env-ctl'')
             | None \<Rightarrow>
                 (case os_var_os sys ''HOME'' of
                    None \<Rightarrow> bail ''neither XDG_RUNTIME_DIR nor HOME is set''
                  | Some home \<Rightarrow>
                      Inr (join_path
                        (case os_var_os sys ''XDG_STATE_HOME'' of Some p \<Rightarrow> p | None \<Rightarrow> join_path home ''.local/state'')
                        ''env-ctl'')))
            (\<lambda>runtime. Inr (join_path runtime ''secretd.sock'')))"

lemma paths_resolve_runtime:
  assumes "paths_resolve sys = Inr p"
  shows "pa_runtime p = (case os_var_os sys ''XDG_RUNTIME_DIR'' of Some r \<Rightarrow> join_path r ''env-ctl'' | None \<Rightarrow> pa_state p)"
  using assms by (auto simp: paths_resolve_def Let_def split: option.splits)

text \<open>
  The client and the daemon, which compute it apart, agree on the socket in every environment the
  daemon starts in; and the client finds a path in exactly those environments and in those that name
  the runtime directory but no home, where the daemon does not start.
\<close>

theorem client_finds_the_socket:
  "(case paths_resolve sys of
      Inr p \<Rightarrow> socket_path sys None = Inr (control_socket p)
    | Inl _ \<Rightarrow> os_var_os sys ''HOME'' = None)
   \<and> ((\<exists>e. socket_path sys None = Inl e) \<longleftrightarrow>
        os_var_os sys ''XDG_RUNTIME_DIR'' = None \<and> os_var_os sys ''HOME'' = None)"
  by (auto simp: paths_resolve_def socket_path_def control_socket_def bail_def Let_def split: option.splits)

text \<open>The daemon's files lie directly below its four directories, and no two of them are one.\<close>

lemma join_path_suffix: "\<not> starts_with p ''/'' \<Longrightarrow> \<exists>pre. join_path base p = pre @ p"
  by (rule exI [of _ "if base = [] \<or> last base = CHR ''/'' then base else base @ ''/''"]) (simp add: join_path_def)

lemma append_tails_differ: "take (length q) (rev p) \<noteq> take (length p) (rev q) \<Longrightarrow> a @ p \<noteq> b @ q"
proof
  assume differ: "take (length q) (rev p) \<noteq> take (length p) (rev q)" and same: "a @ p = b @ q"
  have "rev p @ rev a = rev q @ rev b" using arg_cong [OF same, of rev] by simp
  then have "take (min (length p) (length q)) (rev p @ rev a) = take (min (length p) (length q)) (rev q @ rev b)" by simp
  then show False using differ by (simp add: min_def split: if_splits)
qed

lemma files_differ: "distinct [vault_db p, control_socket p, config_file p, log_file p]"
proof -
  have apart: "join_path x f \<noteq> join_path y g"
    if "\<not> starts_with f ''/''" "\<not> starts_with g ''/''" "take (length g) (rev f) \<noteq> take (length f) (rev g)" for x y f g
    using join_path_suffix [OF that(1), of x] join_path_suffix [OF that(2), of y] append_tails_differ [OF that(3)] by metis
  show ?thesis
    by (simp add: vault_db_def control_socket_def config_file_def log_file_def apart)
qed

end
