(* ===== verification/Utf8.thy ===== *)
theory Utf8
  imports Prelude
begin

text \<open>
  UTF-8 as the standard library reads it: \<open>str::from_utf8\<close> decides, and \<open>String::from_utf8_lossy\<close> puts
  the replacement character U+FFFD for every maximal prefix of an ill-formed character. Bytes are
  numbers here.
\<close>

section \<open>One character\<close>

text \<open>\<open>safe_get\<close>: the byte at an index, 0 past the end.\<close>

definition byte_at :: "nat list \<Rightarrow> nat \<Rightarrow> nat" where
  "byte_at bs i = (if i < length bs then bs ! i else 0)"

definition continues :: "nat \<Rightarrow> bool" where
  "continues b \<longleftrightarrow> 0x80 \<le> b \<and> b \<le> 0xBF"

text \<open>The second byte of a three-byte and of a four-byte character: no overlong form, no surrogate, no value over U+10FFFF.\<close>

definition second3 :: "nat \<Rightarrow> nat \<Rightarrow> bool" where
  "second3 b c \<longleftrightarrow>
     (b = 0xE0 \<and> 0xA0 \<le> c \<and> c \<le> 0xBF)
     \<or> ((0xE1 \<le> b \<and> b \<le> 0xEC \<or> b = 0xEE \<or> b = 0xEF) \<and> continues c)
     \<or> (b = 0xED \<and> 0x80 \<le> c \<and> c \<le> 0x9F)"

definition second4 :: "nat \<Rightarrow> nat \<Rightarrow> bool" where
  "second4 b c \<longleftrightarrow>
     (b = 0xF0 \<and> 0x90 \<le> c \<and> c \<le> 0xBF)
     \<or> (0xF1 \<le> b \<and> b \<le> 0xF3 \<and> continues c)
     \<or> (b = 0xF4 \<and> 0x80 \<le> c \<and> c \<le> 0x8F)"

text \<open>The next character: \<open>Inr\<close> its length, or \<open>Inl\<close> the length of the prefix that is none.\<close>

definition scan :: "nat list \<Rightarrow> nat + nat" where
  "scan bs =
     (let b = byte_at bs 0 in
      if b < 0x80 then Inr 1
      else if 0xC2 \<le> b \<and> b \<le> 0xDF then (if continues (byte_at bs 1) then Inr 2 else Inl 1)
      else if 0xE0 \<le> b \<and> b \<le> 0xEF then
        (if \<not> second3 b (byte_at bs 1) then Inl 1
         else if \<not> continues (byte_at bs 2) then Inl 2 else Inr 3)
      else if 0xF0 \<le> b \<and> b \<le> 0xF4 then
        (if \<not> second4 b (byte_at bs 1) then Inl 1
         else if \<not> continues (byte_at bs 2) then Inl 2
         else if \<not> continues (byte_at bs 3) then Inl 3 else Inr 4)
      else Inl 1)"

lemma scan_advances: "scan bs = Inl n \<Longrightarrow> 0 < n" "scan bs = Inr n \<Longrightarrow> 0 < n"
  by (auto simp: scan_def Let_def split: if_splits)

section \<open>Texts\<close>

function well_formed :: "nat list \<Rightarrow> bool" where
  "well_formed [] = True"
| "well_formed (b # bs) = (case scan (b # bs) of Inl _ \<Rightarrow> False | Inr n \<Rightarrow> well_formed (drop n (b # bs)))"
  by pat_completeness auto
termination by (relation "measure length") (auto dest: scan_advances)

definition REPLACEMENT :: "nat list" where
  "REPLACEMENT = [0xEF, 0xBF, 0xBD]"

function lossy :: "nat list \<Rightarrow> nat list" where
  "lossy [] = []"
| "lossy (b # bs) =
     (case scan (b # bs) of
        Inl n \<Rightarrow> REPLACEMENT @ lossy (drop n (b # bs))
      | Inr n \<Rightarrow> take n (b # bs) @ lossy (drop n (b # bs)))"
  by pat_completeness auto
termination by (relation "measure length") (auto dest: scan_advances)

definition from_utf8_lossy :: "bytes \<Rightarrow> string" where
  "from_utf8_lossy bs = map char_of (lossy (map unat bs))"

text \<open>\<open>read_to_string\<close> on bytes: the text, or none when they are not UTF-8.\<close>

definition from_utf8 :: "bytes \<Rightarrow> string option" where
  "from_utf8 bs = (if well_formed (map unat bs) then Some (map (\<lambda>b. char_of (unat b)) bs) else None)"

lemma scan_within: "scan bs = Inr n \<Longrightarrow> bs \<noteq> [] \<Longrightarrow> n \<le> length bs"
  by (cases bs) (auto simp: scan_def Let_def byte_at_def continues_def second3_def second4_def Suc_le_eq split: if_splits)

lemma byte_at_take: "i < n \<Longrightarrow> n \<le> length bs \<Longrightarrow> byte_at (take n bs @ cs) i = byte_at bs i"
  by (simp add: byte_at_def nth_append)

lemma scan_prefix: "scan bs = Inr n \<Longrightarrow> bs \<noteq> [] \<Longrightarrow> scan (take n bs @ cs) = Inr n"
proof -
  assume s: "scan bs = Inr n" "bs \<noteq> []"
  have "byte_at (take n bs @ cs) i = byte_at bs i" if "i < n" for i
    using byte_at_take scan_within [OF s] that by blast
  with s show ?thesis
    by (auto simp: scan_def Let_def split: if_splits)
qed

lemma scan_replacement: "scan (REPLACEMENT @ cs) = Inr 3"
  by (simp add: scan_def REPLACEMENT_def byte_at_def second3_def continues_def)

lemma well_formed_append: "scan bs = Inr n \<Longrightarrow> n = length bs \<Longrightarrow> bs \<noteq> [] \<Longrightarrow> well_formed (bs @ cs) = well_formed cs"
  using scan_prefix [of bs n cs] by (cases bs) simp_all

lemma lossy_well_formed: "well_formed (lossy bs)"
proof (induction bs rule: lossy.induct)
  case (2 b bs)
  show ?case
  proof (cases "scan (b # bs)")
    case (Inl n)
    have "well_formed (REPLACEMENT @ cs) = well_formed cs" for cs
      using well_formed_append [of REPLACEMENT 3 cs] scan_replacement [of "[]"] by (simp add: REPLACEMENT_def)
    with Inl 2 show ?thesis by simp
  next
    case (Inr n)
    have n: "0 < n" "n \<le> length (b # bs)" using scan_advances(2) [OF Inr] scan_within [OF Inr] by simp_all
    then have "well_formed (take n (b # bs) @ cs) = well_formed cs" for cs
      using scan_prefix [OF Inr, of "[]"] by (intro well_formed_append [of _ n]) auto
    with Inr 2 show ?thesis by simp
  qed
qed simp

lemma lossy_fixed: "well_formed bs \<Longrightarrow> lossy bs = bs"
proof (induction bs rule: lossy.induct)
  case (2 b bs)
  then show ?case by (auto split: sum.splits simp del: drop_Cons take_Cons)
qed simp

text \<open>
  Reading leniently gives UTF-8 back, and changes a text exactly when it is not UTF-8.
\<close>

theorem lossy_exact: "well_formed (lossy bs) \<and> (lossy bs = bs \<longleftrightarrow> well_formed bs) \<and> lossy (lossy bs) = lossy bs"
  using lossy_well_formed lossy_fixed by metis

lemma from_utf8_lossy_text: "from_utf8 bs = Some s \<Longrightarrow> from_utf8_lossy bs = s"
  by (auto simp: from_utf8_def from_utf8_lossy_def lossy_fixed split: if_splits)

end
