(* ===== verification/ClientCmd.thy ===== *)
theory ClientCmd
  imports DaemonServer Paths Utf8
begin

text \<open>
  The command line of the client: its commands (\<open>crates/secretctl/src/cli.rs\<close>), which clap parses, and
  what it prints (\<open>crates/secretctl/src/render.rs\<close>). A renderer is the text it writes to the standard
  output. The text of a JSON value is the argument \<open>js\<close>.
\<close>

section \<open>Commands\<close>

datatype secret_cmd =
    CmdAdd (add_name: string) (add_provider: string) (add_stdin: bool) (add_note: "string option")
      (add_overwrite: bool) (add_broker_only: bool)
  | CmdGet string bool bool bool
  | CmdList "string option"
  | CmdRm string bool bool
  | CmdRotate string bool bool

record create_args =
  ca_name :: string
  ca_secret :: string
  ca_provider :: string
  ca_mode :: string
  ca_upstream_base :: "string option"
  ca_hosts :: "string list"
  ca_paths :: "string list"
  ca_methods :: "string list"
  ca_expires :: "string option"
  ca_rate :: "u32 option"
  ca_quota :: "u64 option"
  ca_disabled :: bool

datatype relay_cmd =
    CmdRelayCreate create_args
  | CmdRevoke string bool bool
  | CmdRevokeToken string bool
  | CmdRelayList bool
  | CmdMint string "string option"

datatype ca_cmd =
    CaInit bool
  | CaRotate bool bool
  | CaIssue string "string list" "u64 option" string
  | CaRenew string bool
  | CaRevoke string bool bool
  | CaTrust "string list" bool bool bool

record audit_args =
  aa_actor :: "string option"
  aa_relay :: "string option"
  aa_since :: "string option"
  aa_until :: "string option"
  aa_limit :: "u32 option"

record run_args =
  ra_relays :: "string list"
  ra_provider :: "string option"
  ra_ephemeral :: bool
  ra_no_profile :: bool
  ra_profile :: "string option"
  ra_argv :: "string list"

datatype cmd =
    CmdStatus
  | CmdUnlock bool
  | CmdLock
  | CmdSecret secret_cmd
  | CmdRelay relay_cmd
  | CmdCa ca_cmd
  | CmdAudit audit_args
  | CmdRun run_args

record cli =
  cl_json :: bool
  cl_socket :: "string option"
  cl_cmd :: cmd

section \<open>Colours and lines\<close>

definition c_ok :: "string \<Rightarrow> string" where
  "c_ok s = CHR 0x1B # ''[32m'' @ s @ CHR 0x1B # ''[0m''"

definition c_warn :: "string \<Rightarrow> string" where
  "c_warn s = CHR 0x1B # ''[33m'' @ s @ CHR 0x1B # ''[0m''"

definition c_step :: "string \<Rightarrow> string" where
  "c_step s = CHR 0x1B # ''[36m'' @ s @ CHR 0x1B # ''[0m''"

definition println :: "string \<Rightarrow> string" where
  "println s = s @ [CHR 0x0A]"

fun bool_text :: "bool \<Rightarrow> string" where
  "bool_text True = ''true''"
| "bool_text False = ''false''"

definition u32_text :: "u32 \<Rightarrow> string" where
  "u32_text n = dec_nat (unat n)"

text \<open>An \<open>i32\<close> is a 32-bit word read by \<open>sint\<close>.\<close>

definition i32_text :: "i32 \<Rightarrow> string" where
  "i32_text c = (if sint c < 0 then CHR ''-'' # dec_nat (nat (- sint c)) else dec_nat (nat (sint c)))"

section \<open>Events\<close>

fun event_line :: "v1_event \<Rightarrow> string" where
  "event_line (KVaultUnlocked f) = c_ok (''vault unlocked (factor: '' @ f @ '')'')"
| "event_line KVaultLocked = c_ok ''vault locked''"
| "event_line (KSecretWritten name version) = c_ok (''secret written: '' @ name @ '' v'' @ u32_text version)"
| "event_line (KRelayMinted relay kind expires_at) =
     c_ok (''relay minted: '' @ relay @ '' ('' @ kind @ '') expires '' @ expires_at)"
| "event_line (KRelaySwapped relay host m allowed token_id client_uid client_label) =
     c_step (''relay swap '' @ (if allowed then ''allowed'' else ''refused'') @ '': '' @ m @ '' '' @ host @ '' '' @ relay)"
| "event_line (KGuardRefused subject why) = c_warn (''refused: '' @ subject @ '' ('' @ why @ '')'')"
| "event_line (KCaIssued serial cn not_after) = c_ok (''ca issued: '' @ cn @ '' ('' @ serial @ '')'')"
| "event_line (KLeafMinted sni relay not_after) = c_ok (''leaf minted: '' @ sni @ '' for '' @ relay)"
| "event_line (KLog source s line) =
     c_step (''['' @ source @ '':'' @ (if s = 1 then ''stderr'' else ''stdout'') @ ''] '' @ line)"
| "event_line (KChildExited c) = c_step (''child exited: '' @ i32_text c)"
| "event_line (KRunFinished failures refusals) =
     c_ok (''run finished (failed: '' @ dec_nat (length failures) @ '', refused: '' @ dec_nat (length refusals) @ '')'')"

definition typed :: "string \<Rightarrow> (string \<times> json) list \<Rightarrow> json" where
  "typed t members = JObj ((''type'', JStr t) # members)"

fun event_json :: "v1_event \<Rightarrow> json" where
  "event_json (KVaultUnlocked f) = typed ''vault_unlocked'' [(''factor'', JStr f)]"
| "event_json KVaultLocked = typed ''vault_locked'' []"
| "event_json (KSecretWritten name version) =
     typed ''secret_written'' [(''name'', JStr name), (''version'', JInt (uint version))]"
| "event_json (KRelayMinted relay kind expires_at) =
     typed ''relay_minted'' [(''relay'', JStr relay), (''kind'', JStr kind), (''expires_at'', JStr expires_at)]"
| "event_json (KRelaySwapped relay host m allowed token_id client_uid client_label) =
     typed ''relay_swapped'' [(''relay'', JStr relay), (''host'', JStr host), (''method'', JStr m),
       (''allowed'', JBool allowed), (''token_id'', JStr token_id), (''client_uid'', JInt (uint client_uid)),
       (''client_label'', JStr client_label)]"
| "event_json (KGuardRefused subject why) =
     typed ''guard_refused'' [(''subject'', JStr subject), (''reason'', JStr why)]"
| "event_json (KCaIssued serial cn not_after) =
     typed ''ca_issued'' [(''serial'', JStr serial), (''cn'', JStr cn), (''not_after'', JStr not_after)]"
| "event_json (KLeafMinted sni relay not_after) =
     typed ''leaf_minted'' [(''sni'', JStr sni), (''relay'', JStr relay), (''not_after'', JStr not_after)]"
| "event_json (KLog source s line) =
     typed ''log'' [(''source'', JStr source), (''stream'', JInt (uint s)), (''line'', JStr line)]"
| "event_json (KChildExited c) = typed ''child_exited'' [(''code'', JInt (sint c))]"
| "event_json (KRunFinished failures refusals) =
     typed ''run_finished'' [(''failed'', JArr (map JStr failures)), (''refused'', JArr (map JStr refusals))]"

text \<open>The daemon sends every event with its kind, so the \<open>unknown\<close> event is never rendered.\<close>

definition render_event :: "(json \<Rightarrow> string) \<Rightarrow> v1_event \<Rightarrow> bool \<Rightarrow> string" where
  "render_event js ev json_flag = println (if json_flag then js (event_json ev) else event_line ev)"

section \<open>Results\<close>

definition render_status :: "(json \<Rightarrow> string) \<Rightarrow> status_resp \<Rightarrow> bool \<Rightarrow> string" where
  "render_status js r json_flag =
     println
       (if json_flag then
          js (JObj [(''unlocked'', JBool (st_unlocked r)), (''usb_possessed'', JBool (st_usb_possessed r)),
            (''active_relays'', JInt (uint (st_active_relays r))), (''secret_count'', JInt (uint (st_secret_count r)))])
        else
          (if st_unlocked r then c_ok ''unlocked'' else c_warn ''locked'')
          @ ''  usb_possessed='' @ bool_text (st_usb_possessed r) @ ''  active_relays='' @ u32_text (st_active_relays r)
          @ ''  secret_count='' @ u32_text (st_secret_count r))"

definition render_get :: "(json \<Rightarrow> string) \<Rightarrow> get_resp \<Rightarrow> bool \<Rightarrow> string" where
  "render_get js r json_flag =
     (if json_flag then
        println (js (JObj [(''revealed'', JBool (gr_revealed r)),
          (''value'', if gr_revealed r then JStr (from_utf8_lossy (gr_value r)) else JNull)]))
      else if gr_revealed r then from_utf8_lossy (gr_value r)
      else println (c_step ''(metadata only; value not revealed)''))"

definition render_mint :: "(json \<Rightarrow> string) \<Rightarrow> mint_resp \<Rightarrow> bool \<Rightarrow> string" where
  "render_mint js r json_flag =
     (if json_flag then
        println (js (JObj [(''bearer'', JStr (mr_bearer r)), (''token_id'', JStr (mr_token_id r)),
          (''expires_at'', JStr (mr_expires_at r))]))
      else
        println (c_ok (''minted bearer (token '' @ mr_token_id r @ '')''))
        @ println (mr_bearer r) @ println (c_step (''expires '' @ mr_expires_at r)))"

definition render_revoke :: "(json \<Rightarrow> string) \<Rightarrow> revoke_resp \<Rightarrow> bool \<Rightarrow> string" where
  "render_revoke js r json_flag =
     println
       (if json_flag then
          js (JObj [(''count_revoked'', JInt (uint (vr_count_revoked r))), (''dry_run'', JBool (vr_dry_run r))])
        else if vr_dry_run r then
          c_warn (''dry-run: would revoke '' @ u32_text (vr_count_revoked r) @ '' (use --apply)'')
        else c_ok (''revoked '' @ u32_text (vr_count_revoked r)))"

definition render_audit :: "(json \<Rightarrow> string) \<Rightarrow> v1_audit_entry list \<Rightarrow> bool \<Rightarrow> string" where
  "render_audit js es json_flag =
     concat (map (\<lambda>e. println
       (if json_flag then
          js (JObj [(''at'', JStr (ae_at e)), (''actor'', JStr (ae_actor e)), (''action'', JStr (ae_action e)),
            (''target'', JStr (ae_target e)), (''relay'', JStr (ae_relay e)), (''token_id'', JStr (ae_token_id e)),
            (''hash'', JStr (ae_hash e))])
        else c_step (ae_at e) @ '' '' @ ae_action e @ '' '' @ ae_target e @ '' '' @ ae_detail e)) es)"

definition render_secret_item :: "(json \<Rightarrow> string) \<Rightarrow> bool \<Rightarrow> v1_secret_meta \<Rightarrow> string" where
  "render_secret_item js json_flag item =
     println
       (if json_flag then
          js (JObj [(''name'', JStr (vm_name item)), (''version'', JInt (uint (vm_version item))),
            (''broker_only'', JBool (vm_broker_only item))])
        else vm_name item @ '' v'' @ u32_text (vm_version item) @ '' broker_only='' @ bool_text (vm_broker_only item))"

definition render_relay_item :: "(json \<Rightarrow> string) \<Rightarrow> bool \<Rightarrow> v1_relay_policy \<Rightarrow> string" where
  "render_relay_item js json_flag item =
     println
       (if json_flag then js (JObj [(''name'', JStr (pb_name item)), (''enabled'', JBool (pb_enabled item))])
        else pb_name item @ '' enabled='' @ bool_text (pb_enabled item))"

end
