(* ===== verification/Client.thy ===== *)
theory Client
  imports ClientCmd
begin

text \<open>
  The client (\<open>crates/secretctl/src/main.rs\<close>): each command as an action on the text printed so far and
  on the daemon at the other end, over the stub \<open>ce_serve\<close>. An RPC reaches the daemon and is answered;
  what a broken connection does is not modelled beyond \<open>ce_connect\<close>.
\<close>

section \<open>The client's world\<close>

text \<open>
  Environment, standard input to its end, dialling the socket, the text of a \<open>tonic::Status\<close> and of a
  JSON value, and the services at the other end.
\<close>

record client_env =
  ce_os :: os
  ce_stdin :: "io_error + bytes"
  ce_dial :: "string \<Rightarrow> unit anyhow"
  ce_status :: "status \<Rightarrow> string"
  ce_json :: "json \<Rightarrow> string"
  ce_serve :: "rpc \<Rightarrow> response handler"

record client =
  cn_out :: string
  cn_daemon :: daemon

type_synonym 'a run = "(client, string list, 'a) act"

definition put_out :: "string \<Rightarrow> unit run" where
  "put_out s = modify_act (\<lambda>c. c\<lparr>cn_out := cn_out c @ s\<rparr>)"

definition call_rpc :: "client_env \<Rightarrow> rpc \<Rightarrow> response run" where
  "call_rpc e r = (\<lambda>c.
     let (a, d) = ce_serve e r (cn_daemon c) in
     (case a of Inl st \<Rightarrow> Inl [ce_status e st] | Inr resp \<Rightarrow> Inr resp, c\<lparr>cn_daemon := d\<rparr>))"

definition dial :: "client_env \<Rightarrow> string \<Rightarrow> unit run" where
  "dial e sock = lift_result (context_msg ''connecting to the daemon socket (is secretd running?)'' (ce_dial e sock))"

text \<open>Every stub gives its own kind of response.\<close>

definition wrong_response :: "'a run" where
  "wrong_response = fail_act []"

section \<open>Arguments\<close>

definition client_provider_to_proto :: "string \<Rightarrow> i32" where
  "client_provider_to_proto s =
     (let t = ascii_lowercase s in
      provider_kind_as_i32
        (if t = ''anthropic'' then AnthropicKind
         else if t = ''openai'' then OpenaiKind
         else if t = ''github'' then GithubKind
         else if t = ''generic'' then GenericKind
         else GenericKind))"

fun data_plane_mode_as_i32 :: "data_plane_mode \<Rightarrow> i32" where
  "data_plane_mode_as_i32 ModeUnspecified = 0"
| "data_plane_mode_as_i32 BaseUrlRepointMode = 1"
| "data_plane_mode_as_i32 HttpsProxyMitm = 2"
| "data_plane_mode_as_i32 NativeSubtoken = 3"

definition mode_to_proto :: "string \<Rightarrow> i32" where
  "mode_to_proto s =
     (let t = ascii_lowercase s in
      data_plane_mode_as_i32
        (if t = ''base-url'' \<or> t = ''base_url'' \<or> t = ''baseurl'' then BaseUrlRepointMode
         else if t = ''proxy'' \<or> t = ''mitm'' then HttpsProxyMitm
         else if t = ''native'' \<or> t = ''subtoken'' then NativeSubtoken
         else BaseUrlRepointMode))"

definition read_stdin_bytes :: "client_env \<Rightarrow> bytes anyhow" where
  "read_stdin_bytes e = io_result (ce_stdin e)"

definition trim_line_ends :: "string \<Rightarrow> string" where
  "trim_line_ends s = rev (dropWhile (\<lambda>c. c = CHR 0x0A \<or> c = CHR 0x0D) (rev s))"

definition read_stdin_string :: "client_env \<Rightarrow> string anyhow" where
  "read_stdin_string e =
     and_ok (io_result (ce_stdin e)) (\<lambda>bs.
       case from_utf8 bs of
         None \<Rightarrow> Inl [''stream did not contain valid UTF-8'']
       | Some s \<Rightarrow> Inr (trim_line_ends s))"

text \<open>\<open>str::parse::<u64>\<close> with the text of its error.\<close>

fun u64_digits :: "nat \<Rightarrow> string \<Rightarrow> string + u64" where
  "u64_digits acc [] = Inr (word_of_nat acc)"
| "u64_digits acc (c # cs) =
     (let n = of_char c :: nat in
      if \<not> (48 \<le> n \<and> n \<le> 57) then Inl ''invalid digit found in string''
      else if 18446744073709551616 \<le> 10 * acc + (n - 48) then Inl ''number too large to fit in target type''
      else u64_digits (10 * acc + (n - 48)) cs)"

definition parse_u64 :: "string \<Rightarrow> string + u64" where
  "parse_u64 s =
     (case s of
        [] \<Rightarrow> Inl ''cannot parse integer from empty string''
      | c # cs \<Rightarrow>
          if cs = [] \<and> (c = CHR ''+'' \<or> c = CHR ''-'') then Inl ''invalid digit found in string''
          else if c = CHR ''+'' then u64_digits 0 cs
          else u64_digits 0 (c # cs))"

definition unwrap_or_default :: "string option \<Rightarrow> string" where
  "unwrap_or_default x = (case x of Some s \<Rightarrow> s | None \<Rightarrow> [])"

section \<open>Streams\<close>

fun drain :: "client_env \<Rightarrow> bool \<Rightarrow> event_stream \<Rightarrow> unit run" where
  "drain e json_flag [] = ok_act ()"
| "drain e json_flag (Inl st # items) = fail_act [ce_status e st]"
| "drain e json_flag (Inr ev # items) =
     and_then (put_out (render_event (ce_json e) ev json_flag)) (\<lambda>_. drain e json_flag items)"

definition call_streaming :: "client_env \<Rightarrow> bool \<Rightarrow> rpc \<Rightarrow> unit run" where
  "call_streaming e json_flag r =
     and_then (call_rpc e r) (\<lambda>resp.
       case resp of EventsResp evs \<Rightarrow> drain e json_flag evs | _ \<Rightarrow> wrong_response)"

definition call_revoke :: "client_env \<Rightarrow> bool \<Rightarrow> rpc \<Rightarrow> unit run" where
  "call_revoke e json_flag r =
     and_then (call_rpc e r) (\<lambda>resp.
       case resp of RevokeResp v \<Rightarrow> put_out (render_revoke (ce_json e) v json_flag) | _ \<Rightarrow> wrong_response)"

section \<open>Commands\<close>

fun client_secret :: "client_env \<Rightarrow> secret_cmd \<Rightarrow> bool \<Rightarrow> unit run" where
  "client_secret e (CmdAdd name provider value_stdin note overwrite broker_only) json_flag =
     and_then
       (if value_stdin then lift_result (read_stdin_bytes e) else fail_act [''secret add requires --value-stdin'']) (\<lambda>v.
     call_streaming e json_flag (VaultAdd
       \<lparr>as_name = name, as_provider = client_provider_to_proto provider, as_value = v,
        as_note = unwrap_or_default note, as_overwrite = overwrite, as_broker_only = broker_only\<rparr>))"
| "client_secret e (CmdGet name reveal apply_flag confirm) json_flag =
     and_then (call_rpc e (VaultGet name reveal apply_flag confirm)) (\<lambda>resp.
       case resp of GetResp r \<Rightarrow> put_out (render_get (ce_json e) r json_flag) | _ \<Rightarrow> wrong_response)"
| "client_secret e (CmdList provider) json_flag =
     and_then (call_rpc e (VaultList (map_option client_provider_to_proto provider))) (\<lambda>resp.
       case resp of
         SecretListResp items \<Rightarrow> put_out (concat (map (render_secret_item (ce_json e) json_flag) items))
       | _ \<Rightarrow> wrong_response)"
| "client_secret e (CmdRm name apply_flag confirm) json_flag =
     call_streaming e json_flag (VaultRm name apply_flag confirm)"
| "client_secret e (CmdRotate name value_stdin apply_flag) json_flag =
     and_then (if value_stdin then lift_result (read_stdin_bytes e) else ok_act []) (\<lambda>new_value.
     call_streaming e json_flag (VaultRotate name new_value apply_flag))"

definition created_policy :: "create_args \<Rightarrow> v1_relay_policy" where
  "created_policy a =
     \<lparr>pb_name = ca_name a, pb_secret_name = ca_secret a, pb_provider = client_provider_to_proto (ca_provider a),
      pb_mode = mode_to_proto (ca_mode a), pb_host_allow = ca_hosts a, pb_path_allow = ca_paths a,
      pb_method_allow = ca_methods a, pb_expires_at = unwrap_or_default (ca_expires a),
      pb_rate_per_min = (case ca_rate a of Some r \<Rightarrow> r | None \<Rightarrow> 0),
      pb_quota_total = (case ca_quota a of Some q \<Rightarrow> q | None \<Rightarrow> 0),
      pb_enabled = (\<not> ca_disabled a), pb_ephemeral = False,
      pb_upstream_base = unwrap_or_default (ca_upstream_base a)\<rparr>"

definition mint_ttl :: "string option \<Rightarrow> u64 anyhow" where
  "mint_ttl ttl =
     (case ttl of
        None \<Rightarrow> Inr 0
      | Some s \<Rightarrow>
          (case parse_u64 s of
             Inl err \<Rightarrow> Inl [''invalid --ttl '' @ [CHR 0x27] @ s @ [CHR 0x27] @ '' (expected seconds)'', err]
           | Inr n \<Rightarrow> Inr n))"

fun client_relay :: "client_env \<Rightarrow> relay_cmd \<Rightarrow> bool \<Rightarrow> unit run" where
  "client_relay e (CmdRelayCreate a) json_flag =
     call_streaming e json_flag (RelayCreate (Some (created_policy a)))"
| "client_relay e (CmdRevoke name apply_flag confirm) json_flag =
     call_revoke e json_flag (RelayRevokeRpc name apply_flag confirm)"
| "client_relay e (CmdRevokeToken token_id apply_flag) json_flag =
     call_revoke e json_flag (RelayRevokeBearerRpc token_id apply_flag)"
| "client_relay e (CmdRelayList include_all) json_flag =
     and_then (call_rpc e (RelayList include_all)) (\<lambda>resp.
       case resp of
         RelayListResp items \<Rightarrow> put_out (concat (map (render_relay_item (ce_json e) json_flag) items))
       | _ \<Rightarrow> wrong_response)"
| "client_relay e (CmdMint name ttl) json_flag =
     and_then (lift_result (mint_ttl ttl)) (\<lambda>ttl_secs.
     and_then (call_rpc e (RelayMintRpc
       \<lparr>mq_relay = name, mq_ephemeral = False, mq_provider = provider_kind_as_i32 GenericKind,
        mq_ttl_secs = ttl_secs, mq_client_pid = 0\<rparr>)) (\<lambda>resp.
       case resp of MintResp r \<Rightarrow> put_out (render_mint (ce_json e) r json_flag) | _ \<Rightarrow> wrong_response))"

definition client_ca :: "ca_cmd \<Rightarrow> unit run" where
  "client_ca c = fail_act [''`env-ctl ca` is not available in Phase 6 (Certs are Phase 4+)'']"

definition audit_req :: "audit_args \<Rightarrow> v1_audit_query_req" where
  "audit_req a =
     \<lparr>aq_actor = aa_actor a, aq_relay = aa_relay a, aq_since = aa_since a, aq_until = aa_until a,
      aq_limit = (case aa_limit a of Some n \<Rightarrow> n | None \<Rightarrow> 0)\<rparr>"

fun run_cmd :: "client_env \<Rightarrow> string \<Rightarrow> cmd \<Rightarrow> bool \<Rightarrow> unit run" where
  "run_cmd e sock CmdStatus json_flag =
     and_then (dial e sock) (\<lambda>_.
     and_then (call_rpc e LockStatus) (\<lambda>resp.
       case resp of StatusResp r \<Rightarrow> put_out (render_status (ce_json e) r json_flag) | _ \<Rightarrow> wrong_response))"
| "run_cmd e sock (CmdUnlock passphrase_stdin) json_flag =
     and_then (if passphrase_stdin then and_then (lift_result (read_stdin_string e)) (\<lambda>s. ok_act (Some s))
               else ok_act None) (\<lambda>passphrase.
     and_then (dial e sock) (\<lambda>_. call_streaming e json_flag (LockUnlock passphrase)))"
| "run_cmd e sock CmdLock json_flag =
     and_then (dial e sock) (\<lambda>_. call_streaming e json_flag LockNow)"
| "run_cmd e sock (CmdSecret c) json_flag = and_then (dial e sock) (\<lambda>_. client_secret e c json_flag)"
| "run_cmd e sock (CmdRelay c) json_flag = and_then (dial e sock) (\<lambda>_. client_relay e c json_flag)"
| "run_cmd e sock (CmdCa c) json_flag = client_ca c"
| "run_cmd e sock (CmdAudit a) json_flag =
     and_then (dial e sock) (\<lambda>_.
     and_then (call_rpc e (AuditQuery (audit_req a))) (\<lambda>resp.
       case resp of AuditResp es \<Rightarrow> put_out (render_audit (ce_json e) es json_flag) | _ \<Rightarrow> wrong_response))"
| "run_cmd e sock (CmdRun a) json_flag =
     fail_act [''`env-ctl run` is not wired in Phase 6 (data-plane is Phase 8)'']"

definition run_client :: "client_env \<Rightarrow> cli \<Rightarrow> unit run" where
  "run_client e args =
     and_then (lift_result (socket_path (ce_os e) (cl_socket args))) (\<lambda>sock.
       run_cmd e sock (cl_cmd args) (cl_json args))"

end
