(* ===== verification/ClientSafety.thy ===== *)
theory ClientSafety
  imports Client DaemonSpec
begin

text \<open>
  What the client promises, alone and in front of the daemon: which request a command sends, what a
  command without its confirmation leaves as it is, and what reaches the standard output.
\<close>

section \<open>The request of a command\<close>

fun secret_request :: "client_env \<Rightarrow> secret_cmd \<Rightarrow> rpc option" where
  "secret_request e (CmdAdd name provider value_stdin note overwrite broker_only) =
     (if value_stdin then
        case ce_stdin e of
          Inl _ \<Rightarrow> None
        | Inr v \<Rightarrow> Some (VaultAdd
            \<lparr>as_name = name, as_provider = client_provider_to_proto provider, as_value = v,
             as_note = unwrap_or_default note, as_overwrite = overwrite, as_broker_only = broker_only\<rparr>)
      else None)"
| "secret_request e (CmdGet name reveal apply_flag confirm) = Some (VaultGet name reveal apply_flag confirm)"
| "secret_request e (CmdList provider) = Some (VaultList (map_option client_provider_to_proto provider))"
| "secret_request e (CmdRm name apply_flag confirm) = Some (VaultRm name apply_flag confirm)"
| "secret_request e (CmdRotate name value_stdin apply_flag) =
     (if value_stdin then
        case ce_stdin e of Inl _ \<Rightarrow> None | Inr v \<Rightarrow> Some (VaultRotate name v apply_flag)
      else Some (VaultRotate name [] apply_flag))"

fun relay_request :: "relay_cmd \<Rightarrow> rpc option" where
  "relay_request (CmdRelayCreate a) = Some (RelayCreate (Some (created_policy a)))"
| "relay_request (CmdRevoke name apply_flag confirm) = Some (RelayRevokeRpc name apply_flag confirm)"
| "relay_request (CmdRevokeToken token_id apply_flag) = Some (RelayRevokeBearerRpc token_id apply_flag)"
| "relay_request (CmdRelayList include_all) = Some (RelayList include_all)"
| "relay_request (CmdMint name ttl) =
     (case mint_ttl ttl of
        Inl _ \<Rightarrow> None
      | Inr n \<Rightarrow> Some (RelayMintRpc
          \<lparr>mq_relay = name, mq_ephemeral = False, mq_provider = 4, mq_ttl_secs = n, mq_client_pid = 0\<rparr>))"

fun cmd_request :: "client_env \<Rightarrow> cmd \<Rightarrow> rpc option" where
  "cmd_request e CmdStatus = Some LockStatus"
| "cmd_request e (CmdUnlock passphrase_stdin) =
     (if passphrase_stdin then
        case read_stdin_string e of Inl _ \<Rightarrow> None | Inr s \<Rightarrow> Some (LockUnlock (Some s))
      else Some (LockUnlock None))"
| "cmd_request e CmdLock = Some LockNow"
| "cmd_request e (CmdSecret c) = secret_request e c"
| "cmd_request e (CmdRelay c) = relay_request c"
| "cmd_request e (CmdCa c) = None"
| "cmd_request e (CmdAudit a) = Some (AuditQuery (audit_req a))"
| "cmd_request e (CmdRun a) = None"

text \<open>What is sent: nothing without a socket path or when nobody answers on it.\<close>

definition sent_request :: "client_env \<Rightarrow> cli \<Rightarrow> rpc option" where
  "sent_request e args =
     (case socket_path (ce_os e) (cl_socket args) of
        Inl _ \<Rightarrow> None
      | Inr sock \<Rightarrow> (case ce_dial e sock of Inl _ \<Rightarrow> None | Inr _ \<Rightarrow> cmd_request e (cl_cmd args)))"

section \<open>What a run does to the daemon\<close>

definition local_only :: "'a run \<Rightarrow> bool" where
  "local_only m \<longleftrightarrow> (\<forall>c. cn_daemon (snd (m c)) = cn_daemon c)"

definition sends :: "client_env \<Rightarrow> rpc \<Rightarrow> 'a run \<Rightarrow> bool" where
  "sends e r m \<longleftrightarrow> (\<forall>c. cn_daemon (snd (m c)) = snd (ce_serve e r (cn_daemon c)))"

lemma local_parts:
  "local_only (put_out s)" "local_only (lift_result x)" "local_only (ok_act y)" "local_only (fail_act z)"
  "local_only (dial e sock)" "local_only (wrong_response :: 'a run)" "local_only (client_ca cc)"
  by (simp_all add: local_only_def put_out_def run_simps lift_result_def dial_def wrong_response_def client_ca_def)

lemma local_then: "local_only m \<Longrightarrow> (\<And>x. local_only (k x)) \<Longrightarrow> local_only (and_then m k)"
  by (simp add: local_only_def run_and_then split: sum.split)

lemma local_drain: "local_only (drain e j items)"
  by (induction items rule: drain.induct [of _ e j]) (auto intro: local_then local_parts)

lemma sends_call: "(\<And>resp. local_only (k resp)) \<Longrightarrow> sends e r (and_then (call_rpc e r) k)"
  by (auto simp: sends_def local_only_def call_rpc_def run_and_then Let_def split: prod.split sum.split)

lemma sends_streaming: "sends e r (call_streaming e j r)"
  unfolding call_streaming_def
  by (rule sends_call) (auto simp: local_drain local_parts split: response.split)

lemma sends_revoke: "sends e r (call_revoke e j r)"
  unfolding call_revoke_def by (rule sends_call) (auto simp: local_parts split: response.split)

lemma sends_unary:
  "sends e (VaultGet n a b c) (client_secret e (CmdGet n a b c) j)"
  "sends e (VaultList (map_option client_provider_to_proto p)) (client_secret e (CmdList p) j)"
  "sends e (RelayList b) (client_relay e (CmdRelayList b) j)"
  unfolding client_secret.simps client_relay.simps
  by (rule sends_call; auto simp: local_parts split: response.split)+

lemma and_then_known:
  "and_then (ok_act x) k = k x" "and_then (fail_act z) k = fail_act z"
  "and_then (lift_result r) k = (case r of Inl z \<Rightarrow> fail_act z | Inr x \<Rightarrow> k x)"
  by (rule ext, simp add: run_simps lift_result_def run_and_then split: sum.split)+

lemma dial_ok: "ce_dial e sock = Inr () \<Longrightarrow> dial e sock = ok_act ()"
  by (rule ext) (simp add: dial_def lift_result_def run_simps)

lemma secret_sends:
  "case secret_request e c of None \<Rightarrow> local_only (client_secret e c j) | Some r \<Rightarrow> sends e r (client_secret e c j)"
  by (cases c)
    (auto simp: and_then_known local_parts sends_streaming read_stdin_bytes_def io_result_def
      sends_unary [unfolded client_secret.simps] split: sum.split)

lemma relay_sends:
  "case relay_request c of None \<Rightarrow> local_only (client_relay e c j) | Some r \<Rightarrow> sends e r (client_relay e c j)"
proof (cases c)
  case (CmdMint name ttl)
  then show ?thesis
    by (auto simp: and_then_known local_parts split: sum.split response.split intro!: sends_call)
qed (simp_all add: sends_streaming sends_revoke sends_unary [unfolded client_relay.simps])

lemma run_request:
  assumes "ce_dial e sock = Inr ()"
  shows "case cmd_request e cmd of
      None \<Rightarrow> local_only (run_cmd e sock cmd j) | Some r \<Rightarrow> sends e r (run_cmd e sock cmd j)"
proof (cases cmd)
  case (CmdSecret c)
  show ?thesis using secret_sends [of e c j]
    by (simp add: CmdSecret dial_ok [OF assms] and_then_known split: option.splits)
next
  case (CmdRelay c)
  show ?thesis using relay_sends [of e c j]
    by (simp add: CmdRelay dial_ok [OF assms] and_then_known split: option.splits)
qed (auto simp: dial_ok [OF assms] and_then_known local_parts sends_streaming intro!: sends_call
      split: sum.split response.split)

lemma run_undialled:
  assumes "ce_dial e sock = Inl z"
  shows "local_only (run_cmd e sock cmd j)"
proof -
  have "and_then (dial e sock) k = (dial e sock :: unit run)" for k :: "unit \<Rightarrow> unit run"
    by (rule ext) (simp add: dial_def assms lift_result_def run_simps)
  then show ?thesis by (cases cmd) (auto simp: local_parts and_then_known split: sum.split)
qed

lemma run_client_daemon:
  "cn_daemon (snd (run_client e args c)) =
     (case sent_request e args of None \<Rightarrow> cn_daemon c | Some r \<Rightarrow> snd (ce_serve e r (cn_daemon c)))"
proof (cases "socket_path (ce_os e) (cl_socket args)")
  case (Inl z)
  then show ?thesis by (simp add: run_client_def and_then_known sent_request_def run_simps)
next
  case (Inr sock)
  then have run: "run_client e args = run_cmd e sock (cl_cmd args) (cl_json args)"
    by (simp add: run_client_def and_then_known)
  show ?thesis
  proof (cases "ce_dial e sock")
    case (Inl z)
    from run_undialled [OF this] show ?thesis by (simp add: run sent_request_def Inr Inl local_only_def)
  next
    case dialled: (Inr u)
    then show ?thesis
      using run_request [of e sock "cl_cmd args" "cl_json args"]
      by (cases "cmd_request e (cl_cmd args)") (simp_all add: run sent_request_def Inr local_only_def sends_def)
  qed
qed

text \<open>
  C32: a command makes at most one request to the daemon, the one its arguments and its input spell out;
  printing, and failing before or after the request, changes nothing there. So a sequence of commands
  of one user is a session of the daemon.
\<close>

theorem command_is_one_request:
  "cn_daemon (snd (run_client e args c)) =
     (case sent_request e args of None \<Rightarrow> cn_daemon c | Some r \<Rightarrow> snd (ce_serve e r (cn_daemon c)))"
  by (rule run_client_daemon)

section \<open>Commands without their confirmation\<close>

text \<open>
  The commands that destroy something, asked for without \<open>--apply\<close>, or without \<open>--confirm\<close> where both
  are needed, and those that only look.
\<close>

fun unconfirmed :: "cmd \<Rightarrow> bool" where
  "unconfirmed (CmdSecret (CmdGet name reveal apply_flag confirm)) = True"
| "unconfirmed (CmdSecret (CmdList provider)) = True"
| "unconfirmed (CmdSecret (CmdRm name apply_flag confirm)) = (\<not> (apply_flag \<and> confirm))"
| "unconfirmed (CmdSecret (CmdRotate name value_stdin apply_flag)) = (\<not> apply_flag)"
| "unconfirmed (CmdRelay (CmdRevoke name apply_flag confirm)) = (\<not> (apply_flag \<and> confirm))"
| "unconfirmed (CmdRelay (CmdRevokeToken token_id apply_flag)) = (\<not> apply_flag)"
| "unconfirmed (CmdRelay (CmdRelayList include_all)) = True"
| "unconfirmed (CmdCa c) = True"
| "unconfirmed (CmdAudit a) = True"
| "unconfirmed CmdStatus = True"
| "unconfirmed _ = False"

lemma kept_refl: "kept s s"
  by (simp add: kept_def data_kept_def)

lemma unconfirmed_request:
  assumes "unconfirmed cmd" "cmd_request e cmd = Some r"
  shows "kept (dm_engine d) (dm_engine (snd (serve w jt owner info r d)))"
proof (cases "owner_guard owner info")
  case (Inr u)
  have "kept (dm_engine d) (dm_engine (snd (handle w jt info r d)))"
    using assms
    by (cases cmd rule: unconfirmed.cases)
      (auto simp: handle_engine kept_refl framesD [OF keep.secret_get] framesD [OF dry_run_keeps(1)]
        framesD [OF dry_run_keeps(2)] simp del: handle.simps split: if_splits sum.splits)
  then show ?thesis by (simp add: serve_def Inr del: handle.simps)
qed (simp add: serve_def run_simps kept_refl)

text \<open>
  C21: in front of the daemon, a command that destroys something does nothing unless it is confirmed as the
  daemon demands, and neither do the commands that look: vault, keyslots, secrets, policies and bearers
  stay as they are, and at most the audit log grows.
\<close>

theorem unconfirmed_changes_nothing:
  assumes "ce_serve e = serve w jt owner info" "unconfirmed (cl_cmd args)"
  shows "kept (dm_engine (cn_daemon c)) (dm_engine (cn_daemon (snd (run_client e args c))))"
proof (cases "sent_request e args")
  case None
  then show ?thesis by (simp add: run_client_daemon kept_refl)
next
  case (Some r)
  then have "cmd_request e (cl_cmd args) = Some r" by (auto simp: sent_request_def split: sum.splits)
  from unconfirmed_request [OF assms(2) this] show ?thesis
    by (simp add: run_client_daemon Some assms(1))
qed

section \<open>What is printed of a secret\<close>

lemma run_get:
  assumes "run_client e args c = (r, c')" "cl_cmd args = CmdSecret (CmdGet name reveal apply_flag confirm)"
  obtains "cn_out c' = cn_out c"
  | resp where "ce_serve e (VaultGet name reveal apply_flag confirm) (cn_daemon c) = (Inr (GetResp resp), cn_daemon c')"
    "cn_out c' = cn_out c @ render_get (ce_json e) resp (cl_json args)"
proof (cases "\<exists>sock. socket_path (ce_os e) (cl_socket args) = Inr sock \<and> ce_dial e sock = Inr ()")
  case False
  then have "c' = c"
    using assms
    by (auto simp: run_client_def dial_def lift_result_def context_msg_def and_then_def split: sum.splits)
  then show thesis using that(1) by simp
next
  case True
  obtain a d where serve: "ce_serve e (VaultGet name reveal apply_flag confirm) (cn_daemon c) = (a, d)" by fastforce
  have run: "client_secret e (CmdGet name reveal apply_flag confirm) (cl_json args) c = (r, c')"
    using True assms
    by (auto simp: run_client_def and_then_known dial_def lift_result_def context_msg_def run_simps)
  show thesis
  proof (cases "\<exists>resp. a = Inr (GetResp resp)")
    case True
    then show thesis
      using run serve that(2) by (auto simp: call_rpc_def put_out_def and_then_def modify_act_def Let_def)
  next
    case False
    then have "cn_out c' = cn_out c"
      using run serve
      by (cases a) (auto simp: call_rpc_def and_then_def wrong_response_def run_simps Let_def split: response.splits)
    then show thesis by (rule that(1))
  qed
qed

lemma serve_get:
  assumes "serve w jt owner info (VaultGet name reveal apply_flag confirm) d = (Inr (GetResp resp), d')"
  shows "info = PeerCred owner" "vault_get w jt name reveal apply_flag confirm d = (Inr resp, d')"
proof -
  show info: "info = PeerCred owner"
    using assms by (cases info) (auto simp: serve_def owner_guard_def run_simps split: if_splits)
  show "vault_get w jt name reveal apply_flag confirm d = (Inr resp, d')"
    using assms by (auto simp: info serve_owner respond_def run_simps elim!: and_then_InrE)
qed

lemma vault_get_revealed: "vault_get w jt name reveal apply_flag confirm d = (Inr resp, d') \<Longrightarrow> gr_revealed resp = reveal"
  by (auto simp: vault_get_def Let_def run_simps elim!: and_then_InrE split: sum.splits)

text \<open>
  C12: \<open>secret get\<close> in front of the daemon, with or without \<open>--json\<close> and whether it succeeds or
  fails, prints nothing, or the notice that the value is not revealed when no reveal was asked for, or else
  the plaintext: as it is, or inside the JSON object. The last happens only when the reveal was asked for,
  applied and confirmed by the owner, the vault was open, and the plaintext is the authentic one of the
  latest version of that secret, which is not broker-only.
\<close>

theorem printed_secret_is_authorised:
  assumes "ce_serve e = serve w jt owner info" "cl_cmd args = CmdSecret (CmdGet name reveal apply_flag confirm)"
    and "run_client e args c = (r, c')"
  shows "cn_out c' = cn_out c
    \<or> reveal = False
        \<and> cn_out c' = cn_out c @ println (if cl_json args
            then ce_json e (JObj [(''revealed'', JBool False), (''value'', JNull)])
            else c_step ''(metadata only; value not revealed)'')
    \<or> reveal \<and> apply_flag \<and> confirm \<and> info = PeerCred owner
        \<and> (\<exists>dek row plaintext. en_vault (dm_engine (cn_daemon c)) = VUnlocked dek
            \<and> found (get_secret_latest name) (en_store (dm_engine (cn_daemon c))) = Some row \<and> \<not> sr_broker_only row
            \<and> open_sealed (w_crypto w) dek (record_aad_of row) (sr_nonce row) (sr_ct_tag row) = Some plaintext
            \<and> cn_out c' = cn_out c @ (if cl_json args
                then println (ce_json e (JObj [(''revealed'', JBool True), (''value'', JStr (from_utf8_lossy plaintext))]))
                else from_utf8_lossy plaintext))"
proof (cases rule: run_get [OF assms(3,2)])
  case (2 resp)
  then have resp: "serve w jt owner info (VaultGet name reveal apply_flag confirm) (cn_daemon c)
      = (Inr (GetResp resp), cn_daemon c')" by (simp add: assms(1))
  note get = serve_get(2) [OF resp]
  have rev: "gr_revealed resp = reveal" by (rule vault_get_revealed [OF get])
  show ?thesis
  proof (cases reveal)
    case True
    with get_reveals_confirmed [OF get] serve_get(1) [OF resp] rev 2(2) show ?thesis
      by (auto simp: render_get_def)
  next
    case False
    with rev 2(2) show ?thesis by (auto simp: render_get_def)
  qed
qed simp

section \<open>Minting\<close>

lemma relay_mint_zero: "triple (\<lambda>_. True) (relay_mint w spec 0 uid pid) (\<lambda>_ _. False) (\<lambda>_. True)"
proof -
  have any: "triple (\<lambda>_. True) m (\<lambda>_ _. True) (\<lambda>_. True)" for m :: "'z op"
    by (simp add: triple_def split: sum.split)
  have "clamp_ttl n p 0 = None" for n p
    by (simp add: clamp_ttl_exact)
  moreover have "triple (\<lambda>_. True) (refused w ev sub why z :: bearer op) (\<lambda>_ _. False) (\<lambda>_. True)" for ev sub why z
    unfolding refused_def by (rule triple_and_then [OF any]) (simp add: triple_def run_simps)
  ultimately show ?thesis
    unfolding relay_mint_def mint_bearer_core_def Let_def split_beta
    by (intro triple_and_then [OF any] triple_if) simp_all
qed

text \<open>
  Without \<open>--ttl\<close> a mint never succeeds in front of the daemon, whatever the state of the vault: the
  command sends a TTL of zero, which the engine refuses.
\<close>

theorem mint_without_ttl_refused:
  assumes "ce_serve e = serve w jt owner info" "cl_cmd args = CmdRelay (CmdMint name None)"
  shows "\<exists>chain. fst (run_client e args c) = Inl chain"
proof (rule ccontr)
  assume "\<not> ?thesis"
  then have "fst (run_client e args c) = Inr ()" by (cases "fst (run_client e args c)") auto
  then obtain c1 where run: "run_client e args c = (Inr (), c1)" by (metis prod.collapse)
  let ?req = "\<lparr>mq_relay = name, mq_ephemeral = False, mq_provider = provider_kind_as_i32 GenericKind,
        mq_ttl_secs = 0, mq_client_pid = 0\<rparr> :: v1_mint_req"
  obtain resp c2 c3 where "call_rpc e (RelayMintRpc ?req) c2 = (Inr (MintResp resp), c3)"
    using run assms(2)
    by (auto simp: run_client_def and_then_known mint_ttl_def dial_def wrong_response_def run_simps
        elim!: and_then_InrE split: sum.splits response.splits)
  then obtain d where "serve w jt owner info (RelayMintRpc ?req) (cn_daemon c2) = (Inr (MintResp resp), d)"
    by (auto simp: call_rpc_def assms(1) Let_def split: prod.splits sum.splits)
  then obtain d' where "relay_svc_mint w jt info ?req (cn_daemon c2) = (Inr resp, d')"
    by (cases "owner_guard owner info") (auto simp: serve_def respond_def run_simps elim!: and_then_InrE)
  moreover have "relay_mint w spec 0 uid pid s \<noteq> (Inr b, t)" for spec uid pid s b t
    using tripleD [OF relay_mint_zero, where s = s] by (metis (no_types, lifting) fst_conv sum.case(2))
  ultimately show False
    by (auto simp: relay_svc_mint_def spawn_blocking_def or_status_def run_simps Let_def
        elim!: and_then_InrE split: prod.splits sum.splits any_error.splits)
qed

section \<open>A secret stored and printed\<close>

lemma drain_forwarded: "\<exists>x. drain e j (forwarded evs) c = (Inr (), c\<lparr>cn_out := cn_out c @ x\<rparr>)"
proof -
  have "\<exists>x. drain e j (map Inr vs) c = (Inr (), c\<lparr>cn_out := cn_out c @ x\<rparr>)" for vs
  proof (induction vs arbitrary: c)
    case Nil
    show ?case by (rule exI [of _ "[]"]) (simp add: run_simps)
  next
    case (Cons v vs)
    obtain x where "drain e j (map Inr vs) (c\<lparr>cn_out := cn_out c @ render_event (ce_json e) v j\<rparr>)
        = (Inr (), c\<lparr>cn_out := (cn_out c @ render_event (ce_json e) v j) @ x\<rparr>)"
      using Cons [of "c\<lparr>cn_out := cn_out c @ render_event (ce_json e) v j\<rparr>"] by auto
    then show ?case by (auto simp: put_out_def run_simps)
  qed
  then show ?thesis by (simp add: forwarded_def)
qed

lemma run_reaches:
  assumes "socket_path (ce_os e) (cl_socket args) = Inr sock" "ce_dial e sock = Inr ()" "cl_cmd args = CmdSecret cc"
  shows "run_client e args c = client_secret e cc (cl_json args) c"
  by (simp add: run_client_def and_then_known assms dial_ok)


section \<open>Arguments\<close>

lemma u64_digits_value:
  "u64_digits acc cs = Inr n \<longleftrightarrow> (\<exists>v. dec_value acc cs = Some v \<and> v < 18446744073709551616 \<and> n = word_of_nat v)"
  if "acc < 18446744073709551616"
  using that
proof (induction cs arbitrary: acc)
  case (Cons c cs)
  have grows: "dec_value a xs = Some v \<Longrightarrow> a \<le> v" for a xs v
  proof (induction xs arbitrary: a)
    case (Cons y ys)
    then show ?case by (force simp: Let_def split: if_splits)
  qed simp
  then show ?case using Cons
    by (auto simp: Let_def not_le dest: grows)
qed auto

text \<open>
  \<open>--ttl\<close> is read exactly when it is decimal digits, after at most one plus sign, of a number below
  \<open>2^64\<close>; and the decimal text of every \<open>u64\<close> is read as that number.
\<close>

lemma parse_u64_iff:
  "parse_u64 s = Inr n \<longleftrightarrow>
     (\<exists>digits v. (s = digits \<or> s = CHR ''+'' # digits) \<and> digits \<noteq> []
        \<and> dec_value 0 digits = Some v \<and> v < 18446744073709551616 \<and> n = word_of_nat v)"
proof (cases s)
  case (Cons c cs)
  have sign: "dec_value 0 (CHR ''+'' # xs) = None" "dec_value 0 (CHR ''-'' # xs) = None" for xs
    by (simp_all add: Let_def)
  show ?thesis
    using sign by (auto simp: parse_u64_def Cons u64_digits_value simp del: dec_value.simps(2) u64_digits.simps(2)
        split: if_splits)
qed (simp add: parse_u64_def)

lemma parse_u64_dec_nat: "parse_u64 (dec_nat (unat (n :: u64))) = Inr n"
proof -
  have "unat n < 18446744073709551616" using unsigned_less [of n, where 'a = nat] by simp
  moreover have "dec_nat (unat n) \<noteq> []" using dec_nat_Cons [of "unat n"] by auto
  ultimately show ?thesis
    by (auto simp: parse_u64_iff dec_value_dec_nat intro!: exI [of _ "dec_nat (unat n)"])
qed

text \<open>The provider the engine stores is the one named on the command line, an unknown name being generic.\<close>

lemma provider_names:
  "provider_from_proto (client_provider_to_proto s) =
     (if ascii_lowercase s = ''anthropic'' then Anthropic else if ascii_lowercase s = ''openai'' then Openai
      else if ascii_lowercase s = ''github'' then Github else Generic)"
  by (simp add: client_provider_to_proto_def provider_from_proto_def Let_def)

text \<open>\<open>--overwrite\<close> reaches the daemon and changes nothing there.\<close>

lemma overwrite_is_dropped: "vault_add w jt (req\<lparr>as_overwrite := b\<rparr>) = vault_add w jt req"
  by (simp add: vault_add_def add_req_to_meta_def)

text \<open>An NDJSON line says everything its event says.\<close>

lemma event_json_inj: "event_json a = event_json b \<longleftrightarrow> a = b"
proof
  assume same: "event_json a = event_json b"
  have words: "uint x = uint y \<longleftrightarrow> x = y" "sint x = sint y \<longleftrightarrow> x = y" for x y :: u32
    by (auto intro: signed_word_eqI word_uint_eqI)
  have texts: "map JStr xs = map JStr ys \<longleftrightarrow> xs = ys" for xs ys
    by (simp add: list.inj_map_strong inj_on_def inj_map_eq_map)
  show "a = b" using same by (cases a; cases b) (auto simp: typed_def words texts)
qed simp

end
