(* ===== verification/DaemonStart.thy ===== *)
theory DaemonStart
  imports Paths DaemonServer
begin

text \<open>
  Bringing the daemon up (\<open>crates/secretd/src/main.rs\<close>): resource limits, the directories, the store and
  the socket. The file system is a map from paths to nodes, and the kernel may refuse any call at any
  point: \<open>kn_refuses\<close> sees the calls made so far. No other process works on the same paths meanwhile.
\<close>

section \<open>The host\<close>

text \<open>A directory, a socket (with whether a process listens on it), or another file, with its mode.\<close>

datatype node = Directory u32 | Socket u32 bool | Regular u32

datatype resource = Core | Memlock

datatype syscall =
    SysSetrlimit resource "u64 option" "u64 option"
  | SysMkdir string
  | SysChmod string u32
  | SysExists string
  | SysConnect string
  | SysRemove string
  | SysBind string

record host =
  ho_nodes :: "string \<Rightarrow> node option"
  ho_trace :: "syscall list"

record kernel =
  kn_umask :: u32
  kn_refuses :: "syscall list \<Rightarrow> syscall \<Rightarrow> io_error option"

type_synonym 'a startup = "(host, string list, 'a) act"

text \<open>A call: refused by the kernel, or done by \<open>f\<close> on the file system.\<close>

definition sys_call ::
  "kernel \<Rightarrow> syscall \<Rightarrow> ((string \<Rightarrow> node option) \<Rightarrow> (io_error + 'a) \<times> (string \<Rightarrow> node option)) \<Rightarrow> (host, io_error, 'a) act" where
  "sys_call k c f = (\<lambda>h.
     let h1 = h\<lparr>ho_trace := ho_trace h @ [c]\<rparr> in
     case kn_refuses k (ho_trace h) c of
       Some e \<Rightarrow> (Inl e, h1)
     | None \<Rightarrow> (let (r, nodes) = f (ho_nodes h) in (r, h1\<lparr>ho_nodes := nodes\<rparr>)))"

fun with_mode :: "u32 \<Rightarrow> node \<Rightarrow> node" where
  "with_mode m (Directory _) = Directory m"
| "with_mode m (Socket _ live) = Socket m live"
| "with_mode m (Regular _) = Regular m"

definition sys_setrlimit :: "kernel \<Rightarrow> resource \<Rightarrow> u64 option \<Rightarrow> u64 option \<Rightarrow> (host, io_error, unit) act" where
  "sys_setrlimit k res current maximum = sys_call k (SysSetrlimit res current maximum) (\<lambda>nodes. (Inr (), nodes))"

text \<open>A new node gets the mode asked for less the umask: \<open>0o777\<close> for a directory and for a socket.\<close>

definition new_mode :: "kernel \<Rightarrow> u32" where
  "new_mode k = 0x1FF AND NOT (kn_umask k)"

definition sys_mkdir :: "kernel \<Rightarrow> string \<Rightarrow> (host, io_error, unit) act" where
  "sys_mkdir k p = sys_call k (SysMkdir p) (\<lambda>nodes.
     case nodes p of
       None \<Rightarrow> (Inr (), nodes(p \<mapsto> Directory (new_mode k)))
     | Some _ \<Rightarrow> (Inl (IoOther ''File exists (os error 17)''), nodes))"

definition is_dir :: "string \<Rightarrow> host \<Rightarrow> bool" where
  "is_dir p h = (case ho_nodes h p of Some (Directory _) \<Rightarrow> True | _ \<Rightarrow> False)"

definition sys_chmod :: "kernel \<Rightarrow> string \<Rightarrow> u32 \<Rightarrow> (host, io_error, unit) act" where
  "sys_chmod k p m = sys_call k (SysChmod p m) (\<lambda>nodes.
     case nodes p of
       None \<Rightarrow> (Inl (IoNotFound ''No such file or directory (os error 2)''), nodes)
     | Some n \<Rightarrow> (Inr (), nodes(p \<mapsto> with_mode m n)))"

definition sys_exists :: "kernel \<Rightarrow> string \<Rightarrow> (host, io_error, bool) act" where
  "sys_exists k p = sys_call k (SysExists p) (\<lambda>nodes. (Inr (nodes p \<noteq> None), nodes))"

text \<open>Connecting succeeds on a socket with a listener.\<close>

definition sys_connect :: "kernel \<Rightarrow> string \<Rightarrow> (host, io_error, unit) act" where
  "sys_connect k p = sys_call k (SysConnect p) (\<lambda>nodes.
     (case nodes p of
        Some (Socket _ True) \<Rightarrow> Inr ()
      | _ \<Rightarrow> Inl (IoOther ''Connection refused (os error 111)''), nodes))"

definition sys_remove :: "kernel \<Rightarrow> string \<Rightarrow> (host, io_error, unit) act" where
  "sys_remove k p = sys_call k (SysRemove p) (\<lambda>nodes.
     case nodes p of
       None \<Rightarrow> (Inl (IoNotFound ''No such file or directory (os error 2)''), nodes)
     | Some (Directory _) \<Rightarrow> (Inl (IoOther ''Is a directory (os error 21)''), nodes)
     | Some _ \<Rightarrow> (Inr (), nodes(p := None)))"

definition sys_bind :: "kernel \<Rightarrow> string \<Rightarrow> (host, io_error, unit) act" where
  "sys_bind k p = sys_call k (SysBind p) (\<lambda>nodes.
     case nodes p of
       None \<Rightarrow> (Inr (), nodes(p \<mapsto> Socket (new_mode k) True))
     | Some _ \<Rightarrow> (Inl (IoOther ''Address already in use (os error 98)''), nodes))"

section \<open>Errors\<close>

definition io_context :: "string \<Rightarrow> (host, io_error, 'a) act \<Rightarrow> 'a startup" where
  "io_context c m = (\<lambda>h. let (r, h') = m h in (context_msg c (io_result r), h'))"

definition ignore_errors :: "(host, io_error, 'a) act \<Rightarrow> unit startup" where
  "ignore_errors m = (\<lambda>h. (Inr (), snd (m h)))"

text \<open>A call of which only the kind of outcome matters.\<close>

definition probe :: "(io_error + 'a \<Rightarrow> bool) \<Rightarrow> (host, io_error, 'a) act \<Rightarrow> bool startup" where
  "probe f m = (\<lambda>h. let (r, h') = m h in (Inr (f r), h'))"

section \<open>Hardening and directories\<close>

text \<open>\<open>None\<close> is infinity; a refusal is logged and passed over.\<close>

definition harden_process :: "kernel \<Rightarrow> unit startup" where
  "harden_process k =
     and_then (ignore_errors (sys_setrlimit k Core (Some 0) (Some 0))) (\<lambda>_.
     ignore_errors (sys_setrlimit k Memlock None None))"

text \<open>\<open>std::fs::create_dir_all\<close>: what is missing on the way, outermost first.\<close>

definition ancestors :: "string \<Rightarrow> string list" where
  "ancestors p =
     map (\<lambda>i. take i p) (filter (\<lambda>i. 0 < i \<and> p ! i = CHR ''/'' \<and> p ! (i - 1) \<noteq> CHR ''/'') [0..<length p])
     @ (if p = [] then [] else [p])"

fun make_dirs :: "kernel \<Rightarrow> string list \<Rightarrow> (host, io_error, unit) act" where
  "make_dirs k [] = ok_act ()"
| "make_dirs k (p # ps) =
     and_then (gets_act (is_dir p)) (\<lambda>there.
     and_then (if there then ok_act () else sys_mkdir k p) (\<lambda>_. make_dirs k ps))"

definition ensure_dir_0700 :: "kernel \<Rightarrow> os \<Rightarrow> string \<Rightarrow> unit startup" where
  "ensure_dir_0700 k sys dir =
     and_then (io_context (''creating '' @ os_display sys dir) (make_dirs k (ancestors dir))) (\<lambda>_.
     io_context (''chmod 0700 '' @ os_display sys dir) (sys_chmod k dir 0x1C0))"

section \<open>The socket\<close>

text \<open>\<open>Path::exists\<close> is false when the kernel refuses to look; any failure to connect counts as stale.\<close>

definition bind_uds :: "kernel \<Rightarrow> os \<Rightarrow> string \<Rightarrow> unit startup" where
  "bind_uds k sys sock =
     and_then (probe (\<lambda>r. r = Inr True) (sys_exists k sock)) (\<lambda>there.
     and_then
       (if there then
          and_then (probe (\<lambda>r. r = Inr ()) (sys_connect k sock)) (\<lambda>alive.
            if alive then fail_act [''daemon already running at '' @ os_display sys sock]
            else io_context (''removing stale socket '' @ os_display sys sock) (sys_remove k sock))
        else ok_act ()) (\<lambda>_.
     and_then (io_context (''binding '' @ os_display sys sock) (sys_bind k sock)) (\<lambda>_.
     io_context (''chmod 0600 '' @ os_display sys sock) (sys_chmod k sock 0x180))))"

section \<open>The engine\<close>

text \<open>
  The libSQL builder runs on a thread of its own: it gives a store, fails, or panics. \<open>Engine::open\<close>
  and \<open>Engine::open_with_store\<close> never fail.
\<close>

datatype 'db built = Built 'db | BuildFailed "string list" | BuildPanicked string

datatype 'db opened = OnInMem engine | OnLibSql 'db

definition build_engine ::
  "u32 \<Rightarrow> (string \<Rightarrow> string \<Rightarrow> 'db built) \<Rightarrow> store_config \<Rightarrow> 'db opened anyhow" where
  "build_engine uid builder cfg =
     (case sc_backend cfg of
        InMem \<Rightarrow> Inr (OnInMem (with_seams uid empty_store))
      | LibSql \<Rightarrow>
          (case sc_url cfg of
             None \<Rightarrow> Inl [''panic: resolve() guarantees a URL for the libSQL backend'']
           | Some url \<Rightarrow>
               (case builder url (sc_auth_token cfg) of
                  Built db \<Rightarrow> Inr (OnLibSql db)
                | BuildFailed e \<Rightarrow> Inl (''opening the libSQL remote store (is sqld reachable?)'' # e)
                | BuildPanicked t \<Rightarrow> Inl [''the libSQL store-construction task panicked'', t])))"

section \<open>Bringing it up\<close>

definition bring_up ::
  "kernel \<Rightarrow> os \<Rightarrow> u32 \<Rightarrow> (string \<Rightarrow> string \<Rightarrow> 'db built) \<Rightarrow> (paths \<times> 'db opened) startup" where
  "bring_up k sys uid builder =
     and_then (harden_process k) (\<lambda>_.
     and_then (lift_result (context_msg ''resolving XDG paths'' (paths_resolve sys))) (\<lambda>paths.
     and_then (ensure_dir_0700 k sys (pa_runtime paths)) (\<lambda>_.
     and_then (ensure_dir_0700 k sys (pa_data paths)) (\<lambda>_.
     and_then (ensure_dir_0700 k sys (pa_state paths)) (\<lambda>_.
     and_then (lift_result (context_msg ''loading store config'' (load sys (config_file paths)))) (\<lambda>store_cfg.
     and_then (lift_result (build_engine uid builder store_cfg)) (\<lambda>engine.
     and_then (bind_uds k sys (control_socket paths)) (\<lambda>_.
       ok_act (paths, engine)))))))))"

text \<open>
  Serving ends with the outcome of the server, when the listener is dropped; then the socket is removed
  as well as it can be.
\<close>

definition drop_listener :: "string \<Rightarrow> host \<Rightarrow> host" where
  "drop_listener sock h =
     (case ho_nodes h sock of
        Some (Socket m _) \<Rightarrow> h\<lparr>ho_nodes := (ho_nodes h)(sock \<mapsto> Socket m False)\<rparr>
      | _ \<Rightarrow> h)"

definition daemon_main ::
  "kernel \<Rightarrow> os \<Rightarrow> u32 \<Rightarrow> (string \<Rightarrow> string \<Rightarrow> 'db built) \<Rightarrow> ('db opened \<Rightarrow> string + unit) \<Rightarrow> unit startup" where
  "daemon_main k sys uid builder server =
     and_then (bring_up k sys uid builder) (\<lambda>(paths, engine).
     and_then (modify_act (drop_listener (control_socket paths))) (\<lambda>_.
     and_then (ignore_errors (sys_remove k (control_socket paths))) (\<lambda>_.
       lift_result (context_msg ''serving the control plane''
         (case server engine of Inl e \<Rightarrow> Inl [e] | Inr _ \<Rightarrow> Inr ())))))"

end
