(* ===== verification/DaemonStartSafety.thy ===== *)
theory DaemonStartSafety
  imports DaemonStart
begin

text \<open>
  What bringing the daemon up promises at whatever call it stops: the socket it binds lies behind
  directories only their owner can enter, and a daemon that already listens is left alone.
\<close>

section \<open>Calls\<close>

lemma triple_io_context: "triple P m Q E \<Longrightarrow> triple P (io_context c m) Q E"
  by (fastforce simp: triple_def io_context_def io_result_def split: prod.splits sum.splits)

definition after_call :: "syscall \<Rightarrow> (string \<Rightarrow> node option) \<Rightarrow> host \<Rightarrow> host" where
  "after_call c nodes h = h\<lparr>ho_trace := ho_trace h @ [c], ho_nodes := nodes\<rparr>"

lemma after_call_simps [simp]:
  "ho_nodes (after_call c nodes h) = nodes" "ho_trace (after_call c nodes h) = ho_trace h @ [c]"
  by (simp_all add: after_call_def)

lemma sys_call_run:
  "sys_call k c f h =
     (case kn_refuses k (ho_trace h) c of
        Some e \<Rightarrow> (Inl e, after_call c (ho_nodes h) h)
      | None \<Rightarrow> (fst (f (ho_nodes h)), after_call c (snd (f (ho_nodes h))) h))"
  by (simp add: sys_call_def Let_def after_call_def split: option.split prod.split)

lemma keeps_sys_call:
  assumes "\<And>h. P h \<Longrightarrow> P (after_call c (ho_nodes h) h)" "\<And>h. P h \<Longrightarrow> P (after_call c (snd (f (ho_nodes h))) h)"
  shows "keeps P (sys_call k c f)"
  using assms by (simp add: keeps_def sys_call_run split: option.split)

lemmas sys_defs =
  sys_setrlimit_def sys_mkdir_def sys_chmod_def sys_exists_def sys_connect_def sys_remove_def sys_bind_def

lemma keeps_ignore_errors: "keeps P m \<Longrightarrow> keeps P (ignore_errors m)"
  by (simp add: keeps_def ignore_errors_def)

lemma keeps_io_context: "keeps P m \<Longrightarrow> keeps P (io_context c m)"
  by (simp add: keeps_def io_context_def split: prod.split) (metis snd_conv)

lemma keeps_make_dirs: "(\<And>p. keeps P (sys_mkdir k p)) \<Longrightarrow> keeps P (make_dirs k ps)"
  by (induction ps) (auto intro!: keeps_and_then keeps_ok keeps_gets)

section \<open>Directories that stay private\<close>

definition owner_only :: "string \<Rightarrow> host \<Rightarrow> bool" where
  "owner_only d h \<longleftrightarrow> ho_nodes h d = Some (Directory 0x1C0)"

definition unbound :: "host \<Rightarrow> bool" where
  "unbound h \<longleftrightarrow> (\<forall>sock. SysBind sock \<notin> set (ho_trace h))"

lemma owner_only_kept:
  "keeps (owner_only d) (sys_setrlimit k res cur mx)" "keeps (owner_only d) (sys_mkdir k p)"
  "keeps (owner_only d) (sys_exists k p)" "keeps (owner_only d) (sys_connect k p)"
  "keeps (owner_only d) (sys_remove k p)" "keeps (owner_only d) (sys_bind k p)"
  "m = 0x1C0 \<or> p \<noteq> d \<Longrightarrow> keeps (owner_only d) (sys_chmod k p m)"
  unfolding sys_defs
  by (rule keeps_sys_call; auto simp: owner_only_def split: option.split node.split)+

lemma unbound_kept:
  "keeps unbound (sys_setrlimit k res cur mx)" "keeps unbound (sys_mkdir k p)"
  "keeps unbound (sys_exists k p)" "keeps unbound (sys_connect k p)"
  "keeps unbound (sys_remove k p)" "keeps unbound (sys_chmod k p m)"
  unfolding sys_defs by (rule keeps_sys_call; simp add: unbound_def)+

lemma ensure_keeps:
  assumes "\<And>p. keeps P (sys_mkdir k p)" "keeps P (sys_chmod k dir 0x1C0)"
  shows "keeps P (ensure_dir_0700 k sys dir)"
  unfolding ensure_dir_0700_def by (intro keeps_and_then keeps_io_context keeps_make_dirs assms)

lemma harden_keeps:
  assumes "\<And>res cur mx. keeps P (sys_setrlimit k res cur mx)"
  shows "keeps P (harden_process k)"
  unfolding harden_process_def by (intro keeps_and_then keeps_ignore_errors assms)

text \<open>A directory that \<open>create_dir_all\<close> leaves without an error is one, and is private after the chmod.\<close>

definition is_directory :: "string \<Rightarrow> host \<Rightarrow> bool" where
  "is_directory d h \<longleftrightarrow> (\<exists>m. ho_nodes h d = Some (Directory m))"

lemma mkdir_makes: "triple (\<lambda>_. True) (sys_mkdir k p) (\<lambda>_. is_directory p) (\<lambda>_. True)"
  by (auto simp: triple_def sys_mkdir_def sys_call_run is_directory_def split: option.splits sum.splits)

lemma keeps_is_directory: "keeps (is_directory d) (sys_mkdir k p)"
  unfolding sys_defs by (rule keeps_sys_call) (auto simp: is_directory_def split: option.split)

lemma make_dirs_makes: "p \<in> set ps \<Longrightarrow> triple (\<lambda>_. True) (make_dirs k ps) (\<lambda>_. is_directory p) (\<lambda>_. True)"
proof (induction ps)
  case (Cons q ps)
  have step: "triple (\<lambda>h. there = is_dir q h) (if there then ok_act () else sys_mkdir k q)
      (\<lambda>_. is_directory q) (\<lambda>_. True)" for there
    by (rule triple_if; rule triple_weaken [OF triple_ok] triple_weaken [OF mkdir_makes])
      (auto simp: is_dir_def is_directory_def split: option.splits node.splits)
  have look: "triple (\<lambda>_. True) (gets_act (is_dir q)) (\<lambda>there h. there = is_dir q h) (\<lambda>_. True)"
    by (simp add: triple_def run_simps)
  show ?case
  proof (cases "p \<in> set ps")
    case True
    show ?thesis unfolding make_dirs.simps
      by (intro triple_and_then [OF look] triple_and_then [OF step] triple_weaken [OF Cons.IH [OF True]]) simp_all
  next
    case False
    then have p: "p = q" using Cons.prems by simp
    show ?thesis unfolding make_dirs.simps p
      by (intro triple_and_then [OF look] triple_and_then [OF step]
          triple_weaken [OF triple_keeps [OF keeps_make_dirs [OF keeps_is_directory]]]) simp_all
  qed
qed simp

lemma dir_among_ancestors: "d \<noteq> [] \<Longrightarrow> d \<in> set (ancestors d)"
  by (simp add: ancestors_def)

lemma ensure_makes_private:
  assumes "dir \<noteq> []" "keeps P (ensure_dir_0700 k sys dir)"
  shows "triple P (ensure_dir_0700 k sys dir) (\<lambda>_ h. P h \<and> owner_only dir h) P"
proof -
  have chmod: "triple (is_directory dir) (sys_chmod k dir 0x1C0) (\<lambda>_. owner_only dir) (\<lambda>_. True)"
    by (auto simp: triple_def sys_chmod_def sys_call_run owner_only_def is_directory_def split: option.splits sum.splits)
  have "triple (\<lambda>_. True) (ensure_dir_0700 k sys dir) (\<lambda>_. owner_only dir) (\<lambda>_. True)"
    unfolding ensure_dir_0700_def
    by (rule triple_and_then [OF triple_io_context [OF make_dirs_makes [OF dir_among_ancestors [OF assms(1)]]]])
      (rule triple_io_context [OF chmod])
  from triple_both [OF triple_keeps [OF assms(2)] this] show ?thesis by simp
qed

section \<open>The walls around the socket\<close>

text \<open>What holds from the first bind on, of the paths the environment gives.\<close>

definition walled :: "paths \<Rightarrow> host \<Rightarrow> bool" where
  "walled p h \<longleftrightarrow> owner_only (pa_runtime p) h \<and> owner_only (pa_data p) h \<and> owner_only (pa_state p) h"

definition binds_only :: "string \<Rightarrow> host \<Rightarrow> bool" where
  "binds_only sock h \<longleftrightarrow> (\<forall>s. SysBind s \<in> set (ho_trace h) \<longrightarrow> s = sock)"

definition listening :: "string \<Rightarrow> host \<Rightarrow> bool" where
  "listening sock h \<longleftrightarrow> ho_nodes h sock = Some (Socket 0x180 True)"

lemma keeps_conj: "keeps P m \<Longrightarrow> keeps Q m \<Longrightarrow> keeps (\<lambda>h. P h \<and> Q h) m"
  by (simp add: keeps_def)

lemma keeps_probe: "keeps P m \<Longrightarrow> keeps P (probe f m)"
  by (simp add: keeps_def probe_def split: prod.split) (metis snd_conv)

lemma bind_uds_keeps:
  assumes "\<And>p. keeps P (sys_exists k p)" "\<And>p. keeps P (sys_connect k p)" "\<And>p. keeps P (sys_remove k p)"
    "keeps P (sys_bind k sock)" "keeps P (sys_chmod k sock 0x180)"
  shows "keeps P (bind_uds k sys sock)"
  unfolding bind_uds_def
  by (intro keeps_and_then keeps_if keeps_io_context keeps_probe keeps_ok keeps_fail assms)

lemma binds_only_kept:
  "keeps (binds_only s) (sys_exists k p)" "keeps (binds_only s) (sys_connect k p)"
  "keeps (binds_only s) (sys_remove k p)" "keeps (binds_only s) (sys_chmod k p m)"
  "keeps (binds_only s) (sys_bind k s)"
  unfolding sys_defs by (rule keeps_sys_call; simp add: binds_only_def)+

lemma bind_listens: "triple (\<lambda>_. True) (bind_uds k sys sock) (\<lambda>_. listening sock) (\<lambda>_. True)"
proof -
  have bind: "triple (\<lambda>_. True) (sys_bind k sock) (\<lambda>_ h. \<exists>m. ho_nodes h sock = Some (Socket m True)) (\<lambda>_. True)"
    by (auto simp: triple_def sys_bind_def sys_call_run split: option.splits sum.splits)
  have chmod: "triple (\<lambda>h. \<exists>m. ho_nodes h sock = Some (Socket m True)) (sys_chmod k sock 0x180)
      (\<lambda>_. listening sock) (\<lambda>_. True)"
    by (auto simp: triple_def sys_chmod_def sys_call_run listening_def split: option.splits sum.splits)
  have any: "triple (\<lambda>_. True) m (\<lambda>_ _. True) (\<lambda>_. True)" for m :: "(host, 'e, 'a) act"
    by (simp add: triple_def split: sum.split)
  show ?thesis unfolding bind_uds_def
    by (rule triple_and_then [OF any], rule triple_and_then [OF any],
        rule triple_and_then [OF triple_io_context [OF bind]], rule triple_io_context [OF chmod])
qed

lemma resolved_dirs:
  assumes "paths_resolve sys = Inr p" "d \<in> {pa_runtime p, pa_data p, pa_state p}"
  shows "d \<noteq> []" "d \<noteq> control_socket p"
proof -
  obtain x where d: "d = join_path x ''env-ctl''"
    using assms by (auto simp: paths_resolve_def Let_def split: option.splits)
  then show "d \<noteq> []" by (auto simp: join_path_def)
  obtain a b where "d = a @ ''env-ctl''" "control_socket p = b @ ''secretd.sock''"
    using join_path_suffix [of "''env-ctl''" x] join_path_suffix [of "''secretd.sock''" "pa_runtime p"] d
    by (auto simp: control_socket_def)
  then show "d \<noteq> control_socket p" using append_tails_differ [of "''secretd.sock''" "''env-ctl''" a b] by simp
qed

lemma bring_up_triple:
  "triple unbound (bring_up k sys uid builder)
     (\<lambda>(p, _) h. paths_resolve sys = Inr p \<and> binds_only (control_socket p) h \<and> walled p h
        \<and> listening (control_socket p) h)
     (\<lambda>h. unbound h \<or> (\<exists>p. paths_resolve sys = Inr p \<and> binds_only (control_socket p) h \<and> walled p h))"
    (is "triple _ _ ?done ?failed")
proof -
  have resolved: "triple unbound (lift_result (context_msg c (paths_resolve sys)))
      (\<lambda>p h. paths_resolve sys = Inr p \<and> unbound h) ?failed" for c
    by (auto simp: triple_def lift_result_def context_msg_def split: sum.splits)
  have harden: "triple unbound (harden_process k) (\<lambda>_. unbound) ?failed"
    by (rule triple_weaken [OF triple_keeps [OF harden_keeps [OF unbound_kept(1)]]]) auto
  have dir: "triple (\<lambda>h. unbound h \<and> list_all (\<lambda>d. owner_only d h) ds) (ensure_dir_0700 k sys d)
      (\<lambda>_ h. unbound h \<and> list_all (\<lambda>d. owner_only d h) (d # ds)) ?failed" if "d \<noteq> []" for d ds
  proof -
    have "keeps (\<lambda>h. list_all (\<lambda>d. owner_only d h) ds) (ensure_dir_0700 k sys d)"
      using ensure_keeps [OF owner_only_kept(2,7)] by (auto simp: keeps_def list_all_iff)
    with ensure_keeps [OF unbound_kept(2,6)] have "keeps (\<lambda>h. unbound h \<and> list_all (\<lambda>d. owner_only d h) ds)
        (ensure_dir_0700 k sys d)"
      by (intro keeps_conj)
    from triple_weaken [OF ensure_makes_private [OF that this]] show ?thesis by auto
  qed
  have pure: "triple (\<lambda>h. unbound h \<and> Q h) (lift_result r) (\<lambda>_ h. unbound h \<and> Q h) ?failed" for r :: "'r anyhow" and Q
    by (simp add: triple_def lift_result_def split: sum.split)
  have bind: "triple (\<lambda>h. paths_resolve sys = Inr p \<and> unbound h \<and> walled p h) (bind_uds k sys (control_socket p))
      (\<lambda>_ h. paths_resolve sys = Inr p \<and> binds_only (control_socket p) h \<and> walled p h
        \<and> listening (control_socket p) h) ?failed" for p
  proof (cases "paths_resolve sys = Inr p")
    case True
    have "keeps (\<lambda>h. binds_only (control_socket p) h \<and> walled p h) (bind_uds k sys (control_socket p))"
      unfolding walled_def
      by (intro keeps_conj bind_uds_keeps owner_only_kept binds_only_kept disjI2)
        (use resolved_dirs(2) [OF True] in force)+
    from triple_both [OF triple_keeps [OF this] bind_listens] show ?thesis
      by (rule triple_weaken) (auto simp: True unbound_def binds_only_def)
  qed (simp add: triple_def)
  have rest: "triple (\<lambda>h. paths_resolve sys = Inr p \<and> unbound h)
      (and_then (ensure_dir_0700 k sys (pa_runtime p)) (\<lambda>_.
       and_then (ensure_dir_0700 k sys (pa_data p)) (\<lambda>_.
       and_then (ensure_dir_0700 k sys (pa_state p)) (\<lambda>_.
       and_then (lift_result (context_msg ''loading store config'' (load sys (config_file p)))) (\<lambda>store_cfg.
       and_then (lift_result (build_engine uid builder store_cfg)) (\<lambda>engine.
       and_then (bind_uds k sys (control_socket p)) (\<lambda>_. ok_act (p, engine)))))))) ?done ?failed" for p
  proof (cases "paths_resolve sys = Inr p")
    case True
    note dirs = resolved_dirs(1) [OF True]
    have bind': "triple (\<lambda>h. unbound h \<and> list_all (\<lambda>d. owner_only d h) [pa_state p, pa_data p, pa_runtime p])
        (and_then (bind_uds k sys (control_socket p)) (\<lambda>_. ok_act (p, engine))) ?done ?failed" for engine
      by (rule triple_weaken [OF triple_and_then [OF bind [of p]]], rule triple_ok)
        (auto simp: True walled_def)
    show ?thesis
      by (rule triple_weaken [where P = "\<lambda>h. unbound h \<and> list_all (\<lambda>d. owner_only d h) []" and Q = ?done and E = ?failed],
          (rule triple_and_then [OF dir], rule dirs, simp)+,
          (rule triple_and_then [OF pure])+, rule bind') auto
  qed (simp add: triple_def)
  show ?thesis unfolding bring_up_def by (rule triple_and_then [OF harden], rule triple_and_then [OF resolved], rule rest)
qed

text \<open>
  C22: at whatever call bringing the daemon up ends, well or with an error: it has bound at most the control
  socket of the paths of its environment, and if it has bound it, the runtime, data and state
  directories can be entered by their owner only; and when it ends well, the socket itself has mode 0600
  and listens.
\<close>

theorem socket_is_walled:
  assumes "bring_up k sys uid builder \<lparr>ho_nodes = nodes, ho_trace = []\<rparr> = (r, h)"
  shows "(unbound h \<or> (\<exists>p. paths_resolve sys = Inr p \<and> binds_only (control_socket p) h \<and> walled p h))
    \<and> (case r of Inl _ \<Rightarrow> True | Inr (p, _) \<Rightarrow>
        paths_resolve sys = Inr p \<and> walled p h \<and> listening (control_socket p) h)"
proof -
  have "unbound \<lparr>ho_nodes = nodes, ho_trace = []\<rparr>" by (simp add: unbound_def)
  from tripleD [OF bring_up_triple this, of k sys uid builder] show ?thesis
    by (auto simp: assms split: sum.splits)
qed

text \<open>The \<open>expect\<close> of \<open>build_engine\<close> never fires: a configuration that was loaded has its address.\<close>

lemma loaded_config_has_url: "load sys path = Inr cfg \<Longrightarrow> sc_backend cfg = LibSql \<Longrightarrow> sc_url cfg \<noteq> None"
  by (erule load_ok) (auto simp: resolve_accepts)

section \<open>A daemon that already listens\<close>

definition taken :: "string \<Rightarrow> u32 \<Rightarrow> host \<Rightarrow> bool" where
  "taken sock m h \<longleftrightarrow> ho_nodes h sock = Some (Socket m True)
     \<and> unbound h \<and> (\<forall>s. SysRemove s \<notin> set (ho_trace h))"

lemma taken_kept:
  "keeps (taken s n) (sys_setrlimit k res cur mx)" "keeps (taken s n) (sys_mkdir k p)"
  "keeps (taken s n) (sys_exists k p)" "keeps (taken s n) (sys_connect k p)"
  "p \<noteq> s \<Longrightarrow> keeps (taken s n) (sys_chmod k p m)"
  unfolding sys_defs
  by (rule keeps_sys_call; auto simp: taken_def unbound_def split: option.split)+

lemma bind_refuses_taken:
  assumes "\<And>t. kn_refuses k t (SysExists sock) = None" "\<And>t. kn_refuses k t (SysConnect sock) = None"
  shows "triple (taken sock m) (bind_uds k sys sock) (\<lambda>_ _. False) (taken sock m)"
proof -
  have "triple (taken sock m) (probe (\<lambda>r. r = Inr True) (sys_exists k sock)) (\<lambda>there h. there \<and> taken sock m h) (taken sock m)"
    "triple (taken sock m) (probe (\<lambda>r. r = Inr ()) (sys_connect k sock)) (\<lambda>alive h. alive \<and> taken sock m h) (taken sock m)"
    using assms by (simp_all add: triple_def probe_def sys_exists_def sys_connect_def sys_call_run taken_def unbound_def)
  note look = this
  have inner: "triple (\<lambda>h. there \<and> taken sock m h)
      (if there then and_then (probe (\<lambda>r. r = Inr ()) (sys_connect k sock)) (\<lambda>alive.
            if alive then fail_act [''daemon already running at '' @ os_display sys sock]
            else io_context (''removing stale socket '' @ os_display sys sock) (sys_remove k sock))
        else ok_act ()) (\<lambda>_ _. False) (taken sock m)" for there
    by (cases there)
      (simp_all, rule triple_and_then [OF look(2)], simp_all add: triple_def run_simps)
  have dead: "triple (\<lambda>_. False) n Q E" for n :: "(host, 'e, 'b) act" and Q E
    by (simp add: triple_def)
  show ?thesis unfolding bind_uds_def
    by (rule triple_and_then [OF look(1)], rule triple_and_then [OF inner], rule dead)
qed

lemma bring_up_taken:
  assumes p: "paths_resolve sys = Inr p"
    and answers: "\<And>t. kn_refuses k t (SysExists (control_socket p)) = None"
      "\<And>t. kn_refuses k t (SysConnect (control_socket p)) = None"
  shows "triple (taken (control_socket p) m) (bring_up k sys uid builder) (\<lambda>_ _. False) (taken (control_socket p) m)"
    (is "triple ?taken _ _ _")
proof -
  have pure: "triple ?taken (lift_result r) (\<lambda>_. ?taken) ?taken" for r :: "'r anyhow"
    by (simp add: triple_def lift_result_def split: sum.split)
  have dir: "triple ?taken (ensure_dir_0700 k sys d) (\<lambda>_. ?taken) ?taken"
    if "d \<in> {pa_runtime p, pa_data p, pa_state p}" for d
    by (intro triple_keeps ensure_keeps taken_kept resolved_dirs(2) [OF p that])
  have resolved: "triple ?taken (lift_result (context_msg c (paths_resolve sys))) (\<lambda>q h. q = p \<and> ?taken h) ?taken" for c
    by (simp add: triple_def lift_result_def p)
  have rest: "triple (\<lambda>h. q = p \<and> ?taken h)
      (and_then (ensure_dir_0700 k sys (pa_runtime q)) (\<lambda>_.
       and_then (ensure_dir_0700 k sys (pa_data q)) (\<lambda>_.
       and_then (ensure_dir_0700 k sys (pa_state q)) (\<lambda>_.
       and_then (lift_result (context_msg ''loading store config'' (load sys (config_file q)))) (\<lambda>store_cfg.
       and_then (lift_result (build_engine uid builder store_cfg)) (\<lambda>engine.
       and_then (bind_uds k sys (control_socket q)) (\<lambda>_. ok_act (q, engine))))))))
      (\<lambda>_ _. False) ?taken" for q
  proof (cases "q = p")
    case True
    then show ?thesis
      by (simp, intro triple_and_then [OF dir] triple_and_then [OF pure]
          triple_and_then [OF bind_refuses_taken [OF answers]]) (simp_all add: triple_def)
  qed (simp add: triple_def)
  show ?thesis unfolding bring_up_def
    by (rule triple_and_then [OF triple_keeps [OF harden_keeps [OF taken_kept(1)]]],
        rule triple_and_then [OF resolved], rule rest)
qed

text \<open>
  A second daemon does not start where one answers: it ends with an error, binds and removes nothing,
  and leaves the socket of the first as it is.
\<close>

theorem running_daemon_undisturbed:
  assumes "bring_up k sys uid builder \<lparr>ho_nodes = nodes, ho_trace = []\<rparr> = (r, h)"
    and "paths_resolve sys = Inr p" "nodes (control_socket p) = Some (Socket m True)"
    and "\<And>t. kn_refuses k t (SysExists (control_socket p)) = None"
      "\<And>t. kn_refuses k t (SysConnect (control_socket p)) = None"
  shows "(\<exists>e. r = Inl e) \<and> ho_nodes h (control_socket p) = Some (Socket m True)
    \<and> (\<forall>s. SysBind s \<notin> set (ho_trace h) \<and> SysRemove s \<notin> set (ho_trace h))"
proof -
  have "taken (control_socket p) m \<lparr>ho_nodes = nodes, ho_trace = []\<rparr>"
    using assms(3) by (simp add: taken_def unbound_def)
  from tripleD [OF bring_up_taken [OF assms(2,4,5)] this, of uid builder] show ?thesis
    by (auto simp: assms(1) taken_def unbound_def split: sum.splits)
qed

text \<open>
  A live daemon whose socket does not take the connection, for whatever reason the kernel gives, is
  taken for a dead one: its socket is removed and bound anew.
\<close>

lemma unanswered_probe_takes_over:
  assumes "ho_nodes h sock = Some (Socket m True)"
    and "\<And>t c. kn_refuses k t c = (if c = SysConnect sock then Some (IoOther busy) else None)"
  shows "\<exists>h'. bind_uds k sys sock h = (Inr (), h')
    \<and> ho_trace h' = ho_trace h @ [SysExists sock, SysConnect sock, SysRemove sock, SysBind sock, SysChmod sock 0x180]"
  using assms
  by (simp add: bind_uds_def probe_def io_context_def io_result_def sys_exists_def sys_connect_def sys_remove_def
      sys_bind_def sys_chmod_def sys_call_run run_and_then run_simps)

section \<open>Examples\<close>

definition home_os :: os where
  "home_os = \<lparr>os_var = \<lambda>_. None,
     os_var_os = (\<lambda>v. if v = ''HOME'' then Some ''/home/me'' else if v = ''XDG_RUNTIME_DIR'' then Some ''/run/user/1000'' else None),
     os_display = \<lambda>p. p, os_read = \<lambda>_. Inl (IoNotFound ''No such file or directory (os error 2)''),
     os_mode = \<lambda>_. Inr 0x180, os_toml = \<lambda>_. Inr default_file_config\<rparr>"

definition easy_kernel :: kernel where
  "easy_kernel = \<lparr>kn_umask = 0x12, kn_refuses = \<lambda>_ _. None\<rparr>"

definition no_remote :: "string \<Rightarrow> string \<Rightarrow> unit built" where
  "no_remote url token = BuildFailed [''no server'']"

definition home_socket :: string where
  "home_socket = ''/run/user/1000/env-ctl/secretd.sock''"

abbreviation first_start :: "((string list) + (paths \<times> unit opened)) \<times> host" where
  "first_start \<equiv> bring_up easy_kernel home_os 1000 no_remote \<lparr>ho_nodes = (\<lambda>_. None), ho_trace = []\<rparr>"

definition succeeded :: "'e + 'a \<Rightarrow> bool" where
  "succeeded r = (case r of Inl _ \<Rightarrow> False | Inr _ \<Rightarrow> True)"

lemma first_start_succeeds: "succeeded (fst first_start)"
  by code_simp

lemma home_paths: "map_sum (\<lambda>_. ()) control_socket (paths_resolve home_os) = Inr home_socket"
  by code_simp

theorem socket_is_walled_witness:
  "\<exists>p e h. first_start = (Inr (p, e), h) \<and> control_socket p = home_socket \<and> walled p h \<and> listening home_socket h"
proof -
  obtain p e h where run: "first_start = (Inr (p, e), h)"
    using first_start_succeeds by (cases first_start) (auto simp: succeeded_def split: sum.splits)
  from socket_is_walled [OF run] have "paths_resolve home_os = Inr p" "walled p h" "listening (control_socket p) h" by auto
  then show ?thesis using run home_paths by auto
qed

theorem running_daemon_undisturbed_witness:
  "\<exists>e h. bring_up easy_kernel home_os 1000 no_remote
       \<lparr>ho_nodes = [home_socket \<mapsto> Socket 0x180 True], ho_trace = []\<rparr> = (Inl e, h)
     \<and> ho_nodes h home_socket = Some (Socket 0x180 True)"
proof -
  obtain p where p: "paths_resolve home_os = Inr p" "control_socket p = home_socket"
    using home_paths by (cases "paths_resolve home_os") auto
  obtain r h where run: "bring_up easy_kernel home_os 1000 no_remote
      \<lparr>ho_nodes = [home_socket \<mapsto> Socket 0x180 True], ho_trace = []\<rparr> = (r, h)" by force
  from running_daemon_undisturbed [OF run p(1)] show ?thesis
    using run by (auto simp: p(2) easy_kernel_def)
qed

end
