(* ===== verification/DaemonInMem.thy ===== *)
theory DaemonInMem
  imports DaemonSafety DaemonStartSafety
begin

text \<open>
  The daemon on the in-memory store, which is what \<open>build_engine\<close> opens when nothing is configured.
  The control plane has no request that enrolls a keyslot, so nothing it serves ever opens the vault.
\<close>

section \<open>A vault nobody initialised\<close>

definition barren :: "in_mem_data \<Rightarrow> bool" where
  "barren g \<longleftrightarrow> sd_keyslots g = [] \<and> sd_secrets g = [] \<and> sd_relays g = [] \<and> sd_bearers g = []"

definition dormant :: "engine \<Rightarrow> bool" where
  "dormant s \<longleftrightarrow> en_vault s = VLocked \<and> barren (en_store s)"

interpretation dormant: audit_relation "\<lambda>s t. dormant s \<longrightarrow> dormant t" w "\<lambda>g h. barren g \<longrightarrow> barren h" for w
  by unfold_locales (simp_all add: dormant_def barren_def store_ops append_audit_def Let_def)

lemmas dormant_parts = dormant.audit_parts [folded keeps_frames]

lemma keeps_dormant_reads: "keeps dormant (secret_get w name reveal apply_flag)"
  by (simp add: keeps_frames dormant.secret_get)

text \<open>What each read finds there.\<close>

lemma dormant_call:
  assumes "\<And>g. barren g \<Longrightarrow> fst (m g) = Inr x \<and> barren (snd (m g))"
  shows "triple dormant (store_call w m) (\<lambda>y s. y = x \<and> dormant s) dormant"
  using assms by (auto simp: triple_def store_call_def dormant_def Let_def split: option.split sum.splits)

lemma dormant_reads:
  "triple dormant (store_call w load_keyslots) (\<lambda>y s. y = [] \<and> dormant s) dormant"
  "triple dormant (store_call w (load_relay_policy rid)) (\<lambda>y s. y = None \<and> dormant s) dormant"
  "triple dormant (store_call w (list_bearers_for_relay rid)) (\<lambda>y s. y = [] \<and> dormant s) dormant"
  "triple dormant (store_call w (load_bearer tid)) (\<lambda>y s. y = None \<and> dormant s) dormant"
  by (rule dormant_call; simp add: store_ops barren_def)+

lemma dormant_no_dek: "triple dormant (and_then require_dek k) (\<lambda>_ _. False) dormant"
  by (simp add: triple_def require_dek_def dormant_def run_and_then)


lemma dormant_recover: "triple dormant (recover w u []) (\<lambda>y s. y = None \<and> dormant s) dormant"
  by (cases u) (simp_all add: triple_def run_simps)

lemma dormant_audits:
  "triple dormant (audit_ok w ev sub det) (\<lambda>_. dormant) dormant"
  "triple dormant (fail_audited w det e) (\<lambda>_ _. False) dormant"
  "triple dormant (load_header_mac w) (\<lambda>_. dormant) dormant"
  "triple dormant (load_issuance_floor w) (\<lambda>_. dormant) dormant"
  "triple dormant (emit x) (\<lambda>_. dormant) dormant"
  "triple dormant (now_ms w) (\<lambda>_. dormant) dormant"
  "triple dormant (boottime_ms w) (\<lambda>_. dormant) dormant"
proof -
  have keep: "keeps dormant m \<Longrightarrow> triple dormant m (\<lambda>_. dormant) dormant" for m :: "'z op"
    by (rule triple_keeps)
  show "triple dormant (audit_ok w ev sub det) (\<lambda>_. dormant) dormant"
    "triple dormant (load_header_mac w) (\<lambda>_. dormant) dormant"
    "triple dormant (load_issuance_floor w) (\<lambda>_. dormant) dormant"
    "triple dormant (emit x) (\<lambda>_. dormant) dormant"
    "triple dormant (now_ms w) (\<lambda>_. dormant) dormant"
    "triple dormant (boottime_ms w) (\<lambda>_. dormant) dormant"
    by (rule keep, rule dormant_parts)+
  have "keeps dormant (audit_failed w ''vault_unlock'' None det)" by (rule dormant_parts)
  then show "triple dormant (fail_audited w det e) (\<lambda>_ _. False) dormant"
    unfolding fail_audited_def by (intro triple_and_then [OF keep]) (auto simp: triple_def run_simps)
qed

lemma and_then_ok: "and_then (ok_act x) k = k x"
  by (rule ext) (simp add: run_simps)

section \<open>Every engine call leaves it so\<close>

lemma dormant_known: "triple dormant (k a) Q dormant \<Longrightarrow> triple (\<lambda>s. y = a \<and> dormant s) (k y) Q dormant"
  by (auto simp: triple_def)

lemma dormant_unlock: "triple dormant (unlock w u) (\<lambda>_ _. False) dormant"
proof -
  have rest: "triple (\<lambda>s. y = None \<and> dormant s)
      (case y of None \<Rightarrow> fail_audited w (JObj []) (Engine UnlockFailed) | Some dek \<Rightarrow> k dek) (\<lambda>_ _. False) dormant" for y k
    by (cases y) (use dormant_audits(2) in \<open>simp_all add: triple_def\<close>)
  have locked: "triple dormant (gets_act (\<lambda>s. is_unlocked (en_vault s))) (\<lambda>already s. \<not> already \<and> dormant s) dormant"
    by (simp add: triple_def run_simps dormant_def is_unlocked_def)
  show ?thesis
    unfolding unlock_def
    apply (rule triple_and_then [OF locked])
    subgoal for already
      apply (cases already)
       apply (simp add: triple_def)
      apply simp
      apply (rule triple_and_then [OF dormant_reads(1)])
      apply (rule dormant_known)
      apply (rule triple_and_then [OF dormant_audits(3)])
      apply (rule triple_and_then [OF dormant_audits(4)])
      apply (rule triple_and_then [OF dormant_recover])
      apply (rule rest)
      done
    done
qed

lemma dormant_lock: "keeps dormant (lock w)"
  unfolding lock_def
  by (intro keeps_rules keeps_modify dormant_parts) (simp_all add: dormant_def)

lemma dormant_put: "triple dormant (secret_put w m body) (\<lambda>_ _. False) dormant"
  unfolding secret_put_def by (rule dormant_no_dek)

lemma dormant_mint: "triple dormant (relay_mint w spec ttl uid pid) (\<lambda>_ _. False) dormant"
  unfolding relay_mint_def mint_bearer_core_def Let_def split_beta
  by (intro triple_and_then [OF dormant_audits(6)] triple_and_then [OF dormant_audits(7)] dormant_no_dek)

lemma dormant_value: "triple dormant m Q dormant \<Longrightarrow> (\<And>x s. Q x s \<Longrightarrow> dormant s) \<Longrightarrow> keeps dormant m"
  unfolding triple_def keeps_def by (fastforce split: sum.splits)

lemma dormant_revoke: "keeps dormant (relay_revoke w rid apply_flag)"
proof -
  have policy: "triple dormant (revoke_policy w rid) (\<lambda>_. dormant) dormant"
    unfolding revoke_policy_def
    by (rule triple_and_then [OF dormant_reads(2)], rule dormant_known) (simp add: triple_def run_simps)
  have fin: "triple dormant (ok_act n) (\<lambda>_. dormant) dormant" for n :: u32
    by (simp add: triple_def run_simps)
  have "triple dormant (relay_revoke w rid apply_flag) (\<lambda>_. dormant) dormant"
  proof (cases apply_flag)
    case True
    then show ?thesis
      by (simp add: relay_revoke_def, intro triple_and_then [OF policy] triple_and_then [OF dormant_reads(3)] dormant_known)
        (simp add: and_then_ok, intro triple_and_then [OF dormant_audits(1)] triple_and_then [OF dormant_audits(5)] fin)
  next
    case False
    then show ?thesis
      by (simp add: relay_revoke_def, intro triple_and_then [OF dormant_reads(3)] dormant_known)
        (simp, intro triple_and_then [OF dormant_audits(1)] fin)
  qed
  then show ?thesis by (rule dormant_value)
qed

lemma dormant_revoke_bearer: "keeps dormant (relay_revoke_bearer w tid apply_flag)"
proof -
  have fin: "triple dormant (ok_act n) (\<lambda>_. dormant) dormant" for n :: 'n
    by (simp add: triple_def run_simps)
  have announce: "triple dormant (announce_flip tid n) (\<lambda>_. dormant) dormant" for n
    unfolding announce_flip_def by (intro triple_if dormant_audits(5) fin)
  have "triple dormant (relay_revoke_bearer w tid apply_flag) (\<lambda>_. dormant) dormant"
    unfolding relay_revoke_bearer_def Let_def
    by (intro triple_and_then [OF dormant_reads(4)] dormant_known)
      (simp add: live_row_def flip_bearer_def and_then_ok, intro conjI impI triple_and_then [OF dormant_audits(1)]
        triple_and_then [OF announce] fin)
  then show ?thesis by (rule dormant_value)
qed

section \<open>Sessions\<close>

lemma dormant_perform:
  assumes "engine_request info r = Some q" "dormant s"
  shows "dormant (perform w q s)"
  using assms
  by (cases r) (auto split: if_splits
      intro: keepsD [OF dormant_value [OF dormant_unlock]] keepsD [OF dormant_value [OF dormant_put]]
        keepsD [OF dormant_value [OF dormant_mint]] keepsD [OF keeps_dormant_reads] keepsD [OF dormant_lock]
        keepsD [OF dormant_revoke] keepsD [OF dormant_revoke_bearer])

definition asleep :: "daemon \<Rightarrow> bool" where
  "asleep d \<longleftrightarrow> dormant (dm_engine d) \<and> \<not> dm_unlocked d"

lemma handle_asleep: "asleep d \<Longrightarrow> asleep (snd (handle w jt info r d))"
proof -
  assume d: "asleep d"
  have "fst (unlock w u (dm_engine d)) \<noteq> Inr x" for u x
    using d tripleD [OF dormant_unlock, of "dm_engine d" w u] by (auto simp: asleep_def)
  then have "\<not> flag_after w r d"
    using d by (cases r) (auto simp: asleep_def split: sum.split)
  then show ?thesis
    using d dormant_perform by (auto simp: asleep_def handle_state simp del: handle.simps split: option.split)
qed

lemma serve_asleep: "asleep d \<Longrightarrow> asleep (snd (serve w jt owner info r d))"
  by (cases "owner_guard owner info") (simp_all add: serve_def run_simps handle_asleep del: handle.simps)

lemma session_asleep: "asleep d \<Longrightarrow> asleep (snd (session w jt owner rs d))"
proof (induction rs arbitrary: d)
  case (Cons x rs)
  then show ?case by (cases x) (simp add: session_Cons serve_asleep del: session.simps)
qed simp

text \<open>An answer that hands out a bearer.\<close>

definition hands_out :: "status + response \<Rightarrow> bool" where
  "hands_out a = (case a of Inr (MintResp _) \<Rightarrow> True | _ \<Rightarrow> False)"

lemma hands_out_simps [simp]:
  "\<not> hands_out (Inl e)" "hands_out (Inr (MintResp m))" "\<not> hands_out (Inr (EventsResp evs))"
  "\<not> hands_out (Inr (GetResp g))" "\<not> hands_out (Inr (RevokeResp v))" "\<not> hands_out (Inr (StatusResp st))"
  "\<not> hands_out (Inr (SecretListResp x))" "\<not> hands_out (Inr (RelayListResp y))" "\<not> hands_out (Inr (AuditResp z))"
  by (simp_all add: hands_out_def)

lemma respond_hands_out: "(\<And>x. \<not> hands_out (Inr (f x))) \<Longrightarrow> \<not> hands_out (fst (respond f h d))"
  by (simp add: respond_def run_and_then run_simps split: sum.split)

lemma handle_hands_out:
  assumes "asleep d" shows "\<not> hands_out (fst (handle w jt info r d))"
proof (cases r)
  case (RelayMintRpc req)
  have "fst (relay_mint w spec ttl uid pid (dm_engine d)) \<noteq> Inr x" for spec ttl uid pid x
    using assms tripleD [OF dormant_mint, of "dm_engine d" w spec ttl uid pid] by (auto simp: asleep_def)
  then have "fst (relay_svc_mint w jt info req d) \<noteq> Inr x" for x
    by (auto simp: relay_svc_mint_def Let_def run_and_then run_simps spawn_blocking_def or_status_def
        split: prod.splits sum.splits any_error.splits if_splits) (metis fst_conv)+
  then show ?thesis
    by (simp add: RelayMintRpc respond_def run_and_then split: sum.split)
qed (simp_all add: respond_hands_out run_simps)

lemma session_hands_out: "asleep d \<Longrightarrow> \<not> list_ex hands_out (fst (session w jt owner rs d))"
proof (induction rs arbitrary: d)
  case (Cons x rs)
  obtain info r where x: "x = (info, r)" by force
  have "\<not> hands_out (fst (serve w jt owner info r d))"
    by (cases "owner_guard owner info")
      (simp_all add: serve_def run_simps handle_hands_out Cons.prems del: handle.simps)
  then show ?case
    using Cons.IH [OF serve_asleep [OF Cons.prems]] by (simp add: x session_Cons del: session.simps)
qed simp

text \<open>
  C23: a daemon that comes up on the in-memory store never gets its vault open: whatever its owner and
  others ask of it, the vault stays locked, no keyslot, secret, relay or bearer is ever stored, and no
  bearer is handed out.
\<close>

theorem in_memory_daemon_stays_locked:
  assumes "bring_up k sys uid builder h = (Inr (p, OnInMem e), h')"
  shows "\<exists>answers d. session w jt uid rs (start_daemon e) = (answers, d)
    \<and> en_vault (dm_engine d) = VLocked \<and> \<not> dm_unlocked d \<and> barren (en_store (dm_engine d))
    \<and> \<not> list_ex hands_out answers"
proof -
  have e: "e = with_seams uid empty_store"
    using assms by (auto simp: bring_up_def build_engine_def run_simps run_lift elim!: and_then_InrE
        split: backend.splits option.splits built.splits)
  have "asleep (start_daemon e)"
    by (simp add: e asleep_def dormant_def barren_def start_daemon_def with_seams_def empty_store_def)
  with session_asleep session_hands_out show ?thesis
    by (cases "session w jt uid rs (start_daemon e)")
      (metis (no_types, lifting) asleep_def dormant_def fst_conv snd_conv)
qed

definition in_mem_engine :: "'e + paths \<times> 'db opened \<Rightarrow> engine option" where
  "in_mem_engine r = (case r of Inr (_, OnInMem e) \<Rightarrow> Some e | _ \<Rightarrow> None)"

theorem in_memory_daemon_stays_locked_witness:
  "\<exists>e answers d. in_mem_engine (fst first_start) = Some e
    \<and> session toy_world (\<lambda>t. t) 1000 [(PeerCred 1000, LockUnlock (Some ''correct horse''))] (start_daemon e) = (answers, d)
    \<and> en_vault (dm_engine d) = VLocked"
proof -
  have "in_mem_engine (fst first_start) \<noteq> None" by code_simp
  then obtain p e h where run: "first_start = (Inr (p, OnInMem e), h)"
    by (cases first_start) (auto simp: in_mem_engine_def split: sum.splits opened.splits)
  from in_memory_daemon_stays_locked
      [OF this, of toy_world "\<lambda>t. t" "[(PeerCred 1000, LockUnlock (Some ''correct horse''))]"]
  show ?thesis by (auto simp: run in_mem_engine_def)
qed

end
