(* ===== verification/ClientExample.thy ===== *)
theory ClientExample
  imports ClientSafety DaemonInMem DaemonExample
begin

text \<open>The client's properties at concrete commands, in front of a daemon over the sample vault.\<close>

definition toy_client :: client_env where
  "toy_client =
     \<lparr>ce_os = home_os, ce_stdin = Inr (str_bytes ''sk-new''), ce_dial = (\<lambda>_. Inr ()), ce_status = (\<lambda>_. ''status''),
      ce_json = json_text, ce_serve = serve toy_world (\<lambda>t. t) 1000 (PeerCred 1000)\<rparr>"

definition in_front_of :: "engine \<Rightarrow> client" where
  "in_front_of s = \<lparr>cn_out = [], cn_daemon = start_daemon s\<rparr>"

definition toy_cli :: "cmd \<Rightarrow> cli" where
  "toy_cli c = \<lparr>cl_json = False, cl_socket = Some ''/tmp/s'', cl_cmd = c\<rparr>"

lemma toy_client_simps [simp]:
  "ce_serve toy_client = serve toy_world (\<lambda>t. t) 1000 (PeerCred 1000)" "ce_dial toy_client p = Inr ()"
  "ce_stdin toy_client = Inr (str_bytes ''sk-new'')" "ce_json toy_client = json_text"
  "cl_cmd (toy_cli c) = c" "cl_json (toy_cli c) = False" "cl_socket (toy_cli c) = Some ''/tmp/s''"
  "cn_out (in_front_of s) = []" "cn_daemon (in_front_of s) = start_daemon s" "dm_engine (start_daemon s) = s"
  by (simp_all add: toy_client_def toy_cli_def in_front_of_def start_daemon_def)

theorem unconfirmed_changes_nothing_witness:
  "kept toy_engine (dm_engine (cn_daemon (snd (run_client toy_client
     (toy_cli (CmdRelay (CmdRevoke ''claude-main'' True False))) (in_front_of toy_engine)))))"
  using unconfirmed_changes_nothing [of toy_client toy_world "\<lambda>t. t" 1000 "PeerCred 1000"
      "toy_cli (CmdRelay (CmdRevoke ''claude-main'' True False))" "in_front_of toy_engine"]
  by simp

theorem mint_without_ttl_refused_witness:
  "\<exists>chain. fst (run_client toy_client (toy_cli (CmdRelay (CmdMint ''claude-main'' None))) (in_front_of toy_engine))
     = Inl chain"
  by (rule mint_without_ttl_refused [of _ toy_world "\<lambda>t. t" 1000 "PeerCred 1000"]) simp_all

theorem printed_secret_is_authorised_witness:
  "\<exists>c. run_client toy_client (toy_cli (CmdSecret (CmdGet ''anthropic_key'' True True True))) (in_front_of toy_reader)
       = (Inr (), c)
     \<and> cn_out c = ''sk-ant-real''
     \<and> (\<exists>row. found (get_secret_latest ''anthropic_key'') (en_store toy_reader) = Some row \<and> \<not> sr_broker_only row)"
proof -
  obtain t where "secret_get toy_world ''anthropic_key'' True True toy_reader = (Inr (str_bytes ''sk-ant-real''), t)"
    by (rule toy_reader_reveals)
  then have "call_rpc toy_client (VaultGet ''anthropic_key'' True True True) (in_front_of toy_reader)
      = (Inr (GetResp \<lparr>gr_value = str_bytes ''sk-ant-real'', gr_revealed = True\<rparr>),
         (in_front_of toy_reader)\<lparr>cn_daemon := (start_daemon toy_reader)\<lparr>dm_engine := t\<rparr>\<rparr>)"
    by (simp add: call_rpc_def serve_owner vault_get_def respond_def spawn_blocking_def run_simps Let_def)
  moreover have shown: "from_utf8_lossy (str_bytes ''sk-ant-real'') = ''sk-ant-real''" by code_simp
  ultimately obtain c where run: "run_client toy_client (toy_cli (CmdSecret (CmdGet ''anthropic_key'' True True True)))
        (in_front_of toy_reader) = (Inr (), c)" and out: "cn_out c = ''sk-ant-real''"
    by (simp add: run_reaches [where sock = "''/tmp/s''"] socket_path_def put_out_def run_simps render_get_def)
  from printed_secret_is_authorised [OF toy_client_simps(1) toy_client_simps(5) run] show ?thesis
    using run out by auto
qed


end
