(* ===== verification/Seams.thy ===== *)
theory Seams
  imports EngineSwap "HOL-Library.Signed_Division"
begin

text \<open>
  The seams the binary ships with (\<open>seam.rs\<close>, and \<open>NullUpstream\<close> of \<open>lib.rs\<close>): the boot clock, the
  minting of native sub-tokens and the upstream. \<open>RealUsbProbe\<close> is \<open>todo!()\<close> in the source.
\<close>

section \<open>The boot clock\<close>

text \<open>\<open>boottime_ms\<close> from the seconds and nanoseconds of \<open>CLOCK_BOOTTIME\<close>; the division truncates.\<close>

definition system_boottime_ms :: "i64 \<Rightarrow> i64 \<Rightarrow> i64" where
  "system_boottime_ms tv_sec tv_nsec = sat_add (sat_mul tv_sec 1000) (word_of_int (sint tv_nsec sdiv 1000000))"

lemma system_boottime_exact:
  assumes "0 \<le> sint sec" "0 \<le> sint nsec" "sint nsec < 1000000000"
  shows "sint (system_boottime_ms sec nsec) = min i64_max (sint sec * 1000 + sint nsec div 1000000)"
proof -
  have "sint nsec sdiv 1000000 = sint nsec div 1000000"
    using assms(2) by (cases "sint nsec = 0") (simp_all add: signed_divide_int_def sgn_if)
  moreover have "0 \<le> sint nsec div 1000000" "sint nsec div 1000000 \<le> 999" using assms by auto
  moreover from this have "sint (word_of_int (sint nsec div 1000000) :: i64) = sint nsec div 1000000"
    by (simp add: sint_sbintrunc' signed_take_bit_int_eq_self)
  ultimately show ?thesis
    using assms(1) by (simp add: system_boottime_ms_def sat_add_def sat_mul_def) (simp add: min_def max_def)
qed

text \<open>
  The clock never runs backwards and never panics: it follows the kernel's counter to the millisecond
  until it stops at the largest \<open>i64\<close>.
\<close>

lemma system_boottime_mono:
  assumes "0 \<le> sint sec" "0 \<le> sint nsec" "sint nsec < 1000000000"
    and "0 \<le> sint sec'" "0 \<le> sint nsec'" "sint nsec' < 1000000000"
    and "sint sec < sint sec' \<or> sint sec = sint sec' \<and> sint nsec \<le> sint nsec'"
  shows "i64_le (system_boottime_ms sec nsec) (system_boottime_ms sec' nsec')"
proof -
  have "sint nsec div 1000000 \<le> 999" "0 \<le> sint nsec' div 1000000" using assms by auto
  moreover have "sint nsec div 1000000 \<le> sint nsec' div 1000000" if "sint nsec \<le> sint nsec'"
    using that by (rule zdiv_mono1) simp
  ultimately have "sint sec * 1000 + sint nsec div 1000000 \<le> sint sec' * 1000 + sint nsec' div 1000000"
    using assms(7) by auto
  then show ?thesis
    by (simp add: i64_le_def system_boottime_exact assms)
qed

section \<open>Native sub-tokens\<close>

record mint_request =
  mn_provider :: provider
  mn_repos :: "string list"
  mn_perms :: "string list"
  mn_ttl_secs :: i64

record scoped_token =
  sk_token :: bytes
  sk_expires_at :: i64

datatype mint_error = MintUnsupported | MintOther string

fun mint_error_text :: "mint_error \<Rightarrow> string" where
  "mint_error_text MintUnsupported = ''provider does not support native sub-tokens''"
| "mint_error_text (MintOther t) = t"

text \<open>\<open>NoMint\<close> takes the trait's default.\<close>

definition no_mint :: "mint_request \<Rightarrow> mint_error + scoped_token" where
  "no_mint req = Inl MintUnsupported"

section \<open>The upstream\<close>

fun upstream_error_text :: "upstream_error \<Rightarrow> string" where
  "upstream_error_text (UpstreamIo t) = ''upstream io: '' @ t"
| "upstream_error_text (UpstreamHostNotAllowed h) = ''upstream host not allowlisted: '' @ h"

definition null_upstream :: "egress_req \<Rightarrow> bytes \<Rightarrow> upstream_error + egress_resp" where
  "null_upstream req real_key = Inl (UpstreamIo ''upstream not wired'')"

text \<open>With the upstream \<open>Engine::open\<close> puts in, no swap is ever reported as allowed.\<close>

lemma null_upstream_allows_nothing:
  assumes "\<And>n. w_upstream w n = null_upstream"
  shows "fst (relay_swap w bearer_text req s) \<noteq> Inr (Allowed resp)"
proof -
  have "fst (send_and_audit w req allow t) \<noteq> Inr (Allowed resp)" for allow t
    by (simp add: send_and_audit_def upstream_send_def assms null_upstream_def run_simps run_and_then Let_def)
  then show ?thesis
    by (auto simp: relay_swap_def match_result_def run_simps run_and_then Let_def
        split: prod.splits sum.splits prepared.splits)
qed

end
