(* ===== verification/TestsDecide.thy ===== *)
theory TestsDecide
  imports Decide
begin

text \<open>
  The unit tests of \<open>crates/secrets-engine/src/broker/decide.rs\<close>, each a proposition that computes, and
  the proof that the model of \<open>decide\<close> passes all of them. A test that changes a field of a sample value
  is the record update.
\<close>

definition T_NOW :: i64 where "T_NOW = 1700000000000"
definition T_ISSUED :: i64 where "T_ISSUED = 1699999000000"
definition T_FLOOR :: i64 where "T_FLOOR = 1699000000000"
definition T_BOOTTIME :: i64 where "T_BOOTTIME = 5000000"
definition JKT_B :: bytes where "JKT_B = replicate 32 0xBB"

definition decide_at_now :: "relay_policy \<Rightarrow> verified_bearer \<Rightarrow> canon_request \<Rightarrow> relay_decision" where
  "decide_at_now p b r = decide p b r T_NOW T_BOOTTIME None T_FLOOR"

definition denied :: "relay_policy \<Rightarrow> verified_bearer \<Rightarrow> canon_request \<Rightarrow> deny_reason \<Rightarrow> bool" where
  "denied p b r why \<longleftrightarrow> decide_at_now p b r = Deny why"

definition denied_clock ::
  "relay_policy \<Rightarrow> verified_bearer \<Rightarrow> canon_request \<Rightarrow> i64 \<Rightarrow> i64 \<Rightarrow> i64 option \<Rightarrow> i64 \<Rightarrow> deny_reason \<Rightarrow> bool" where
  "denied_clock p b r now boottime usb_absent floor why \<longleftrightarrow> decide p b r now boottime usb_absent floor = Deny why"

section \<open>The tests\<close>

definition test_baseline_allows :: bool where
  "test_baseline_allows \<longleftrightarrow>
     decide_at_now base_policy base_bearer base_request = Allow"

definition test_disabled :: bool where
  "test_disabled \<longleftrightarrow>
     denied (base_policy\<lparr>rp_enabled := False\<rparr>) base_bearer base_request Disabled"

definition test_revoked :: bool where
  "test_revoked \<longleftrightarrow>
     denied (base_policy\<lparr>rp_revoked := True\<rparr>) base_bearer base_request Revoked"

definition test_bearer_revoked :: bool where
  "test_bearer_revoked \<longleftrightarrow>
     denied base_policy (base_bearer\<lparr>vb_revoked := True\<rparr>) base_request BearerRevoked"

definition test_bearer_expired :: bool where
  "test_bearer_expired \<longleftrightarrow>
     denied base_policy (base_bearer\<lparr>vb_expires_at_ms := T_NOW\<rparr>) base_request BearerExpired"

definition test_policy_expired :: bool where
  "test_policy_expired \<longleftrightarrow>
     denied (base_policy\<lparr>rp_policy_ttl_secs := 1\<rparr>) base_bearer base_request PolicyExpired"

definition test_host_not_allowed :: bool where
  "test_host_not_allowed \<longleftrightarrow>
     denied (base_policy\<lparr>rp_host_allow := [''other.allowed.example'']\<rparr>) base_bearer base_request HostNotAllowed"

definition test_path_not_allowed :: bool where
  "test_path_not_allowed \<longleftrightarrow>
     denied base_policy base_bearer (base_request\<lparr>cr_path := ''/admin/secrets''\<rparr>) PathNotAllowed"

definition test_method_not_allowed :: bool where
  "test_method_not_allowed \<longleftrightarrow>
     denied base_policy base_bearer (base_request\<lparr>cr_method := Get\<rparr>) MethodNotAllowed"

definition test_upstream_not_allowed :: bool where
  "test_upstream_not_allowed \<longleftrightarrow>
     denied (base_policy\<lparr>rp_provider := Generic\<rparr>) base_bearer base_request UpstreamNotAllowed"

definition test_peer_mismatch :: bool where
  "test_peer_mismatch \<longleftrightarrow>
     denied base_policy base_bearer (base_request\<lparr>cr_peer_uid := Some 1001\<rparr>) PeerMismatch"

definition test_sni_host_mismatch :: bool where
  "test_sni_host_mismatch \<longleftrightarrow>
     denied base_policy base_bearer (base_request\<lparr>cr_sni := Some ''other.com''\<rparr>) SniHostMismatch"

definition test_budget_requests :: bool where
  "test_budget_requests \<longleftrightarrow>
     denied (base_policy\<lparr>rp_quota_total_requests := Some 10\<rparr>) base_bearer (base_request\<lparr>cr_usage_requests := 11, cr_usage_bytes := 0\<rparr>) BudgetRequests"

definition test_budget_bytes :: bool where
  "test_budget_bytes \<longleftrightarrow>
     denied (base_policy\<lparr>rp_quota_total_bytes := Some 100\<rparr>) base_bearer (base_request\<lparr>cr_usage_requests := 1, cr_usage_bytes := 101\<rparr>) BudgetBytes"

definition test_rate_limited :: bool where
  "test_rate_limited \<longleftrightarrow>
     denied (base_policy\<lparr>rp_rate_per_min := Some 5\<rparr>) base_bearer (base_request\<lparr>cr_rate_in_window := 5\<rparr>) RateLimited"

definition test_gate_absent :: bool where
  "test_gate_absent \<longleftrightarrow>
     denied_clock base_policy base_bearer base_request T_NOW T_BOOTTIME (Some T_NOW) T_FLOOR GateAbsent"

definition test_clock_rollback :: bool where
  "test_clock_rollback \<longleftrightarrow>
     denied_clock base_policy base_bearer base_request (T_FLOOR - 1) T_BOOTTIME None T_FLOOR ClockRollback"

definition test_budget_requests_independent :: bool where
  "test_budget_requests_independent \<longleftrightarrow>
     denied (base_policy\<lparr>rp_quota_total_requests := Some 10, rp_quota_total_bytes := Some (- 1)\<rparr>) base_bearer (base_request\<lparr>cr_usage_requests := 11, cr_usage_bytes := - 2\<rparr>) BudgetRequests"

definition test_rollback_within_window :: bool where
  "test_rollback_within_window \<longleftrightarrow>
     (let boottime_30m = vb_issued_boottime_ms base_bearer + 30 * 60 * 1000;
          wall_rewound = T_ISSUED + 1000 in
      denied_clock base_policy base_bearer base_request wall_rewound boottime_30m None T_FLOOR ClockRollback)"

definition test_expired_by_monotonic :: bool where
  "test_expired_by_monotonic \<longleftrightarrow>
     (let ttl_ms = vb_expires_at_ms base_bearer - vb_issued_at_ms base_bearer;
          boottime_past_ttl = vb_issued_boottime_ms base_bearer + ttl_ms + 1;
          wall_live = vb_issued_at_ms base_bearer + 1 in
      denied_clock base_policy base_bearer base_request wall_live boottime_past_ttl None T_FLOOR BearerExpired)"

definition test_glob_path_matches :: bool where
  "test_glob_path_matches \<longleftrightarrow>
     decide_at_now (base_policy\<lparr>rp_path_allow := [''/v1/*'']\<rparr>) base_bearer base_request = Allow"

definition test_remote_baseline_allows :: bool where
  "test_remote_baseline_allows \<longleftrightarrow>
     decide_at_now base_policy remote_bearer remote_request = Allow"

definition test_cross_kind_remote_bearer :: bool where
  "test_cross_kind_remote_bearer \<longleftrightarrow>
     denied base_policy remote_bearer base_request CrossKindPresentation"

definition test_cross_kind_local_bearer :: bool where
  "test_cross_kind_local_bearer \<longleftrightarrow>
     denied base_policy base_bearer remote_request CrossKindPresentation"

definition test_remote_no_dpop :: bool where
  "test_remote_no_dpop \<longleftrightarrow>
     denied base_policy remote_bearer (remote_request\<lparr>cr_remote := map_option (\<lambda>rp. rp\<lparr>pe_dpop_verified := False\<rparr>) (cr_remote remote_request)\<rparr>) RemoteNoDPoP"

definition test_remote_client_id_mismatch :: bool where
  "test_remote_client_id_mismatch \<longleftrightarrow>
     denied base_policy remote_bearer (remote_request\<lparr>cr_remote := map_option (\<lambda>rp. rp\<lparr>pe_client_id := ''laptop''\<rparr>) (cr_remote remote_request)\<rparr>) RemoteBindingMismatch"

definition test_remote_jkt_mismatch :: bool where
  "test_remote_jkt_mismatch \<longleftrightarrow>
     denied base_policy remote_bearer (remote_request\<lparr>cr_remote := map_option (\<lambda>rp. rp\<lparr>pe_dpop_jkt := JKT_B\<rparr>) (cr_remote remote_request)\<rparr>) RemoteBindingMismatch"

definition test_remote_baseline_checks :: bool where
  "test_remote_baseline_checks \<longleftrightarrow>
     denied base_policy remote_bearer (remote_request\<lparr>cr_host := ''evil.example'', cr_sni := Some ''evil.example''\<rparr>) HostNotAllowed"

definition test_remote_bearer_revoked :: bool where
  "test_remote_bearer_revoked \<longleftrightarrow>
     denied base_policy (remote_bearer\<lparr>vb_revoked := True\<rparr>) remote_request BearerRevoked"

section \<open>The model passes them\<close>

definition decide_tests :: bool where
  "decide_tests \<longleftrightarrow>
     test_baseline_allows
     \<and> test_disabled
     \<and> test_revoked
     \<and> test_bearer_revoked
     \<and> test_bearer_expired
     \<and> test_policy_expired
     \<and> test_host_not_allowed
     \<and> test_path_not_allowed
     \<and> test_method_not_allowed
     \<and> test_upstream_not_allowed
     \<and> test_peer_mismatch
     \<and> test_sni_host_mismatch
     \<and> test_budget_requests
     \<and> test_budget_bytes
     \<and> test_rate_limited
     \<and> test_gate_absent
     \<and> test_clock_rollback
     \<and> test_budget_requests_independent
     \<and> test_rollback_within_window
     \<and> test_expired_by_monotonic
     \<and> test_glob_path_matches
     \<and> test_remote_baseline_allows
     \<and> test_cross_kind_remote_bearer
     \<and> test_cross_kind_local_bearer
     \<and> test_remote_no_dpop
     \<and> test_remote_client_id_mismatch
     \<and> test_remote_jkt_mismatch
     \<and> test_remote_baseline_checks
     \<and> test_remote_bearer_revoked"

theorem decide_tests_pass: decide_tests
  unfolding decide_tests_def by (intro conjI; code_simp)

end
