(* ===== verification/TestsConfig.thy ===== *)
theory TestsConfig
  imports DaemonConfig
begin

text \<open>
  The unit tests of \<open>crates/secretd/src/config.rs\<close>, each a proposition that computes, and the proof that
  the model of the configuration passes all of them.
\<close>

definition text_contains :: "string \<Rightarrow> string \<Rightarrow> bool" where
  "text_contains s pat \<longleftrightarrow> split_once_str pat s \<noteq> None"

definition is_err :: "'a anyhow \<Rightarrow> bool" where
  "is_err r = (case r of Inl _ \<Rightarrow> True | Inr _ \<Rightarrow> False)"

text \<open>The text of an error is its outermost message.\<close>

definition err_contains :: "'a anyhow \<Rightarrow> string \<Rightarrow> bool" where
  "err_contains r pat = (case r of Inl (msg # _) \<Rightarrow> text_contains msg pat | _ \<Rightarrow> False)"

definition test_backend_parsing :: bool where
  "test_backend_parsing \<longleftrightarrow>
     parse_backend None = Inr InMem
     \<and> parse_backend (Some '''') = Inr InMem
     \<and> parse_backend (Some ''inmem'') = Inr InMem
     \<and> parse_backend (Some ''  InMem '') = Inr InMem
     \<and> parse_backend (Some ''memory'') = Inr InMem
     \<and> parse_backend (Some ''libsql'') = Inr LibSql
     \<and> parse_backend (Some '' LIBSQL '') = Inr LibSql
     \<and> is_err (parse_backend (Some ''postgres''))"

definition test_scheme_host_split :: bool where
  "test_scheme_host_split \<longleftrightarrow>
     split_scheme_host ''http://127.0.0.1:8080'' = Some (''http'', ''127.0.0.1'')
     \<and> split_scheme_host ''https://Db.Turso.IO/path?x=1'' = Some (''https'', ''db.turso.io'')
     \<and> split_scheme_host ''http://[::1]:8080/x'' = Some (''http'', ''::1'')
     \<and> split_scheme_host (''libsql://user:pw'' @ CHR 0x40 # ''host.example:443'') = Some (''libsql'', ''host.example'')
     \<and> split_scheme_host ''no-scheme'' = None"

definition test_loopback_detection :: bool where
  "test_loopback_detection \<longleftrightarrow>
     host_is_loopback ''127.0.0.1''
     \<and> host_is_loopback ''127.5.6.7''
     \<and> host_is_loopback ''localhost''
     \<and> host_is_loopback ''::1''
     \<and> \<not> host_is_loopback ''10.0.0.1''
     \<and> \<not> host_is_loopback ''db.turso.io''
     \<and> \<not> host_is_loopback ''0.0.0.0''"

definition test_url_acceptability :: bool where
  "test_url_acceptability \<longleftrightarrow>
     url_is_acceptable ''http://127.0.0.1:8080'' = Inr ()
     \<and> url_is_acceptable ''http://localhost:8080'' = Inr ()
     \<and> url_is_acceptable ''http://[::1]:8080'' = Inr ()
     \<and> url_is_acceptable ''ws://127.0.0.1:8080'' = Inr ()
     \<and> is_err (url_is_acceptable ''http://db.turso.io:8080'')
     \<and> is_err (url_is_acceptable ''ws://10.0.0.1:8080'')
     \<and> list_all (\<lambda>u. err_contains (url_is_acceptable u) ''terminator'' \<or> err_contains (url_is_acceptable u) ''second rustls'')
         [''https://db.turso.io'', ''wss://db.turso.io'', ''libsql://db.turso.io'']
     \<and> is_err (url_is_acceptable ''ftp://x'')
     \<and> is_err (url_is_acceptable ''noscheme'')"

definition test_resolve_inmem_default_ignores_libsql_fields :: bool where
  "test_resolve_inmem_default_ignores_libsql_fields \<longleftrightarrow>
     resolve None (Some ''http://db.turso.io'') None = Inr \<lparr>sc_backend = InMem, sc_url = None, sc_auth_token = ''''\<rparr>"

definition test_resolve_libsql_requires_url :: bool where
  "test_resolve_libsql_requires_url \<longleftrightarrow>
     is_err (resolve (Some ''libsql'') None None)
     \<and> is_err (resolve (Some ''libsql'') (Some ''   '') None)"

definition test_resolve_libsql_refuses_plaintext_remote :: bool where
  "test_resolve_libsql_refuses_plaintext_remote \<longleftrightarrow>
     err_contains (resolve (Some ''libsql'') (Some ''http://db.turso.io:8080'') (Some ''tok'')) ''non-loopback''"

definition test_resolve_libsql_rejects_direct_tls :: bool where
  "test_resolve_libsql_rejects_direct_tls \<longleftrightarrow>
     (let err = resolve (Some ''libsql'') (Some ''https://db.turso.io'') (Some ''tok'') in
        err_contains err ''terminator'' \<or> err_contains err ''second rustls'')"

definition test_resolve_libsql_loopback_with_token_ok :: bool where
  "test_resolve_libsql_loopback_with_token_ok \<longleftrightarrow>
     resolve (Some ''libsql'') (Some ''http://127.0.0.1:8080'') (Some ''tok'')
       = Inr \<lparr>sc_backend = LibSql, sc_url = Some ''http://127.0.0.1:8080'', sc_auth_token = ''tok''\<rparr>"

definition test_resolve_libsql_loopback_allows_empty_token :: bool where
  "test_resolve_libsql_loopback_allows_empty_token \<longleftrightarrow>
     resolve (Some ''libsql'') (Some ''http://127.0.0.1:8080'') None
       = Inr \<lparr>sc_backend = LibSql, sc_url = Some ''http://127.0.0.1:8080'', sc_auth_token = ''''\<rparr>"

definition test_debug_redacts_token :: bool where
  "test_debug_redacts_token \<longleftrightarrow>
     (case resolve (Some ''libsql'') (Some ''http://127.0.0.1:8080'') (Some ''super-secret'') of
        Inl _ \<Rightarrow> False
      | Inr c \<Rightarrow> text_contains (store_config_debug c) ''<redacted>'' \<and> \<not> text_contains (store_config_debug c) ''super-secret'')"

definition config_tests :: bool where
  "config_tests \<longleftrightarrow>
     test_backend_parsing
     \<and> test_scheme_host_split
     \<and> test_loopback_detection
     \<and> test_url_acceptability
     \<and> test_resolve_inmem_default_ignores_libsql_fields
     \<and> test_resolve_libsql_requires_url
     \<and> test_resolve_libsql_refuses_plaintext_remote
     \<and> test_resolve_libsql_rejects_direct_tls
     \<and> test_resolve_libsql_loopback_with_token_ok
     \<and> test_resolve_libsql_loopback_allows_empty_token
     \<and> test_debug_redacts_token"

section \<open>The proof\<close>

text \<open>
  The IPv6 reader compares with 65536, which is large for evaluation in unary: these hosts are read by
  rewriting.
\<close>

lemma read_group:
  "read_groups (Suc n) i s =
     (case (if n > 0 then read_separator (CHR '':'') i read_ipv4_addr s else None) of
        Some (o4, r) \<Rightarrow> ([256 * o4 ! 0 + o4 ! 1, 256 * o4 ! 2 + o4 ! 3], True, r)
      | None \<Rightarrow> (case read_separator (CHR '':'') i (read_number 16 4 True 65536) s of
            None \<Rightarrow> ([], False, s)
          | Some (g, r) \<Rightarrow> (let (gs, v4, q) = read_groups n (Suc i) r in (g # gs, v4, q))))"
  by simp

lemma hex_groups:
  "read_number 16 4 True 65536 ''db.turso.io'' = Some (219, ''.turso.io'')"
  "read_number 16 4 True 65536 ''::1'' = None" "read_number 16 4 True 65536 ''1'' = Some (1, [])"
  by (simp_all add: read_number_def to_digit_def to_digit16_def digits_value_def)

lemma no_quads: "read_ipv4_addr ''db.turso.io'' = None" "read_ipv4_addr ''::1'' = None" "read_ipv4_addr ''1'' = None"
  by code_simp+

lemma name_is_no_ipv6: "parse_ipv6 ''db.turso.io'' = None"
proof -
  have "read_groups 7 1 ''.turso.io'' = ([], False, ''.turso.io'')"
    using read_group [of 6 1 "''.turso.io''"] by (simp add: read_separator_def read_given_char_def)
  then have "read_groups 8 0 ''db.turso.io'' = ([219], False, ''.turso.io'')"
    using read_group [of 7 0 "''db.turso.io''"] by (simp add: read_separator_def no_quads hex_groups)
  then show ?thesis
    by (simp add: parse_ipv6_def read_ipv6_addr_def read_given_char_def)
qed

lemma loopback_is_ipv6: "parse_ipv6 ''::1'' = Some [0, 0, 0, 0, 0, 0, 0, 1]"
proof -
  have "read_groups 8 0 ''::1'' = ([], False, ''::1'')"
    using read_group [of 7 0 "''::1''"] by (simp add: read_separator_def no_quads hex_groups)
  moreover have "read_groups 6 1 [] = ([], False, [])"
    using read_group [of 5 1 "[]"] by (simp add: read_separator_def read_given_char_def)
  then have "read_groups 7 0 ''1'' = ([1], False, [])"
    using read_group [of 6 0 "''1''"] by (simp add: read_separator_def no_quads hex_groups)
  ultimately show ?thesis
    by (simp add: parse_ipv6_def read_ipv6_addr_def read_given_char_def numeral_eq_Suc)
qed

lemma quads: "parse_ipv4 ''127.0.0.1'' = Some [127, 0, 0, 1]" "parse_ipv4 ''127.5.6.7'' = Some [127, 5, 6, 7]"
  "parse_ipv4 ''10.0.0.1'' = Some [10, 0, 0, 1]" "parse_ipv4 ''0.0.0.0'' = Some [0, 0, 0, 0]"
  "parse_ipv4 ''::1'' = None" "parse_ipv4 ''db.turso.io'' = None"
  by code_simp+

lemma hosts:
  "host_is_loopback ''127.0.0.1''" "host_is_loopback ''127.5.6.7''" "host_is_loopback ''localhost''"
  "host_is_loopback ''::1''" "\<not> host_is_loopback ''10.0.0.1''" "\<not> host_is_loopback ''db.turso.io''"
  "\<not> host_is_loopback ''0.0.0.0''"
  by (simp_all add: host_is_loopback_def ipv6_is_loopback_def quads loopback_is_ipv6 name_is_no_ipv6)

lemma urls:
  "split_scheme_host ''http://127.0.0.1:8080'' = Some (''http'', ''127.0.0.1'')"
  "split_scheme_host ''http://localhost:8080'' = Some (''http'', ''localhost'')"
  "split_scheme_host ''http://[::1]:8080'' = Some (''http'', ''::1'')"
  "split_scheme_host ''ws://127.0.0.1:8080'' = Some (''ws'', ''127.0.0.1'')"
  "split_scheme_host ''http://db.turso.io:8080'' = Some (''http'', ''db.turso.io'')"
  "split_scheme_host ''ws://10.0.0.1:8080'' = Some (''ws'', ''10.0.0.1'')"
  "split_scheme_host ''ftp://x'' = Some (''ftp'', ''x'')"
  by code_simp+

lemma test_loopback_detection_passes: test_loopback_detection
  by (simp add: test_loopback_detection_def hosts)

lemma test_url_acceptability_passes: test_url_acceptability
proof -
  have "list_all (\<lambda>u. err_contains (url_is_acceptable u) ''terminator'' \<or> err_contains (url_is_acceptable u) ''second rustls'')
      [''https://db.turso.io'', ''wss://db.turso.io'', ''libsql://db.turso.io'']"
    "is_err (url_is_acceptable ''noscheme'')"
    by code_simp+
  then show ?thesis
    by (simp add: test_url_acceptability_def url_is_acceptable_def is_err_def bail_def urls hosts)
qed

lemma test_resolve_libsql_refuses_plaintext_remote_passes: test_resolve_libsql_refuses_plaintext_remote
proof -
  have "\<not> blank ''http://db.turso.io:8080''" "parse_backend (Some ''libsql'') = Inr LibSql"
    "text_contains (''plaintext libSQL url to non-loopback host '' @ debug_str ''db.turso.io''
       @ '' is refused (FS-S7); point secretd at a LOOPBACK sqld (http://127.0.0.1:<port>)'') ''non-loopback''"
    by code_simp+
  then show ?thesis
    by (simp add: test_resolve_libsql_refuses_plaintext_remote_def resolve_def url_is_acceptable_def bail_def err_contains_def
      urls hosts)
qed

theorem config_tests_pass: config_tests
  unfolding config_tests_def
  by (intro conjI test_loopback_detection_passes test_url_acceptability_passes test_resolve_libsql_refuses_plaintext_remote_passes; code_simp)

end
