(* ===== verification/TestsKeyslot.thy ===== *)
theory TestsKeyslot
  imports Keyslot
begin

text \<open>
  The unit tests of \<open>crates/secrets-engine/src/keyslot.rs\<close>. A test is a proposition over the
  cryptographic crates and the nonces the generator draws. What it expects of the encodings and of the
  rules of the code is proved for every such choice; where it expects the crates not to collide or to
  authenticate, that is a hypothesis on the values of the test, or the test is run on the concrete
  instance of \<open>External\<close>.
\<close>

section \<open>Fixtures\<close>

definition slot_7 :: keyslot where
  "slot_7 = \<lparr>ks_id = 7, ks_factor = Passphrase, ks_label = ''primary'', ks_kdf = Argon2id default_argon2_params,
     ks_salt = replicate 16 0x11, ks_usb_partition_uuid = None, ks_wrap_nonce = [], ks_wrapped_dek = [],
     ks_dek_generation = 1, ks_enabled = True\<rparr>"

definition slot_8 :: keyslot where
  "slot_8 = \<lparr>ks_id = 8, ks_factor = Usb, ks_label = ''yubi'', ks_kdf = HkdfSha256,
     ks_salt = replicate 32 0x22, ks_usb_partition_uuid = Some ''1234-ABCD'', ks_wrap_nonce = [],
     ks_wrapped_dek = [], ks_dek_generation = 1, ks_enabled = True\<rparr>"

definition fixed_dek :: dek where "fixed_dek = replicate 32 0xAB"
definition fixed_kek :: kek where "fixed_kek = replicate 32 0xCD"

text \<open>\<open>xs[0] ^= 0x01\<close>.\<close>

definition flip_first :: "bytes \<Rightarrow> bytes" where
  "flip_first xs = xs[0 := xor (xs ! 0) 1]"

section \<open>Wrapping\<close>

definition test_wrap_then_unwrap_round_trips :: "crypto \<Rightarrow> bytes \<Rightarrow> bool" where
  "test_wrap_then_unwrap_round_trips cr drawn \<longleftrightarrow>
     (let aad = keyslot_aad slot_7;
          (nonce, wrapped) = wrap_dek cr drawn fixed_kek fixed_dek aad in
      length nonce = 24 \<and> length wrapped = 48
      \<and> unwrap_dek cr fixed_kek nonce wrapped aad = Some fixed_dek)"

definition test_distinct_wraps_use_distinct_nonces :: "crypto \<Rightarrow> bytes \<Rightarrow> bytes \<Rightarrow> bool" where
  "test_distinct_wraps_use_distinct_nonces cr drawn1 drawn2 \<longleftrightarrow>
     (let aad = keyslot_aad slot_7;
          (n1, c1) = wrap_dek cr drawn1 fixed_kek fixed_dek aad;
          (n2, c2) = wrap_dek cr drawn2 fixed_kek fixed_dek aad in
      n1 \<noteq> n2 \<and> c1 \<noteq> c2)"

definition test_unwrap_with_wrong_kek_returns_none :: "crypto \<Rightarrow> bytes \<Rightarrow> bool" where
  "test_unwrap_with_wrong_kek_returns_none cr drawn \<longleftrightarrow>
     (let aad = keyslot_aad slot_7;
          (nonce, wrapped) = wrap_dek cr drawn fixed_kek fixed_dek aad in
      unwrap_dek cr (replicate 32 0) nonce wrapped aad = None)"

definition test_tampered_aad_returns_none :: "crypto \<Rightarrow> bytes \<Rightarrow> bool" where
  "test_tampered_aad_returns_none cr drawn \<longleftrightarrow>
     (let aad = keyslot_aad slot_7;
          (nonce, wrapped) = wrap_dek cr drawn fixed_kek fixed_dek aad;
          aad2 = keyslot_aad (slot_7\<lparr>ks_id := 9\<rparr>) in
      aad \<noteq> aad2 \<and> unwrap_dek cr fixed_kek nonce wrapped aad2 = None
      \<and> unwrap_dek cr fixed_kek nonce wrapped (flip_first aad) = None)"

definition test_tampered_ciphertext_and_nonce_return_none :: "crypto \<Rightarrow> bytes \<Rightarrow> bool" where
  "test_tampered_ciphertext_and_nonce_return_none cr drawn \<longleftrightarrow>
     (let aad = keyslot_aad slot_7;
          (nonce, wrapped) = wrap_dek cr drawn fixed_kek fixed_dek aad in
      unwrap_dek cr fixed_kek nonce (flip_first wrapped) aad = None
      \<and> unwrap_dek cr fixed_kek (flip_first nonce) wrapped aad = None
      \<and> unwrap_dek cr fixed_kek (take 23 nonce) wrapped aad = None)"

section \<open>Key derivation\<close>

definition test_usb_kek_is_deterministic_and_domain_separated :: "crypto \<Rightarrow> bool" where
  "test_usb_kek_is_deterministic_and_domain_separated cr \<longleftrightarrow>
     (let keyfile = replicate 64 0x42;
          a = kek_from_usb cr keyfile (replicate 32 1);
          b = kek_from_usb cr keyfile (replicate 32 1);
          c = kek_from_usb cr keyfile (replicate 32 2) in
      a = b \<and> a \<noteq> c)"

definition test_usb_kek_known_answer :: "crypto \<Rightarrow> bool" where
  "test_usb_kek_known_answer cr \<longleftrightarrow>
     (let expected = hkdf_sha256 cr (replicate 32 0) (replicate 32 0) (str_bytes ''env-ctl/v1/kek/usb'') in
      kek_from_usb cr (replicate 32 0) (replicate 32 0) = expected)"

definition test_argon2_below_floor_is_rejected :: "crypto \<Rightarrow> bool" where
  "test_argon2_below_floor_is_rejected cr \<longleftrightarrow>
     (let weak = \<lparr>ap_m_kib = ARGON2_M_KIB_FLOOR - 1, ap_t_cost = 1, ap_p_lanes = 1\<rparr> in
      kek_from_passphrase cr (str_bytes ''correct horse battery staple'') (replicate 16 7) weak = None)"

definition test_argon2_at_floor_round_trips_through_wrap :: "crypto \<Rightarrow> bytes \<Rightarrow> bool" where
  "test_argon2_at_floor_round_trips_through_wrap cr drawn \<longleftrightarrow>
     (let pp = str_bytes ''correct horse battery staple'';
          salt = replicate 16 7;
          params = \<lparr>ap_m_kib = ARGON2_M_KIB_FLOOR, ap_t_cost = ARGON2_T_COST_FLOOR, ap_p_lanes = 1\<rparr>;
          aad = keyslot_aad (slot_7\<lparr>ks_kdf := Argon2id params, ks_salt := salt\<rparr>) in
      case kek_from_passphrase cr pp salt params of
        None \<Rightarrow> False
      | Some kek1 \<Rightarrow>
          (let (nonce, wrapped) = wrap_dek cr drawn kek1 fixed_dek aad in
           (case kek_from_passphrase cr pp salt params of
              None \<Rightarrow> False
            | Some kek2 \<Rightarrow> unwrap_dek cr kek2 nonce wrapped aad = Some fixed_dek)
           \<and> (case kek_from_passphrase cr (str_bytes ''wrong'') salt params of
                None \<Rightarrow> False
              | Some bad \<Rightarrow> unwrap_dek cr bad nonce wrapped aad = None)))"

section \<open>The header MAC and the associated data\<close>

definition test_header_mac_changes_when_slot_added_or_removed :: "crypto \<Rightarrow> bool" where
  "test_header_mac_changes_when_slot_added_or_removed cr \<longleftrightarrow>
     (let mac1 = header_mac cr fixed_dek [slot_7] 1700000000000;
          mac2 = header_mac cr fixed_dek [slot_7, slot_8] 1700000000000 in
      length mac1 = 32 \<and> mac1 \<noteq> mac2 \<and> mac1 = header_mac cr fixed_dek [slot_7] 1700000000000)"

definition test_header_mac_changes_on_floor_and_slot_mutation_and_reorder :: "crypto \<Rightarrow> bool" where
  "test_header_mac_changes_on_floor_and_slot_mutation_and_reorder cr \<longleftrightarrow>
     (let slots = [slot_7, slot_8];
          base = header_mac cr fixed_dek slots 1000 in
      base \<noteq> header_mac cr fixed_dek slots 999
      \<and> base \<noteq> header_mac cr fixed_dek [slot_7\<lparr>ks_label := ''renamed''\<rparr>, slot_8] 1000
      \<and> base \<noteq> header_mac cr fixed_dek [slots ! 1, slots ! 0] 1000
      \<and> base \<noteq> header_mac cr (replicate 32 1) slots 1000)"

definition test_aad_distinguishes_none_from_empty_uuid :: bool where
  "test_aad_distinguishes_none_from_empty_uuid \<longleftrightarrow>
     keyslot_aad (slot_8\<lparr>ks_usb_partition_uuid := None\<rparr>) \<noteq> keyslot_aad (slot_8\<lparr>ks_usb_partition_uuid := Some ''''\<rparr>)"

definition test_aad_distinguishes_salt_boundary_shifts :: bool where
  "test_aad_distinguishes_salt_boundary_shifts \<longleftrightarrow>
     keyslot_aad (slot_7\<lparr>ks_salt := [0xAA, 0xBB], ks_usb_partition_uuid := Some ''CC''\<rparr>)
     \<noteq> keyslot_aad (slot_7\<lparr>ks_salt := [0xAA], ks_usb_partition_uuid := Some ''BBCC''\<rparr>)"

definition test_aad_binds_argon2_params :: bool where
  "test_aad_binds_argon2_params \<longleftrightarrow>
     keyslot_aad (slot_7\<lparr>ks_kdf := Argon2id default_argon2_params\<rparr>)
     \<noteq> keyslot_aad (slot_7\<lparr>ks_kdf := Argon2id \<lparr>ap_m_kib = ARGON2_M_KIB_FLOOR, ap_t_cost = 4, ap_p_lanes = 4\<rparr>\<rparr>)"

section \<open>The tests pass\<close>

lemma fixed_lengths [simp]: "length fixed_dek = 32" "length fixed_kek = 32"
  by (simp_all add: fixed_dek_def fixed_kek_def)

theorem wrap_round_trip_passes:
  assumes "aead_inverts cr" "length drawn = 24" "length (aead_encrypt cr fixed_kek drawn (keyslot_aad slot_7) fixed_dek) = 48"
  shows "test_wrap_then_unwrap_round_trips cr drawn"
  using assms by (simp add: test_wrap_then_unwrap_round_trips_def wrap_dek_def unwrap_dek_def aead_invertsD)

theorem tampered_wrap_passes:
  assumes "aead_binds_aad cr" "aead_binds_key cr"
  shows "test_unwrap_with_wrong_kek_returns_none cr drawn" "test_tampered_aad_returns_none cr drawn"
proof -
  have "fixed_kek \<noteq> replicate 32 0" by (simp add: fixed_kek_def)
  then show "test_unwrap_with_wrong_kek_returns_none cr drawn"
    using assms(2) by (simp add: test_unwrap_with_wrong_kek_returns_none_def wrap_dek_def unwrap_dek_def aead_binds_key_def)
  have "keyslot_aad slot_7 \<noteq> keyslot_aad (slot_7\<lparr>ks_id := 9\<rparr>)" "keyslot_aad slot_7 \<noteq> flip_first (keyslot_aad slot_7)"
    by code_simp+
  then show "test_tampered_aad_returns_none cr drawn"
    using assms(1) by (simp add: test_tampered_aad_returns_none_def wrap_dek_def unwrap_dek_def aead_binds_aad_def)
qed

theorem derivation_passes: "test_usb_kek_known_answer cr" "test_argon2_below_floor_is_rejected cr"
  by (simp_all add: test_usb_kek_known_answer_def kek_from_usb_def USB_KEK_INFO_def
      test_argon2_below_floor_is_rejected_def kek_from_passphrase_def ARGON2_M_KIB_FLOOR_def)

theorem encoding_passes:
  "test_aad_distinguishes_none_from_empty_uuid" "test_aad_distinguishes_salt_boundary_shifts" "test_aad_binds_argon2_params"
  by code_simp+

theorem passphrase_wrap_passes:
  assumes "aead_inverts cr" "aead_binds_key cr" "argon2_total cr" "length drawn = 24"
    and no_collision: "inj_on (\<lambda>pw. argon2id cr pw (replicate 16 7) ARGON2_M_KIB_FLOOR ARGON2_T_COST_FLOOR 1)
      {str_bytes ''correct horse battery staple'', str_bytes ''wrong''}"
  shows "test_argon2_at_floor_round_trips_through_wrap cr drawn"
proof -
  let ?argon = "\<lambda>pw. argon2id cr pw (replicate 16 7) ARGON2_M_KIB_FLOOR ARGON2_T_COST_FLOOR 1"
  have "argon2_accepts ARGON2_M_KIB_FLOOR ARGON2_T_COST_FLOOR 1"
    by (simp add: argon2_accepts_def ARGON2_M_KIB_FLOOR_def ARGON2_T_COST_FLOOR_def)
  then have derives: "\<exists>k. ?argon pw = Some k \<and> length k = 32" for pw
    using assms(3) by (simp add: argon2_total_def)
  obtain k where k: "?argon (str_bytes ''correct horse battery staple'') = Some k" "length k = 32"
    using derives by blast
  obtain k' where k': "?argon (str_bytes ''wrong'') = Some k'" "length k' = 32"
    using derives by blast
  have "k \<noteq> k'"
    using no_collision k(1) k'(1) by (auto simp: inj_on_def)
  then show ?thesis
    using assms(1,2,4) k k'
    by (simp add: test_argon2_at_floor_round_trips_through_wrap_def Let_def kek_from_passphrase_def wrap_dek_def unwrap_dek_def
      aead_invertsD aead_binds_key_def)
qed

lemma slots_bounded:
  "slot_bounded slot_7" "slot_bounded slot_8" "slot_bounded (slot_7\<lparr>ks_label := ''renamed''\<rparr>)"
  by (simp_all add: slot_bounded_def slot_7_def slot_8_def keyslot_aad_def len_prefixed_def KEYSLOT_AAD_DOMAIN_def)

lemma header_messages:
  "header_mac_message [slot_7] f \<noteq> header_mac_message [slot_7, slot_8] f"
  "header_mac_message [slot_7, slot_8] 1000 \<noteq> header_mac_message [slot_7, slot_8] 999"
  "header_mac_message [slot_7, slot_8] f \<noteq> header_mac_message [slot_7\<lparr>ks_label := ''renamed''\<rparr>, slot_8] f"
  "header_mac_message [slot_7, slot_8] f \<noteq> header_mac_message [slot_8, slot_7] f"
  by (auto dest!: header_mac_message_inj [rotated -1] simp: slots_bounded) (simp_all add: slot_7_def slot_8_def)

theorem header_mac_passes:
  assumes "digests_32 cr"
    and no_collision: "inj_on (\<lambda>(k, m). blake3_keyed_hash cr k m)
      (blake3_derive_key cr HEADER_MAC_KEY_INFO ` {fixed_dek, replicate 32 1}
       \<times> (\<lambda>(slots, floor). header_mac_message slots floor) `
          {([slot_7], 1700000000000), ([slot_7, slot_8], 1700000000000), ([slot_7, slot_8], 1000), ([slot_7, slot_8], 999),
           ([slot_7\<lparr>ks_label := ''renamed''\<rparr>, slot_8], 1000), ([slot_8, slot_7], 1000)})"
    and keys: "inj_on (blake3_derive_key cr HEADER_MAC_KEY_INFO) {fixed_dek, replicate 32 1}"
  shows "test_header_mac_changes_when_slot_added_or_removed cr"
    "test_header_mac_changes_on_floor_and_slot_mutation_and_reorder cr"
proof -
  note hash = inj_on_eq_iff [OF no_collision, of "(_, _)" "(_, _)", simplified]
  have "fixed_dek \<noteq> replicate 32 1"
    by (simp add: fixed_dek_def)
  then have other: "blake3_derive_key cr HEADER_MAC_KEY_INFO fixed_dek \<noteq> blake3_derive_key cr HEADER_MAC_KEY_INFO (replicate 32 1)"
    using inj_onD [OF keys] by blast
  show "test_header_mac_changes_when_slot_added_or_removed cr"
    using header_messages(1) assms(1)
    by (simp add: test_header_mac_changes_when_slot_added_or_removed_def header_mac_def hash digests_32D)
  show "test_header_mac_changes_on_floor_and_slot_mutation_and_reorder cr"
    using header_messages(2-) other
    by (simp add: test_header_mac_changes_on_floor_and_slot_mutation_and_reorder_def header_mac_def hash)
qed

text \<open>
  Run on the instance: fresh nonces give fresh ciphertexts, a changed ciphertext or nonce is refused, and the
  salt changes the key.
\<close>

lemma toy_open_flipped: "h \<noteq> [] \<Longrightarrow> toy_open h (flip_first (h @ m)) = None"
proof (cases h)
  case (Cons b bs)
  then show ?thesis
    by (auto simp: toy_open_def flip_first_def dest: arg_cong [of _ _ "xor b"])
qed simp

lemma toy_open_other_nonce: "n \<noteq> n' \<Longrightarrow> toy_open (toy_header k n a) (toy_header k n' a @ m) = None"
  using toy_open_other [of k n a k n' a m] by blast

lemma toy_mix_fold_inj: "foldl toy_mix h m = foldl toy_mix h' m \<longleftrightarrow> h = h'"
  by (induction m arbitrary: h h') (simp_all add: toy_mix_eq_iff)

lemma replicate_32: "replicate 32 x = [x, x, x, x, x, x, x, x, x, x, x, x, x, x, x, x, x, x, x, x, x, x, x, x, x, x, x, x, x, x, x, x]"
  by (simp add: numeral_eq_Suc)

theorem instance_passes:
  "test_distinct_wraps_use_distinct_nonces toy_crypto (replicate 24 1) (replicate 24 2)"
  "test_tampered_ciphertext_and_nonce_return_none toy_crypto (replicate 24 1)"
  "test_usb_kek_is_deterministic_and_domain_separated toy_crypto"
proof -
  have "replicate 24 (1::byte) \<noteq> replicate 24 2" by simp
  then show "test_distinct_wraps_use_distinct_nonces toy_crypto (replicate 24 1) (replicate 24 2)"
    by (simp add: test_distinct_wraps_use_distinct_nonces_def wrap_dek_def toy_crypto_def toy_header_def
      escape_code.append_eq_iff escape_code.eq_iff)
  have "flip_first (replicate 24 1) \<noteq> replicate 24 (1::byte)" "toy_header fixed_kek (replicate 24 1) a \<noteq> []" for a
    by (simp_all add: flip_first_def toy_header_def fixed_kek_def numeral_eq_Suc)
  then show "test_tampered_ciphertext_and_nonce_return_none toy_crypto (replicate 24 1)"
    by (simp add: test_tampered_ciphertext_and_nonce_return_none_def wrap_dek_def unwrap_dek_def toy_crypto_def
      toy_open_flipped toy_open_other_nonce)
  show "test_usb_kek_is_deterministic_and_domain_separated toy_crypto"
    by (simp add: test_usb_kek_is_deterministic_and_domain_separated_def kek_from_usb_def toy_crypto_def toy_digest_def
      toy_seed_def Let_def codec toy_mix_fold_inj) (simp add: replicate_32 toy_mix_def)
qed

end
