(* ===== verification/TestsVault.thy ===== *)
theory TestsVault
  imports Sealing AuditLog
begin

text \<open>
  The unit tests of \<open>crates/secrets-engine/src/vault/aad.rs\<close> and \<open>vault/audit.rs\<close>, as propositions over the
  hash and the JSON serialiser; a test that expects the hash not to collide has that on its own values as a
  hypothesis of its theorem.
\<close>

section \<open>\<open>aad.rs\<close>\<close>

definition test_golden_bytes_exact_layout :: bool where
  "test_golden_bytes_exact_layout \<longleftrightarrow>
     (let aad = record_aad HmacKey 1 0x0102 0xFF;
          expected = str_bytes ''env-ctl/v1/aad'' @ [0x04] @ [0, 0, 0, 0, 0, 0, 0, 0x01]
            @ [0, 0, 0, 0, 0, 0, 0x01, 0x02] @ [0, 0, 0, 0, 0, 0, 0, 0xFF] in
      aad = expected \<and> length aad = 39 \<and> length aad = AAD_LEN)"

definition test_prefix_and_tag_position :: bool where
  "test_prefix_and_tag_position \<longleftrightarrow>
     list_all (\<lambda>(tag, disc).
         let aad = record_aad tag 0 0 0 in
         take (length AAD_DOMAIN) aad = AAD_DOMAIN \<and> aad ! length AAD_DOMAIN = disc \<and> length aad = AAD_LEN)
       [(SecretVersion, 1), (CaKey, 2), (Cert, 3), (HmacKey, 4)]"

definition tag_for :: "nat \<Rightarrow> table_tag" where
  "tag_for idx = (if idx = 0 then SecretVersion else if idx = 1 then CaKey else if idx = 2 then Cert else HmacKey)"

definition aad_scalars :: "i64 list" where
  "aad_scalars = [0, 1, 2, 0x0100, 0x00010000, 0x7FFFFFFFFFFFFFFE, 0x7FFFFFFFFFFFFFFF]"

text \<open>The set of the test refuses a value it has: all of them are distinct, and there are as many as tuples.\<close>

definition test_distinct_tuples_never_collide :: bool where
  "test_distinct_tuples_never_collide \<longleftrightarrow>
     (let aads = [record_aad (tag_for ti) row ver gen_nr. ti \<leftarrow> [0..<4], row \<leftarrow> aad_scalars, ver \<leftarrow> aad_scalars,
            gen_nr \<leftarrow> aad_scalars] in
      distinct aads \<and> length aads = 4 * 7 * 7 * 7 \<and> card (set aads) = length aads)"

definition test_fields_are_not_aliased :: bool where
  "test_fields_are_not_aliased \<longleftrightarrow>
     (let row_set = record_aad SecretVersion 5 0 0;
          ver_set = record_aad SecretVersion 0 5 0;
          gen_set = record_aad SecretVersion 0 0 5;
          as_cert = record_aad Cert 5 0 0 in
      row_set \<noteq> ver_set \<and> row_set \<noteq> gen_set \<and> ver_set \<noteq> gen_set \<and> row_set \<noteq> as_cert)"

lemma tag_for_inj: "i < 4 \<Longrightarrow> j < 4 \<Longrightarrow> tag_for i = tag_for j \<Longrightarrow> i = j"
  by (auto simp: tag_for_def split: if_splits)

lemma scalars_distinct: "distinct aad_scalars"
  by (simp add: aad_scalars_def)

lemma aads_product:
  "[f ti row ver g. ti \<leftarrow> ts, row \<leftarrow> xs, ver \<leftarrow> ys, g \<leftarrow> zs]
   = map (\<lambda>(ti, row, ver, g). f ti row ver g) (List.product ts (List.product xs (List.product ys zs)))"
  by (simp add: product_concat_map map_concat o_def)

lemma be_bytes_numeral: "be_bytes (numeral k) w = be_bytes (pred_numeral k) (drop_bit 8 w) @ [ucast w]"
  by (simp add: numeral_eq_Suc)

lemma numbers: "be64 (1::i64) = [0, 0, 0, 0, 0, 0, 0, 1]" "be64 (0x102::i64) = [0, 0, 0, 0, 0, 0, 1, 2]"
  "be64 (255::i64) = [0, 0, 0, 0, 0, 0, 0, 255]"
  by (simp_all add: be64_def be_bytes_numeral)

theorem aad_tests_pass:
  "test_golden_bytes_exact_layout" "test_prefix_and_tag_position" "test_distinct_tuples_never_collide"
  "test_fields_are_not_aliased"
proof -
  show "test_golden_bytes_exact_layout"
    by (simp add: test_golden_bytes_exact_layout_def record_aad_def AAD_LEN_def AAD_DOMAIN_def numbers)
  show "test_prefix_and_tag_position"
    by (simp add: test_prefix_and_tag_position_def record_aad_def AAD_LEN_def)
  show "test_fields_are_not_aliased"
    by (simp add: test_fields_are_not_aliased_def record_aad_eq_iff)
  define tuples where "tuples = List.product [0..<4] (List.product aad_scalars (List.product aad_scalars aad_scalars))"
  have "distinct (map (\<lambda>(ti, row, ver, g). record_aad (tag_for ti) row ver g) tuples)"
    by (auto simp: tuples_def distinct_map distinct_product scalars_distinct inj_on_def record_aad_eq_iff tag_for_inj)
  moreover have "length tuples = 4 * 7 * 7 * 7"
    by (simp add: tuples_def aad_scalars_def)
  ultimately show "test_distinct_tuples_never_collide"
    unfolding test_distinct_tuples_never_collide_def Let_def aads_product tuples_def [symmetric]
    by (simp only: distinct_card length_map)
qed

section \<open>\<open>audit.rs\<close>\<close>

definition unsealed :: "string \<Rightarrow> json \<Rightarrow> audit_record" where
  "unsealed event detail = new_row ''2026-06-02T00:00:00Z'' (Some 1000) event (Some ''claude'') detail Ok"

definition numbered :: "nat \<Rightarrow> json" where
  "numbered i = JObj [(''i'', JInt (int i))]"

text \<open>\<open>build_chain\<close> of the tests: the loop of \<open>AuditLog.build_chain\<close> over numbered rows.\<close>

definition numbered_chain :: "crypto \<Rightarrow> nat \<Rightarrow> audit_record list" where
  "numbered_chain cr n = foldl (\<lambda>rows i. append_row cr rows (unsealed ''vault_unlocked'' (numbered i))) [] [0..<n]"

definition test_linked_chain_verifies :: "crypto \<Rightarrow> bool" where
  "test_linked_chain_verifies cr \<longleftrightarrow>
     (let rows = numbered_chain cr 5 in
      ar_seq (rows ! 0) = 1 \<and> ar_prev_hash (rows ! 0) = genesis_hash cr
      \<and> list_all (\<lambda>(w0, w1). ar_prev_hash w1 = ar_row_hash w0 \<and> ar_seq w1 = ar_seq w0 + 1) (zip rows (tl rows))
      \<and> verify_chain cr rows = Inr ())"

definition test_genesis_is_stable_and_nonzero :: "crypto \<Rightarrow> bool" where
  "test_genesis_is_stable_and_nonzero cr \<longleftrightarrow>
     (let g = genesis_hash cr in g = genesis_hash cr \<and> g \<noteq> replicate 32 0)"

definition test_empty_chain_verifies :: "crypto \<Rightarrow> bool" where
  "test_empty_chain_verifies cr \<longleftrightarrow> verify_chain cr [] = Inr ()"

definition test_field_flip_breaks_chain_at_that_seq :: "crypto \<Rightarrow> bool" where
  "test_field_flip_breaks_chain_at_that_seq cr \<longleftrightarrow>
     (let rows = numbered_chain cr 4 in
      verify_chain cr (rows[2 := (rows ! 2)\<lparr>ar_subject := Some ''tampered''\<rparr>]) = Inl 3
      \<and> verify_chain cr (rows[1 := (rows ! 1)\<lparr>ar_detail := numbered 999\<rparr>]) = Inl 2
      \<and> verify_chain cr (rows[3 := (rows ! 3)\<lparr>ar_outcome := Failed\<rparr>]) = Inl 4)"

definition test_reorder_breaks_chain :: "crypto \<Rightarrow> bool" where
  "test_reorder_breaks_chain cr \<longleftrightarrow>
     (let rows = numbered_chain cr 4 in verify_chain cr (rows[1 := rows ! 2, 2 := rows ! 1]) \<noteq> Inr ())"

definition test_delete_breaks_chain :: "crypto \<Rightarrow> bool" where
  "test_delete_breaks_chain cr \<longleftrightarrow>
     (let rows = numbered_chain cr 4 in verify_chain cr (take 1 rows @ drop 2 rows) = Inl 3)"

definition test_insert_breaks_chain :: "crypto \<Rightarrow> bool" where
  "test_insert_breaks_chain cr \<longleftrightarrow>
     (let rows = numbered_chain cr 3; forged = link_row cr (Some (rows ! 0)) (unsealed ''forged'' (JObj [])) in
      verify_chain cr (take 1 rows @ [forged] @ drop 1 rows) \<noteq> Inr ())"

definition test_canonical_row_distinguishes_none_from_present_subject :: "crypto \<Rightarrow> bool" where
  "test_canonical_row_distinguishes_none_from_present_subject cr \<longleftrightarrow>
     canonical_row cr ((unsealed ''e'' (JObj []))\<lparr>ar_subject := None\<rparr>)
     \<noteq> canonical_row cr ((unsealed ''e'' (JObj []))\<lparr>ar_subject := Some ''''\<rparr>)"

definition test_canonical_row_distinguishes_none_from_present_actor :: "crypto \<Rightarrow> bool" where
  "test_canonical_row_distinguishes_none_from_present_actor cr \<longleftrightarrow>
     canonical_row cr ((unsealed ''e'' (JObj []))\<lparr>ar_actor_uid := None\<rparr>)
     \<noteq> canonical_row cr ((unsealed ''e'' (JObj []))\<lparr>ar_actor_uid := Some 0\<rparr>)"

definition test_row_hash_depends_on_prev_hash :: "crypto \<Rightarrow> bool" where
  "test_row_hash_depends_on_prev_hash cr \<longleftrightarrow>
     (let rec = unsealed ''e'' (JObj []) in
      row_hash cr (genesis_hash cr) rec \<noteq> row_hash cr (replicate 32 0xAB) rec)"

lemma numbered_chain_Suc:
  "numbered_chain cr (Suc n) = append_row cr (numbered_chain cr n) (unsealed ''vault_unlocked'' (numbered n))"
  by (simp add: numbered_chain_def)

lemma numbered_chain_0: "numbered_chain cr 0 = []"
  by (simp add: numbered_chain_def)

lemma numbered_chain_ok: "verify_chain cr (numbered_chain cr n) = Inr ()"
  by (induction n) (simp_all add: numbered_chain_0 numbered_chain_Suc verify_append_row)

text \<open>The rows of a chain by name, so that only what a test looks at is unfolded.\<close>

definition is_numbered :: "crypto \<Rightarrow> audit_record option \<Rightarrow> nat \<Rightarrow> audit_record \<Rightarrow> bool" where
  "is_numbered cr prev i r \<longleftrightarrow> r = link_row cr prev (unsealed ''vault_unlocked'' (numbered i))"

lemma is_numbered_fields:
  assumes "is_numbered cr prev i r"
  shows "ar_seq r = (case prev of Some p \<Rightarrow> ar_seq p | None \<Rightarrow> 0) + 1"
    "ar_prev_hash r = (case prev of Some p \<Rightarrow> ar_row_hash p | None \<Rightarrow> genesis_hash cr)"
    "ar_row_hash r = row_hash cr (ar_prev_hash r) r"
    "ar_ts r = ''2026-06-02T00:00:00Z''" "ar_event_type r = ''vault_unlocked''" "ar_subject r = Some ''claude''"
    "ar_detail r = numbered i" "ar_outcome r = Ok"
  using assms unfolding is_numbered_def by (simp_all only: link_row_fields) (simp_all add: unsealed_def new_row_def)

lemma numbered_chain_5:
  obtains r1 r2 r3 r4 r5 where "numbered_chain cr 3 = [r1, r2, r3]" "numbered_chain cr 4 = [r1, r2, r3, r4]"
    "numbered_chain cr 5 = [r1, r2, r3, r4, r5]" "is_numbered cr None 0 r1" "is_numbered cr (Some r1) 1 r2"
    "is_numbered cr (Some r2) 2 r3" "is_numbered cr (Some r3) 3 r4" "is_numbered cr (Some r4) 4 r5"
proof -
  define rec where "rec i = unsealed ''vault_unlocked'' (numbered i)" for i
  define r1 where "r1 = link_row cr None (rec 0)"
  define r2 where "r2 = link_row cr (Some r1) (rec 1)"
  define r3 where "r3 = link_row cr (Some r2) (rec 2)"
  define r4 where "r4 = link_row cr (Some r3) (rec 3)"
  define r5 where "r5 = link_row cr (Some r4) (rec 4)"
  have "numbered_chain cr 3 = [r1, r2, r3]" "numbered_chain cr 4 = [r1, r2, r3, r4]"
    "numbered_chain cr 5 = [r1, r2, r3, r4, r5]"
    by (simp_all add: eval_nat_numeral numbered_chain_Suc numbered_chain_0 append_row_def last_row_def r1_def r2_def r3_def
      r4_def r5_def rec_def)
  then show ?thesis
    by (rule that) (simp_all add: is_numbered_def r1_def r2_def r3_def r4_def r5_def rec_def)
qed

theorem chain_tests_pass:
  "test_linked_chain_verifies cr" "test_empty_chain_verifies cr" "test_reorder_breaks_chain cr"
  "test_delete_breaks_chain cr" "test_insert_breaks_chain cr"
proof -
  obtain r1 r2 r3 r4 r5 where chains: "numbered_chain cr 3 = [r1, r2, r3]" "numbered_chain cr 4 = [r1, r2, r3, r4]"
      "numbered_chain cr 5 = [r1, r2, r3, r4, r5]"
    and rows: "is_numbered cr None 0 r1" "is_numbered cr (Some r1) 1 r2" "is_numbered cr (Some r2) 2 r3"
      "is_numbered cr (Some r3) 3 r4" "is_numbered cr (Some r4) 4 r5"
    by (rule numbered_chain_5)
  note seqs = rows [THEN is_numbered_fields(1)] and links = rows [THEN is_numbered_fields(2)]
    and hashes = rows [THEN is_numbered_fields(3)]
  show "test_linked_chain_verifies cr"
    using numbered_chain_ok [of cr 5] by (simp add: test_linked_chain_verifies_def chains seqs links)
  show "test_empty_chain_verifies cr"
    by (simp add: test_empty_chain_verifies_def)
  show "test_reorder_breaks_chain cr" "test_delete_breaks_chain cr"
    by (simp_all add: test_reorder_breaks_chain_def test_delete_breaks_chain_def chains verify_chain_def seqs links hashes)
  show "test_insert_breaks_chain cr"
    by (simp add: test_insert_breaks_chain_def chains verify_chain_def seqs links hashes link_row_fields)
qed

text \<open>
  The encoding keeps absent and present apart; the last test rests on the two hashes being apart, and on the
  hash not colliding on the two inputs.
\<close>

theorem row_tests_pass:
  assumes "length (json_to_vec cr (JObj [])) < 4294967296" "digests_32 cr"
    and no_collision: "inj_on (blake3_hash cr)
      ((\<lambda>prev. prev @ canonical_row cr (unsealed ''e'' (JObj []))) ` {genesis_hash cr, replicate 32 0xAB})"
    and genesis: "genesis_hash cr \<noteq> replicate 32 0xAB"
  shows "test_canonical_row_distinguishes_none_from_present_subject cr"
    "test_canonical_row_distinguishes_none_from_present_actor cr" "test_row_hash_depends_on_prev_hash cr"
proof -
  have bounded: "row_bounded cr (unsealed ''e'' (JObj []) \<lparr>ar_subject := su, ar_actor_uid := ac\<rparr>)"
    if "su = None \<or> su = Some [] \<or> su = Some ''claude''" for su ac
    using that assms(1) by (auto simp: row_bounded_def unsealed_def new_row_def)
  show "test_canonical_row_distinguishes_none_from_present_subject cr"
    using bounded [of None "Some 1000"] bounded [of "Some []" "Some 1000"]
    by (simp add: test_canonical_row_distinguishes_none_from_present_subject_def canonical_row_eq_iff row_content_def
      unsealed_def new_row_def)
  show "test_canonical_row_distinguishes_none_from_present_actor cr"
    using bounded [of "Some ''claude''" None] bounded [of "Some ''claude''" "Some 0"]
    by (simp add: test_canonical_row_distinguishes_none_from_present_actor_def canonical_row_eq_iff row_content_def
      unsealed_def new_row_def)
  show "test_row_hash_depends_on_prev_hash cr"
    using inj_on_eq_iff [OF no_collision] genesis by (simp add: test_row_hash_depends_on_prev_hash_def row_hash_def)
qed

text \<open>A row changed in place: the walk stops at it, unless the two rows collide.\<close>

lemma changed_row_found:
  assumes "verify_chain cr rows = Inr ()" "i < length rows" "row_bounded cr (rows ! i)" "row_bounded cr r'"
    and "row_content cr r' \<noteq> row_content cr (rows ! i)" "ar_row_hash r' = ar_row_hash (rows ! i)"
    and "inj_on (blake3_hash cr) {hash_input cr (rows ! i), hash_input cr r'}"
  shows "verify_chain cr (rows[i := r']) = Inl (ar_seq r')"
  using edited_row_detected [of cr "take i rows" "rows ! i" "drop (Suc i) rows" r'] assms
  by (simp add: upd_conv_take_nth_drop id_take_nth_drop [symmetric])

text \<open>The three edits of the test.\<close>

definition edits :: "crypto \<Rightarrow> (nat \<times> audit_record) list" where
  "edits cr = (let rows = numbered_chain cr 4 in
     [(2, (rows ! 2)\<lparr>ar_subject := Some ''tampered''\<rparr>), (1, (rows ! 1)\<lparr>ar_detail := numbered 999\<rparr>),
      (3, (rows ! 3)\<lparr>ar_outcome := Failed\<rparr>)])"

theorem field_flip_passes:
  assumes "\<forall>i. length (json_to_vec cr (numbered i)) < 4294967296"
    and "json_to_vec cr (numbered 999) \<noteq> json_to_vec cr (numbered 1)"
    and "\<forall>(i, r')\<in>set (edits cr). inj_on (blake3_hash cr) {hash_input cr (numbered_chain cr 4 ! i), hash_input cr r'}"
  shows "test_field_flip_breaks_chain_at_that_seq cr"
proof -
  obtain r1 r2 r3 r4 r5 where chain: "numbered_chain cr 4 = [r1, r2, r3, r4]"
    and rows: "is_numbered cr None 0 r1" "is_numbered cr (Some r1) 1 r2" "is_numbered cr (Some r2) 2 r3"
      "is_numbered cr (Some r3) 3 r4"
    by (rule numbered_chain_5)
  note seqs = rows [THEN is_numbered_fields(1)] and fields = rows [THEN is_numbered_fields(4)]
    rows [THEN is_numbered_fields(5)] rows [THEN is_numbered_fields(6)] rows [THEN is_numbered_fields(7)]
    rows [THEN is_numbered_fields(8)]
  have ok: "verify_chain cr [r1, r2, r3, r4] = Inr ()"
    using numbered_chain_ok [of cr 4] by (simp add: chain)
  have inj: "inj_on (blake3_hash cr) {hash_input cr r3, hash_input cr (r3\<lparr>ar_subject := Some ''tampered''\<rparr>)}"
    "inj_on (blake3_hash cr) {hash_input cr r2, hash_input cr (r2\<lparr>ar_detail := numbered 999\<rparr>)}"
    "inj_on (blake3_hash cr) {hash_input cr r4, hash_input cr (r4\<lparr>ar_outcome := Failed\<rparr>)}"
    using assms(3) by (simp_all add: edits_def chain)
  show ?thesis
    unfolding test_field_flip_breaks_chain_at_that_seq_def Let_def chain
  proof (intro conjI)
    show "verify_chain cr ([r1, r2, r3, r4][2 := ([r1, r2, r3, r4] ! 2)\<lparr>ar_subject := Some ''tampered''\<rparr>]) = Inl 3"
      using changed_row_found [OF ok, of 2 "r3\<lparr>ar_subject := Some ''tampered''\<rparr>"] inj(1) assms(1)
      by (simp add: row_bounded_def row_content_def fields seqs)
    show "verify_chain cr ([r1, r2, r3, r4][1 := ([r1, r2, r3, r4] ! 1)\<lparr>ar_detail := numbered 999\<rparr>]) = Inl 2"
      using changed_row_found [OF ok, of 1 "r2\<lparr>ar_detail := numbered 999\<rparr>"] inj(2) assms(1,2)
      by (simp add: row_bounded_def row_content_def fields seqs)
    show "verify_chain cr ([r1, r2, r3, r4][3 := ([r1, r2, r3, r4] ! 3)\<lparr>ar_outcome := Failed\<rparr>]) = Inl 4"
      using changed_row_found [OF ok, of 3 "r4\<lparr>ar_outcome := Failed\<rparr>"] inj(3) assms(1)
      by (simp add: row_bounded_def row_content_def fields seqs)
  qed
qed

text \<open>The genesis hash, on the instance: its 64 bits are not all zero.\<close>

lemma genesis_bytes: "str_bytes ''env-ctl/v1/audit-genesis'' =
    [0x65, 0x6e, 0x76, 0x2d, 0x63, 0x74, 0x6c, 0x2f, 0x76, 0x31, 0x2f, 0x61, 0x75, 0x64, 0x69, 0x74,
     0x2d, 0x67, 0x65, 0x6e, 0x65, 0x73, 0x69, 0x73]"
  by code_simp

theorem genesis_test_passes: "test_genesis_is_stable_and_nonzero toy_crypto"
proof -
  have "foldl toy_mix 3 (str_bytes ''env-ctl/v1/audit-genesis'') \<noteq> 0"
    unfolding genesis_bytes by (simp add: toy_mix_def)
  moreover have "be64 0 @ replicate 24 0 = replicate 32 0"
    by code_simp
  ultimately have "be64 (foldl toy_mix 3 (str_bytes ''env-ctl/v1/audit-genesis'')) @ replicate 24 0 \<noteq> replicate 32 0"
    by (metis be64_code.append_eq_iff)
  then show ?thesis
    unfolding test_genesis_is_stable_and_nonzero_def genesis_hash_def toy_crypto_def toy_digest_def Let_def
      crypto.simps by blast
qed

end
