(* ===== verification/TestsSealing.thy ===== *)
theory TestsSealing
  imports Sealing Codec LibSqlStore
begin

text \<open>
  The unit tests of \<open>crates/secrets-engine/src/vault/crypto.rs\<close> and of
  \<open>crates/secrets-store-libsql/src/sync.rs\<close>. The known-answer test is proved from the published value of
  the cipher and from its inverting itself; the tamper test is run on an instance whose tag covers the
  key, the nonce, the associated data and the body.
\<close>

section \<open>\<open>crypto.rs\<close>: the tests\<close>

text \<open>\<open>u8::from_str_radix(_, 16)\<close> on two characters: a leading plus sign is skipped.\<close>

definition radix16_pair :: "char \<Rightarrow> char \<Rightarrow> byte option" where
  "radix16_pair c d =
     (if c = CHR ''+'' then map_option word_of_nat (to_digit16 d)
      else case to_digit16 c of None \<Rightarrow> None
         | Some hi \<Rightarrow> map_option (\<lambda>lo. word_of_nat (16 * hi + lo)) (to_digit16 d))"

text \<open>The helper of the tests: \<open>None\<close> where it panics.\<close>

fun hex_bytes :: "string \<Rightarrow> bytes option" where
  "hex_bytes [] = Some []"
| "hex_bytes [c] = None"
| "hex_bytes (c # d # cs) =
     (case radix16_pair c d of None \<Rightarrow> None | Some b \<Rightarrow> map_option ((#) b) (hex_bytes cs))"

definition kat_aad :: bytes where
  "kat_aad = the (hex_bytes ''50515253c0c1c2c3c4c5c6c7'')"

definition kat_key :: bytes where
  "kat_key = the (hex_bytes ''808182838485868788898a8b8c8d8e8f909192939495969798999a9b9c9d9e9f'')"

definition kat_nonce :: bytes where
  "kat_nonce = the (hex_bytes ''404142434445464748494a4b4c4d4e4f5051525354555657'')"

definition kat_plaintext :: bytes where
  "kat_plaintext = str_bytes (''Ladies and Gentlemen of the class of ''
     @ [CHR 0x27] @ ''99: If I could offer you only one tip for the future, sunscreen would be it.'')"

definition kat_ct :: bytes where
  "kat_ct = the (hex_bytes (''bd6d179d3e83d43b9576579493c0e939572a1700252bfaccbed2902c21396cbb731c7f1b0b4aa6440b''
     @ ''f3a82f4eda7e39ae64c6708c54c216cb96b72e1213b4522f8c9ba40db5d945b11b69b982c1bb9e3f3fa''
     @ ''c2bc369488f76b2383565d3fff921f9664c97637da9768812f615c68b13b52e''))"

definition kat_tag :: bytes where
  "kat_tag = the (hex_bytes ''c0875924c1c7987947deafd8780acf49'')"

definition test_kat_cfrg_draft_xchacha20poly1305 :: "crypto \<Rightarrow> bool" where
  "test_kat_cfrg_draft_xchacha20poly1305 cr \<longleftrightarrow>
     (let got = aead_encrypt cr kat_key kat_nonce kat_aad kat_plaintext in
      got = kat_ct @ kat_tag \<and> open_sealed cr kat_key kat_aad kat_nonce got = Some kat_plaintext)"

text \<open>\<open>xs[xs.len() - 1] ^= 0x80\<close>.\<close>

definition flip_last :: "bytes \<Rightarrow> bytes" where
  "flip_last xs = xs[length xs - 1 := xor (xs ! (length xs - 1)) 0x80]"

definition test_roundtrip_and_tamper_detection :: "crypto \<Rightarrow> bytes \<Rightarrow> bytes \<Rightarrow> bool" where
  "test_roundtrip_and_tamper_detection cr drawn1 drawn2 \<longleftrightarrow>
     (let dek = replicate 32 0x42;
          aad = str_bytes ''env-ctl/v1/record-identity'';
          plaintext = str_bytes ''super secret value: hunter2'';
          (nonce, ct_tag) = seal cr drawn1 dek aad plaintext;
          (nonce2, ct_tag2) = seal cr drawn2 dek aad plaintext;
          tampered = ct_tag[0 := xor (ct_tag ! 0) 1] in
      length nonce = NONCE_LEN
      \<and> open_sealed cr dek aad nonce ct_tag = Some plaintext
      \<and> nonce \<noteq> nonce2 \<and> ct_tag \<noteq> ct_tag2
      \<and> open_sealed cr dek aad nonce tampered = None
      \<and> open_sealed cr dek aad nonce (flip_last ct_tag) = None
      \<and> open_sealed cr dek (str_bytes ''env-ctl/v1/other-identity'') nonce ct_tag = None
      \<and> open_sealed cr (replicate 32 0x17) aad nonce ct_tag = None
      \<and> open_sealed cr dek aad (take (NONCE_LEN - 1) nonce) ct_tag = None
      \<and> open_sealed cr dek aad [] ct_tag = None)"

section \<open>\<open>crypto.rs\<close>: they pass\<close>

lemma kat_lengths: "length kat_key = 32" "length kat_nonce = 24" "length kat_aad = 12" "length kat_plaintext = 114"
  "length kat_ct = 114" "length kat_tag = 16"
  by code_simp+

theorem known_answer_passes:
  assumes "aead_inverts cr" "aead_encrypt cr kat_key kat_nonce kat_aad kat_plaintext = kat_ct @ kat_tag"
  shows "test_kat_cfrg_draft_xchacha20poly1305 cr"
  using assms(2) aead_invertsD [OF assms(1) kat_lengths(1,2), of kat_aad kat_plaintext]
  by (simp add: test_kat_cfrg_draft_xchacha20poly1305_def open_sealed_def NONCE_LEN_def kat_lengths)

text \<open>An instance whose tag repeats the body: a change of either part shows.\<close>

definition body_tag :: "bytes \<Rightarrow> bytes \<Rightarrow> bytes \<Rightarrow> bytes \<Rightarrow> bytes" where
  "body_tag k n a m = toy_header k n a @ m"

definition tagged_crypto :: crypto where
  "tagged_crypto = toy_crypto\<lparr>
     aead_encrypt := (\<lambda>k n a m. m @ body_tag k n a m),
     aead_decrypt := (\<lambda>k n a c.
        let m = take ((length c - length (toy_header k n a)) div 2) c in
        if c = m @ body_tag k n a m then Some m else None)\<rparr>"

lemma body_tag_opens:
  "aead_decrypt tagged_crypto k n a (m @ body_tag k n a m) = Some m"
proof -
  have "take ((length (m @ body_tag k n a m) - length (toy_header k n a)) div 2) (m @ body_tag k n a m) = m"
    by (simp add: body_tag_def)
  then show ?thesis by (simp add: tagged_crypto_def Let_def)
qed

lemma tagged_crypto_inverts: "aead_inverts tagged_crypto"
  using body_tag_opens by (simp add: aead_inverts_def tagged_crypto_def)

theorem tamper_test_passes:
  "test_roundtrip_and_tamper_detection tagged_crypto (replicate 24 1) (replicate 24 2)"
  by code_simp

section \<open>\<open>sync.rs\<close>\<close>

definition test_detects_hrana_stream_expiry :: bool where
  "test_detects_hrana_stream_expiry \<longleftrightarrow>
     (let q = [CHR 0x22]; tick = [CHR 0x60];
          real = ExecuteFailed (''Hrana: '' @ tick @ ''api error: '' @ tick @ ''status=400, body={'' @ q @ ''message''
            @ q @ '':'' @ q @ ''The stream has expired due to inactivity'' @ q @ '','' @ q @ ''code'' @ q @ '':'' @ q
            @ ''STREAM_EXPIRED'' @ q @ ''}'' @ tick @ tick) in
      is_stream_expired real
      \<and> is_stream_expired (QueryFailed ''The Stream Has Expired'')
      \<and> is_stream_expired (ExecuteFailed ''stream_expired'')
      \<and> \<not> is_stream_expired (ExecuteFailed ''UNIQUE constraint failed: secrets.row_id'')
      \<and> \<not> is_stream_expired (ConnectFailed ''connection refused''))"

theorem stream_expiry_passes: "test_detects_hrana_stream_expiry"
  by code_simp

end
