(* ===== verification/TestsBroker.thy ===== *)
theory TestsBroker
  imports Token
begin

text \<open>
  The unit tests of \<open>crates/secrets-engine/src/broker/token.rs\<close> and of \<open>broker/mod.rs\<close>, as propositions over
  the keyed hash. What rests on the code alone is proved for every hash of 32 bytes; where a test expects
  two values of the hash to differ, that they do not collide is a hypothesis of its theorem.
\<close>

section \<open>\<open>token.rs\<close>\<close>

definition KEY :: bytes where
  "KEY = [0x00, 0x01, 0x02, 0x03, 0x04, 0x05, 0x06, 0x07, 0x08, 0x09, 0x0a, 0x0b, 0x0c, 0x0d, 0x0e,
     0x0f, 0x10, 0x11, 0x12, 0x13, 0x14, 0x15, 0x16, 0x17, 0x18, 0x19, 0x1a, 0x1b, 0x1c, 0x1d, 0x1e, 0x1f]"

definition BEARER :: string where "BEARER = ''envctl-relay-bearer-01J9ZXAMPLE''"

definition xor_at :: "nat \<Rightarrow> byte \<Rightarrow> bytes \<Rightarrow> bytes" where
  "xor_at i x bs = bs[i := xor (bs ! i) x]"

definition test_known_answer_mac :: "crypto \<Rightarrow> bool" where
  "test_known_answer_mac cr \<longleftrightarrow>
     (let mac = mac_bearer cr KEY BEARER; recomputed = blake3_keyed_hash cr KEY (str_bytes BEARER) in
      mac = recomputed \<and> length mac = 32 \<and> mac \<noteq> replicate 32 0)"

definition test_correct_token_verifies :: "crypto \<Rightarrow> bool" where
  "test_correct_token_verifies cr \<longleftrightarrow> verify_bearer cr KEY BEARER (mac_bearer cr KEY BEARER)"

text \<open>The last character is \<open>E\<close>; with its lowest bit flipped it is \<open>D\<close>.\<close>

definition test_single_bit_change_in_token_fails :: "crypto \<Rightarrow> bool" where
  "test_single_bit_change_in_token_fails cr \<longleftrightarrow>
     (let stored = mac_bearer cr KEY BEARER; tampered = butlast BEARER @ [char_of (xor (of_char (last BEARER)) (1 :: nat))] in
      \<not> verify_bearer cr KEY tampered stored)"

definition test_single_bit_change_in_stored_mac_fails :: "crypto \<Rightarrow> bool" where
  "test_single_bit_change_in_stored_mac_fails cr \<longleftrightarrow>
     (let stored = mac_bearer cr KEY BEARER in
      \<not> verify_bearer cr KEY BEARER (xor_at 0 0x01 stored)
      \<and> \<not> verify_bearer cr KEY BEARER (xor_at (length stored div 2) 0x80 stored)
      \<and> \<not> verify_bearer cr KEY BEARER (xor_at (length stored - 1) 0x40 stored))"

definition test_wrong_key_fails :: "crypto \<Rightarrow> bool" where
  "test_wrong_key_fails cr \<longleftrightarrow>
     (let stored = mac_bearer cr KEY BEARER in \<not> verify_bearer cr (xor_at 0 0xFF KEY) BEARER stored)"

definition test_wrong_length_stored_mac_fails :: "crypto \<Rightarrow> bool" where
  "test_wrong_length_stored_mac_fails cr \<longleftrightarrow>
     (let full = mac_bearer cr KEY BEARER in
      \<not> verify_bearer cr KEY BEARER (take 31 full) \<and> \<not> verify_bearer cr KEY BEARER []
      \<and> \<not> verify_bearer cr KEY BEARER (full @ [0x00]) \<and> \<not> verify_bearer cr KEY BEARER (replicate 32 0))"

definition test_distinct_tokens_do_not_collide :: "crypto \<Rightarrow> bool" where
  "test_distinct_tokens_do_not_collide cr \<longleftrightarrow>
     (let stored = mac_bearer cr KEY BEARER in
      \<not> verify_bearer cr KEY ''a-completely-different-bearer'' stored \<and> \<not> verify_bearer cr KEY [] stored)"

lemma xor_at_other: "i < length bs \<Longrightarrow> x \<noteq> 0 \<Longrightarrow> xor_at i x bs \<noteq> bs"
proof
  assume "i < length bs" "x \<noteq> 0" "xor_at i x bs = bs"
  then have "xor (bs ! i) x = bs ! i"
    by (metis nth_list_update_eq xor_at_def)
  then have "xor (bs ! i) (xor (bs ! i) x) = xor (bs ! i) (bs ! i)" by simp
  with \<open>x \<noteq> 0\<close> show False by (simp flip: xor.assoc)
qed

theorem token_tests_pass:
  assumes "digests_32 cr"
  shows "test_correct_token_verifies cr" "test_single_bit_change_in_stored_mac_fails cr"
    and "blake3_keyed_hash cr KEY (str_bytes BEARER) \<noteq> replicate 32 0 \<Longrightarrow>
      test_known_answer_mac cr \<and> test_wrong_length_stored_mac_fails cr"
    and "inj_on (blake3_keyed_hash cr KEY)
        (str_bytes ` {BEARER, ''envctl-relay-bearer-01J9ZXAMPLD'', ''a-completely-different-bearer'', []}) \<Longrightarrow>
      test_single_bit_change_in_token_fails cr \<and> test_distinct_tokens_do_not_collide cr"
    and "inj_on (\<lambda>k. blake3_keyed_hash cr k (str_bytes BEARER)) {KEY, xor_at 0 0xFF KEY} \<Longrightarrow> test_wrong_key_fails cr"
proof -
  let ?mac = "mac_bearer cr KEY BEARER"
  have len: "length (blake3_keyed_hash cr k m) = 32" for k m
    using assms by (simp add: digests_32D)
  show "test_correct_token_verifies cr"
    by (simp add: test_correct_token_verifies_def verify_bearer_def ct_eq_mac_iff mac_bearer_def len)
  have other: "xor_at i x ?mac \<noteq> ?mac" if "i < 32" "x \<noteq> 0" for i x
    using xor_at_other [of i ?mac x] that by (simp add: mac_bearer_def len)
  from other [of 0 1] other [of 16 "0x80"] other [of 31 "0x40"] show "test_single_bit_change_in_stored_mac_fails cr"
    by (auto simp: test_single_bit_change_in_stored_mac_fails_def verify_bearer_def ct_eq_mac_iff mac_bearer_def len)
  show "test_known_answer_mac cr \<and> test_wrong_length_stored_mac_fails cr"
    if "blake3_keyed_hash cr KEY (str_bytes BEARER) \<noteq> replicate 32 0"
    using that by (simp add: test_known_answer_mac_def test_wrong_length_stored_mac_fails_def verify_bearer_def
      ct_eq_mac_iff mac_bearer_def len)
  show "test_single_bit_change_in_token_fails cr \<and> test_distinct_tokens_do_not_collide cr"
    if "inj_on (blake3_keyed_hash cr KEY)
        (str_bytes ` {BEARER, ''envctl-relay-bearer-01J9ZXAMPLD'', ''a-completely-different-bearer'', []})"
  proof -
    have tampered: "butlast BEARER @ [char_of (xor (of_char (last BEARER)) (1 :: nat))] = ''envctl-relay-bearer-01J9ZXAMPLD''"
      by (simp add: BEARER_def char_of_def bit_Suc_0_iff)
    show ?thesis
      unfolding test_single_bit_change_in_token_fails_def test_distinct_tokens_do_not_collide_def Let_def tampered
        verify_bearer_def ct_eq_mac_iff mac_bearer_def
      using inj_on_eq_iff [OF that] by (simp add: BEARER_def)
  qed
  have "xor_at 0 0xFF KEY \<noteq> KEY"
    using xor_at_other [of 0 KEY "0xFF"] by (simp add: KEY_def)
  then show "test_wrong_key_fails cr"
    if "inj_on (\<lambda>k. blake3_keyed_hash cr k (str_bytes BEARER)) {KEY, xor_at 0 0xFF KEY}"
    using inj_onD [OF that, of "xor_at 0 0xFF KEY" KEY]
    by (auto simp: test_wrong_key_fails_def verify_bearer_def ct_eq_mac_iff mac_bearer_def Let_def)
qed

section \<open>\<open>mod.rs\<close>\<close>

definition test_row_mac_message_is_plane_separated :: bool where
  "test_row_mac_message_is_plane_separated \<longleftrightarrow>
     (let jkt = replicate 32 0x11;
          local = bearer_row_mac_message ''tok'' 1 100 50 10 (Some 1000) None None None False;
          remote = bearer_row_mac_message ''tok'' 1 100 50 10 None None (Some ''phone'') (Some jkt) False;
          remote_other_cid = bearer_row_mac_message ''tok'' 1 100 50 10 None None (Some ''laptop'') (Some jkt) False;
          jkt2 = replicate 32 0x22;
          remote_other_jkt = bearer_row_mac_message ''tok'' 1 100 50 10 None None (Some ''phone'') (Some jkt2) False;
          local_revoked = bearer_row_mac_message ''tok'' 1 100 50 10 (Some 1000) None None None True;
          empty_cid = bearer_row_mac_message ''tok'' 1 100 50 10 None None (Some []) (Some jkt) False in
      local \<noteq> remote \<and> remote \<noteq> remote_other_cid \<and> remote \<noteq> remote_other_jkt
      \<and> local = bearer_row_mac_message ''tok'' 1 100 50 10 (Some 1000) None None None False
      \<and> local \<noteq> local_revoked \<and> remote \<noteq> empty_cid)"

theorem row_message_test_passes: test_row_mac_message_is_plane_separated
proof -
  have ok: "row_fields_ok ''tok'' c j" if "c \<in> {None, Some ''phone'', Some ''laptop'', Some []}"
    "j \<in> {None, Some (replicate 32 0x11), Some (replicate 32 0x22)}" for c j
    using that by (auto simp: row_fields_ok_def)
  show ?thesis
    unfolding test_row_mac_message_is_plane_separated_def Let_def
    by (intro conjI notI refl; drule bearer_row_mac_message_inj [rotated -1]; (rule ok)?; simp)
qed

end
