(* ===== verification/Spec2Isabelle.thy ===== *)
theory Spec2Isabelle
  imports Guard EngineMark EngineFinal LibSqlExample DaemonExample DaemonRace ClientExample Seams
    TestsDecide TestsConfig TestsKeyslot TestsVault TestsSealing TestsBroker
begin

text \<open>
  A model of env-ctl's secrets vault: the engine (\<open>crates/secrets-engine\<close>), its durable store
  (\<open>crates/secrets-store-libsql\<close>), the daemon over both (\<open>crates/secretd\<close>) and the command-line
  client (\<open>crates/secretctl\<close>).

  \<^bold>\<open>The program.\<close> The engine keeps provider keys sealed under a data key (DEK), which keyslots wrap
  under a passphrase or a USB keyfile. Clients never see a key: they are minted short-lived bearers,
  and an egress swap replaces a bearer by the real key on its way to the provider. Every outcome goes
  to a hash-chained audit log whose tail an anchor commits to under the DEK. The daemon serves the
  engine over a Unix socket to its owner and builds it on the in-memory or on the libSQL store; each
  command of the client is one request to it.

  \<^bold>\<open>The theories.\<close>
  \<^item> \<open>Prelude\<close>, \<open>Actions\<close>, \<open>Tables\<close>, \<open>Text\<close>, \<open>Codec\<close>: machine integers with the saturating operations
    of the standard library, results and the \<open>?\<close> operator, actions on a state (an error keeps what was
    written before it), keyed sequences, white space and splitting, hexadecimal, base64url and decimal
    texts. \<open>External\<close> holds the cryptographic crates as one record of functions with their documented
    laws, and an instance of it that satisfies them.
  \<^item> \<open>Policy\<close> (\<open>broker/policy.rs\<close>), \<open>Decide\<close> (\<open>broker/decide.rs\<close>), \<open>Broker\<close> (\<open>broker/mod.rs\<close>), \<open>Token\<close>
    (\<open>broker/token.rs\<close>), \<open>Guard\<close> (\<open>guard.rs\<close>): policies and the bearer lifetime, the pure decision
    against a declarative permission and as the first violated clause, the usage counters, the wire
    form and both MACs of a bearer, the safety guards.
  \<^item> \<open>Keyslot\<close> (\<open>keyslot.rs\<close>), \<open>Sealing\<close> (\<open>vault/aad.rs\<close>, \<open>vault/crypto.rs\<close>), \<open>AuditLog\<close>
    (\<open>vault/audit.rs\<close>), \<open>Errors\<close> (\<open>error.rs\<close>), \<open>Store\<close> (\<open>vault/store.rs\<close>): wrapping and the header MAC,
    the identity a record is sealed under, the hash chain, and the store trait with the in-memory
    store, every method of it. The encoders are instances of the locales \<open>prefix_code\<close> and
    \<open>fixed_code\<close>: what is hashed or authenticated determines its fields.
  \<^item> \<open>EngineCore\<close>, \<open>EngineVault\<close>, \<open>EngineRelay\<close>, \<open>EngineSwap\<close> (\<open>lib.rs\<close>, \<open>seam.rs\<close>, \<open>event.rs\<close>): the
    record \<open>engine\<close> is \<open>EngineInner\<close>, the record \<open>world\<close> the seams (clocks, USB probe, generator,
    upstream) and the faults of the medium under the store; \<open>en_events\<close> and \<open>en_sent\<close> log the channel
    and what was handed to the upstream. One definition per method, its steps split where the code has
    blocks. \<open>Seams\<close> holds the seams the binary ships with.
  \<^item> \<open>EngineFrames\<close> (contracts of relations between states, as locales, proved once for every
    operation and interpreted for each invariant), \<open>EngineSafety\<close> (the evidence behind a send),
    \<open>EngineRevoke\<close>, \<open>EngineLive\<close> (runs without faults), \<open>EngineMint\<close> (how long a minted bearer lives),
    \<open>EngineSecrets\<close>, \<open>EngineUnlock\<close> (also two worlds that agree until a fault), \<open>EngineInit\<close>.
  \<^item> \<open>Threads\<close>, \<open>EngineThreads\<close>, \<open>EngineInterleave\<close>: a thread is a sequence of atomic steps, \<open>interleave\<close>
    the step relation on threads over one engine; each operation \<open>op\<close> of \<open>lib.rs\<close> again as \<open>op_thread\<close>,
    which is \<open>op\<close> when it runs alone, and the contracts carried over to every interleaving (rely and
    guarantee). \<open>Anchor\<close>, \<open>EngineRace\<close>, \<open>EngineMark\<close>: what overlapping audits do to the anchor.
    \<open>Histories\<close>, \<open>EngineEvidence\<close>, \<open>EngineFinal\<close>: the states an interleaving passes through and what a
    thread has seen of them, the evidence behind a send as sightings along that history, and revocation
    when other requests run beside it: what is revoked stays so, but for ids drawn and policies minted after.
  \<^item> \<open>SqlTables\<close>, \<open>LibSqlRows\<close> (\<open>serial.rs\<close>, \<open>schema.rs\<close>, \<open>error.rs\<close>), \<open>LibSqlStore\<close> (\<open>store.rs\<close>,
    \<open>health.rs\<close>), \<open>LibSqlLink\<close> (\<open>sync.rs\<close>), \<open>LibSqlRefine\<close>, \<open>LibSqlTables\<close>, \<open>LibSqlSpec\<close>, \<open>LibSqlExample\<close>:
    tables as lists of rows, each statement as its effect on them, the retry on an expired stream over
    the parameter \<open>link\<close> (what the network does to the \<open>n\<close>-th request), and the simulation: every
    method does to the tables what the in-memory method does to the data they represent, or fails.
  \<^item> \<open>NetAddr\<close>, \<open>DaemonConfig\<close> (\<open>config.rs\<close>), \<open>DaemonConv\<close> (\<open>conv.rs\<close>, messages of \<open>control.proto\<close>),
    \<open>DaemonServer\<close> (\<open>grpc.rs\<close>, \<open>audit.rs\<close>, \<open>peercred.rs\<close>, \<open>server.rs\<close>), \<open>DaemonSafety\<close>, \<open>DaemonSpec\<close>,
    \<open>DaemonExample\<close>: the configuration with the standard library's address parsers, the conversions,
    one handler per RPC, and what sessions of the daemon do to the engine. \<open>DaemonRace\<close> is a step
    relation on overlapping requests to lock and unlock.
  \<^item> \<open>Paths\<close> (\<open>paths.rs\<close>), \<open>DaemonStart\<close> (\<open>secretd/src/main.rs\<close>), \<open>DaemonStartSafety\<close>, \<open>DaemonInMem\<close>:
    bringing the daemon up over a map of file-system nodes, with a kernel that may refuse any call
    (\<open>kn_refuses\<close> sees the calls made so far, so every point of failure is covered), and what the daemon
    on the default store can ever do. Outcomes are read off with the rules of \<open>triple\<close> in \<open>Actions\<close>.
  \<^item> \<open>Utf8\<close>, \<open>ClientCmd\<close> (\<open>cli.rs\<close>, \<open>render.rs\<close>), \<open>Client\<close> (\<open>secretctl/src/main.rs\<close>), \<open>ClientSafety\<close>,
    \<open>ClientExample\<close>: the commands as clap hands them over, each as an action on the text printed so far
    and on the daemon behind the stub \<open>ce_serve\<close>, which the properties fill with the daemon's \<open>serve\<close>.
  \<^item> \<open>TestsDecide\<close>, \<open>TestsConfig\<close>, \<open>TestsKeyslot\<close>, \<open>TestsVault\<close>, \<open>TestsSealing\<close>, \<open>TestsBroker\<close>: the unit tests
    that sit beside the code, each \<open>fn t\<close> as a proposition \<open>test_t\<close> that the model is proved to satisfy. What
    a test expects of the cryptographic crates is taken from their laws or from the values it names, or the
    test is run on an instance.

  \<^bold>\<open>What is shown.\<close> A swap sends a real key only on the evidence the design asks
  for, and does serve one that has it; when requests overlap, a send still has that evidence, as the swap
  saw it on its way. A revoked bearer is never swapped again and a revoked relay not before a mint for its
  name, whatever requests run beside; a minted bearer lives a day at most; the row MAC of a bearer fits its
  own fields alone. An unlock opens the vault only with a key under which header and log authenticate, and
  does open it on that evidence; secrets are read back as stored
  and handed out only on an applied reveal; the log only grows, its chain verifies in every
  reachable state, and tampering is found; the durable store refines the in-memory one and stores at
  most once; rows and wire texts read back; peers that are not the owner change nothing; the loaded
  store is local; the socket is bound behind private directories only; a command does nothing
  destructive unconfirmed, prints a secret only when it may, as text or as JSON, and prints the one that was added. Some
  theorems show where code and comments part: a fault while the anchor advances leaves the vault open behind an unlock that failed, a
  race the status flag up, overlapping audits an anchor that refuses the next unlock or a lowered
  high-water mark, relays minted over the control plane can never be used, a mint replaces a
  stored policy, a daemon on the default store never unlocks, a mint without a TTL fails, and a rate
  of one refuses all.

  \<^bold>\<open>Choices.\<close> Integers have their width; \<open>i64\<close> is a 64-bit word
  read by \<open>sint\<close>. A \<open>str\<close> is its UTF-8 bytes, one \<open>char\<close>
  each. Recursion is structural or on a decreasing length: there is no fuel, and every operation is
  total; a panic is the error \<open>Panicked\<close>. Operations run one after the other, except in the theories on threads and in
  \<open>DaemonRace\<close>; the properties of single operations are about such runs; the audit chain, the logs, the
  evidence behind a send and the finality of a revocation are shown for every interleaving. The cryptographic laws are idealised as injectivity
  or refusal where a theorem names them; otherwise a theorem ends in a collision it exhibits. The
  keys of JSON objects keep their order.

  \<^bold>\<open>Not modelled.\<close> The local CA, the injection templates and the provider adapters are \<open>todo!()\<close> or
  empty in the source. Clap's parsing, \<open>serde_json\<close>, the gRPC runtime, the network and the libSQL server
  are parameters or left out, and so are the tokio runtime, signals, logging and the report of an error
  on the standard error. Nobody else works on the daemon's paths while it starts, and two paths with
  different texts are different nodes. The database has one client, the \<open>REAL\<close> columns and the CHECK on
  the row-id counter are left out, and so is zeroising memory.
\<close>

end
